(* ===== verification/Prelude.thy ===== *)
theory Prelude
  imports
    Main
    "HOL-Library.AList"
    "HOL-Library.Char_ord"
    "HOL-Library.List_Lexorder"
    "HOL-Library.Sublist"
begin

text \<open>
  Shared vocabulary of the development: Go's strings and the functions of its \<^verbatim>\<open>strings\<close>
  package the sources call, Go's maps, and the generic lemmas the component theories use.

  A Go string is a sequence of bytes, and so is a HOL \<^typ>\<open>string\<close>: \<^typ>\<open>char\<close> has 256 values.
  Indexing, slicing, \<^verbatim>\<open>len\<close> and the comparison operators of Go work on bytes and so do their
  counterparts here; the order is the bytewise lexicographic one
  (\<^verbatim>\<open>List_Lexorder\<close> over \<^verbatim>\<open>Char_ord\<close>).  The case functions \<open>ToLower\<close>, \<open>ToUpper\<close> and
  \<open>EqualFold\<close> fold the ASCII letters only: on ASCII text they are Go's functions, on other
  text Go consults the Unicode tables, which are not modelled.  \<open>TrimSpace\<close> and \<open>Fields\<close>
  likewise know the ASCII white space.

  A Go \<^verbatim>\<open>map[K]V\<close> is an association list, read through \<^const>\<open>map_of\<close> and written through
  \<^const>\<open>AList.update\<close> and \<^const>\<open>AList.delete\<close>; the list's order stands for the iteration
  order, which Go leaves open.  \<open>gmap_ok\<close> says that every key occurs once.
\<close>

section \<open>Collections of facts\<close>

named_theorems go_str_simps "characteristic equations of the string functions"
named_theorems gmap_simps "lookup after update and delete"

section \<open>Results\<close>

type_synonym ('e, 'a) res = "'e + 'a"

abbreviation Err :: "'e \<Rightarrow> ('e, 'a) res" where "Err \<equiv> Inl"
abbreviation Ok :: "'a \<Rightarrow> ('e, 'a) res" where "Ok \<equiv> Inr"

definition bindR :: "('e, 'a) res \<Rightarrow> ('a \<Rightarrow> ('e, 'b) res) \<Rightarrow> ('e, 'b) res" where
  "bindR r f = (case r of Inl e \<Rightarrow> Inl e | Inr a \<Rightarrow> f a)"

lemma bindR_simps [simp]: "bindR (Inl e) f = Inl e" "bindR (Inr a) f = f a"
  by (simp_all add: bindR_def)

lemma bindR_Ok_iff: "bindR r f = Inr b \<longleftrightarrow> (\<exists>a. r = Inr a \<and> f a = Inr b)"
  by (cases r) auto

section \<open>Bytes and characters\<close>

abbreviation code_of :: "char \<Rightarrow> nat" where "code_of \<equiv> of_char"

definition is_upper :: "char \<Rightarrow> bool" where
  "is_upper c \<longleftrightarrow> CHR ''A'' \<le> c \<and> c \<le> CHR ''Z''"

definition is_lower :: "char \<Rightarrow> bool" where
  "is_lower c \<longleftrightarrow> CHR ''a'' \<le> c \<and> c \<le> CHR ''z''"

definition is_digit :: "char \<Rightarrow> bool" where
  "is_digit c \<longleftrightarrow> CHR ''0'' \<le> c \<and> c \<le> CHR ''9''"

definition is_space :: "char \<Rightarrow> bool" where
  "is_space c \<longleftrightarrow> c \<in> {CHR '' '', CHR 0x09, CHR 0x0A, CHR 0x0B, CHR 0x0C, CHR 0x0D}"

definition to_lower_char :: "char \<Rightarrow> char" where
  "to_lower_char c = (if is_upper c then char_of (code_of c + 32) else c)"

definition to_upper_char :: "char \<Rightarrow> char" where
  "to_upper_char c = (if is_lower c then char_of (code_of c - 32) else c)"

section \<open>The functions of package strings\<close>

definition HasPrefix :: "string \<Rightarrow> string \<Rightarrow> bool" where
  "HasPrefix s p \<longleftrightarrow> take (length p) s = p"

definition HasSuffix :: "string \<Rightarrow> string \<Rightarrow> bool" where
  "HasSuffix s p \<longleftrightarrow> length p \<le> length s \<and> drop (length s - length p) s = p"

definition TrimPrefix :: "string \<Rightarrow> string \<Rightarrow> string" where
  "TrimPrefix s p = (if HasPrefix s p then drop (length p) s else s)"

definition TrimSuffix :: "string \<Rightarrow> string \<Rightarrow> string" where
  "TrimSuffix s p = (if HasSuffix s p then take (length s - length p) s else s)"

text \<open>\<open>Index s p\<close> is the first position of \<open>p\<close> in \<open>s\<close>; Go's \<open>-1\<close> is \<open>None\<close>.\<close>

fun Index :: "string \<Rightarrow> string \<Rightarrow> nat option" where
  "Index [] p = (if p = [] then Some 0 else None)"
| "Index (c # s) p = (if HasPrefix (c # s) p then Some 0 else map_option Suc (Index s p))"

fun IndexByte :: "string \<Rightarrow> char \<Rightarrow> nat option" where
  "IndexByte [] b = None"
| "IndexByte (c # s) b = (if c = b then Some 0 else map_option Suc (IndexByte s b))"

fun LastIndexByte :: "string \<Rightarrow> char \<Rightarrow> nat option" where
  "LastIndexByte [] b = None"
| "LastIndexByte (c # s) b =
     (case LastIndexByte s b of
        Some i \<Rightarrow> Some (Suc i)
      | None \<Rightarrow> if c = b then Some 0 else None)"

definition Contains :: "string \<Rightarrow> string \<Rightarrow> bool" where
  "Contains s p \<longleftrightarrow> Index s p \<noteq> None"

text \<open>\<open>Cut s sep\<close>: the text before and after the first \<open>sep\<close>, and whether there was one.\<close>

definition Cut :: "string \<Rightarrow> string \<Rightarrow> string \<times> string \<times> bool" where
  "Cut s sep =
     (case Index s sep of
        Some i \<Rightarrow> (take i s, drop (i + length sep) s, True)
      | None \<Rightarrow> (s, [], False))"

text \<open>\<open>Split\<close> on a one-byte separator, the only form the modelled sources use.\<close>

fun SplitByte :: "char \<Rightarrow> string \<Rightarrow> string list" where
  "SplitByte b [] = [[]]"
| "SplitByte b (c # s) =
     (if c = b then [] # SplitByte b s
      else (case SplitByte b s of
              [] \<Rightarrow> [[c]]
            | w # ws \<Rightarrow> (c # w) # ws))"

fun Join :: "string list \<Rightarrow> string \<Rightarrow> string" where
  "Join [] sep = []"
| "Join [w] sep = w"
| "Join (w # ws) sep = w @ sep @ Join ws sep"

definition TrimLeftByte :: "char \<Rightarrow> string \<Rightarrow> string" where
  "TrimLeftByte b s = dropWhile (\<lambda>c. c = b) s"

definition TrimByte :: "char \<Rightarrow> string \<Rightarrow> string" where
  "TrimByte b s = rev (dropWhile (\<lambda>c. c = b) (rev (dropWhile (\<lambda>c. c = b) s)))"

definition TrimSpace :: "string \<Rightarrow> string" where
  "TrimSpace s = rev (dropWhile is_space (rev (dropWhile is_space s)))"

fun fieldsLoop :: "string \<Rightarrow> string \<Rightarrow> string list" where
  "fieldsLoop w [] = (if w = [] then [] else [w])"
| "fieldsLoop w (c # s) =
     (if is_space c then (if w = [] then fieldsLoop [] s else w # fieldsLoop [] s)
      else fieldsLoop (w @ [c]) s)"

definition Fields :: "string \<Rightarrow> string list" where
  "Fields s = fieldsLoop [] s"

definition ToLower :: "string \<Rightarrow> string" where
  "ToLower s = map to_lower_char s"

definition ToUpper :: "string \<Rightarrow> string" where
  "ToUpper s = map to_upper_char s"

definition EqualFold :: "string \<Rightarrow> string \<Rightarrow> bool" where
  "EqualFold s t \<longleftrightarrow> ToLower s = ToLower t"

text \<open>\<^verbatim>\<open>strings.ReplaceAll\<close>; an empty old text stands before every byte and at the end.\<close>

function ReplaceAll :: "string \<Rightarrow> string \<Rightarrow> string \<Rightarrow> string" where
  "ReplaceAll old new [] = (if old = [] then new else [])"
| "ReplaceAll old new (c # s) =
     (if old = [] then new @ c # ReplaceAll old new s
      else if HasPrefix (c # s) old then new @ ReplaceAll old new (drop (length old) (c # s))
      else c # ReplaceAll old new s)"
  by pat_completeness auto
termination
  by (relation "measure (\<lambda>(old, new, s). length s)") auto

section \<open>Decimal numerals\<close>

definition digit_char :: "nat \<Rightarrow> char" where
  "digit_char d = char_of (48 + d)"

function show_nat :: "nat \<Rightarrow> string" where
  "show_nat n = (if n < 10 then [digit_char n] else show_nat (n div 10) @ [digit_char (n mod 10)])"
  by pat_completeness auto
termination
  by (relation "measure id") auto

declare show_nat.simps [simp del]

definition show_int :: "int \<Rightarrow> string" where
  "show_int i = (if i < 0 then CHR ''-'' # show_nat (nat (- i)) else show_nat (nat i))"

section \<open>Facts about strings\<close>

lemma HasPrefix_iff_prefix: "HasPrefix s p \<longleftrightarrow> prefix p s"
proof
  assume "HasPrefix s p"
  then have "s = p @ drop (length p) s"
    by (metis HasPrefix_def append_take_drop_id)
  then show "prefix p s" by (rule prefixI)
qed (auto simp: HasPrefix_def prefix_def)

lemma HasPrefix_append [simp]: "HasPrefix (p @ s) p"
  by (simp add: HasPrefix_def)

lemma HasPrefix_Nil [simp]: "HasPrefix s []"
  by (simp add: HasPrefix_def)

lemma HasPrefix_Cons_Cons [simp]: "HasPrefix (c # s) (d # p) \<longleftrightarrow> c = d \<and> HasPrefix s p"
  by (auto simp: HasPrefix_def)

lemma HasPrefix_Nil_Cons [simp]: "\<not> HasPrefix [] (d # p)"
  by (simp add: HasPrefix_def)

lemma TrimPrefix_append [simp]: "TrimPrefix (p @ s) p = s"
  by (simp add: TrimPrefix_def)

lemma HasPrefix_imp_append: "HasPrefix s p \<Longrightarrow> s = p @ TrimPrefix s p"
  by (metis HasPrefix_def TrimPrefix_def append_take_drop_id)

lemma HasSuffix_append [simp]: "HasSuffix (s @ p) p"
  by (simp add: HasSuffix_def)

lemma IndexByte_Some:
  "IndexByte s b = Some i \<Longrightarrow> i < length s \<and> s ! i = b \<and> b \<notin> set (take i s)"
  by (induction s b arbitrary: i rule: IndexByte.induct)
     (auto split: if_splits simp: less_Suc_eq_0_disj)

lemma IndexByte_None: "IndexByte s b = None \<longleftrightarrow> b \<notin> set s"
  by (induction s b rule: IndexByte.induct) auto

lemma IndexByte_append:
  "b \<notin> set s \<Longrightarrow> IndexByte (s @ b # t) b = Some (length s)"
  by (induction s) auto

lemma Index_bound: "Index s p = Some i \<Longrightarrow> i + length p \<le> length s"
proof (induction s p arbitrary: i rule: Index.induct)
  case (2 c s p)
  show ?case
  proof (cases "HasPrefix (c # s) p")
    case True
    then have "take (length p) (c # s) = p" by (simp add: HasPrefix_def)
    then have "length p \<le> length (c # s)" by (metis length_take min.cobounded1)
    then show ?thesis using True 2 by simp
  next
    case False
    then show ?thesis using 2 by auto
  qed
qed (auto split: if_splits)

lemma Index_singleton: "Index s [b] = IndexByte s b"
  by (induction s) auto

lemma Cut_byte_append [simp]: "b \<notin> set s \<Longrightarrow> Cut (s @ b # t) [b] = (s, t, True)"
  by (simp add: Cut_def Index_singleton IndexByte_append)

lemma SplitByte_not_Nil [simp]: "SplitByte b s \<noteq> []"
  by (induction b s rule: SplitByte.induct) (auto split: list.splits)

lemma SplitByte_no_sep: "b \<notin> set s \<Longrightarrow> SplitByte b s = [s]"
  by (induction s) auto

lemma SplitByte_append: "b \<notin> set s \<Longrightarrow> SplitByte b (s @ b # t) = s # SplitByte b t"
  by (induction s) auto

lemma SplitByte_words: "w \<in> set (SplitByte b s) \<Longrightarrow> b \<notin> set w"
proof (induction b s arbitrary: w rule: SplitByte.induct)
  case (2 b c s)
  show ?case
  proof (cases "SplitByte b s")
    case Nil
    then show ?thesis by simp
  next
    case (Cons x xs)
    with 2 show ?thesis by (cases "c = b") auto
  qed
qed simp

lemma Join_Cons: "ws \<noteq> [] \<Longrightarrow> Join (w # ws) sep = w @ sep @ Join ws sep"
  by (cases ws) auto

lemma Join_SplitByte: "Join (SplitByte b s) [b] = s"
proof (induction b s rule: SplitByte.induct)
  case (2 b c s)
  obtain w ws where sp: "SplitByte b s = w # ws"
    by (metis SplitByte_not_Nil list.exhaust)
  with 2 show ?case
    by (cases "c = b"; cases ws) (auto simp: Join_Cons)
qed simp

lemma SplitByte_Join:
  "ws \<noteq> [] \<Longrightarrow> (\<And>w. w \<in> set ws \<Longrightarrow> b \<notin> set w) \<Longrightarrow> SplitByte b (Join ws [b]) = ws"
proof (induction ws)
  case (Cons w ws)
  then show ?case
    by (cases ws) (auto simp: SplitByte_no_sep SplitByte_append)
qed simp

lemma EqualFold_refl [simp]: "EqualFold s s"
  by (simp add: EqualFold_def)

lemma EqualFold_sym: "EqualFold s t \<longleftrightarrow> EqualFold t s"
  by (auto simp: EqualFold_def)

lemma ToLower_length [simp]: "length (ToLower s) = length s"
  by (simp add: ToLower_def)

section \<open>Go maps\<close>

type_synonym ('k, 'v) gmap = "('k \<times> 'v) list"

definition gmap_ok :: "('k, 'v) gmap \<Rightarrow> bool" where
  "gmap_ok m \<longleftrightarrow> distinct (map fst m)"

abbreviation gkeys :: "('k, 'v) gmap \<Rightarrow> 'k list" where
  "gkeys m \<equiv> map fst m"

lemma gmap_ok_Nil [simp]: "gmap_ok []"
  by (simp add: gmap_ok_def)

lemma gmap_ok_update [simp, intro]: "gmap_ok m \<Longrightarrow> gmap_ok (AList.update k v m)"
  by (simp add: gmap_ok_def distinct_update)

lemma gmap_ok_delete [simp, intro]: "gmap_ok m \<Longrightarrow> gmap_ok (AList.delete k m)"
  by (simp add: gmap_ok_def distinct_delete)

lemma map_of_update [simp, gmap_simps]: "map_of (AList.update k v m) = (map_of m)(k \<mapsto> v)"
  by (simp add: update_conv')

lemma map_of_delete [simp, gmap_simps]: "map_of (AList.delete k m) = (map_of m)(k := None)"
  by (simp add: delete_conv')

lemma update_fresh: "map_of m k = None \<Longrightarrow> AList.update k v m = m @ [(k, v)]"
  by (induction m) (auto split: if_splits)

lemma gkeys_iff: "k \<in> set (gkeys m) \<longleftrightarrow> map_of m k \<noteq> None"
  by (simp add: map_of_eq_None_iff)

text \<open>A sorted list without repetitions is determined by its elements, so a listing that sorts
  the keys it ranged over does not depend on the order of the range.\<close>

lemma sort_keys_determined:
  fixes xs ys :: "'a::linorder list"
  assumes "distinct xs" "distinct ys" "set xs = set ys"
  shows "sort xs = sort ys"
  using assms by (simp add: sorted_distinct_set_unique)

section \<open>Invariants of step relations\<close>

text \<open>A predicate that every step of a relation keeps holds in every state reached from a state
  that has it.  The components with a step relation interpret this locale on it.\<close>

locale step_invariant =
  fixes step :: "'s \<Rightarrow> 's \<Rightarrow> bool"
    and inv :: "'s \<Rightarrow> bool"
  assumes step_keeps: "inv s \<Longrightarrow> step s s' \<Longrightarrow> inv s'"
begin

lemma steps_keep: "step\<^sup>*\<^sup>* s s' \<Longrightarrow> inv s \<Longrightarrow> inv s'"
  by (induction rule: rtranclp_induct) (auto intro: step_keeps)

end

text \<open>A fact of a state that, under the invariant, every step keeps.\<close>

locale stable_fact = step_invariant +
  fixes fact :: "'s \<Rightarrow> bool"
  assumes fact_keeps: "inv s \<Longrightarrow> fact s \<Longrightarrow> step s s' \<Longrightarrow> fact s'"
begin

lemma steps_stable: "step\<^sup>*\<^sup>* s s' \<Longrightarrow> inv s \<Longrightarrow> fact s \<Longrightarrow> fact s'"
proof (induction rule: rtranclp_induct)
  case (step y z)
  then show ?case using steps_keep fact_keeps by blast
qed simp

end

end
