(* ===== verification/GoVal.thy ===== *)
theory GoVal
  imports Complex_Main Prelude
begin

text \<open>
  Go's dynamic values (the type \<^verbatim>\<open>any\<close>), \<^verbatim>\<open>float64\<close> and the integer conversions.

  A \<open>float64\<close> is a rational number, an infinity or NaN; \<open>f64_round\<close> rounds a rational to the
  nearest double, ties to even, as IEEE 754 arithmetic does (the sign of a zero is not kept, and
  no modelled function reads it).  \<open>gval\<close> has one constructor per dynamic type the modelled
  code switches on.
\<close>

section \<open>float64\<close>

datatype f64 = Fin rat | PosInf | NegInf | NaN

text \<open>\<open>bitlen n\<close> is \<^verbatim>\<open>bits.Len64\<close>: the number of binary digits of \<open>n\<close>.\<close>

function bitlen :: "nat \<Rightarrow> nat" where
  "bitlen n = (if n = 0 then 0 else Suc (bitlen (n div 2)))"
  by pat_completeness auto
termination
  by (relation "measure id") auto

declare bitlen.simps [simp del]

text \<open>Round a rational to an integer, half to even.\<close>

definition round_even :: "rat \<Rightarrow> int" where
  "round_even q =
     (let f = \<lfloor>q\<rfloor>; d = q - of_int f
      in if d < 1 / 2 then f else if 1 / 2 < d then f + 1 else if even f then f else f + 1)"

text \<open>
  The unit in the last place at a magnitude: \<open>2 ^ (e - 53)\<close> for a number whose integer part has
  \<open>e\<close> bits; numbers below 1 are scaled up first.  \<open>scale_exp q\<close> is the least \<open>s \<le> 1074\<close> with
  \<open>\<bar>q\<bar> * 2 ^ s \<ge> 2 ^ 52\<close>, so that \<open>q * 2 ^ s\<close> keeps 53 bits (fewer for a subnormal).
\<close>

fun scale_exp_from :: "nat \<Rightarrow> nat \<Rightarrow> rat \<Rightarrow> nat" where
  "scale_exp_from 0 s q = s"
| "scale_exp_from (Suc fuel) s q =
     (if 2 ^ 52 \<le> q then s else scale_exp_from fuel (Suc s) (2 * q))"

definition f64_round_rat :: "rat \<Rightarrow> rat" where
  "f64_round_rat q =
     (let a = \<bar>q\<bar>; e = bitlen (nat \<lfloor>a\<rfloor>)
      in if 53 < e
         then of_int (round_even (q / 2 ^ (e - 53))) * 2 ^ (e - 53)
         else (let s = scale_exp_from 1074 0 a in of_int (round_even (q * 2 ^ s)) / 2 ^ s))"

definition f64_of_rat :: "rat \<Rightarrow> f64" where
  "f64_of_rat q =
     (let r = f64_round_rat q
      in if 2 ^ 1024 \<le> r then PosInf else if r \<le> - (2 ^ 1024) then NegInf else Fin r)"

definition f64_of_int :: "int \<Rightarrow> f64" where
  "f64_of_int i = f64_of_rat (of_int i)"

text \<open>Go's comparison operators: every comparison with NaN is false.\<close>

fun f64_lt :: "f64 \<Rightarrow> f64 \<Rightarrow> bool" where
  "f64_lt NaN _ = False"
| "f64_lt _ NaN = False"
| "f64_lt (Fin a) (Fin b) = (a < b)"
| "f64_lt NegInf b = (b \<noteq> NegInf)"
| "f64_lt PosInf b = False"
| "f64_lt (Fin a) PosInf = True"
| "f64_lt (Fin a) NegInf = False"

definition f64_eq :: "f64 \<Rightarrow> f64 \<Rightarrow> bool" where
  "f64_eq a b \<longleftrightarrow> a = b \<and> a \<noteq> NaN"

definition f64_le :: "f64 \<Rightarrow> f64 \<Rightarrow> bool" where
  "f64_le a b \<longleftrightarrow> f64_lt a b \<or> f64_eq a b"

section \<open>Integers of 64 bits\<close>

definition in_int64 :: "int \<Rightarrow> bool" where
  "in_int64 i \<longleftrightarrow> - (2 ^ 63) \<le> i \<and> i < 2 ^ 63"

definition wrap64 :: "int \<Rightarrow> int" where
  "wrap64 i = (i + 2 ^ 63) mod 2 ^ 64 - 2 ^ 63"

lemma wrap64_id: "in_int64 i \<Longrightarrow> wrap64 i = i"
  by (simp add: wrap64_def in_int64_def)

lemma wrap64_range: "in_int64 (wrap64 i)"
  by (simp add: wrap64_def in_int64_def)

text \<open>
  \<^verbatim>\<open>int64(f)\<close> truncates towards zero.  Out of range the language leaves the result to the
  implementation; the value here is that of amd64, the least integer.
\<close>

definition trunc_rat :: "rat \<Rightarrow> int" where
  "trunc_rat q = (if q < 0 then \<lceil>q\<rceil> else \<lfloor>q\<rfloor>)"

fun f64_to_int64 :: "f64 \<Rightarrow> int" where
  "f64_to_int64 (Fin q) = (if in_int64 (trunc_rat q) then trunc_rat q else - (2 ^ 63))"
| "f64_to_int64 _ = - (2 ^ 63)"

text \<open>\<^verbatim>\<open>strconv.ParseInt(s, 10, 64)\<close>; \<open>None\<close> for either of its errors.\<close>

definition digit_val :: "char \<Rightarrow> nat" where
  "digit_val c = code_of c - 48"

definition parse_digits :: "string \<Rightarrow> nat option" where
  "parse_digits s =
     (if s \<noteq> [] \<and> list_all is_digit s
      then Some (foldl (\<lambda>n c. 10 * n + digit_val c) 0 s) else None)"

definition ParseInt10 :: "string \<Rightarrow> int option" where
  "ParseInt10 s =
     (let (neg, body) = (case s of
             c # t \<Rightarrow> if c = CHR ''-'' then (True, t) else if c = CHR ''+'' then (False, t) else (False, s)
           | [] \<Rightarrow> (False, []))
      in case parse_digits body of
           None \<Rightarrow> None
         | Some n \<Rightarrow> (let i = (if neg then - int n else int n) in if in_int64 i then Some i else None))"

section \<open>Dynamic values\<close>

datatype gval =
    VNil
  | VBool bool
  | VInt int
  | VInt64 int
  | VFloat f64
  | VStr string
  | VBytes string
  | VDuration int
  | VList "gval list"
  | VMap "(string \<times> gval) list"

type_synonym gobj = "(string, gval) gmap"

text \<open>\<open>m[k]\<close> on a \<^verbatim>\<open>map[string]any\<close>: an absent key reads as nil.\<close>

definition gget :: "gobj \<Rightarrow> string \<Rightarrow> gval" where
  "gget m k = (case map_of m k of Some v \<Rightarrow> v | None \<Rightarrow> VNil)"

text \<open>\<open>s, _ := v.(string)\<close>, \<open>m, _ := v.(map[string]any)\<close>: a failed assertion gives the zero value.\<close>

fun as_str :: "gval \<Rightarrow> string" where
  "as_str (VStr s) = s"
| "as_str _ = []"

fun as_map :: "gval \<Rightarrow> gobj" where
  "as_map (VMap m) = m"
| "as_map _ = []"

fun as_bool :: "gval \<Rightarrow> bool" where
  "as_bool (VBool b) = b"
| "as_bool _ = False"

abbreviation gstr :: "gobj \<Rightarrow> string \<Rightarrow> string" where
  "gstr m k \<equiv> as_str (gget m k)"

lemma gget_Nil [simp]: "gget [] k = VNil"
  by (simp add: gget_def)

lemma gget_Cons [simp]: "gget ((k', v) # m) k = (if k' = k then v else gget m k)"
  by (simp add: gget_def)

lemma gget_update [simp]: "gget (AList.update k v m) k' = (if k' = k then v else gget m k')"
  by (simp add: gget_def)

section \<open>Decimal numerals read back\<close>

lemma is_digit_digit_char: "d < 10 \<Longrightarrow> is_digit (digit_char d)"
  by (simp add: is_digit_def digit_char_def less_eq_char_def)

lemma digit_val_digit_char: "d < 10 \<Longrightarrow> digit_val (digit_char d) = d"
  by (simp add: digit_val_def digit_char_def)

lemma show_nat_not_Nil [simp]: "show_nat n \<noteq> []"
  by (subst show_nat.simps) simp

lemma show_nat_digits: "list_all is_digit (show_nat n)"
proof (induction n rule: show_nat.induct)
  case (1 n)
  then show ?case
    by (subst show_nat.simps) (auto simp: is_digit_digit_char)
qed

lemma foldl_show_nat: "foldl (\<lambda>n c. 10 * n + digit_val c) 0 (show_nat n) = n"
proof (induction n rule: show_nat.induct)
  case (1 n)
  then show ?case
    by (subst show_nat.simps) (auto simp: digit_val_digit_char)
qed

lemma parse_digits_show_nat: "parse_digits (show_nat n) = Some n"
  by (simp add: parse_digits_def show_nat_digits foldl_show_nat)

lemma show_nat_inject [simp]: "show_nat m = show_nat n \<longleftrightarrow> m = n"
  by (metis foldl_show_nat)

lemma show_nat_hd_digit: "show_nat n = c # s \<Longrightarrow> is_digit c"
  using show_nat_digits [of n] by simp

lemma show_int_inject [simp]: "show_int i = show_int j \<longleftrightarrow> i = j"
proof
  have minus: "\<not> is_digit (CHR ''-'')"
    by (simp add: is_digit_def less_eq_char_def)
  assume "show_int i = show_int j"
  then show "i = j"
    using minus show_nat_hd_digit
    by (auto simp: show_int_def split: if_splits) (metis+)
qed simp

lemma ParseInt10_show_int: "in_int64 i \<Longrightarrow> ParseInt10 (show_int i) = Some i"
proof (cases "i < 0")
  case True
  assume "in_int64 i"
  with True show ?thesis
    by (simp add: ParseInt10_def show_int_def parse_digits_show_nat)
next
  case False
  assume r: "in_int64 i"
  obtain c s where cs: "show_nat (nat i) = c # s"
    by (metis list.exhaust show_nat_not_Nil)
  have "is_digit c" using cs by (rule show_nat_hd_digit)
  then have "c \<noteq> CHR ''-''" "c \<noteq> CHR ''+''"
    by (auto simp: is_digit_def less_eq_char_def)
  with False cs r show ?thesis
    using parse_digits_show_nat [of "nat i"] by (simp add: ParseInt10_def show_int_def)
qed

section \<open>Doubles that need no rounding\<close>

lemma round_even_of_int [simp]: "round_even (of_int n) = n"
  by (simp add: round_even_def Let_def)

lemma bitlen_less: "n < 2 ^ bitlen n"
proof (induction n rule: bitlen.induct)
  case (1 n)
  show ?case
  proof (cases "n = 0")
    case False
    with 1 have "n div 2 < 2 ^ bitlen (n div 2)" by simp
    then have "n < 2 * 2 ^ bitlen (n div 2)" by linarith
    then show ?thesis using False by (subst bitlen.simps) simp
  qed simp
qed

lemma bitlen_le: "n < 2 ^ k \<Longrightarrow> bitlen n \<le> k"
proof (induction n arbitrary: k rule: bitlen.induct)
  case (1 n)
  show ?case
  proof (cases "n = 0")
    case False
    then obtain j where k: "k = Suc j" using "1.prems" by (cases k) auto
    have "n div 2 < 2 ^ j" using "1.prems" k by simp
    with 1 False k show ?thesis by (subst bitlen.simps) simp
  qed (simp add: bitlen.simps)
qed

lemma scale_exp_from_spec:
  "scale_exp_from fuel s q = t \<Longrightarrow> 0 \<le> q \<Longrightarrow> s \<le> t \<and> t \<le> s + fuel \<and> (t = s + fuel \<or> 2 ^ 52 \<le> q * 2 ^ (t - s))"
proof (induction fuel s q rule: scale_exp_from.induct)
  case (2 fuel s q)
  show ?case
  proof (cases "2 ^ 52 \<le> q")
    case True
    then show ?thesis using 2 by simp
  next
    case False
    then have "Suc s \<le> t \<and> t \<le> Suc s + fuel \<and> (t = Suc s + fuel \<or> 2 ^ 52 \<le> 2 * q * 2 ^ (t - Suc s))"
      using 2 by simp
    moreover have "q * 2 ^ (t - s) = 2 * (q * 2 ^ (t - Suc s))" if "Suc s \<le> t"
    proof -
      have "t - s = Suc (t - Suc s)" using that by simp
      then show ?thesis by simp
    qed
    ultimately show ?thesis by fastforce
  qed
qed simp

text \<open>A fraction with a power of two below and less than \<open>2 ^ 53\<close> above is a double.\<close>

lemma f64_exact:
  assumes n: "\<bar>n\<bar> < 2 ^ 53" and k: "k \<le> 1074"
  shows "f64_of_rat (of_int n / 2 ^ k) = Fin (of_int n / 2 ^ k)"
proof -
  let ?q = "of_int n / 2 ^ k :: rat"
  have an: "\<bar>?q\<bar> = of_int \<bar>n\<bar> / 2 ^ k" by simp
  have lt: "\<bar>?q\<bar> < 2 ^ 53"
  proof -
    have "of_int \<bar>n\<bar> / 2 ^ k \<le> (of_int \<bar>n\<bar> :: rat)" by (simp add: divide_le_eq mult_le_cancel_left1)
    also have "\<dots> < 2 ^ 53" using n by (metis of_int_less_iff of_int_numeral of_int_power)
    finally show ?thesis by (simp add: an)
  qed
  then have "\<lfloor>\<bar>?q\<bar>\<rfloor> < 2 ^ 53" by (simp add: floor_less_iff)
  then have e: "\<not> 53 < bitlen (nat \<lfloor>\<bar>?q\<bar>\<rfloor>)" using bitlen_le [of "nat \<lfloor>\<bar>?q\<bar>\<rfloor>" 53] by (simp add: nat_less_iff)
  define s where "s = scale_exp_from 1074 0 \<bar>?q\<bar>"
  have s: "s = 1074 \<or> 2 ^ 52 \<le> \<bar>?q\<bar> * 2 ^ s" using scale_exp_from_spec [of 1074 0 "\<bar>?q\<bar>" s] by (simp add: s_def)
  have ks: "k \<le> s"
  proof (rule ccontr)
    assume "\<not> k \<le> s"
    then have "2 ^ 52 \<le> of_int \<bar>n\<bar> / 2 ^ k * (2 ^ s :: rat)" and sk: "s < k" using s k by (auto simp: an)
    moreover have "(2 ^ k :: rat) = 2 ^ s * 2 ^ (k - s)" using sk by (simp flip: power_add)
    ultimately have "2 ^ 52 \<le> of_int \<bar>n\<bar> / (2 ^ (k - s) :: rat)" by simp
    then have "2 ^ 52 * 2 ^ (k - s) \<le> (of_int \<bar>n\<bar> :: rat)" by (simp add: le_divide_eq)
    moreover have "(2 :: rat) ^ 1 \<le> 2 ^ (k - s)" using sk by (intro power_increasing) auto
    ultimately have "2 ^ 53 \<le> (of_int \<bar>n\<bar> :: rat)" by simp
    then show False using n by (metis of_int_le_iff of_int_numeral of_int_power not_less)
  qed
  have "?q * 2 ^ s = of_int (n * 2 ^ (s - k))"
  proof -
    have "(2 ^ s :: rat) = 2 ^ k * 2 ^ (s - k)" using ks by (simp flip: power_add)
    then show ?thesis by simp
  qed
  then have "round_even (?q * 2 ^ s) = n * 2 ^ (s - k)" by (simp only: round_even_of_int)
  then have "f64_round_rat ?q = of_int (n * 2 ^ (s - k)) / 2 ^ s"
    using e unfolding f64_round_rat_def Let_def s_def [symmetric] by (simp only: if_False)
  also have "\<dots> = ?q"
  proof -
    have "(2 ^ s :: rat) = 2 ^ k * 2 ^ (s - k)" using ks by (simp flip: power_add)
    then show ?thesis by simp
  qed
  finally have r: "f64_round_rat ?q = ?q" .
  have "(2 :: rat) ^ 53 \<le> 2 ^ 1024" by (intro power_increasing) auto
  then have "\<bar>?q\<bar> < 2 ^ 1024" using lt by linarith
  then have "\<not> 2 ^ 1024 \<le> ?q" "\<not> ?q \<le> - (2 ^ 1024)" by (simp_all only: abs_less_iff) linarith+
  then show ?thesis unfolding f64_of_rat_def Let_def r by (simp only: if_False)
qed

lemma f64_exact_int: "\<bar>n\<bar> < 2 ^ 53 \<Longrightarrow> f64_of_int n = Fin (of_int n)"
  using f64_exact [of n 0] by (simp add: f64_of_int_def)

end
