(* ===== verification/Store.thy ===== *)
theory Store
  imports Prelude
begin

text \<open>
  The structured-state store: the interface \<^verbatim>\<open>spi.Store\<close>/\<^verbatim>\<open>spi.Scope\<close>/\<^verbatim>\<open>spi.Collection\<close> of
  \<^verbatim>\<open>internal/spi/spi.go\<close> and its in-memory implementation \<^verbatim>\<open>internal/store/store.go\<close>.

  \<^item> \<open>collection\<close> is the interface value \<^verbatim>\<open>spi.Collection\<close>: a record of the operations a client
    calls, each over the store's state.  A client is written against this record, as the Go code
    is written against the interface.
  \<^item> \<open>memory\<close> is \<^verbatim>\<open>store.Memory\<close>; \<open>coll_Get\<close>, \<open>coll_Put\<close>, \<open>coll_Delete\<close> and \<open>listLocked\<close> are the
    operations of \<^verbatim>\<open>coll\<close> and \<^verbatim>\<open>tx\<close> (the two differ in who takes the mutex), and
    \<open>mem_collection\<close> is the interface value they make up.
  \<^item> \<open>txprog\<close> is the callback of \<^verbatim>\<open>Txn\<close>: a tree of calls on the transaction, each continuing with
    the call's answer, ending in an error or none.  \<open>runTxn\<close> runs it under the backup and
    roll-back of \<^verbatim>\<open>scope.runTxn\<close>.
  \<^item> The locale \<open>collection_laws\<close> states what a client may rely on; \<open>mem\<close> interprets it
    for every collection of the in-memory store.

  The mutex makes each operation atomic, so an operation is one function of the state.
  \<^verbatim>\<open>archive/tar\<close> and \<^verbatim>\<open>encoding/json\<close> enter \<open>Snapshot\<close> and \<open>Restore\<close> through the record \<open>codec\<close>.
\<close>

section \<open>The interface\<close>

type_synonym bytes = string

record KV =
  Key :: string
  Value :: bytes

record 's collection =
  cGet :: "'s \<Rightarrow> string \<Rightarrow> (string, bytes option) res"
  cPut :: "'s \<Rightarrow> string \<Rightarrow> bytes \<Rightarrow> (string, 's) res"
  cDelete :: "'s \<Rightarrow> string \<Rightarrow> (string, 's) res"
  cList :: "'s \<Rightarrow> string \<Rightarrow> string \<Rightarrow> int \<Rightarrow> (string, KV list \<times> bool) res"

text \<open>\<open>Store.Scope(account, region).Collection(name)\<close>.\<close>

type_synonym 's store_if = "string \<Rightarrow> string \<Rightarrow> string \<Rightarrow> 's collection"

section \<open>The in-memory implementation\<close>

record memory =
  data :: "(string, (string, bytes) gmap) gmap"
  lockSHA :: string

definition NewMemory :: "string \<Rightarrow> memory" where
  "NewMemory sha = \<lparr>data = [], lockSHA = sha\<rparr>"

abbreviation sep :: char where "sep \<equiv> CHR 0x1F"

definition scopeKey :: "string \<Rightarrow> string \<Rightarrow> string" where
  "scopeKey account region = account @ [sep] @ region"

definition full :: "string \<Rightarrow> string \<Rightarrow> string" where
  "full name key = name @ [sep] @ key"

definition scopeData :: "memory \<Rightarrow> string \<Rightarrow> (string, bytes) gmap" where
  "scopeData m sk = (case map_of (data m) sk of Some d \<Rightarrow> d | None \<Rightarrow> [])"

definition Scopes :: "memory \<Rightarrow> (string \<times> string) list" where
  "Scopes m = map (\<lambda>key. let (account, region, _) = Cut key [sep] in (account, region))
                  (sort (gkeys (data m)))"

definition coll_Get :: "string \<Rightarrow> string \<Rightarrow> string \<Rightarrow> memory \<Rightarrow> string \<Rightarrow> bytes option" where
  "coll_Get account region name m key =
     map_of (scopeData m (scopeKey account region)) (full name key)"

definition coll_Put :: "string \<Rightarrow> string \<Rightarrow> string \<Rightarrow> memory \<Rightarrow> string \<Rightarrow> bytes \<Rightarrow> memory" where
  "coll_Put account region name m key val =
     (let sk = scopeKey account region
      in m\<lparr>data := AList.update sk (AList.update (full name key) val (scopeData m sk)) (data m)\<rparr>)"

definition coll_Delete :: "string \<Rightarrow> string \<Rightarrow> string \<Rightarrow> memory \<Rightarrow> string \<Rightarrow> memory" where
  "coll_Delete account region name m key =
     (let sk = scopeKey account region
      in case map_of (data m) sk of
           None \<Rightarrow> m
         | Some d \<Rightarrow> m\<lparr>data := AList.update sk (AList.delete (full name key) d) (data m)\<rparr>)"

definition listKeys :: "(string, bytes) gmap \<Rightarrow> string \<Rightarrow> string \<Rightarrow> string \<Rightarrow> string list" where
  "listKeys d name pre after =
     filter (\<lambda>naked. after = [] \<or> after < naked)
       (map (\<lambda>k. TrimPrefix k (name @ [sep]))
         (filter (\<lambda>k. HasPrefix k (full name pre)) (gkeys d)))"

definition listLocked ::
  "string \<Rightarrow> string \<Rightarrow> string \<Rightarrow> memory \<Rightarrow> string \<Rightarrow> string \<Rightarrow> int \<Rightarrow> KV list \<times> bool" where
  "listLocked account region name m pre after limit =
     (let d = scopeData m (scopeKey account region);
          keys = sort (listKeys d name pre after);
          more = (0 < limit \<and> limit < int (length keys));
          keys' = (if more then take (nat limit) keys else keys)
      in (map (\<lambda>k. \<lparr>Key = k, Value = (case map_of d (full name k) of Some v \<Rightarrow> v | None \<Rightarrow> [])\<rparr>) keys',
          more))"

definition mem_collection :: "memory store_if" where
  "mem_collection account region name =
     \<lparr>cGet = (\<lambda>m k. Ok (coll_Get account region name m k)),
      cPut = (\<lambda>m k v. Ok (coll_Put account region name m k v)),
      cDelete = (\<lambda>m k. Ok (coll_Delete account region name m k)),
      cList = (\<lambda>m p a n. Ok (listLocked account region name m p a n))\<rparr>"

section \<open>Transactions\<close>

datatype 'e txprog =
    TxDone "'e option"
  | TxGet string string "bytes option \<Rightarrow> 'e txprog"
  | TxPut string string bytes "'e txprog"
  | TxDelete string string "'e txprog"
  | TxList string string string int "KV list \<times> bool \<Rightarrow> 'e txprog"

primrec run_tx :: "string \<Rightarrow> string \<Rightarrow> 'e txprog \<Rightarrow> memory \<Rightarrow> 'e option \<times> memory" where
  "run_tx a r (TxDone e) m = (e, m)"
| "run_tx a r (TxGet name key f) m = run_tx a r (f (coll_Get a r name m key)) m"
| "run_tx a r (TxPut name key val p) m = run_tx a r p (coll_Put a r name m key val)"
| "run_tx a r (TxDelete name key p) m = run_tx a r p (coll_Delete a r name m key)"
| "run_tx a r (TxList name pre after limit f) m =
     run_tx a r (f (listLocked a r name m pre after limit)) m"

definition runTxn :: "string \<Rightarrow> string \<Rightarrow> 'e txprog \<Rightarrow> memory \<Rightarrow> 'e option \<times> memory" where
  "runTxn account region fn m =
     (let sk = scopeKey account region;
          before = map_of (data m) sk;
          (err, m') = run_tx account region fn m
      in case err of
           None \<Rightarrow> (None, m')
         | Some e \<Rightarrow>
             (Some e,
              case before of
                Some backup \<Rightarrow> m'\<lparr>data := AList.update sk backup (data m')\<rparr>
              | None \<Rightarrow> m'\<lparr>data := AList.delete sk (data m')\<rparr>))"

section \<open>Snapshots\<close>

record codec =
  marshalMeta :: "string \<Rightarrow> bytes"
  unmarshalMeta :: "bytes \<Rightarrow> string option"
  marshalData :: "(string, (string, bytes) gmap) gmap \<Rightarrow> bytes option"
  unmarshalData :: "bytes \<Rightarrow> (string, (string, bytes) gmap) gmap option"

datatype restore_err = BadManifest | LockMismatch string string | BadStore

text \<open>A tar stream is the list of its members; a later member of the same name wins, as the
  assignment \<^verbatim>\<open>files[hdr.Name] = b\<close> makes it.  A missing member reads as the empty slice.\<close>

type_synonym tarball = "(string \<times> bytes) list"

definition Snapshot :: "codec \<Rightarrow> memory \<Rightarrow> tarball option" where
  "Snapshot c m =
     (case marshalData c (data m) of
        None \<Rightarrow> None
      | Some body \<Rightarrow> Some [(''manifest.json'', marshalMeta c (lockSHA m)), (''store.json'', body)])"

definition tarFile :: "tarball \<Rightarrow> string \<Rightarrow> bytes" where
  "tarFile t name = (case map_of (rev t) name of Some b \<Rightarrow> b | None \<Rightarrow> [])"

definition Restore :: "codec \<Rightarrow> tarball \<Rightarrow> memory \<Rightarrow> (restore_err, memory) res" where
  "Restore c t m =
     (case unmarshalMeta c (tarFile t ''manifest.json'') of
        None \<Rightarrow> Err BadManifest
      | Some sha \<Rightarrow>
          if lockSHA m \<noteq> [] \<and> sha \<noteq> [] \<and> sha \<noteq> lockSHA m then Err (LockMismatch sha (lockSHA m))
          else (case unmarshalData c (tarFile t ''store.json'') of
                  None \<Rightarrow> Err BadStore
                | Some d \<Rightarrow> Ok (m\<lparr>data := d\<rparr>)))"

section \<open>Keys\<close>

definition plain :: "string \<Rightarrow> bool" where
  "plain s \<longleftrightarrow> sep \<notin> set s"

lemma sep_append_inject:
  assumes "sep \<notin> set a" "sep \<notin> set a'"
  shows "a @ [sep] @ b = a' @ [sep] @ b' \<longleftrightarrow> a = a' \<and> b = b'"
proof
  assume eq: "a @ [sep] @ b = a' @ [sep] @ b'"
  have "Cut (a @ sep # b) [sep] = Cut (a' @ sep # b') [sep]"
    using eq by simp
  then show "a = a' \<and> b = b'"
    using assms by simp
qed simp

lemma scopeKey_inject [simp]:
  "plain a \<Longrightarrow> plain a' \<Longrightarrow> scopeKey a r = scopeKey a' r' \<longleftrightarrow> a = a' \<and> r = r'"
  using sep_append_inject by (simp add: plain_def scopeKey_def)

lemma full_inject [simp]:
  "plain n \<Longrightarrow> plain n' \<Longrightarrow> full n k = full n' k' \<longleftrightarrow> n = n' \<and> k = k'"
  using sep_append_inject by (simp add: plain_def full_def)

lemma full_inject_key [simp]: "full n k = full n k' \<longleftrightarrow> k = k'"
  by (simp add: full_def)

lemma TrimPrefix_full [simp]: "TrimPrefix (full n k) (n @ [sep]) = k"
  by (metis TrimPrefix_append append_assoc full_def)

lemma HasPrefix_full: "HasPrefix k (full n p) \<longleftrightarrow> (\<exists>q. k = full n q \<and> HasPrefix q p)"
  by (auto simp: HasPrefix_iff_prefix full_def prefix_def)

section \<open>Well-formed stores\<close>

definition mem_ok :: "memory \<Rightarrow> bool" where
  "mem_ok m \<longleftrightarrow> gmap_ok (data m) \<and> (\<forall>x \<in> set (data m). gmap_ok (snd x))"

lemma mem_ok_scopeData: "mem_ok m \<Longrightarrow> gmap_ok (scopeData m sk)"
  by (auto simp: mem_ok_def scopeData_def dest!: map_of_SomeD split: option.splits)

lemma set_AList_update: "x \<in> set (AList.update k v xs) \<Longrightarrow> x = (k, v) \<or> x \<in> set xs"
  by (induction xs) (auto split: if_splits)

lemma mem_ok_update:
  assumes "mem_ok m" "gmap_ok d"
  shows "mem_ok (m\<lparr>data := AList.update sk d (data m)\<rparr>)"
  using assms by (auto simp: mem_ok_def dest!: set_AList_update)

lemma mem_ok_NewMemory [simp]: "mem_ok (NewMemory sha)"
  by (simp add: mem_ok_def NewMemory_def)

lemma mem_ok_Put [simp]: "mem_ok m \<Longrightarrow> mem_ok (coll_Put a r n m k v)"
  by (auto simp: coll_Put_def Let_def intro!: mem_ok_update mem_ok_scopeData)

lemma mem_ok_Delete [simp]: "mem_ok m \<Longrightarrow> mem_ok (coll_Delete a r n m k)"
  using mem_ok_scopeData [of m "scopeKey a r"]
  by (auto simp: coll_Delete_def Let_def scopeData_def intro!: mem_ok_update split: option.splits)

section \<open>Lookups after writes\<close>

lemma scopeData_update [simp]:
  "scopeData (m\<lparr>data := AList.update sk d (data m)\<rparr>) sk' = (if sk' = sk then d else scopeData m sk')"
  by (simp add: scopeData_def)

lemma coll_Get_Put:
  "coll_Get a' r' n' (coll_Put a r n m k v) k' =
     (if scopeKey a' r' = scopeKey a r \<and> full n' k' = full n k then Some v else coll_Get a' r' n' m k')"
  by (auto simp: coll_Get_def coll_Put_def Let_def)

lemma coll_Get_Delete:
  "coll_Get a' r' n' (coll_Delete a r n m k) k' =
     (if scopeKey a' r' = scopeKey a r \<and> full n' k' = full n k then None else coll_Get a' r' n' m k')"
  by (auto simp: coll_Get_def coll_Delete_def Let_def scopeData_def split: option.splits)

lemma finite_coll_Get: "finite {k. coll_Get a r n m k \<noteq> None}"
proof (rule finite_imageD)
  have "full n ` {k. coll_Get a r n m k \<noteq> None} \<subseteq> dom (map_of (scopeData m (scopeKey a r)))"
    by (auto simp: coll_Get_def)
  then show "finite (full n ` {k. coll_Get a r n m k \<noteq> None})"
    using finite_dom_map_of finite_subset by blast
  show "inj_on (full n) {k. coll_Get a r n m k \<noteq> None}" by (simp add: inj_on_def)
qed

lemma coll_Get_NewMemory [simp]: "coll_Get a r n (NewMemory sha) k = None"
  by (simp add: coll_Get_def NewMemory_def scopeData_def)

section \<open>Listings\<close>

definition listed :: "(string \<Rightarrow> bytes option) \<Rightarrow> string \<Rightarrow> string \<Rightarrow> string \<Rightarrow> bool" where
  "listed f pre after k \<longleftrightarrow> f k \<noteq> None \<and> HasPrefix k pre \<and> (after = [] \<or> after < k)"

lemma set_listKeys:
  "set (listKeys d n pre after) = {k. listed (\<lambda>k. map_of d (full n k)) pre after k}"
proof -
  have "k \<in> set (listKeys d n pre after) \<longleftrightarrow>
          full n k \<in> set (gkeys d) \<and> HasPrefix k pre \<and> (after = [] \<or> after < k)" for k
    by (force simp: listKeys_def HasPrefix_full)
  then show ?thesis
    unfolding set_eq_iff mem_Collect_eq listed_def gkeys_iff by blast
qed

lemma distinct_listKeys:
  assumes "gmap_ok d"
  shows "distinct (listKeys d n pre after)"
proof -
  have "inj_on (\<lambda>k. TrimPrefix k (n @ [sep])) {k. HasPrefix k (full n pre)}"
    by (auto simp: inj_on_def HasPrefix_full)
  then have "inj_on (\<lambda>k. TrimPrefix k (n @ [sep])) (set (filter (\<lambda>k. HasPrefix k (full n pre)) (gkeys d)))"
    by (rule inj_on_subset) auto
  with assms show ?thesis
    unfolding listKeys_def gmap_ok_def by (intro distinct_filter) (simp add: distinct_map)
qed

definition sortedKeys :: "(string, bytes) gmap \<Rightarrow> string \<Rightarrow> string \<Rightarrow> string \<Rightarrow> string list" where
  "sortedKeys d n pre after = sort (listKeys d n pre after)"

lemma sortedKeys_strict: "gmap_ok d \<Longrightarrow> sorted_wrt (<) (sortedKeys d n pre after)"
  by (simp add: sortedKeys_def strict_sorted_iff distinct_listKeys)

lemma set_sortedKeys:
  "set (sortedKeys d n pre after) = {k. listed (\<lambda>k. map_of d (full n k)) pre after k}"
  by (simp add: sortedKeys_def set_listKeys)

definition entry_of :: "(string \<Rightarrow> bytes option) \<Rightarrow> string \<Rightarrow> KV" where
  "entry_of f k = \<lparr>Key = k, Value = (case f k of Some v \<Rightarrow> v | None \<Rightarrow> [])\<rparr>"

lemma listLocked_eq:
  "listLocked a r n m pre after limit =
     (let keys = sortedKeys (scopeData m (scopeKey a r)) n pre after;
          more = (0 < limit \<and> limit < int (length keys))
      in (map (entry_of (coll_Get a r n m)) (if more then take (nat limit) keys else keys), more))"
  by (simp add: listLocked_def sortedKeys_def entry_of_def [abs_def] coll_Get_def Let_def)

lemma Key_entry_of [simp]: "Key (entry_of f k) = k"
  by (simp add: entry_of_def)

lemma map_Key_entry_of [simp]: "map Key (map (entry_of f) ks) = ks"
  by (simp add: map_idI)

lemma sortedKeys_determined:
  assumes "gmap_ok d" "gmap_ok d'" "\<And>k. map_of d (full n k) = map_of d' (full n k)"
  shows "sortedKeys d n pre after = sortedKeys d' n pre after"
  unfolding sortedKeys_def using assms
  by (intro sort_keys_determined) (auto simp: distinct_listKeys set_listKeys)

text \<open>Resuming after a key drops exactly the keys up to and including it.\<close>

lemma strict_sorted_filter_after:
  fixes xs :: "'a::linorder list"
  assumes "sorted_wrt (<) xs" "i < length xs"
  shows "filter (\<lambda>k. xs ! i < k) xs = drop (Suc i) xs"
proof -
  have "filter (\<lambda>k. xs ! i < k) (take (Suc i) xs) = []"
    using assms by (auto simp: filter_empty_conv in_set_conv_nth sorted_wrt_iff_nth_less not_less
        dest: less_imp_le) (metis le_less less_Suc_eq nth_take)
  moreover have "filter (\<lambda>k. xs ! i < k) (drop (Suc i) xs) = drop (Suc i) xs"
    using assms by (auto simp: filter_id_conv in_set_conv_nth sorted_wrt_iff_nth_less)
  ultimately show ?thesis
    by (metis append_Nil append_take_drop_id filter_append)
qed

lemma sortedKeys_resume:
  assumes "gmap_ok d" "i < length (sortedKeys d n pre after)"
    and "sortedKeys d n pre after ! i \<noteq> []"
  shows "sortedKeys d n pre (sortedKeys d n pre after ! i) = drop (Suc i) (sortedKeys d n pre after)"
    (is "sortedKeys d n pre ?k = drop _ ?ks")
proof -
  have k: "?k \<in> set ?ks" using assms(2) by simp
  have "set (sortedKeys d n pre ?k) = set (filter (\<lambda>k. ?k < k) ?ks)"
    using k assms(3) by (auto simp: set_sortedKeys listed_def)
  moreover have "sorted_wrt (<) (filter (\<lambda>k. ?k < k) ?ks)"
    using sortedKeys_strict [OF assms(1)] by (rule sorted_wrt_filter)
  ultimately have "sortedKeys d n pre ?k = filter (\<lambda>k. ?k < k) ?ks"
    using sortedKeys_strict [OF assms(1)] by (metis strict_sorted_equal)
  then show ?thesis
    using strict_sorted_filter_after sortedKeys_strict assms(1,2) by metis
qed

section \<open>What a client relies on\<close>

text \<open>
  \<open>view\<close> is the collection's content as a finite map; \<open>ok\<close> is the representation
  invariant of the store behind it.
\<close>

locale collection_laws =
  fixes C :: "'s collection"
    and ok :: "'s \<Rightarrow> bool"
    and view :: "'s \<Rightarrow> string \<Rightarrow> bytes option"
  assumes Get: "ok s \<Longrightarrow> cGet C s k = Ok (view s k)"
    and Put: "ok s \<Longrightarrow> \<exists>s'. cPut C s k v = Ok s' \<and> ok s' \<and> view s' = (view s)(k \<mapsto> v)"
    and Delete: "ok s \<Longrightarrow> \<exists>s'. cDelete C s k = Ok s' \<and> ok s' \<and> view s' = (view s)(k := None)"
    and List: "ok s \<Longrightarrow> \<exists>ks. cList C s p [] 0 = Ok (map (entry_of (view s)) ks, False) \<and>
                 sorted_wrt (<) ks \<and> set ks = {k. listed (view s) p [] k}"
begin

lemma Get_after_Put:
  assumes "ok s" "cPut C s k v = Ok s'"
  shows "cGet C s' k' = Ok (if k' = k then Some v else view s k')"
  using Put [OF assms(1), of k v] assms(2) Get by auto

lemma Put_ok: "ok s \<Longrightarrow> cPut C s k v = Ok s' \<Longrightarrow> ok s' \<and> view s' = (view s)(k \<mapsto> v)"
  using Put [of s k v] by auto

lemma Delete_ok: "ok s \<Longrightarrow> cDelete C s k = Ok s' \<Longrightarrow> ok s' \<and> view s' = (view s)(k := None)"
  using Delete [of s k] by auto

text \<open>Listing everything enumerates the view: an association list of it in key order.\<close>

lemma List_map_of:
  assumes "ok s" "cList C s [] [] 0 = Ok (kvs, hasMore)"
  shows "\<not> hasMore \<and> map_of (map (\<lambda>kv. (Key kv, Value kv)) kvs) = view s"
proof -
  obtain ks where kvs: "kvs = map (entry_of (view s)) ks" "\<not> hasMore"
    and ks: "set ks = {k. view s k \<noteq> None}"
    using List [OF assms(1), of "[]"] assms(2) by (auto simp: listed_def)
  have "map_of (map (\<lambda>k. (k, Value (entry_of (view s) k))) ks) k = view s k" for k
    using ks by (auto simp: map_of_map_restrict restrict_map_def entry_of_def split: option.splits)
  with kvs show ?thesis by (auto simp: comp_def fun_eq_iff)
qed

end

interpretation mem: collection_laws "mem_collection a r n" mem_ok "coll_Get a r n"
  for a r n
proof unfold_locales
  fix m k v
  assume m: "mem_ok m"
  show "cGet (mem_collection a r n) m k = Ok (coll_Get a r n m k)"
    by (simp add: mem_collection_def)
  show "\<exists>s'. cPut (mem_collection a r n) m k v = Ok s' \<and> mem_ok s' \<and>
          coll_Get a r n s' = (coll_Get a r n m)(k \<mapsto> v)"
    using m by (auto simp: mem_collection_def coll_Get_Put)
  show "\<exists>s'. cDelete (mem_collection a r n) m k = Ok s' \<and> mem_ok s' \<and>
          coll_Get a r n s' = (coll_Get a r n m)(k := None)"
    using m by (auto simp: mem_collection_def coll_Get_Delete)
  let ?d = "scopeData m (scopeKey a r)"
  show "\<exists>ks. cList (mem_collection a r n) m k [] 0 =
            Ok (map (entry_of (coll_Get a r n m)) ks, False) \<and>
          sorted_wrt (<) ks \<and> set ks = {k'. listed (coll_Get a r n m) k [] k'}"
    using m by (intro exI [of _ "sortedKeys ?d n k []"])
      (simp add: mem_collection_def listLocked_eq sortedKeys_strict mem_ok_scopeData
        set_sortedKeys coll_Get_def [abs_def])
qed

section \<open>Transactions\<close>

lemma AList_update_twice: "AList.update k v (AList.update k w xs) = AList.update k v xs"
  by (induction xs) auto

lemma AList_update_same: "map_of xs k = Some v \<Longrightarrow> AList.update k v xs = xs"
  by (induction xs) (auto split: if_splits)

lemma AList_delete_absent: "map_of xs k = None \<Longrightarrow> AList.delete k xs = xs"
  by (induction xs) (auto split: if_splits)

lemma AList_delete_update: "AList.delete k (AList.update k v xs) = AList.delete k xs"
  by (induction xs) auto

definition rolled_back :: "string \<Rightarrow> memory \<Rightarrow> memory \<Rightarrow> memory" where
  "rolled_back sk m m' =
     (case map_of (data m) sk of
        Some b \<Rightarrow> m'\<lparr>data := AList.update sk b (data m')\<rparr>
      | None \<Rightarrow> m'\<lparr>data := AList.delete sk (data m')\<rparr>)"

lemma rolled_back_self: "rolled_back sk m m = m"
  by (auto simp: rolled_back_def AList_update_same AList_delete_absent split: option.splits)

lemma rolled_back_update:
  "rolled_back sk m (m'\<lparr>data := AList.update sk d (data m')\<rparr>) = rolled_back sk m m'"
  by (auto simp: rolled_back_def AList_update_twice AList_delete_update split: option.splits)

lemma rolled_back_Put:
  "rolled_back (scopeKey a r) m (coll_Put a r n m' k v) = rolled_back (scopeKey a r) m m'"
  by (simp add: coll_Put_def Let_def rolled_back_update)

lemma rolled_back_Delete:
  "rolled_back (scopeKey a r) m (coll_Delete a r n m' k) = rolled_back (scopeKey a r) m m'"
  by (simp add: coll_Delete_def Let_def rolled_back_update split: option.splits)

lemma rolled_back_run:
  "rolled_back (scopeKey a r) m (snd (run_tx a r p m')) = rolled_back (scopeKey a r) m m'"
  by (induction p arbitrary: m') (auto simp: rolled_back_Put rolled_back_Delete)

lemma runTxn_eq:
  "runTxn a r fn m =
     (case run_tx a r fn m of
        (None, m') \<Rightarrow> (None, m')
      | (Some e, m') \<Rightarrow> (Some e, rolled_back (scopeKey a r) m m'))"
  by (auto simp: runTxn_def Let_def rolled_back_def split: prod.splits option.splits)

lemma run_tx_ok: "mem_ok m \<Longrightarrow> mem_ok (snd (run_tx a r p m))"
  by (induction p arbitrary: m) auto

lemma run_tx_other_scope:
  "scopeKey a' r' \<noteq> scopeKey a r \<Longrightarrow>
     coll_Get a' r' n (snd (run_tx a r p m)) k = coll_Get a' r' n m k"
  by (induction p arbitrary: m) (auto simp: coll_Get_Put coll_Get_Delete)

section \<open>Properties\<close>

text \<open>C3: a transaction is atomic.  When the callback ends in an error, the store after
  \<^verbatim>\<open>runTxn\<close> is the store before it: every write of the callback, to whatever collection of
  the scope, is undone, and a scope the callback created is gone again.
\<close>

theorem txn_rolls_back:
  assumes "fst (runTxn account region fn m) = Some e"
  shows "snd (runTxn account region fn m) = m"
proof -
  obtain m' where run: "run_tx account region fn m = (Some e, m')"
    using assms by (auto simp: runTxn_eq split: prod.splits option.splits)
  have "rolled_back (scopeKey account region) m m' = m"
    using rolled_back_run [of account region m fn m] run by (simp add: rolled_back_self)
  with run show ?thesis by (simp add: runTxn_eq)
qed

theorem txn_rolls_back_witness:
  "let fn = TxPut ''queues'' ''q1'' ''x'' (TxDelete ''queues'' ''q0'' (TxDone (Some ''boom'')));
       m = coll_Put ''1'' ''us'' ''queues'' (NewMemory '''') ''q0'' ''old''
   in runTxn ''1'' ''us'' fn m = (Some ''boom'', m)"
proof -
  let ?fn = "TxPut ''queues'' ''q1'' ''x'' (TxDelete ''queues'' ''q0'' (TxDone (Some ''boom'')))"
  let ?m = "coll_Put ''1'' ''us'' ''queues'' (NewMemory '''') ''q0'' ''old''"
  have e: "fst (runTxn ''1'' ''us'' ?fn ?m) = Some ''boom''"
    by (simp add: runTxn_eq)
  show ?thesis
    using txn_rolls_back [OF e] e by (simp add: Let_def prod_eq_iff)
qed

text \<open>The account and region of a scope isolate it.  A transaction, committed or not, in
  one scope leaves every collection of any other scope as it was, for account names without the
  separator byte 0x1F.
\<close>

theorem txn_scope_isolation:
  assumes "plain account" "plain account'" "(account', region') \<noteq> (account, region)"
  shows "coll_Get account' region' name (snd (runTxn account region fn m)) key =
         coll_Get account' region' name m key"
proof (cases "run_tx account region fn m")
  case (Pair e m')
  have sk: "scopeKey account' region' \<noteq> scopeKey account region"
    using assms by auto
  show ?thesis
  proof (cases e)
    case None
    with Pair show ?thesis
      using run_tx_other_scope [OF sk, of name fn m key] by (simp add: runTxn_eq)
  next
    case (Some x)
    then have "snd (runTxn account region fn m) = m"
      using Pair rolled_back_run [of account region m fn m] by (simp add: runTxn_eq rolled_back_self)
    then show ?thesis by simp
  qed
qed

theorem txn_scope_isolation_witness:
  "plain ''1'' \<and> plain ''2'' \<and>
   coll_Get ''2'' ''us'' ''q'' (snd (runTxn ''1'' ''us'' (TxPut ''q'' ''k'' ''v'' (TxDone None))
      (coll_Put ''2'' ''us'' ''q'' (NewMemory '''') ''k'' ''w''))) ''k'' = Some ''w''"
proof -
  have p: "plain ''1''" "plain ''2''" by (simp_all add: plain_def)
  show ?thesis
    by (simp add: txn_scope_isolation [of "''1''" "''2''" "''us''" "''us''"] p coll_Get_Put)
qed

text \<open>C33: a listing is what the interface's comment promises.  The page has strictly
  ascending keys, each with its stored value, with the prefix and after the cursor; it has no
  more than \<open>limit\<close> entries; a stored key that qualifies and is not on the page is beyond the
  page's last key, and then (and only then) the flag says that more remain.
\<close>

theorem listLocked_page:
  assumes "mem_ok m" "listLocked account region name m pre after limit = (kvs, hasMore)"
  shows "sorted_wrt (<) (map Key kvs) \<and>
    (\<forall>kv \<in> set kvs. coll_Get account region name m (Key kv) = Some (Value kv) \<and>
        HasPrefix (Key kv) pre \<and> (after = [] \<or> after < Key kv)) \<and>
    (0 < limit \<longrightarrow> int (length kvs) \<le> limit) \<and>
    (\<forall>k. listed (coll_Get account region name m) pre after k \<longrightarrow> k \<notin> set (map Key kvs) \<longrightarrow>
        hasMore \<and> (\<forall>kv \<in> set kvs. Key kv < k)) \<and>
    (hasMore \<longrightarrow> (\<exists>k. listed (coll_Get account region name m) pre after k \<and> k \<notin> set (map Key kvs)))"
proof -
  define ks where "ks = sortedKeys (scopeData m (scopeKey account region)) name pre after"
  define f where "f = coll_Get account region name m"
  define n where "n = (if hasMore then nat limit else length ks)"
  have kvs: "kvs = map (entry_of f) (take n ks)"
    and hasMore: "hasMore \<longleftrightarrow> 0 < limit \<and> limit < int (length ks)"
    using assms(2) by (auto simp: listLocked_eq Let_def ks_def f_def n_def)
  have st: "sorted_wrt (<) ks" and set_ks: "set ks = {k. listed f pre after k}"
    using mem_ok_scopeData [OF assms(1)]
    by (simp_all add: ks_def f_def sortedKeys_strict set_sortedKeys coll_Get_def [abs_def])
  have keys: "map Key kvs = take n ks"
    unfolding kvs by (rule map_Key_entry_of)
  have "sorted_wrt (<) (map Key kvs)"
    unfolding keys using st by (rule sorted_wrt_take)
  moreover have "\<forall>kv \<in> set kvs. f (Key kv) = Some (Value kv) \<and> HasPrefix (Key kv) pre \<and>
      (after = [] \<or> after < Key kv)"
    using set_ks set_take_subset [of n ks] by (auto simp: kvs listed_def entry_of_def)
  moreover have "0 < limit \<longrightarrow> int (length kvs) \<le> limit"
    using hasMore by (auto simp: kvs n_def)
  moreover have "hasMore \<and> (\<forall>kv \<in> set kvs. Key kv < k)"
    if "listed f pre after k" "k \<notin> set (map Key kvs)" for k
  proof -
    have "k \<in> set (take n ks) \<union> set (drop n ks)"
      using that(1) set_ks by (metis append_take_drop_id mem_Collect_eq set_append)
    with that(2) keys have d: "k \<in> set (drop n ks)" by simp
    then have "hasMore" by (auto simp: n_def split: if_splits)
    moreover have "\<forall>x \<in> set (take n ks). x < k"
      using st d by (metis append_take_drop_id sorted_wrt_append)
    ultimately show ?thesis using keys by (metis image_eqI set_map)
  qed
  moreover have "\<exists>k. listed f pre after k \<and> k \<notin> set (map Key kvs)" if "hasMore"
  proof -
    have n: "n < length ks" using that hasMore by (auto simp: n_def)
    have "ks ! n \<notin> set (take n ks)"
      using st n by (auto simp: in_set_conv_nth sorted_wrt_iff_nth_less) (metis less_irrefl)
    then show ?thesis
      using n set_ks keys by (intro exI [of _ "ks ! n"]) auto
  qed
  ultimately show ?thesis
    unfolding f_def by blast
qed

theorem listLocked_page_witness:
  "let m = coll_Put ''1'' ''us'' ''q'' (coll_Put ''1'' ''us'' ''q'' (NewMemory '''') ''kb'' ''2'') ''ka'' ''1''
   in mem_ok m \<and> listLocked ''1'' ''us'' ''q'' m ''k'' '''' 1 = ([\<lparr>Key = ''ka'', Value = ''1''\<rparr>], True) \<and>
      (\<exists>k. listed (coll_Get ''1'' ''us'' ''q'' m) ''k'' '''' k \<and> k \<notin> {''ka''})"
proof -
  let ?m = "coll_Put ''1'' ''us'' ''q'' (coll_Put ''1'' ''us'' ''q'' (NewMemory '''') ''kb'' ''2'') ''ka'' ''1''"
  have ok: "mem_ok ?m" by simp
  have l: "listLocked ''1'' ''us'' ''q'' ?m ''k'' '''' 1 = ([\<lparr>Key = ''ka'', Value = ''1''\<rparr>], True)"
    by (simp add: listLocked_def listKeys_def coll_Put_def NewMemory_def scopeKey_def full_def
        scopeData_def Let_def HasPrefix_def TrimPrefix_def)
  show ?thesis
    using listLocked_page [OF ok l] ok l by (simp add: Let_def)
qed

text \<open>Paging is complete and never repeats: an unlimited listing is a page followed by the
  listing that starts after the page's last key.  The hypothesis that this key is not the empty
  string is needed: \<^verbatim>\<open>after == ""\<close> means "from the start", so a page that ends at the empty key
  cannot be resumed.
\<close>

theorem listLocked_resume:
  assumes "mem_ok m" "listLocked account region name m pre after limit = (kvs, True)"
    and "Key (last kvs) \<noteq> []"
  shows "fst (listLocked account region name m pre after 0) =
         kvs @ fst (listLocked account region name m pre (Key (last kvs)) 0)"
proof -
  let ?d = "scopeData m (scopeKey account region)" and ?f = "coll_Get account region name m"
  define ks where "ks = sortedKeys ?d name pre after"
  have lim: "0 < limit" "nat limit < length ks" and kvs: "kvs = map (entry_of ?f) (take (nat limit) ks)"
    using assms(2) by (auto simp: listLocked_eq Let_def ks_def split: if_splits)
  have last: "Key (last kvs) = ks ! (nat limit - 1)"
  proof -
    have "take (nat limit) ks \<noteq> []" using lim by auto
    then show ?thesis
      using lim by (simp add: kvs last_map last_conv_nth min_def)
  qed
  have d: "gmap_ok ?d" using assms(1) by (rule mem_ok_scopeData)
  have "sortedKeys ?d name pre (ks ! (nat limit - 1)) = drop (Suc (nat limit - 1)) ks"
    unfolding ks_def using lim assms(3) last
    by (intro sortedKeys_resume d) (auto simp: ks_def)
  then have "fst (listLocked account region name m pre (Key (last kvs)) 0) = map (entry_of ?f) (drop (nat limit) ks)"
    using lim by (simp add: listLocked_eq last)
  moreover have "fst (listLocked account region name m pre after 0) = map (entry_of ?f) ks"
    by (simp add: listLocked_eq ks_def)
  ultimately show ?thesis
    unfolding kvs by (metis append_take_drop_id map_append)
qed

theorem listLocked_resume_witness:
  "let m = coll_Put ''1'' ''us'' ''q'' (coll_Put ''1'' ''us'' ''q'' (NewMemory '''') ''kb'' ''2'') ''ka'' ''1''
   in fst (listLocked ''1'' ''us'' ''q'' m '''' '''' 0) =
        \<lparr>Key = ''ka'', Value = ''1''\<rparr> # fst (listLocked ''1'' ''us'' ''q'' m '''' ''ka'' 0)"
proof -
  let ?m = "coll_Put ''1'' ''us'' ''q'' (coll_Put ''1'' ''us'' ''q'' (NewMemory '''') ''kb'' ''2'') ''ka'' ''1''"
  have l: "listLocked ''1'' ''us'' ''q'' ?m '''' '''' 1 = ([\<lparr>Key = ''ka'', Value = ''1''\<rparr>], True)"
    by (simp add: listLocked_def listKeys_def coll_Put_def NewMemory_def scopeKey_def full_def
        scopeData_def Let_def HasPrefix_def TrimPrefix_def)
  show ?thesis
    using listLocked_resume [OF _ l] by (simp add: Let_def)
qed

text \<open>A listing is a function of the collection's content alone: the iteration order of Go's
  maps (here the order of the association lists) and whatever else the store holds do not show.
\<close>

theorem listLocked_deterministic:
  assumes "mem_ok m" "mem_ok m'"
    and "\<And>k. coll_Get account region name m k = coll_Get account region name m' k"
  shows "listLocked account region name m pre after limit =
         listLocked account region name m' pre after limit"
proof -
  have "sortedKeys (scopeData m (scopeKey account region)) name pre after =
        sortedKeys (scopeData m' (scopeKey account region)) name pre after"
    using assms by (intro sortedKeys_determined) (auto simp: mem_ok_scopeData coll_Get_def)
  moreover have "coll_Get account region name m = coll_Get account region name m'"
    using assms(3) by blast
  ultimately show ?thesis by (simp add: listLocked_eq)
qed

theorem listLocked_deterministic_witness:
  "let m = coll_Put ''1'' ''us'' ''q'' (coll_Put ''1'' ''us'' ''q'' (NewMemory '''') ''b'' ''2'') ''a'' ''1'';
       m' = coll_Put ''1'' ''us'' ''q'' (coll_Put ''1'' ''us'' ''q'' (NewMemory '''') ''a'' ''1'') ''b'' ''2''
   in m \<noteq> m' \<and> listLocked ''1'' ''us'' ''q'' m '''' '''' 0 = listLocked ''1'' ''us'' ''q'' m' '''' '''' 0"
proof -
  let ?m = "coll_Put ''1'' ''us'' ''q'' (coll_Put ''1'' ''us'' ''q'' (NewMemory '''') ''b'' ''2'') ''a'' ''1''"
  let ?m' = "coll_Put ''1'' ''us'' ''q'' (coll_Put ''1'' ''us'' ''q'' (NewMemory '''') ''a'' ''1'') ''b'' ''2''"
  have "?m \<noteq> ?m'"
    by (simp add: coll_Put_def NewMemory_def Let_def scopeData_def full_def)
  moreover have "listLocked ''1'' ''us'' ''q'' ?m '''' '''' 0 = listLocked ''1'' ''us'' ''q'' ?m' '''' '''' 0"
    by (rule listLocked_deterministic) (auto simp: coll_Get_Put)
  ultimately show ?thesis by (simp add: Let_def)
qed

section \<open>Snapshots\<close>

lemma tarFile_Snapshot:
  "Snapshot c m = Some t \<Longrightarrow> tarFile t ''manifest.json'' = marshalMeta c (lockSHA m) \<and>
     marshalData c (data m) = Some (tarFile t ''store.json'')"
  by (auto simp: Snapshot_def tarFile_def split: option.splits)

text \<open>A snapshot restores into any store of the same (or no) spec lock, and into no other.\<close>

lemma Restore_Snapshot:
  assumes "Snapshot c m = Some t"
    and "unmarshalMeta c (marshalMeta c (lockSHA m)) = Some (lockSHA m)"
    and "\<And>b. marshalData c (data m) = Some b \<Longrightarrow> unmarshalData c b = Some (data m)"
  shows "Restore c t m' =
     (if lockSHA m' \<noteq> [] \<and> lockSHA m \<noteq> [] \<and> lockSHA m \<noteq> lockSHA m'
      then Err (LockMismatch (lockSHA m) (lockSHA m')) else Ok (m'\<lparr>data := data m\<rparr>))"
  using tarFile_Snapshot [OF assms(1)] assms(2,3) by (auto simp: Restore_def)

end
