(* ===== verification/Execution.thy ===== *)
theory Execution
  imports GoVal Store
begin

text \<open>
  The execution boundary (\<^verbatim>\<open>internal/execution/execution.go\<close>: descriptors, the registry and its
  validated dispatch) and the native key-value backend behind it
  (\<^verbatim>\<open>internal/execution/native_kv.go\<close>).

  A failure's \<^verbatim>\<open>Detail\<close> text is a structured value (\<open>detail\<close>) that carries what the message
  prints.  Iterating a Go map picks the entries in list order; which of several validation errors
  is reported depends on that order in the program too, whether there is one does not.

  The backend's JSON encoding of an entry is the record \<open>kv_json\<close>: any encoder and decoder.
  \<^verbatim>\<open>NewRegistry\<close> compares two descriptors of one name by their printed forms; the model compares
  the values.  \<^verbatim>\<open>Clock.Now()\<close> is the reading in nanoseconds since 1970, \<open>None\<close> for a nil clock.
\<close>

section \<open>Descriptors and failures\<close>

datatype fail_class =
    ClassValidation | ClassUnsupported | ClassUnavailable | ClassAbsent | ClassConflict
  | ClassUnknownOutcome

datatype detail =
    RefMissingScope
  | KindNotAllowed string string
  | MissingInput string
  | WrongType string string gval
  | UnknownInput string
  | TakesNoBody
  | Cancelled
  | NotRegistered
  | Text string

record failure =
  Class :: fail_class
  FAction :: string
  Detail :: detail

datatype BodyMode = BodyNone | BodyBytes | BodyJSON | BodyStream | BodyOther string

datatype EffectClass = EffectRead | EffectWrite | EffectInvoke | EffectOther string

record field =
  Type :: string
  Required :: bool

record descriptor =
  DName :: string
  Version :: int
  Resource :: string
  Body :: BodyMode
  Effect :: EffectClass
  Backend :: string
  MinVersion :: string
  Input :: "(string, field) gmap"
  Output :: "(string, field) gmap"

record ref =
  Environment :: string
  Account :: string
  Region :: string
  Kind :: string
  RefID :: string
  Generation :: nat

record request =
  Ref :: ref
  Action :: string
  Args :: gobj
  ReqBody :: "string option"

text \<open>An error that is not a \<^verbatim>\<open>*Failure\<close> (a store or decoding error) or a nil dereference.\<close>

datatype call_err = Fail failure | Plain string | Panic

type_synonym 's call = "request \<Rightarrow> 's \<Rightarrow> (call_err, gobj \<times> 's) res"

record 's backend =
  Identity :: "string \<times> string"
  Describe :: "descriptor list"
  Call :: "'s call"

record 's registry =
  byName :: "(string, descriptor) gmap"
  rbackend :: "'s backend"

section \<open>Validation of descriptors\<close>

datatype reg_err =
    EmptyName | BadVersion string | NoResource string | BadBody string | BadEffect string
  | WrongBackend string | BadField string string | DeclaredTwice string | NoActions

definition known_types :: "string list" where
  "known_types = [''string'', ''bytes'', ''int'', ''bool'', ''json'']"

definition badField :: "(string, field) gmap \<Rightarrow> string option" where
  "badField fs = map_option fst (find (\<lambda>(n, f). Type f \<notin> set known_types) fs)"

definition validateDescriptor :: "descriptor \<Rightarrow> string \<Rightarrow> reg_err option" where
  "validateDescriptor d backendName =
     (if TrimSpace (DName d) = [] then Some EmptyName
      else if Version d < 1 then Some (BadVersion (DName d))
      else if TrimSpace (Resource d) = [] then Some (NoResource (DName d))
      else if Body d \<notin> {BodyNone, BodyBytes, BodyJSON, BodyStream} then Some (BadBody (DName d))
      else if Effect d \<notin> {EffectRead, EffectWrite, EffectInvoke} then Some (BadEffect (DName d))
      else if Backend d \<noteq> [] \<and> Backend d \<noteq> backendName then Some (WrongBackend (DName d))
      else (case badField (Input d) of
              Some n \<Rightarrow> Some (BadField (DName d) n)
            | None \<Rightarrow> map_option (BadField (DName d)) (badField (Output d))))"

fun register_all ::
  "string \<Rightarrow> descriptor list \<Rightarrow> (string, descriptor) gmap \<Rightarrow> (reg_err, (string, descriptor) gmap) res" where
  "register_all name [] seen = Ok seen"
| "register_all name (d # ds) seen =
     (case validateDescriptor d name of
        Some e \<Rightarrow> Err e
      | None \<Rightarrow>
          (case map_of seen (DName d) of
             Some prev \<Rightarrow> if prev \<noteq> d then Err (DeclaredTwice (DName d)) else register_all name ds seen
           | None \<Rightarrow> register_all name ds (AList.update (DName d) d seen)))"

definition NewRegistry :: "'s backend \<Rightarrow> (reg_err, 's registry) res" where
  "NewRegistry b =
     bindR (register_all (fst (Identity b)) (Describe b) [])
       (\<lambda>seen. if seen = [] then Err NoActions else Ok \<lparr>byName = seen, rbackend = b\<rparr>)"

definition Lookup :: "'s registry \<Rightarrow> string \<Rightarrow> descriptor option" where
  "Lookup r action = map_of (byName r) action"

definition Actions :: "'s registry \<Rightarrow> string list" where
  "Actions r = sort (gkeys (byName r))"

datatype cover_err = NotImplementedAction string | VersionMismatch string int int

fun Covers :: "'s registry \<Rightarrow> (string, int) gmap \<Rightarrow> cover_err option" where
  "Covers r [] = None"
| "Covers r ((name, version) # rest) =
     (case Lookup r name of
        None \<Rightarrow> Some (NotImplementedAction name)
      | Some d \<Rightarrow> if Version d \<noteq> version then Some (VersionMismatch name version (Version d))
                  else Covers r rest)"

section \<open>Dispatch\<close>

definition CheckRef :: "descriptor \<Rightarrow> ref \<Rightarrow> failure option" where
  "CheckRef d r =
     (if Environment r = [] \<or> Account r = [] \<or> Region r = [] \<or> RefID r = []
      then Some \<lparr>Class = ClassValidation, FAction = DName d, Detail = RefMissingScope\<rparr>
      else if Kind r \<noteq> Resource d
      then Some \<lparr>Class = ClassValidation, FAction = DName d, Detail = KindNotAllowed (Kind r) (Resource d)\<rparr>
      else None)"

definition typeMatches :: "string \<Rightarrow> gval \<Rightarrow> bool" where
  "typeMatches want v =
     (if want = ''string'' then (case v of VStr _ \<Rightarrow> True | _ \<Rightarrow> False)
      else if want = ''bytes'' then (case v of VBytes _ \<Rightarrow> True | _ \<Rightarrow> False)
      else if want = ''int'' then
        (case v of VInt _ \<Rightarrow> True | VInt64 _ \<Rightarrow> True
         | VFloat f \<Rightarrow> f64_eq f (f64_of_int (f64_to_int64 f)) | _ \<Rightarrow> False)
      else if want = ''bool'' then (case v of VBool _ \<Rightarrow> True | _ \<Rightarrow> False)
      else want = ''json'')"

definition checkInput :: "gobj \<Rightarrow> string \<times> field \<Rightarrow> detail option" where
  "checkInput args nf =
     (case nf of (name, f) \<Rightarrow>
        (let v = gget args name
         in if v = VNil then (if Required f then Some (MissingInput name) else None)
            else if \<not> typeMatches (Type f) v then Some (WrongType name (Type f) v) else None))"

definition first_some :: "('a \<Rightarrow> 'b option) \<Rightarrow> 'a list \<Rightarrow> 'b option" where
  "first_some f xs = (case List.map_filter f xs of [] \<Rightarrow> None | y # _ \<Rightarrow> Some y)"

definition ValidateArgs :: "descriptor \<Rightarrow> gobj \<Rightarrow> failure option" where
  "ValidateArgs d args =
     map_option (\<lambda>dt. \<lparr>Class = ClassValidation, FAction = DName d, Detail = dt\<rparr>)
       (case first_some (checkInput args) (Input d) of
          Some dt \<Rightarrow> Some dt
        | None \<Rightarrow> map_option UnknownInput (find (\<lambda>n. n \<notin> set (gkeys (Input d))) (gkeys args)))"

definition Dispatch :: "'s registry \<Rightarrow> bool \<Rightarrow> 's call" where
  "Dispatch r cancelled req s =
     (case Lookup r (Action req) of
        None \<Rightarrow> Err (Fail \<lparr>Class = ClassUnsupported, FAction = Action req, Detail = NotRegistered\<rparr>)
      | Some d \<Rightarrow>
          (case CheckRef d (Ref req) of
             Some f \<Rightarrow> Err (Fail f)
           | None \<Rightarrow>
               (case ValidateArgs d (Args req) of
                  Some f \<Rightarrow> Err (Fail f)
                | None \<Rightarrow>
                    if Body d = BodyNone \<and> ReqBody req \<noteq> None
                    then Err (Fail \<lparr>Class = ClassValidation, FAction = DName d, Detail = TakesNoBody\<rparr>)
                    else if cancelled
                    then Err (Fail \<lparr>Class = ClassUnavailable, FAction = DName d, Detail = Cancelled\<rparr>)
                    else Call (rbackend r) req s)))"

definition Execute ::
  "'s registry \<Rightarrow> bool \<Rightarrow> string \<Rightarrow> string \<Rightarrow> string \<Rightarrow> gobj \<Rightarrow> 's \<Rightarrow> (call_err, gobj \<times> 's) res" where
  "Execute r cancelled account region action args s =
     (let kind = (case Lookup r action of Some d \<Rightarrow> Resource d | None \<Rightarrow> ''entry'')
      in Dispatch r cancelled
           \<lparr>Ref = \<lparr>Environment = ''local'', Account = account, Region = region, Kind = kind,
                  RefID = action, Generation = 0\<rparr>,
            Action = action, Args = args, ReqBody = None\<rparr> s)"

end
