(* ===== verification/NativeKV.thy ===== *)
theory NativeKV
  imports Execution
begin

text \<open>
  The native key-value backend, \<^verbatim>\<open>internal/execution/native_kv.go\<close>: Workers KV entries with
  expiry, R2 objects and queue messages, kept in store collections named after the namespace,
  bucket or queue.  The operations are written against the interface \<open>collection\<close>; the lemmas
  about them are proved in the locale \<open>collection_laws\<close> (those about a write with the premise that the
  entry codec reads back what it wrote) and hold for the in-memory store by interpretation.
\<close>

section \<open>Entries\<close>

record entryRec =
  Name :: string
  EValue :: string
  Expiration :: int
  Metadata :: string

record kv_json =
  entryMarshal :: "entryRec \<Rightarrow> bytes option"
  entryUnmarshal :: "bytes \<Rightarrow> entryRec option"
  jsonUnmarshal :: "string \<Rightarrow> gval option"

record 's nativeKV =
  kvStore :: "'s store_if"
  kvClock :: "int option"
  kvJson :: kv_json

abbreviation unix :: "int \<Rightarrow> int" where "unix ns \<equiv> ns div 1000000000"

definition fld :: "string \<Rightarrow> bool \<Rightarrow> field" where
  "fld t r = \<lparr>Type = t, Required = r\<rparr>"

definition desc :: "string \<Rightarrow> string \<Rightarrow> EffectClass \<Rightarrow> (string, field) gmap \<Rightarrow> (string, field) gmap \<Rightarrow> descriptor" where
  "desc n res eff i out =
     \<lparr>DName = n, Version = 1, Resource = res, Body = BodyNone, Effect = eff, Backend = ''native-kv'',
      MinVersion = [], Input = i, Output = out\<rparr>"

definition kvDescribe :: "descriptor list" where
  "kvDescribe =
    [desc ''kv.get'' ''entry'' EffectRead
       [(''namespace'', fld ''string'' True), (''key'', fld ''string'' True), (''withMetadata'', fld ''bool'' False)]
       [(''found'', fld ''bool'' False), (''value'', fld ''string'' False), (''metadata'', fld ''json'' False)],
     desc ''kv.put'' ''entry'' EffectWrite
       [(''namespace'', fld ''string'' True), (''key'', fld ''string'' True), (''value'', fld ''string'' True),
        (''expiration'', fld ''int'' False), (''expirationTtl'', fld ''int'' False), (''metadata'', fld ''string'' False)]
       [(''stored'', fld ''bool'' False)],
     desc ''kv.delete'' ''entry'' EffectWrite
       [(''namespace'', fld ''string'' True), (''key'', fld ''string'' True)] [(''deleted'', fld ''bool'' False)],
     desc ''kv.list'' ''entry'' EffectRead
       [(''namespace'', fld ''string'' True), (''prefix'', fld ''string'' False)]
       [(''keys'', fld ''json'' False), (''listComplete'', fld ''bool'' False)],
     desc ''r2.put'' ''object'' EffectWrite
       [(''bucket'', fld ''string'' True), (''key'', fld ''string'' True), (''value'', fld ''string'' True)]
       [(''stored'', fld ''bool'' False)],
     desc ''r2.get'' ''object'' EffectRead
       [(''bucket'', fld ''string'' True), (''key'', fld ''string'' True)]
       [(''found'', fld ''bool'' False), (''value'', fld ''string'' False)],
     desc ''r2.delete'' ''object'' EffectWrite
       [(''bucket'', fld ''string'' True), (''key'', fld ''string'' True)] [(''deleted'', fld ''bool'' False)],
     desc ''r2.list'' ''object'' EffectRead [(''bucket'', fld ''string'' True)] [(''objects'', fld ''json'' False)],
     desc ''queue.send'' ''queue'' EffectWrite
       [(''queue'', fld ''string'' True), (''body'', fld ''string'' False)] [(''sent'', fld ''bool'' False)],
     desc ''d1.query'' ''database'' EffectWrite
       [(''database'', fld ''string'' True), (''sql'', fld ''string'' True), (''binds'', fld ''json'' False)]
       [(''results'', fld ''json'' False), (''success'', fld ''bool'' False)]]"

definition mkFail :: "fail_class \<Rightarrow> string \<Rightarrow> string \<Rightarrow> call_err" where
  "mkFail c a t = Fail \<lparr>Class = c, FAction = a, Detail = Text t\<rparr>"

definition liftS :: "(string, 'a) res \<Rightarrow> (call_err, 'a) res" where
  "liftS r = (case r of Inl e \<Rightarrow> Err (Plain e) | Inr a \<Rightarrow> Ok a)"

lemma liftS_simps [simp]: "liftS (Inr a) = Inr a" "liftS (Inl e) = Inl (Plain e)"
  by (simp_all add: liftS_def)

fun asInt :: "gval \<Rightarrow> int option" where
  "asInt (VInt i) = Some i"
| "asInt (VInt64 i) = Some i"
| "asInt (VFloat f) = Some (f64_to_int64 f)"
| "asInt (VStr s) = ParseInt10 (TrimSpace s)"
| "asInt _ = None"

definition decodeEntry :: "'s nativeKV \<Rightarrow> bytes \<Rightarrow> (call_err, entryRec) res" where
  "decodeEntry n raw =
     (case entryUnmarshal (kvJson n) raw of
        None \<Rightarrow> Err (Plain ''native-kv: decode entry'') | Some r \<Rightarrow> Ok r)"

definition expired :: "'s nativeKV \<Rightarrow> entryRec \<Rightarrow> bool" where
  "expired n rec =
     (if Expiration rec \<le> 0 then False
      else (case kvClock n of None \<Rightarrow> False | Some now \<Rightarrow> Expiration rec \<le> unix now))"

section \<open>Operations on entries\<close>

definition kv_get :: "'s nativeKV \<Rightarrow> 's collection \<Rightarrow> 's call" where
  "kv_get n col req s =
     bindR (liftS (cGet col s (gstr (Args req) ''key''))) (\<lambda>raw.
       case raw of
         None \<Rightarrow> Err (mkFail ClassAbsent ''kv.get'' ''key not found'')
       | Some raw \<Rightarrow>
           bindR (decodeEntry n raw) (\<lambda>rec.
             if expired n rec then Err (mkFail ClassAbsent ''kv.get'' ''key not found'')
             else Ok ([(''found'', VBool True), (''value'', VStr (EValue rec))] @
                      (if as_bool (gget (Args req) ''withMetadata'') \<and> Metadata rec \<noteq> []
                       then [(''metadata'', (case jsonUnmarshal (kvJson n) (Metadata rec) of
                                Some meta \<Rightarrow> meta | None \<Rightarrow> VStr (Metadata rec)))]
                       else []), s)))"

text \<open>\<open>Clock.Now().Unix() + ttl\<close> wraps at 64 bits; a nil clock panics.\<close>

definition put_expiration :: "'s nativeKV \<Rightarrow> gobj \<Rightarrow> (call_err, int) res" where
  "put_expiration n args =
     (case asInt (gget args ''expiration'') of
        Some e \<Rightarrow> if 0 < e then Ok e else Ok 0
      | None \<Rightarrow> Ok 0)"

definition ttl_expiration :: "'s nativeKV \<Rightarrow> gobj \<Rightarrow> (call_err, int) res" where
  "ttl_expiration n args =
     (case asInt (gget args ''expirationTtl'') of
        Some ttl \<Rightarrow>
          if 0 < ttl
          then (case kvClock n of None \<Rightarrow> Err Panic | Some now \<Rightarrow> Ok (wrap64 (unix now + ttl)))
          else Ok 0
      | None \<Rightarrow> Ok 0)"

definition entryExpiration :: "'s nativeKV \<Rightarrow> gobj \<Rightarrow> (call_err, int) res" where
  "entryExpiration n args =
     bindR (put_expiration n args) (\<lambda>e. if 0 < e then Ok e else ttl_expiration n args)"

definition kv_put :: "'s nativeKV \<Rightarrow> 's collection \<Rightarrow> 's call" where
  "kv_put n col req s =
     (let key = gstr (Args req) ''key'' in
      bindR (entryExpiration n (Args req)) (\<lambda>e.
        case entryMarshal (kvJson n)
               \<lparr>Name = key, EValue = gstr (Args req) ''value'', Expiration = e,
                Metadata = gstr (Args req) ''metadata''\<rparr> of
          None \<Rightarrow> Err (Plain ''marshal'')
        | Some raw \<Rightarrow> bindR (liftS (cPut col s key raw)) (\<lambda>s'. Ok ([(''stored'', VBool True)], s'))))"

definition kv_del :: "'s nativeKV \<Rightarrow> 's collection \<Rightarrow> 's call" where
  "kv_del n col req s =
     (let key = gstr (Args req) ''key'' in
      bindR (liftS (cGet col s key)) (\<lambda>raw.
       case raw of
         None \<Rightarrow> Err (mkFail ClassAbsent ''kv.delete'' ''key not found'')
       | Some raw \<Rightarrow>
           bindR (decodeEntry n raw) (\<lambda>rec.
             if expired n rec then Err (mkFail ClassAbsent ''kv.delete'' ''key not found'')
             else bindR (liftS (cDelete col s key)) (\<lambda>s'. Ok ([(''deleted'', VBool True)], s')))))"

definition listItem :: "'s nativeKV \<Rightarrow> KV \<Rightarrow> gval option" where
  "listItem n e =
     (case entryUnmarshal (kvJson n) (Value e) of
        None \<Rightarrow> None
      | Some rec \<Rightarrow>
          if expired n rec then None
          else Some (VMap ([(''name'', VStr (if Name rec = [] then Key e else Name rec))] @
             (if 0 < Expiration rec then [(''expiration'', VInt64 (Expiration rec))] else []) @
             (if Metadata rec \<noteq> []
              then (case jsonUnmarshal (kvJson n) (Metadata rec) of
                      Some meta \<Rightarrow> [(''metadata'', meta)] | None \<Rightarrow> [])
              else []))))"

definition kv_list :: "'s nativeKV \<Rightarrow> 's collection \<Rightarrow> 's call" where
  "kv_list n col req s =
     bindR (liftS (cList col s (gstr (Args req) ''prefix'') [] 0)) (\<lambda>(entries, _).
       Ok ([(''keys'', VList (List.map_filter (listItem n) entries)), (''listComplete'', VBool True)], s))"

section \<open>Objects and queues\<close>

definition kv_r2 :: "'s nativeKV \<Rightarrow> 's call" where
  "kv_r2 n req s =
     (let bucket = gstr (Args req) ''bucket'';
          col = kvStore n (Account (Ref req)) (Region (Ref req)) (''cfr2:'' @ bucket);
          key = gstr (Args req) ''key''
      in if bucket = [] then Err (mkFail ClassValidation (Action req) ''bucket required'')
         else if Action req = ''r2.put'' then
           (if key = [] then Err (mkFail ClassValidation (Action req) ''key required'')
            else bindR (liftS (cPut col s key (gstr (Args req) ''value''))) (\<lambda>s'.
                   Ok ([(''stored'', VBool True)], s')))
         else if Action req = ''r2.get'' then
           bindR (liftS (cGet col s key)) (\<lambda>raw.
             case raw of
               None \<Rightarrow> Err (mkFail ClassAbsent ''r2.get'' ''object not found'')
             | Some b \<Rightarrow> Ok ([(''found'', VBool True), (''value'', VStr b)], s))
         else if Action req = ''r2.delete'' then
           bindR (liftS (cDelete col s key)) (\<lambda>s'. Ok ([(''deleted'', VBool True)], s'))
         else if Action req = ''r2.list'' then
           bindR (liftS (cList col s [] [] 0)) (\<lambda>(entries, _).
             Ok ([(''objects'', VList (map (\<lambda>e. VMap [(''key'', VStr (Key e))]) entries))], s))
         else Err (mkFail ClassUnsupported (Action req) ''r2''))"

definition queueSend :: "'s nativeKV \<Rightarrow> 's call" where
  "queueSend n req s =
     (let q = gstr (Args req) ''queue'';
          col = kvStore n (Account (Ref req)) (Region (Ref req)) (''cfq:'' @ q)
      in if q = [] then Err (mkFail ClassValidation (Action req) ''queue required'')
         else (case kvClock n of
                 None \<Rightarrow> Err Panic
               | Some now \<Rightarrow>
                   bindR (liftS (cPut col s (show_int now) (gstr (Args req) ''body''))) (\<lambda>s'.
                     Ok ([(''sent'', VBool True)], s'))))"

definition kvCall :: "'s nativeKV \<Rightarrow> 's call" where
  "kvCall n req s =
     (if Action req \<in> {''kv.get'', ''kv.put'', ''kv.delete'', ''kv.list''} then
        (let ns = gstr (Args req) ''namespace'';
             col = kvStore n (Account (Ref req)) (Region (Ref req)) (''cfkv:'' @ ns)
         in if ns = [] then Err (mkFail ClassValidation (Action req) ''namespace required'')
            else if Action req = ''kv.get'' then kv_get n col req s
            else if Action req = ''kv.put'' then kv_put n col req s
            else if Action req = ''kv.delete'' then kv_del n col req s
            else kv_list n col req s)
      else if Action req \<in> {''r2.put'', ''r2.get'', ''r2.delete'', ''r2.list''} then kv_r2 n req s
      else if Action req = ''queue.send'' then queueSend n req s
      else if Action req = ''d1.query'' then Ok ([(''results'', VList []), (''success'', VBool True)], s)
      else Err (mkFail ClassUnsupported (Action req) ''native-kv closed set''))"

definition kvBackend :: "'s nativeKV \<Rightarrow> 's backend" where
  "kvBackend n = \<lparr>Identity = (''native-kv'', ''1''), Describe = kvDescribe, Call = kvCall n\<rparr>"

section \<open>The backend as a client of the store\<close>

definition codec_ok :: "kv_json \<Rightarrow> bool" where
  "codec_ok j \<longleftrightarrow> (\<forall>r b. entryMarshal j r = Some b \<longrightarrow> entryUnmarshal j b = Some r)"

context collection_laws begin

lemma put_result:
  assumes "ok s" "codec_ok (kvJson n)" "kv_put n C req s = Ok (out, s')"
  shows "\<exists>e raw. entryExpiration n (Args req) = Ok e \<and> ok s' \<and>
      view s' = (view s)(gstr (Args req) ''key'' \<mapsto> raw) \<and>
      entryUnmarshal (kvJson n) raw = Some \<lparr>Name = gstr (Args req) ''key'', EValue = gstr (Args req) ''value'',
        Expiration = e, Metadata = gstr (Args req) ''metadata''\<rparr>"
proof -
  obtain e where e: "entryExpiration n (Args req) = Ok e"
    using assms(3) by (auto simp: kv_put_def Let_def bindR_Ok_iff)
  then obtain raw where raw: "entryMarshal (kvJson n) \<lparr>Name = gstr (Args req) ''key'',
      EValue = gstr (Args req) ''value'', Expiration = e, Metadata = gstr (Args req) ''metadata''\<rparr> = Some raw"
    and put: "liftS (cPut C s (gstr (Args req) ''key'') raw) = Ok s'"
    using assms(2,3) by (auto simp: kv_put_def Let_def bindR_Ok_iff split: option.splits)
  from put have "cPut C s (gstr (Args req) ''key'') raw = Ok s'"
    by (auto simp: liftS_def split: sum.splits)
  then show ?thesis
    using Put_ok [OF assms(1)] raw e assms(2) by (auto simp: codec_ok_def)
qed

lemma get_result:
  assumes "ok s"
  shows "kv_get n C req s =
    (case view s (gstr (Args req) ''key'') of
       None \<Rightarrow> Err (mkFail ClassAbsent ''kv.get'' ''key not found'')
     | Some raw \<Rightarrow>
         (case entryUnmarshal (kvJson n) raw of
            None \<Rightarrow> Err (Plain ''native-kv: decode entry'')
          | Some rec \<Rightarrow>
              if expired n rec then Err (mkFail ClassAbsent ''kv.get'' ''key not found'')
              else Ok ([(''found'', VBool True), (''value'', VStr (EValue rec))] @
                 (if as_bool (gget (Args req) ''withMetadata'') \<and> Metadata rec \<noteq> []
                  then [(''metadata'', (case jsonUnmarshal (kvJson n) (Metadata rec) of
                           Some meta \<Rightarrow> meta | None \<Rightarrow> VStr (Metadata rec)))]
                  else []), s)))"
  using Get [OF assms(1)]
  by (auto simp: kv_get_def decodeEntry_def split: option.splits)

text \<open>A key is listed exactly when reading it at the same instant succeeds.\<close>

lemma listItem_iff_get:
  assumes "ok s" "view s k \<noteq> None" "gstr (Args req) ''key'' = k"
  shows "(\<exists>item. listItem n (entry_of (view s) k) = Some item) \<longleftrightarrow> (\<exists>o'. kv_get n C req s = Ok o')"
  using assms
  by (auto simp: get_result listItem_def entry_of_def split: option.splits)

lemma map_filter_sorted:
  "List.map_filter f xs = map (\<lambda>x. the (f x)) (filter (\<lambda>x. f x \<noteq> None) xs)"
  by (simp add: map_filter_def comp_def)

lemma list_result:
  assumes "ok s"
  shows "\<exists>ks. kv_list n C req s =
        Ok ([(''keys'', VList (map (\<lambda>k. the (listItem n (entry_of (view s) k))) ks)),
             (''listComplete'', VBool True)], s) \<and>
     sorted_wrt (<) ks \<and>
     set ks = {k. HasPrefix k (gstr (Args req) ''prefix'') \<and>
                  (\<exists>o'. kv_get n C (req\<lparr>Args := [(''key'', VStr k)]\<rparr>) s = Ok o')}"
proof -
  let ?p = "gstr (Args req) ''prefix''"
  let ?sel = "\<lambda>k. listItem n (entry_of (view s) k) \<noteq> None"
  obtain ks where l: "cList C s ?p [] 0 = Ok (map (entry_of (view s)) ks, False)"
    and st: "sorted_wrt (<) ks" and ks: "set ks = {k. listed (view s) ?p [] k}"
    using List [OF assms] by blast
  have sel: "?sel k \<longleftrightarrow> (\<exists>o'. kv_get n C (req\<lparr>Args := [(''key'', VStr k)]\<rparr>) s = Ok o')"
    if "view s k \<noteq> None" for k
    using listItem_iff_get [OF assms that] by auto
  have live: "view s k \<noteq> None"
    if "kv_get n C (req\<lparr>Args := [(''key'', VStr k)]\<rparr>) s = Ok o'" for k o'
    using that assms by (auto simp: get_result split: option.splits)
  have "List.map_filter (listItem n) (map (entry_of (view s)) ks) =
        map (\<lambda>k. the (listItem n (entry_of (view s) k))) (filter ?sel ks)"
    by (simp add: map_filter_sorted filter_map comp_def)
  then have "kv_list n C req s =
      Ok ([(''keys'', VList (map (\<lambda>k. the (listItem n (entry_of (view s) k))) (filter ?sel ks))),
           (''listComplete'', VBool True)], s)"
    using l by (simp add: kv_list_def)
  moreover have "set (filter ?sel ks) =
      {k. HasPrefix k ?p \<and> (\<exists>o'. kv_get n C (req\<lparr>Args := [(''key'', VStr k)]\<rparr>) s = Ok o')}"
  proof -
    have "k \<in> set (filter ?sel ks) \<longleftrightarrow> view s k \<noteq> None \<and> HasPrefix k ?p \<and> ?sel k" for k
      using ks by (auto simp: listed_def)
    with sel live show ?thesis by (intro set_eqI) blast
  qed
  ultimately show ?thesis
    using st sorted_wrt_filter by blast
qed

lemma del_removes:
  assumes "ok s" "kv_del n C req s = Ok (out, s')"
  shows "ok s' \<and> view s' = (view s)(gstr (Args req) ''key'' := None)"
proof -
  have "cDelete C s (gstr (Args req) ''key'') = Ok s'"
    using assms(2) by (auto simp: kv_del_def Let_def bindR_Ok_iff liftS_def
        split: option.splits if_splits sum.splits)
  then show ?thesis using Delete_ok assms(1) by blast
qed

end

section \<open>Properties\<close>

definition memKV :: "kv_json \<Rightarrow> int \<Rightarrow> memory nativeKV" where
  "memKV j now = \<lparr>kvStore = mem_collection, kvClock = Some now, kvJson = j\<rparr>"

definition kvReq :: "string \<Rightarrow> string \<Rightarrow> string \<Rightarrow> gobj \<Rightarrow> request" where
  "kvReq account region action args =
     \<lparr>Ref = \<lparr>Environment = ''local'', Account = account, Region = region, Kind = ''entry'',
            RefID = action, Generation = 0\<rparr>,
      Action = action, Args = args, ReqBody = None\<rparr>"

lemma memKV_simps [simp]:
  "kvStore (memKV j t) = mem_collection" "kvClock (memKV j t) = Some t" "kvJson (memKV j t) = j"
  by (simp_all add: memKV_def)

lemma kvReq_simps [simp]:
  "Account (Ref (kvReq a r act args)) = a" "Region (Ref (kvReq a r act args)) = r"
  "Action (kvReq a r act args) = act" "Args (kvReq a r act args) = args"
  by (simp_all add: kvReq_def)

lemma entryExpiration_ttl:
  assumes "0 < ttl" "in_int64 (unix t + ttl)"
    "gget args ''expiration'' = VNil" "gget args ''expirationTtl'' = VInt64 ttl"
  shows "entryExpiration (memKV j t) args = Ok (unix t + ttl)"
  using assms by (simp add: entryExpiration_def put_expiration_def ttl_expiration_def wrap64_id)


text \<open>A codec for the witnesses: it knows a single entry and its text.\<close>

definition demo_json :: kv_json where
  "demo_json =
     \<lparr>entryMarshal = (\<lambda>r. if r = \<lparr>Name = ''k'', EValue = ''v'', Expiration = 65, Metadata = []\<rparr>
                          then Some ''E'' else None),
      entryUnmarshal = (\<lambda>b. if b = ''E''
                          then Some \<lparr>Name = ''k'', EValue = ''v'', Expiration = 65, Metadata = []\<rparr> else None),
      jsonUnmarshal = (\<lambda>_. None)\<rparr>"

lemma demo_json_ok: "codec_ok demo_json"
  by (auto simp: codec_ok_def demo_json_def split: if_splits)


text \<open>\<^verbatim>\<open>kv.list\<close> and \<^verbatim>\<open>kv.get\<close> agree on what exists.  The listing of a prefix has one item per
  key that has the prefix and that a \<^verbatim>\<open>kv.get\<close> at the same instant would find (so never an
  expired or undecodable one), in strictly ascending key order, and reading changes nothing.
\<close>

theorem kv_list_live:
  assumes "mem_ok m"
  shows "\<exists>ks. kv_list (memKV j t) (mem_collection account region name) req m =
        Ok ([(''keys'', VList (map (\<lambda>k. the (listItem (memKV j t)
               (entry_of (coll_Get account region name m) k))) ks)),
             (''listComplete'', VBool True)], m) \<and>
     sorted_wrt (<) ks \<and>
     set ks = {k. HasPrefix k (gstr (Args req) ''prefix'') \<and>
        (\<exists>o'. kv_get (memKV j t) (mem_collection account region name)
                 (req\<lparr>Args := [(''key'', VStr k)]\<rparr>) m = Ok o')}"
  using mem.list_result [OF assms] by blast

theorem kv_list_live_witness:
  "mem_ok (coll_Put ''1'' ''us'' ''cfkv:n'' (NewMemory []) ''k'' ''E'') \<and>
   (\<exists>ks. set ks = {k. HasPrefix k [] \<and> (\<exists>o'. kv_get (memKV demo_json 0) (mem_collection ''1'' ''us'' ''cfkv:n'')
        ((kvReq ''1'' ''us'' ''kv.list'' [])\<lparr>Args := [(''key'', VStr k)]\<rparr>)
        (coll_Put ''1'' ''us'' ''cfkv:n'' (NewMemory []) ''k'' ''E'') = Ok o')})"
proof -
  have m: "mem_ok (coll_Put ''1'' ''us'' ''cfkv:n'' (NewMemory []) ''k'' ''E'')" by simp
  show ?thesis
    using m kv_list_live [OF m, of demo_json 0 "''1''" "''us''" "''cfkv:n''" "kvReq ''1'' ''us'' ''kv.list'' []"]
    by auto
qed

text \<open>The native backend registers, and its registry serves exactly its declared actions: every
  descriptor of \<^verbatim>\<open>Describe\<close> passes \<^verbatim>\<open>validateDescriptor\<close>, no name is declared twice, and
  \<^verbatim>\<open>Lookup\<close> answers each action with its descriptor.
\<close>

theorem kv_registers:
  "\<exists>r. NewRegistry (kvBackend n) = Ok r \<and> gmap_ok (byName r) \<and>
       (\<forall>a. Lookup r a = find (\<lambda>d. DName d = a) kvDescribe)"
proof -
  let ?tab = "map (\<lambda>d. (DName d, d)) kvDescribe"
  have "register_all ''native-kv'' kvDescribe [] = Ok ?tab"
    by (simp add: kvDescribe_def desc_def fld_def validateDescriptor_def badField_def known_types_def
        TrimSpace_def is_space_def)
  then have "NewRegistry (kvBackend n) = Ok \<lparr>byName = ?tab, rbackend = kvBackend n\<rparr>"
    by (simp add: NewRegistry_def kvBackend_def kvDescribe_def)
  moreover have "gmap_ok ?tab"
    by (simp add: gmap_ok_def kvDescribe_def desc_def)
  moreover have "map_of ?tab a = find (\<lambda>d. DName d = a) kvDescribe" for a
    by (simp add: kvDescribe_def desc_def)
  ultimately show ?thesis
    by (intro exI [of _ "\<lparr>byName = ?tab, rbackend = kvBackend n\<rparr>"]) (simp add: Lookup_def)
qed

text \<open>A queue keeps one message per clock reading.  The message id is the clock's nanosecond
  count, so of two messages sent at one reading (every message of a test on a controllable clock
  that is not advanced) only the second is stored.
\<close>

theorem queueSend_same_instant_overwrites:
  assumes "mem_ok m"
    and "queueSend (memKV j t) (kvReq account region ''queue.send''
           [(''queue'', VStr q), (''body'', VStr b1)]) m = Ok (o1, m1)"
    and "queueSend (memKV j t) (kvReq account region ''queue.send''
           [(''queue'', VStr q), (''body'', VStr b2)]) m1 = Ok (o2, m2)"
  shows "coll_Get account region (''cfq:'' @ q) m2 =
         (coll_Get account region (''cfq:'' @ q) m)(show_int t \<mapsto> b2)"
proof -
  have "m1 = coll_Put account region (''cfq:'' @ q) m (show_int t) b1"
    and "m2 = coll_Put account region (''cfq:'' @ q) m1 (show_int t) b2"
    using assms(2,3) by (auto simp: queueSend_def Let_def mem_collection_def split: if_splits)
  then show ?thesis by (auto simp: coll_Get_Put)
qed

theorem queueSend_same_instant_overwrites_witness:
  "\<exists>o1 m1 o2 m2. queueSend (memKV demo_json 0) (kvReq ''1'' ''us'' ''queue.send''
       [(''queue'', VStr ''q''), (''body'', VStr ''first'')]) (NewMemory []) = Ok (o1, m1) \<and>
     queueSend (memKV demo_json 0) (kvReq ''1'' ''us'' ''queue.send''
       [(''queue'', VStr ''q''), (''body'', VStr ''second'')]) m1 = Ok (o2, m2) \<and>
     coll_Get ''1'' ''us'' ''cfq:q'' m2 = [show_int 0 \<mapsto> ''second'']"
proof -
  let ?m1 = "coll_Put ''1'' ''us'' ''cfq:q'' (NewMemory []) (show_int 0) ''first''"
  let ?m2 = "coll_Put ''1'' ''us'' ''cfq:q'' ?m1 (show_int 0) ''second''"
  have 1: "queueSend (memKV demo_json 0) (kvReq ''1'' ''us'' ''queue.send''
       [(''queue'', VStr ''q''), (''body'', VStr ''first'')]) (NewMemory []) = Ok ([(''sent'', VBool True)], ?m1)"
    and 2: "queueSend (memKV demo_json 0) (kvReq ''1'' ''us'' ''queue.send''
       [(''queue'', VStr ''q''), (''body'', VStr ''second'')]) ?m1 = Ok ([(''sent'', VBool True)], ?m2)"
    by (simp_all add: queueSend_def mem_collection_def Let_def)
  have "coll_Get ''1'' ''us'' ''cfq:q'' ?m2 = [show_int 0 \<mapsto> ''second'']"
    using queueSend_same_instant_overwrites [OF mem_ok_NewMemory 1 2] by (auto simp: fun_eq_iff)
  with 1 2 show ?thesis by blast
qed

end
