(* ===== verification/Lifecycle.thy ===== *)
theory Lifecycle
  imports Prelude GoVal "HOL-Library.Word"
begin

text \<open>
  Durable run admission and fencing (\<^verbatim>\<open>internal/execution/cicd/lifecycle\<close>): the records of
  \<^verbatim>\<open>records.go\<close>, the errors and requests of \<^verbatim>\<open>admit.go\<close> and the in-memory store of
  \<^verbatim>\<open>store.go\<close>.

  Each method of \<^verbatim>\<open>MemoryStore\<close> holds the store's mutex for its whole body, so it is one
  atomic function of the store; \<^verbatim>\<open>s.now()\<close> is an argument.  A \<^verbatim>\<open>time.Time\<close> is the number of
  nanoseconds after Go's zero time, so the zero value is 0.  The sequence counter is a 64-bit word
  and wraps as the program's does; the step relation at the end takes an admission only while four
  more identifiers fit, which is where identifiers are fresh.
\<close>

section \<open>Records\<close>

type_synonym time = int

record Scope =
  Environment :: string
  SAccount :: string
  SRegion :: string
  Project :: string
  Repository :: string
  TrustDomain :: string

record Requirement =
  Capability :: string
  Revision :: string

record BlobRef =
  BKey :: string
  SHA256 :: string
  SizeBytes :: int
  MediaType :: string

datatype DeliveryState = DeliveryUnset | DeliveryPending | DeliveryLeased | DeliveryAcked | DeliveryFailed

record Lease =
  Owner :: string
  Expiry :: time

record Run =
  rID :: string
  rScope :: Scope
  rNativeService :: string
  rNativeResource :: string
  rConfigRef :: string
  rMode :: string
  rProfile :: string
  rInitiatingEvent :: string
  rSchedulerOwner :: string
  rCurrentAttempt :: string
  rAdmittedAt :: time
  rNativeStatus :: string
  rSubmissionKey :: string
  rFingerprint :: string
  rGeneration :: string

record Attempt =
  aID :: string
  aRunID :: string
  aParentAttemptID :: string
  aGeneration :: string
  aSubmissionKey :: string
  aFingerprint :: string
  aBackend :: string
  aBackendHandle :: string
  aRequirements :: "Requirement list"
  aQueuedAt :: time
  aStartedAt :: time
  aFinishedAt :: time
  aCancelRequested :: bool
  aCompletionReason :: string
  aTerminal :: bool

record DispatchIntent =
  iID :: string
  iAttemptID :: string
  iScope :: Scope
  iAction :: string
  iInputRefs :: "string list"
  iRequestDigest :: string
  iExpectedGeneration :: string
  iDeliveryState :: DeliveryState
  iLease :: Lease
  iRetryClass :: string
  iSubmissionKey :: string
  iFingerprint :: string

record ExecutionReceipt =
  xMode :: string
  xAttemptID :: string
  xGeneration :: string
  xSourceDigest :: string
  xConfigDigest :: string
  xToolDigest :: string
  xImageDigest :: string
  xSchedulerOwner :: string
  xEnvVarNames :: "string list"
  xEnvVersionRefs :: "string list"
  xExitCode :: int
  xSignal :: string
  xOutcome :: string
  xConclusion :: string
  xLogRefs :: "BlobRef list"
  xOutputManifests :: "BlobRef list"
  xStartedAt :: time
  xFinishedAt :: time
  xCancellation :: string
  xDestinationObs :: "string list"

text \<open>Go's zero values, which an absent map entry reads as.\<close>

definition zeroScope :: Scope where
  "zeroScope = \<lparr>Environment = [], SAccount = [], SRegion = [], Project = [], Repository = [], TrustDomain = []\<rparr>"

definition zeroLease :: Lease where
  "zeroLease = \<lparr>Owner = [], Expiry = 0\<rparr>"

definition zeroRun :: Run where
  "zeroRun = \<lparr>rID = [], rScope = zeroScope, rNativeService = [], rNativeResource = [], rConfigRef = [],
     rMode = [], rProfile = [], rInitiatingEvent = [], rSchedulerOwner = [], rCurrentAttempt = [],
     rAdmittedAt = 0, rNativeStatus = [], rSubmissionKey = [], rFingerprint = [], rGeneration = []\<rparr>"

definition zeroAttempt :: Attempt where
  "zeroAttempt = \<lparr>aID = [], aRunID = [], aParentAttemptID = [], aGeneration = [], aSubmissionKey = [],
     aFingerprint = [], aBackend = [], aBackendHandle = [], aRequirements = [], aQueuedAt = 0,
     aStartedAt = 0, aFinishedAt = 0, aCancelRequested = False, aCompletionReason = [], aTerminal = False\<rparr>"

definition zeroIntent :: DispatchIntent where
  "zeroIntent = \<lparr>iID = [], iAttemptID = [], iScope = zeroScope, iAction = [], iInputRefs = [],
     iRequestDigest = [], iExpectedGeneration = [], iDeliveryState = DeliveryUnset, iLease = zeroLease,
     iRetryClass = [], iSubmissionKey = [], iFingerprint = []\<rparr>"

definition zeroReceipt :: ExecutionReceipt where
  "zeroReceipt = \<lparr>xMode = [], xAttemptID = [], xGeneration = [], xSourceDigest = [], xConfigDigest = [],
     xToolDigest = [], xImageDigest = [], xSchedulerOwner = [], xEnvVarNames = [], xEnvVersionRefs = [],
     xExitCode = 0, xSignal = [], xOutcome = [], xConclusion = [], xLogRefs = [], xOutputManifests = [],
     xStartedAt = 0, xFinishedAt = 0, xCancellation = [], xDestinationObs = []\<rparr>"

section \<open>Requests, results and errors\<close>

datatype life_err =
    ErrConflict | ErrConflictEmptyKey | ErrStaleGeneration | ErrLeaseHeld | ErrNotFound | ErrAlreadyTerminal

record AdmitRequest =
  qScope :: Scope
  qSubmissionKey :: string
  qFingerprint :: string
  qGeneration :: string
  qMode :: string
  qProfile :: string
  qConfigRef :: string
  qNativeService :: string
  qNativeResource :: string
  qInitiatingEvent :: string
  qSchedulerOwner :: string
  qAction :: string
  qInputRefs :: "string list"
  qRequestDigest :: string
  qRetryClass :: string
  qBackend :: string
  qRequirements :: "Requirement list"

record AdmitResult =
  arRun :: Run
  arAttempt :: Attempt
  arIntent :: DispatchIntent
  arExisting :: bool

section \<open>The memory store\<close>

record life_store =
  seq :: "64 word"
  byKey :: "(string, string) gmap"
  runs :: "(string, Run) gmap"
  attempts :: "(string, Attempt) gmap"
  intents :: "(string, DispatchIntent) gmap"
  receipts :: "(string, ExecutionReceipt) gmap"

definition NewMemoryStore :: life_store where
  "NewMemoryStore = \<lparr>seq = 0, byKey = [], runs = [], attempts = [], intents = [], receipts = []\<rparr>"

definition nextID :: "string \<Rightarrow> life_store \<Rightarrow> string \<times> life_store" where
  "nextID p s = (let n = seq s + 1 in (p @ ''-'' @ show_nat (unat n), s\<lparr>seq := n\<rparr>))"

definition GetRun :: "life_store \<Rightarrow> string \<Rightarrow> Run option" where
  "GetRun s i = map_of (runs s) i"

definition GetAttempt :: "life_store \<Rightarrow> string \<Rightarrow> Attempt option" where
  "GetAttempt s i = map_of (attempts s) i"

definition GetIntent :: "life_store \<Rightarrow> string \<Rightarrow> DispatchIntent option" where
  "GetIntent s i = map_of (intents s) i"

definition GetReceipt :: "life_store \<Rightarrow> string \<Rightarrow> ExecutionReceipt option" where
  "GetReceipt s i = map_of (receipts s) i"

text \<open>The idempotent branch of \<^verbatim>\<open>Admit\<close>: the triple an earlier submission created.\<close>

definition existingTriple :: "life_store \<Rightarrow> DispatchIntent \<Rightarrow> AdmitResult" where
  "existingTriple s intent =
     (let attempt = (case GetAttempt s (iAttemptID intent) of Some a \<Rightarrow> a | None \<Rightarrow> zeroAttempt);
          run = (case GetRun s (aRunID attempt) of Some r \<Rightarrow> r | None \<Rightarrow> zeroRun)
      in \<lparr>arRun = run, arAttempt = attempt, arIntent = intent, arExisting = True\<rparr>)"

definition admitGeneration :: "AdmitRequest \<Rightarrow> life_store \<Rightarrow> string \<times> life_store" where
  "admitGeneration req s = (if qGeneration req = [] then nextID ''gen'' s else (qGeneration req, s))"

definition newRun :: "AdmitRequest \<Rightarrow> time \<Rightarrow> string \<Rightarrow> string \<Rightarrow> string \<Rightarrow> Run" where
  "newRun req now gen runID attemptID =
     \<lparr>rID = runID, rScope = qScope req, rNativeService = qNativeService req,
      rNativeResource = qNativeResource req, rConfigRef = qConfigRef req, rMode = qMode req,
      rProfile = qProfile req, rInitiatingEvent = qInitiatingEvent req,
      rSchedulerOwner = qSchedulerOwner req, rCurrentAttempt = attemptID, rAdmittedAt = now,
      rNativeStatus = ''accepted'', rSubmissionKey = qSubmissionKey req,
      rFingerprint = qFingerprint req, rGeneration = gen\<rparr>"

definition newAttempt :: "AdmitRequest \<Rightarrow> time \<Rightarrow> string \<Rightarrow> string \<Rightarrow> string \<Rightarrow> Attempt" where
  "newAttempt req now gen runID attemptID =
     zeroAttempt\<lparr>aID := attemptID, aRunID := runID, aGeneration := gen,
       aSubmissionKey := qSubmissionKey req, aFingerprint := qFingerprint req,
       aBackend := qBackend req, aRequirements := qRequirements req, aQueuedAt := now\<rparr>"

definition newIntent :: "AdmitRequest \<Rightarrow> string \<Rightarrow> string \<Rightarrow> string \<Rightarrow> DispatchIntent" where
  "newIntent req gen attemptID intentID =
     zeroIntent\<lparr>iID := intentID, iAttemptID := attemptID, iScope := qScope req, iAction := qAction req,
       iInputRefs := qInputRefs req,
       iRequestDigest := (if qRequestDigest req = [] then qFingerprint req else qRequestDigest req),
       iExpectedGeneration := gen, iDeliveryState := DeliveryPending, iRetryClass := qRetryClass req,
       iSubmissionKey := qSubmissionKey req, iFingerprint := qFingerprint req\<rparr>"

definition Admit ::
  "time \<Rightarrow> AdmitRequest \<Rightarrow> life_store \<Rightarrow> (life_err, AdmitResult) res \<times> life_store" where
  "Admit now req s =
     (if qSubmissionKey req = [] then (Err ErrConflictEmptyKey, s)
      else case map_of (byKey s) (qSubmissionKey req) of
        Some intentID \<Rightarrow>
          (let intent = (case GetIntent s intentID of Some i \<Rightarrow> i | None \<Rightarrow> zeroIntent)
           in if iFingerprint intent \<noteq> qFingerprint req then (Err ErrConflict, s)
              else (Ok (existingTriple s intent), s))
      | None \<Rightarrow>
          (let (gen, s1) = admitGeneration req s;
               (runID, s2) = nextID ''run'' s1;
               (attemptID, s3) = nextID ''attempt'' s2;
               (intentID, s4) = nextID ''intent'' s3;
               run = newRun req now gen runID attemptID;
               attempt = newAttempt req now gen runID attemptID;
               intent = newIntent req gen attemptID intentID
           in (Ok \<lparr>arRun = run, arAttempt = attempt, arIntent = intent, arExisting = False\<rparr>,
               s4\<lparr>runs := AList.update runID run (runs s4),
                  attempts := AList.update attemptID attempt (attempts s4),
                  intents := AList.update intentID intent (intents s4),
                  byKey := AList.update (qSubmissionKey req) intentID (byKey s4)\<rparr>)))"

definition leaseHeld :: "time \<Rightarrow> Lease \<Rightarrow> bool" where
  "leaseHeld now l \<longleftrightarrow> Owner l \<noteq> [] \<and> now < Expiry l"

definition TryAcquireLease ::
  "time \<Rightarrow> string \<Rightarrow> string \<Rightarrow> time \<Rightarrow> life_store \<Rightarrow> (life_err, DispatchIntent) res \<times> life_store" where
  "TryAcquireLease now intentID owner expiry s =
     (case GetIntent s intentID of
        None \<Rightarrow> (Err ErrNotFound, s)
      | Some intent \<Rightarrow>
          if leaseHeld now (iLease intent) \<and> Owner (iLease intent) \<noteq> owner then (Err ErrLeaseHeld, s)
          else (let intent' = intent\<lparr>iLease := \<lparr>Owner = owner, Expiry = expiry\<rparr>,
                                     iDeliveryState := DeliveryLeased\<rparr>
                in (Ok intent', s\<lparr>intents := AList.update intentID intent' (intents s)\<rparr>)))"

definition ackIntent :: "string \<Rightarrow> DispatchIntent \<Rightarrow> DispatchIntent" where
  "ackIntent attemptID intent =
     (if iAttemptID intent = attemptID
      then intent\<lparr>iDeliveryState := DeliveryAcked, iLease := zeroLease\<rparr> else intent)"

definition markTerminalLocked :: "Attempt \<Rightarrow> life_store \<Rightarrow> life_store" where
  "markTerminalLocked attempt s =
     s\<lparr>runs := (case GetRun s (aRunID attempt) of
                  Some run \<Rightarrow> AList.update (aRunID attempt) (run\<lparr>rNativeStatus := ''terminal''\<rparr>) (runs s)
                | None \<Rightarrow> runs s),
       intents := map (\<lambda>(i, intent). (i, ackIntent (aID attempt) intent)) (intents s)\<rparr>"

text \<open>The fence that \<^verbatim>\<open>CompleteAttempt\<close> and \<^verbatim>\<open>CancelAttempt\<close> open with.\<close>

definition fence :: "string \<Rightarrow> string \<Rightarrow> life_store \<Rightarrow> (life_err, Attempt) res" where
  "fence attemptID generation s =
     (case GetAttempt s attemptID of
        None \<Rightarrow> Err ErrNotFound
      | Some attempt \<Rightarrow>
          if aTerminal attempt then Err ErrAlreadyTerminal
          else if aGeneration attempt \<noteq> generation then Err ErrStaleGeneration
          else Ok attempt)"

definition finishAttempt :: "string \<Rightarrow> Attempt \<Rightarrow> ExecutionReceipt \<Rightarrow> life_store \<Rightarrow> life_store" where
  "finishAttempt attemptID attempt receipt s =
     markTerminalLocked attempt
       (s\<lparr>attempts := AList.update attemptID attempt (attempts s),
          receipts := AList.update attemptID receipt (receipts s)\<rparr>)"

definition CompleteAttempt ::
  "time \<Rightarrow> string \<Rightarrow> string \<Rightarrow> ExecutionReceipt \<Rightarrow> life_store \<Rightarrow> life_err option \<times> life_store" where
  "CompleteAttempt now attemptID generation receipt s =
     (case fence attemptID generation s of
        Err e \<Rightarrow> (Some e, s)
      | Ok attempt \<Rightarrow>
          (let reason = (if aCompletionReason attempt \<noteq> [] then aCompletionReason attempt
                         else if xConclusion receipt \<noteq> [] then xConclusion receipt
                         else xOutcome receipt);
               attempt' = attempt\<lparr>aTerminal := True, aFinishedAt := now, aCompletionReason := reason\<rparr>;
               receipt' = receipt\<lparr>xAttemptID := attemptID, xGeneration := generation,
                 xFinishedAt := (if xFinishedAt receipt = 0 then now else xFinishedAt receipt)\<rparr>
           in (None, finishAttempt attemptID attempt' receipt' s)))"

definition CancelAttempt ::
  "time \<Rightarrow> string \<Rightarrow> string \<Rightarrow> string \<Rightarrow> life_store \<Rightarrow> life_err option \<times> life_store" where
  "CancelAttempt now attemptID generation reason s =
     (case fence attemptID generation s of
        Err e \<Rightarrow> (Some e, s)
      | Ok attempt \<Rightarrow>
          (let attempt' = attempt\<lparr>aTerminal := True, aCancelRequested := True, aFinishedAt := now,
                 aCompletionReason := ''cancelled''\<rparr>;
               receipt = zeroReceipt\<lparr>xAttemptID := attemptID, xGeneration := generation,
                 xOutcome := ''cancelled'', xConclusion := ''cancelled'', xCancellation := reason,
                 xFinishedAt := now\<rparr>
           in (None, finishAttempt attemptID attempt' receipt s)))"

section \<open>Steps\<close>

datatype life_op =
    OpAdmit AdmitRequest
  | OpLease string string time
  | OpComplete string string ExecutionReceipt
  | OpCancel string string string

fun life_exec :: "time \<Rightarrow> life_op \<Rightarrow> life_store \<Rightarrow> life_store" where
  "life_exec now (OpAdmit req) s = snd (Admit now req s)"
| "life_exec now (OpLease i owner expiry) s = snd (TryAcquireLease now i owner expiry s)"
| "life_exec now (OpComplete a g r) s = snd (CompleteAttempt now a g r s)"
| "life_exec now (OpCancel a g reason) s = snd (CancelAttempt now a g reason s)"

text \<open>Four more identifiers fit into the counter.\<close>

definition seq_room :: "life_store \<Rightarrow> bool" where
  "seq_room s \<longleftrightarrow> unat (seq s) + 4 < 2 ^ 64"

inductive life_step :: "life_store \<Rightarrow> life_store \<Rightarrow> bool" where
  life_step_op: "seq_room s \<Longrightarrow> s' = life_exec now op s \<Longrightarrow> life_step s s'"

inductive_cases life_stepE: "life_step s s'"

section \<open>What each operation does to the records\<close>

definition seqID :: "string \<Rightarrow> nat \<Rightarrow> string" where
  "seqID p n = p @ ''-'' @ show_nat n"

lemma seqID_inject [simp]: "seqID p m = seqID p n \<longleftrightarrow> m = n"
  by (simp add: seqID_def)

lemma nextID_of_nat:
  assumes "seq s = of_nat k" "k + 1 < 2 ^ 64"
  shows "nextID p s = (seqID p (k + 1), s\<lparr>seq := of_nat (k + 1)\<rparr>)"
proof -
  have "unat (of_nat (k + 1) :: 64 word) = k + 1"
    using assms(2) by (simp add: unat_of_nat take_bit_nat_eq_self_iff del: of_nat_add of_nat_Suc)
  with assms(1) show ?thesis by (simp add: nextID_def Let_def seqID_def add.commute)
qed

definition admitBase :: "AdmitRequest \<Rightarrow> life_store \<Rightarrow> nat" where
  "admitBase req s = unat (seq s) + (if qGeneration req = [] then 1 else 0)"

definition admitGen :: "AdmitRequest \<Rightarrow> life_store \<Rightarrow> string" where
  "admitGen req s = (if qGeneration req = [] then seqID ''gen'' (unat (seq s) + 1) else qGeneration req)"

lemma Admit_new:
  fixes s :: life_store and now :: time and req :: AdmitRequest
  assumes "seq_room s" "qSubmissionKey req \<noteq> []" "map_of (byKey s) (qSubmissionKey req) = None"
  defines "b \<equiv> admitBase req s" and "g \<equiv> admitGen req s"
  defines "run \<equiv> newRun req now g (seqID ''run'' (b + 1)) (seqID ''attempt'' (b + 2))"
    and "attempt \<equiv> newAttempt req now g (seqID ''run'' (b + 1)) (seqID ''attempt'' (b + 2))"
    and "intent \<equiv> newIntent req g (seqID ''attempt'' (b + 2)) (seqID ''intent'' (b + 3))"
  shows "Admit now req s =
    (Ok \<lparr>arRun = run, arAttempt = attempt, arIntent = intent, arExisting = False\<rparr>,
     s\<lparr>seq := of_nat (b + 3),
       runs := AList.update (seqID ''run'' (b + 1)) run (runs s),
       attempts := AList.update (seqID ''attempt'' (b + 2)) attempt (attempts s),
       intents := AList.update (seqID ''intent'' (b + 3)) intent (intents s),
       byKey := AList.update (qSubmissionKey req) (seqID ''intent'' (b + 3)) (byKey s)\<rparr>)"
proof -
  have n: "unat (seq s) + 4 < 2 ^ 64" using assms(1) by (simp add: seq_room_def)
  have id: "nextID p (t::life_store) = (seqID p (k + 1), t\<lparr>seq := of_nat (k + 1)\<rparr>)"
    if "seq t = of_nat k" "k \<le> unat (seq s) + 3" for p t k
    using nextID_of_nat [OF that(1)] that(2) n by simp
  obtain s1 where g1: "admitGeneration req s = (g, s1)" and s1: "s1 = s\<lparr>seq := of_nat b\<rparr>"
    and b: "b \<le> unat (seq s) + 1"
    using id [of s "unat (seq s)"]
    by (auto simp: admitGeneration_def g_def b_def admitGen_def admitBase_def)
  show ?thesis
    using assms(2,3) id [of s1 b] id [of "s1\<lparr>seq := of_nat (b + 1)\<rparr>" "b + 1"]
      id [of "s1\<lparr>seq := of_nat (b + 2)\<rparr>" "b + 2"] b
    unfolding run_def attempt_def intent_def
    by (simp add: Admit_def g1 Let_def s1 numeral_3_eq_3)
qed

lemma life_gets:
  "GetRun s = map_of (runs s)" "GetAttempt s = map_of (attempts s)"
  "GetIntent s = map_of (intents s)" "GetReceipt s = map_of (receipts s)"
  by (simp_all add: fun_eq_iff GetRun_def GetAttempt_def GetIntent_def GetReceipt_def)

lemma Admit_not_new:
  assumes "qSubmissionKey req = [] \<or> map_of (byKey s) (qSubmissionKey req) \<noteq> None"
  shows "snd (Admit now req s) = s"
  using assms by (auto simp: Admit_def Let_def)

lemma finishAttempt_gets:
  shows "GetAttempt (finishAttempt k a x s) = (GetAttempt s)(k \<mapsto> a)"
    and "GetReceipt (finishAttempt k a x s) = (GetReceipt s)(k \<mapsto> x)"
    and "GetIntent (finishAttempt k a x s) = map_option (ackIntent (aID a)) \<circ> GetIntent s"
    and "GetRun (finishAttempt k a x s) =
           (case GetRun s (aRunID a) of
              Some r \<Rightarrow> (GetRun s)(aRunID a \<mapsto> r\<lparr>rNativeStatus := ''terminal''\<rparr>)
            | None \<Rightarrow> GetRun s)"
    and "byKey (finishAttempt k a x s) = byKey s" "seq (finishAttempt k a x s) = seq s"
  by (auto simp: finishAttempt_def markTerminalLocked_def life_gets fun_eq_iff map_of_map split: option.splits)

lemma fence_Ok_iff:
  "fence k g s = Ok a \<longleftrightarrow> GetAttempt s k = Some a \<and> \<not> aTerminal a \<and> aGeneration a = g"
  by (auto simp: fence_def split: option.splits)

text \<open>Completing and cancelling are the same step: past the fence they store a terminal version of
  the attempt with its receipt.\<close>

definition terminal_version :: "Attempt \<Rightarrow> Attempt \<Rightarrow> bool" where
  "terminal_version a a' \<longleftrightarrow> aTerminal a' \<and> aID a' = aID a \<and> aRunID a' = aRunID a \<and>
     aGeneration a' = aGeneration a \<and> aSubmissionKey a' = aSubmissionKey a \<and> aFingerprint a' = aFingerprint a"

definition finishes :: "string \<Rightarrow> life_store \<Rightarrow> life_store \<Rightarrow> bool" where
  "finishes k s s' \<longleftrightarrow> (\<exists>a a' x. GetAttempt s k = Some a \<and> \<not> aTerminal a \<and> terminal_version a a' \<and>
     xAttemptID x = k \<and> xGeneration x = aGeneration a \<and> s' = finishAttempt k a' x s)"

lemma finishesI:
  "fence k g s = Ok a \<Longrightarrow> terminal_version a a' \<Longrightarrow> xAttemptID x = k \<Longrightarrow> xGeneration x = g \<Longrightarrow>
   finishes k s (finishAttempt k a' x s)"
  by (auto simp: finishes_def fence_Ok_iff)

lemma CompleteAttempt_cases:
  obtains (fenced) e where "fence k g s = Err e" "CompleteAttempt now k g x s = (Some e, s)"
  | (finished) s' where "CompleteAttempt now k g x s = (None, s')" "finishes k s s'"
proof (cases "fence k g s")
  case (Inr a)
  show ?thesis
    by (rule finished, simp add: CompleteAttempt_def Inr Let_def, rule finishesI [OF Inr])
      (simp_all add: terminal_version_def)
qed (simp add: CompleteAttempt_def fenced)

lemma CancelAttempt_cases:
  obtains (fenced) e where "fence k g s = Err e" "CancelAttempt now k g reason s = (Some e, s)"
  | (finished) s' where "CancelAttempt now k g reason s = (None, s')" "finishes k s s'"
proof (cases "fence k g s")
  case (Inr a)
  show ?thesis
    by (rule finished, simp add: CancelAttempt_def Inr Let_def, rule finishesI [OF Inr])
      (simp_all add: terminal_version_def)
qed (simp add: CancelAttempt_def fenced)

lemma TryAcquireLease_cases:
  obtains (refused) e where "TryAcquireLease now i owner expiry s = (Err e, s)"
  | (granted) d d' where "GetIntent s i = Some d" "\<not> (leaseHeld now (iLease d) \<and> Owner (iLease d) \<noteq> owner)"
      "d' = d\<lparr>iLease := \<lparr>Owner = owner, Expiry = expiry\<rparr>, iDeliveryState := DeliveryLeased\<rparr>"
      "TryAcquireLease now i owner expiry s = (Ok d', s\<lparr>intents := AList.update i d' (intents s)\<rparr>)"
proof (cases "GetIntent s i")
  case (Some d)
  show ?thesis
  proof (cases "leaseHeld now (iLease d) \<and> Owner (iLease d) \<noteq> owner")
    case True
    with Some show ?thesis by (intro refused [of ErrLeaseHeld]) (simp add: TryAcquireLease_def)
  next
    case False
    with Some show ?thesis by (intro granted [OF Some _ refl]) (auto simp: TryAcquireLease_def Let_def)
  qed
qed (simp add: TryAcquireLease_def refused)

lemma intents_update_gets [simp]:
  "GetAttempt (s\<lparr>intents := m\<rparr>) = GetAttempt s" "GetRun (s\<lparr>intents := m\<rparr>) = GetRun s"
  "GetReceipt (s\<lparr>intents := m\<rparr>) = GetReceipt s"
  "GetIntent (s\<lparr>intents := AList.update i d (intents s)\<rparr>) = (GetIntent s)(i \<mapsto> d)"
  by (auto simp: life_gets fun_eq_iff)

section \<open>The invariant\<close>

definition numbered :: "string \<Rightarrow> nat \<Rightarrow> string \<Rightarrow> bool" where
  "numbered p n k \<longleftrightarrow> (\<exists>m\<le>n. k = seqID p m)"

text \<open>An attempt is stored under its own identifier, belongs to a run that names it as its current
  attempt and shows its status, and has a receipt of its generation exactly when it is terminal.\<close>

definition attempt_ok :: "life_store \<Rightarrow> string \<Rightarrow> Attempt \<Rightarrow> bool" where
  "attempt_ok s k a \<longleftrightarrow> aID a = k \<and>
     (\<exists>r. GetRun s (aRunID a) = Some r \<and> rID r = aRunID a \<and> rCurrentAttempt r = k \<and>
        rNativeStatus r = (if aTerminal a then ''terminal'' else ''accepted'')) \<and>
     (if aTerminal a
      then (\<exists>x. GetReceipt s k = Some x \<and> xAttemptID x = k \<and> xGeneration x = aGeneration a)
      else GetReceipt s k = None)"

text \<open>An intent belongs to an attempt of the same submission, fingerprint and generation, and is
  acknowledged only when that attempt is terminal, and then without a lease.\<close>

definition intent_ok :: "life_store \<Rightarrow> string \<Rightarrow> DispatchIntent \<Rightarrow> bool" where
  "intent_ok s k i \<longleftrightarrow> iID i = k \<and>
     (\<exists>a. GetAttempt s (iAttemptID i) = Some a \<and> aSubmissionKey a = iSubmissionKey i \<and>
        aFingerprint a = iFingerprint i \<and> aGeneration a = iExpectedGeneration i \<and>
        (iDeliveryState i = DeliveryAcked \<longrightarrow> aTerminal a \<and> iLease i = zeroLease))"

definition life_ok :: "life_store \<Rightarrow> bool" where
  "life_ok s \<longleftrightarrow>
     (\<forall>k a. GetAttempt s k = Some a \<longrightarrow> attempt_ok s k a) \<and>
     (\<forall>k i. GetIntent s k = Some i \<longrightarrow> intent_ok s k i) \<and>
     (\<forall>k i. map_of (byKey s) k = Some i \<longrightarrow> (\<exists>d. GetIntent s i = Some d \<and> iSubmissionKey d = k)) \<and>
     (\<forall>k x. GetReceipt s k = Some x \<longrightarrow> GetAttempt s k \<noteq> None) \<and>
     (\<forall>k r. GetRun s k = Some r \<longrightarrow> numbered ''run'' (unat (seq s)) k) \<and>
     (\<forall>k a. GetAttempt s k = Some a \<longrightarrow> numbered ''attempt'' (unat (seq s)) k) \<and>
     (\<forall>k i. GetIntent s k = Some i \<longrightarrow> numbered ''intent'' (unat (seq s)) k)"

lemma life_ok_facts:
  assumes "life_ok s"
  shows life_attempt: "GetAttempt s k = Some a \<Longrightarrow> attempt_ok s k a"
    and life_intent: "GetIntent s k = Some i \<Longrightarrow> intent_ok s k i"
    and life_key: "map_of (byKey s) k = Some i' \<Longrightarrow> \<exists>d. GetIntent s i' = Some d \<and> iSubmissionKey d = k"
    and life_receipt: "GetReceipt s k = Some x \<Longrightarrow> GetAttempt s k \<noteq> None"
    and life_run_num: "GetRun s k = Some r \<Longrightarrow> numbered ''run'' (unat (seq s)) k"
    and life_attempt_num: "GetAttempt s k = Some a \<Longrightarrow> numbered ''attempt'' (unat (seq s)) k"
    and life_intent_num: "GetIntent s k = Some i \<Longrightarrow> numbered ''intent'' (unat (seq s)) k"
  using assms unfolding life_ok_def by blast+

lemma life_ok_NewMemoryStore: "life_ok NewMemoryStore"
  by (simp add: life_ok_def NewMemoryStore_def life_gets)

lemma numbered_mono: "numbered p n k \<Longrightarrow> n \<le> m \<Longrightarrow> numbered p m k"
  by (auto simp: numbered_def)

lemma not_numbered_above: "n < m \<Longrightarrow> \<not> numbered p n (seqID p m)"
  by (auto simp: numbered_def)

lemma life_ok_grant:
  assumes ok: "life_ok s" and d: "GetIntent s i = Some d"
  shows "life_ok (s\<lparr>intents := AList.update i (d\<lparr>iLease := l, iDeliveryState := DeliveryLeased\<rparr>) (intents s)\<rparr>)"
    (is "life_ok ?s'")
proof -
  let ?d' = "d\<lparr>iLease := l, iDeliveryState := DeliveryLeased\<rparr>"
  have d': "intent_ok s i ?d'" using life_intent [OF ok d] by (auto simp: intent_ok_def)
  have 1: "attempt_ok ?s' = attempt_ok s" "intent_ok ?s' = intent_ok s"
    by (simp_all add: fun_eq_iff attempt_ok_def intent_ok_def)
  have 2: "GetAttempt ?s' = GetAttempt s" "GetRun ?s' = GetRun s" "GetReceipt ?s' = GetReceipt s"
    "GetIntent ?s' = (GetIntent s)(i \<mapsto> ?d')" "byKey ?s' = byKey s" "seq ?s' = seq s" by simp_all
  have "iSubmissionKey ?d' = iSubmissionKey d" by simp
  then show ?thesis
    using ok d d' unfolding life_ok_def 1 2 by (simp; metis option.inject)
qed

lemma life_ok_finish:
  assumes ok: "life_ok s" and f: "finishes k s s'"
  shows "life_ok s'"
proof -
  obtain a a' x where a: "GetAttempt s k = Some a" "\<not> aTerminal a" and tv: "terminal_version a a'"
    and x: "xAttemptID x = k" "xGeneration x = aGeneration a" and s': "s' = finishAttempt k a' x s"
    using f unfolding finishes_def by blast
  have aok: "attempt_ok s k a" using ok a by (simp add: life_ok_def)
  then obtain r where r: "GetRun s (aRunID a) = Some r" "rCurrentAttempt r = k" "rID r = aRunID a" and ida: "aID a = k"
    by (auto simp: attempt_ok_def)
  note gets = finishAttempt_gets [of k a' x s, folded s']
  have rd: "aRunID a' = aRunID a" "aID a' = k" using tv ida by (auto simp: terminal_version_def)
  have 1: "attempt_ok s' k' b" if "GetAttempt s' k' = Some b" for k' b
  proof (cases "k' = k")
    case True
    then show ?thesis using that tv x r ida by (simp add: attempt_ok_def gets rd terminal_version_def)
  next
    case False
    then have b: "attempt_ok s k' b" using that ok by (simp add: life_ok_def gets)
    then have "aRunID b \<noteq> aRunID a" using False r by (auto simp: attempt_ok_def)
    with b False r show ?thesis by (simp add: attempt_ok_def gets rd)
  qed
  have 2: "intent_ok s' k' d" if g: "GetIntent s' k' = Some d" for k' d
  proof -
    obtain d0 where d0: "GetIntent s k' = Some d0" "d = ackIntent k d0" using g by (auto simp: gets(3) rd)
    then have "intent_ok s k' d0" using ok by (simp add: life_ok_def)
    then show ?thesis using d0 tv a by (auto simp: intent_ok_def gets ackIntent_def terminal_version_def)
  qed
  have 3: "\<exists>d. GetIntent s' i = Some d \<and> iSubmissionKey d = k'" if g: "map_of (byKey s') k' = Some i" for k' i
  proof -
    obtain d where "GetIntent s i = Some d" "iSubmissionKey d = k'"
      using life_key [OF ok] g by (auto simp: gets)
    then show ?thesis by (auto simp: gets ackIntent_def)
  qed
  have 4: "\<forall>k' x. GetReceipt s' k' = Some x \<longrightarrow> GetAttempt s' k' \<noteq> None"
    using ok by (auto simp: life_ok_def gets)
  have 5: "\<forall>k' r. GetRun s' k' = Some r \<longrightarrow> numbered ''run'' (unat (seq s')) k'"
    using ok r by (auto simp: life_ok_def gets rd split: if_splits)
  have 6: "\<forall>k' a. GetAttempt s' k' = Some a \<longrightarrow> numbered ''attempt'' (unat (seq s')) k'"
    using ok a by (auto simp: life_ok_def gets)
  have 7: "\<forall>k' i. GetIntent s' k' = Some i \<longrightarrow> numbered ''intent'' (unat (seq s')) k'"
    using ok by (auto simp: life_ok_def gets)
  from 1 2 3 4 5 6 7 show ?thesis unfolding life_ok_def by blast
qed

text \<open>An admission of a new key adds a run, an attempt and an intent under identifiers that no record
  had.\<close>

definition admits :: "AdmitRequest \<Rightarrow> life_store \<Rightarrow> AdmitResult \<Rightarrow> life_store \<Rightarrow> bool" where
  "admits req s res s' \<longleftrightarrow>
     (let r = arRun res; a = arAttempt res; i = arIntent res in
      GetRun s (rID r) = None \<and> GetAttempt s (aID a) = None \<and> GetIntent s (iID i) = None \<and>
      GetRun s' = (GetRun s)(rID r \<mapsto> r) \<and> GetAttempt s' = (GetAttempt s)(aID a \<mapsto> a) \<and>
      GetIntent s' = (GetIntent s)(iID i \<mapsto> i) \<and> GetReceipt s' = GetReceipt s \<and>
      map_of (byKey s') = (map_of (byKey s))(qSubmissionKey req \<mapsto> iID i) \<and>
      unat (seq s) \<le> unat (seq s') \<and> numbered ''run'' (unat (seq s')) (rID r) \<and>
      numbered ''attempt'' (unat (seq s')) (aID a) \<and> numbered ''intent'' (unat (seq s')) (iID i) \<and>
      \<not> arExisting res \<and>
      aRunID a = rID r \<and> rCurrentAttempt r = aID a \<and> rNativeStatus r = ''accepted'' \<and> \<not> aTerminal a \<and>
      iAttemptID i = aID a \<and> iSubmissionKey i = qSubmissionKey req \<and> iFingerprint i = qFingerprint req \<and>
      aSubmissionKey a = qSubmissionKey req \<and> aFingerprint a = qFingerprint req \<and>
      aGeneration a = iExpectedGeneration i \<and> iDeliveryState i = DeliveryPending \<and> iLease i = zeroLease)"

lemma Admit_admits:
  assumes ok: "life_ok s" and room: "seq_room s"
    and new: "qSubmissionKey req \<noteq> []" "map_of (byKey s) (qSubmissionKey req) = None"
  shows "\<exists>res. fst (Admit now req s) = Ok res \<and> admits req s res (snd (Admit now req s))"
proof -
  define b where "b = admitBase req s"
  note A = Admit_new [OF room new, of now, folded b_def]
  have n: "unat (of_nat (b + 3) :: 64 word) = b + 3" "unat (seq s) \<le> b"
    using room by (auto simp: b_def admitBase_def seq_room_def unat_of_nat take_bit_nat_eq_self_iff
        simp del: of_nat_add of_nat_Suc)
  have "GetRun s (seqID ''run'' (b + 1)) = None" "GetAttempt s (seqID ''attempt'' (b + 2)) = None"
    "GetIntent s (seqID ''intent'' (b + 3)) = None"
    using n(2) life_run_num [OF ok, of "seqID ''run'' (b + 1)"] not_numbered_above [of "unat (seq s)"]
      life_attempt_num [OF ok, of "seqID ''attempt'' (b + 2)"] life_intent_num [OF ok, of "seqID ''intent'' (b + 3)"]
    by (meson le_imp_less_Suc less_add_Suc2 not_Some_eq order_le_less_trans trans_less_add1 less_add_same_cancel1 zero_less_numeral zero_less_one)+
  then show ?thesis
    unfolding A fst_conv snd_conv
    using n by (simp add: admits_def Let_def newRun_def newAttempt_def newIntent_def zeroAttempt_def zeroIntent_def
        life_gets numbered_def del: of_nat_add of_nat_Suc)
qed

lemma life_ok_admits:
  assumes ok: "life_ok s" and ad: "admits req s res s'"
  shows "life_ok s'"
proof -
  define r a i where rai: "r = arRun res" "a = arAttempt res" "i = arIntent res"
  note A = ad [unfolded admits_def Let_def, folded rai]
  from A have fresh: "GetRun s (rID r) = None" "GetAttempt s (aID a) = None" by blast+
  from A have gets: "GetRun s' = (GetRun s)(rID r \<mapsto> r)" "GetAttempt s' = (GetAttempt s)(aID a \<mapsto> a)"
    "GetIntent s' = (GetIntent s)(iID i \<mapsto> i)" "GetReceipt s' = GetReceipt s"
    "map_of (byKey s') = (map_of (byKey s))(qSubmissionKey req \<mapsto> iID i)" by blast+
  from A have fi: "GetIntent s (iID i) = None" and le: "unat (seq s) \<le> unat (seq s')"
    and num: "numbered ''run'' (unat (seq s')) (rID r)" "numbered ''attempt'' (unat (seq s')) (aID a)"
      "numbered ''intent'' (unat (seq s')) (iID i)" by blast+
  have nr: "GetReceipt s (aID a) = None" using fresh life_receipt [OF ok] by (metis option.exhaust)
  have 1: "attempt_ok s' k b" if "GetAttempt s' k = Some b" for k b
  proof (cases "k = aID a")
    case True
    with that nr A show ?thesis by (simp add: gets(1,2,4) attempt_ok_def)
  next
    case False
    with that life_attempt [OF ok] have "attempt_ok s k b" by (simp add: gets)
    then show ?thesis using fresh unfolding attempt_ok_def gets(1,4) by (metis fun_upd_other option.distinct(1))
  qed
  have 2: "intent_ok s' k d" if "GetIntent s' k = Some d" for k d
  proof (cases "k = iID i")
    case True
    with that A show ?thesis by (simp add: gets intent_ok_def)
  next
    case False
    with that life_intent [OF ok] have "intent_ok s k d" by (simp add: gets)
    then show ?thesis using fresh by (auto simp: intent_ok_def gets)
  qed
  have 3: "\<exists>d. GetIntent s' j = Some d \<and> iSubmissionKey d = k" if "map_of (byKey s') k = Some j" for k j
    using that life_key [OF ok, of k j] fi A by (auto simp: gets split: if_splits)
  have 4: "GetAttempt s' k \<noteq> None" if "GetReceipt s' k = Some x" for k x
    using that life_receipt [OF ok] by (simp add: gets)
  note num' = num life_run_num [OF ok, THEN numbered_mono, OF _ le]
    life_attempt_num [OF ok, THEN numbered_mono, OF _ le] life_intent_num [OF ok, THEN numbered_mono, OF _ le]
  have 5: "numbered ''run'' (unat (seq s')) k" if "GetRun s' k = Some r'" for k r'
    using that num' by (auto simp: gets split: if_splits)
  have 6: "numbered ''attempt'' (unat (seq s')) k" if "GetAttempt s' k = Some a'" for k a'
    using that num' by (auto simp: gets split: if_splits)
  have 7: "numbered ''intent'' (unat (seq s')) k" if "GetIntent s' k = Some i'" for k i'
    using that num' by (auto simp: gets split: if_splits)
  from 1 2 3 4 5 6 7 show ?thesis unfolding life_ok_def by blast
qed

lemma Admit_cases:
  assumes "life_ok s" "seq_room s"
  obtains (same) "snd (Admit now req s) = s"
  | (new) res where "fst (Admit now req s) = Ok res" "admits req s res (snd (Admit now req s))"
      "qSubmissionKey req \<noteq> []" "map_of (byKey s) (qSubmissionKey req) = None"
  using Admit_not_new Admit_admits [OF assms] by metis

text \<open>A step changes nothing, admits a new key, grants a lease or finishes an attempt.\<close>

lemma life_step_cases:
  assumes ok: "life_ok s" and st: "life_step s s'"
  obtains (same) "s' = s"
  | (admit) req res where "admits req s res s'" "map_of (byKey s) (qSubmissionKey req) = None"
  | (lease) now i owner d expiry where "GetIntent s i = Some d"
      "\<not> (leaseHeld now (iLease d) \<and> Owner (iLease d) \<noteq> owner)"
      "s' = s\<lparr>intents := AList.update i (d\<lparr>iLease := \<lparr>Owner = owner, Expiry = expiry\<rparr>,
         iDeliveryState := DeliveryLeased\<rparr>) (intents s)\<rparr>"
  | (finish) k where "finishes k s s'"
proof -
  from st obtain now op where room: "seq_room s" and s': "s' = life_exec now op s"
    by (auto elim: life_stepE)
  show ?thesis
  proof (cases op)
    case (OpAdmit req)
    with s' show ?thesis by (cases rule: Admit_cases [OF ok room, of now req]) (auto intro: same admit)
  next
    case (OpLease i owner expiry)
    with s' show ?thesis
      by (cases rule: TryAcquireLease_cases [of now i owner expiry s]) (auto intro: same lease)
  next
    case (OpComplete k g x)
    with s' show ?thesis
      by (cases rule: CompleteAttempt_cases [of k g s now x]) (auto intro: same finish)
  next
    case (OpCancel k g reason)
    with s' show ?thesis
      by (cases rule: CancelAttempt_cases [of k g s now reason]) (auto intro: same finish)
  qed
qed

lemma life_ok_step: "life_ok s \<Longrightarrow> life_step s s' \<Longrightarrow> life_ok s'"
  by (cases rule: life_step_cases)
    (auto intro: life_ok_admits life_ok_grant life_ok_finish)

interpretation life: step_invariant life_step life_ok
  by unfold_locales (rule life_ok_step)

section \<open>Facts that steps keep\<close>

text \<open>The submission key stays bound to the identifiers its admission created.\<close>

definition bound_to :: "string \<Rightarrow> string \<Rightarrow> string \<Rightarrow> string \<Rightarrow> string \<Rightarrow> life_store \<Rightarrow> bool" where
  "bound_to k fp rid aid iid s \<longleftrightarrow> map_of (byKey s) k = Some iid \<and>
     (\<exists>d a. GetIntent s iid = Some d \<and> iFingerprint d = fp \<and> iAttemptID d = aid \<and>
        GetAttempt s aid = Some a \<and> aRunID a = rid)"

lemma bound_to_step:
  assumes ok: "life_ok s" and b: "bound_to k fp rid aid iid s" and st: "life_step s s'"
  shows "bound_to k fp rid aid iid s'"
  using ok st
proof (cases rule: life_step_cases)
  case (admit req res)
  then show ?thesis using b by (auto simp: bound_to_def admits_def Let_def)
next
  case (lease now i owner d expiry)
  then show ?thesis using b by (auto simp: bound_to_def)
next
  case (finish j)
  then show ?thesis using b
    by (auto simp: bound_to_def finishes_def finishAttempt_gets ackIntent_def terminal_version_def)
qed (use b in simp)

interpretation life_bound: stable_fact life_step life_ok "bound_to k fp rid aid iid" for k fp rid aid iid
  by unfold_locales (rule bound_to_step)

lemma Admit_Ok_bound:
  assumes ok: "life_ok s" and room: "seq_room s" and A: "Admit now req s = (Ok res, s')"
  shows "bound_to (qSubmissionKey req) (qFingerprint req) (rID (arRun res)) (aID (arAttempt res)) (iID (arIntent res)) s'"
proof (cases "map_of (byKey s) (qSubmissionKey req)")
  case None
  moreover have "qSubmissionKey req \<noteq> []" using A by (auto simp: Admit_def)
  ultimately have "admits req s res s'" using Admit_admits [OF ok room, of req now] A by auto
  then show ?thesis by (auto simp: bound_to_def admits_def Let_def)
next
  case (Some iid)
  then obtain d where d: "GetIntent s iid = Some d" using life_key [OF ok] by blast
  obtain a r where a: "GetAttempt s (iAttemptID d) = Some a" "aID a = iAttemptID d" "iID d = iid"
    and r: "GetRun s (aRunID a) = Some r" "rID r = aRunID a"
    using life_intent [OF ok d] life_attempt [OF ok] by (fastforce simp: intent_ok_def attempt_ok_def)
  with Some d A show ?thesis
    by (auto simp: Admit_def Let_def bound_to_def existingTriple_def split: if_splits)
qed

lemma Admit_bound:
  assumes ok: "life_ok t" and b: "bound_to (qSubmissionKey req) fp rid aid iid t" and k: "qSubmissionKey req \<noteq> []"
  shows "if qFingerprint req = fp
         then \<exists>res. Admit now req t = (Ok res, t) \<and> arExisting res \<and>
                rID (arRun res) = rid \<and> aID (arAttempt res) = aid \<and> iID (arIntent res) = iid
         else Admit now req t = (Err ErrConflict, t)"
proof -
  obtain d a where d: "map_of (byKey t) (qSubmissionKey req) = Some iid" "GetIntent t iid = Some d"
    "iFingerprint d = fp" "iAttemptID d = aid" "GetAttempt t aid = Some a" "aRunID a = rid"
    using b by (auto simp: bound_to_def)
  obtain r where "GetRun t rid = Some r" "rID r = rid" "aID a = aid" "iID d = iid"
    using life_attempt [OF ok d(5)] life_intent [OF ok d(2)] d by (auto simp: attempt_ok_def intent_ok_def)
  with d k show ?thesis by (simp add: Admit_def Let_def existingTriple_def)
qed

text \<open>A terminal attempt and its receipt never change again.\<close>

definition finished_as :: "string \<Rightarrow> Attempt \<Rightarrow> ExecutionReceipt option \<Rightarrow> life_store \<Rightarrow> bool" where
  "finished_as k a x s \<longleftrightarrow> aTerminal a \<and> GetAttempt s k = Some a \<and> GetReceipt s k = x"

lemma finished_as_step:
  assumes ok: "life_ok s" and b: "finished_as k a x s" and st: "life_step s s'"
  shows "finished_as k a x s'"
  using ok st
proof (cases rule: life_step_cases)
  case (admit req res)
  then show ?thesis using b by (auto simp: finished_as_def admits_def Let_def)
next
  case (lease now i owner d expiry)
  then show ?thesis using b by (auto simp: finished_as_def)
next
  case (finish j)
  then show ?thesis using b by (auto simp: finished_as_def finishes_def finishAttempt_gets)
qed (use b in simp)

interpretation life_finished: stable_fact life_step life_ok "finished_as k a x" for k a x
  by unfold_locales (rule finished_as_step)

lemma finished_fenced: "finished_as k a x s \<Longrightarrow> fence k g s = Err ErrAlreadyTerminal"
  by (simp add: finished_as_def fence_def)

lemma finishes_finished: "finishes k s s' \<Longrightarrow> \<exists>a x. finished_as k a (Some x) s' \<and> xGeneration x = aGeneration a"
  by (auto simp: finishes_def finished_as_def finishAttempt_gets terminal_version_def)

section \<open>Traces with their clock readings\<close>

inductive life_trace :: "life_store \<Rightarrow> (time \<times> life_op) list \<Rightarrow> life_store \<Rightarrow> bool" where
  trace_Nil: "life_trace s [] s"
| trace_Cons: "seq_room s \<Longrightarrow> life_trace (life_exec now op s) tr t \<Longrightarrow> life_trace s ((now, op) # tr) t"

inductive_simps life_trace_simps: "life_trace s [] t" "life_trace s ((now, op) # tr) t"

lemma life_trace_steps: "life_trace s tr t \<Longrightarrow> life_step\<^sup>*\<^sup>* s t"
proof (induction rule: life_trace.induct)
  case (trace_Cons s now op tr t)
  then have "life_step s (life_exec now op s)" by (auto intro: life_step_op)
  with trace_Cons.IH show ?case by (rule converse_rtranclp_into_rtranclp [rotated])
qed simp

text \<open>The operations that do not touch a lease of another owner while it runs: any before the
  expiry but the owner's own leases of the intent and the end of the intent's attempt.\<close>

definition respects_lease :: "string \<Rightarrow> string \<Rightarrow> string \<Rightarrow> time \<Rightarrow> time \<times> life_op \<Rightarrow> bool" where
  "respects_lease i aid owner expiry = (\<lambda>(now, op). now < expiry \<and>
     (case op of OpAdmit _ \<Rightarrow> True
      | OpLease i' owner' _ \<Rightarrow> i' \<noteq> i \<or> owner' \<noteq> owner
      | OpComplete a _ _ \<Rightarrow> a \<noteq> aid
      | OpCancel a _ _ \<Rightarrow> a \<noteq> aid))"

definition leased_to :: "string \<Rightarrow> string \<Rightarrow> Lease \<Rightarrow> life_store \<Rightarrow> bool" where
  "leased_to i aid l s \<longleftrightarrow> (\<exists>d. GetIntent s i = Some d \<and> iAttemptID d = aid \<and> iLease d = l)"

lemma leased_to_refused:
  "leased_to i aid \<lparr>Owner = owner, Expiry = expiry\<rparr> s \<Longrightarrow> owner \<noteq> [] \<Longrightarrow> now < expiry \<Longrightarrow> owner' \<noteq> owner \<Longrightarrow>
   TryAcquireLease now i owner' expiry' s = (Err ErrLeaseHeld, s)"
  by (auto simp: leased_to_def TryAcquireLease_def leaseHeld_def)

lemma leased_to_exec:
  assumes ok: "life_ok s" "seq_room s" and l: "leased_to i aid \<lparr>Owner = owner, Expiry = expiry\<rparr> s"
    and o: "owner \<noteq> []" and r: "respects_lease i aid owner expiry (now, op)"
  shows "leased_to i aid \<lparr>Owner = owner, Expiry = expiry\<rparr> (life_exec now op s)"
proof -
  have fin: ?thesis if f: "finishes k s (life_exec now op s)" "k \<noteq> aid" for k
  proof -
    obtain a a' x where a: "GetAttempt s k = Some a" "terminal_version a a'"
      and e: "life_exec now op s = finishAttempt k a' x s" using f(1) by (auto simp: finishes_def)
    have "aID a' = k" using life_attempt [OF ok(1) a(1)] a(2) by (simp add: attempt_ok_def terminal_version_def)
    moreover obtain d where "GetIntent s i = Some d" "iAttemptID d = aid" "iLease d = \<lparr>Owner = owner, Expiry = expiry\<rparr>"
      using l by (auto simp: leased_to_def)
    ultimately show ?thesis using f(2) by (simp add: leased_to_def e finishAttempt_gets ackIntent_def)
  qed
  show ?thesis
  proof (cases op)
    case (OpAdmit req)
    then show ?thesis using l
      by (cases rule: Admit_cases [OF ok, of now req]) (auto simp: leased_to_def admits_def Let_def)
  next
    case (OpLease j owner' expiry')
    then show ?thesis
      using l r leased_to_refused [OF l o, of now owner' expiry']
      by (cases "j = i"; cases rule: TryAcquireLease_cases [of now j owner' expiry' s])
        (auto simp: respects_lease_def leased_to_def)
  next
    case (OpComplete k g x)
    then show ?thesis using l r fin
      by (cases rule: CompleteAttempt_cases [of k g s now x]) (auto simp: respects_lease_def)
  next
    case (OpCancel k g reason)
    then show ?thesis using l r fin
      by (cases rule: CancelAttempt_cases [of k g s now reason]) (auto simp: respects_lease_def)
  qed
qed

lemma leased_to_trace:
  assumes "life_trace s tr t" "life_ok s" "leased_to i aid \<lparr>Owner = owner, Expiry = expiry\<rparr> s"
    and "owner \<noteq> []" "list_all (respects_lease i aid owner expiry) tr"
  shows "leased_to i aid \<lparr>Owner = owner, Expiry = expiry\<rparr> t"
  using assms
proof (induction rule: life_trace.induct)
  case (trace_Cons s now op tr t)
  have "life_step s (life_exec now op s)" using trace_Cons.hyps(1) by (auto intro: life_step_op)
  with trace_Cons show ?case using leased_to_exec life_ok_step by auto
qed

section \<open>Properties\<close>

text \<open>C1: every store reached from the empty one keeps the lifecycle invariant: each attempt is
  stored under its identifier and belongs to a run that names it and shows its status, it has a
  receipt of its own generation exactly when it is terminal, each intent shares key, fingerprint
  and generation with its attempt and is acknowledged only for a terminal one, and each submission
  key names an intent of that key.\<close>

theorem lifecycle_invariant:
  assumes "life_step\<^sup>*\<^sup>* NewMemoryStore s"
  shows "life_ok s"
  using life.steps_keep [OF assms life_ok_NewMemoryStore] .

text \<open>C16: admission is idempotent over any later history.  Once a submission key is admitted,
  admitting it again, after any number of admissions, leases, completions and cancellations,
  changes nothing: with the fingerprint of the first admission it returns the run, attempt and
  intent of that admission marked as existing, with another fingerprint it is a conflict.\<close>

theorem admit_idempotent:
  assumes "life_step\<^sup>*\<^sup>* NewMemoryStore s" "seq_room s"
    and "Admit now req s = (Ok res, s1)" and "life_step\<^sup>*\<^sup>* s1 t"
    and "qSubmissionKey req' = qSubmissionKey req"
  shows "if qFingerprint req' = qFingerprint req
         then \<exists>res'. Admit now' req' t = (Ok res', t) \<and> arExisting res' \<and>
                rID (arRun res') = rID (arRun res) \<and> aID (arAttempt res') = aID (arAttempt res) \<and>
                iID (arIntent res') = iID (arIntent res)
         else Admit now' req' t = (Err ErrConflict, t)"
proof -
  have ok: "life_ok s" using life.steps_keep [OF assms(1) life_ok_NewMemoryStore] .
  have ok1: "life_ok s1" using life_ok_step [OF ok, of s1] assms(2,3)
    by (metis life_exec.simps(1) life_step_op snd_conv)
  note b = life_bound.steps_stable [OF assms(4) ok1 Admit_Ok_bound [OF ok assms(2,3)]]
  have "qSubmissionKey req' \<noteq> []" using assms(3,5) by (auto simp: Admit_def)
  then show ?thesis
    using Admit_bound [OF life.steps_keep [OF assms(4) ok1], of req'] b by (simp add: assms(5))
qed

text \<open>C2: an attempt ends exactly once.  When a completion or a cancellation under the attempt's
  generation succeeds, then whatever follows, the attempt stays terminal with one receipt of that
  generation, and every further completion or cancellation of it fails as already terminal and
  changes nothing.  A cancellation and a completion that race have one winner.\<close>

theorem terminal_exactly_once:
  assumes "life_step\<^sup>*\<^sup>* NewMemoryStore s"
    and "CompleteAttempt now k g x s = (None, s1) \<or> CancelAttempt now k g reason s = (None, s1)"
    and "life_step\<^sup>*\<^sup>* s1 t"
  shows "\<exists>a y. GetAttempt s1 k = Some a \<and> aTerminal a \<and> aGeneration a = g \<and> GetReceipt s1 k = Some y \<and>
           xGeneration y = g \<and> GetAttempt t k = Some a \<and> GetReceipt t k = Some y \<and>
           CompleteAttempt now' k g' x' t = (Some ErrAlreadyTerminal, t) \<and>
           CancelAttempt now' k g' reason' t = (Some ErrAlreadyTerminal, t)"
proof -
  have ok: "life_ok s" using life.steps_keep [OF assms(1) life_ok_NewMemoryStore] .
  have g: "fence k g s \<noteq> Err e" for e
    using assms(2) by (auto simp: CompleteAttempt_def CancelAttempt_def)
  then obtain a0 where a0: "GetAttempt s k = Some a0" "aGeneration a0 = g"
    by (cases "fence k g s") (auto simp: fence_Ok_iff)
  have f: "finishes k s s1"
    using assms(2) g
    by (cases rule: CompleteAttempt_cases [of k g s now x]; cases rule: CancelAttempt_cases [of k g s now reason]) auto
  then obtain a y where fa: "finished_as k a (Some y) s1" "xGeneration y = aGeneration a" "aGeneration a = g"
    using a0 by (auto simp: finishes_def finished_as_def finishAttempt_gets terminal_version_def)
  have "finished_as k a (Some y) t"
    using life_finished.steps_stable [OF assms(3) life_ok_finish [OF ok f] fa(1)] .
  then show ?thesis
    using fa finished_fenced [of k a "Some y" t g']
    by (auto simp: finished_as_def CompleteAttempt_def CancelAttempt_def)
qed


text \<open>Acknowledgement does not end delivery.  In every reachable store an intent that was
  acknowledged, whose attempt is therefore terminal, is granted to any owner that asks for its
  lease and goes back to the leased state.\<close>

theorem acked_intent_leased_again:
  assumes "life_step\<^sup>*\<^sup>* NewMemoryStore s"
    and "GetIntent s i = Some d" "iDeliveryState d = DeliveryAcked"
  shows "\<exists>d' s' a. TryAcquireLease now i owner expiry s = (Ok d', s') \<and> iDeliveryState d' = DeliveryLeased \<and>
           GetIntent s' i = Some d' \<and> GetAttempt s' (iAttemptID d') = Some a \<and> aTerminal a"
proof -
  have ok: "life_ok s" using life.steps_keep [OF assms(1) life_ok_NewMemoryStore] .
  obtain a where a: "GetAttempt s (iAttemptID d) = Some a" "aTerminal a" "iLease d = zeroLease"
    using life_intent [OF ok assms(2)] assms(3) by (auto simp: intent_ok_def)
  then show ?thesis
    using assms(2) by (simp add: TryAcquireLease_def leaseHeld_def zeroLease_def Let_def)
qed

section \<open>A concrete history\<close>

definition demo_req :: "string \<Rightarrow> AdmitRequest" where
  "demo_req fp = \<lparr>qScope = zeroScope, qSubmissionKey = ''build'', qFingerprint = fp, qGeneration = [],
     qMode = ''auto'', qProfile = [], qConfigRef = [], qNativeService = ''codebuild'', qNativeResource = ''p'',
     qInitiatingEvent = [], qSchedulerOwner = [], qAction = ''run'', qInputRefs = [], qRequestDigest = [],
     qRetryClass = [], qBackend = ''local'', qRequirements = []\<rparr>"

definition demo_admitted :: life_store where
  "demo_admitted = snd (Admit 1 (demo_req ''f'') NewMemoryStore)"

lemma demo_room: "seq_room NewMemoryStore" by (simp add: seq_room_def NewMemoryStore_def)

lemma demo_steps: "life_step\<^sup>*\<^sup>* NewMemoryStore demo_admitted"
  using life_step_op [OF demo_room refl, of 1 "OpAdmit (demo_req ''f'')"] by (auto simp: demo_admitted_def)

lemma demo_ids: "seqID ''gen'' (Suc 0) = ''gen-1''" "seqID ''run'' (Suc (Suc 0)) = ''run-2''"
  "seqID ''attempt'' (Suc (Suc (Suc 0))) = ''attempt-3''"
  "seqID ''intent'' 4 = ''intent-4''"
  by code_simp+

lemma demo_admitted_eq:
  "demo_admitted = \<lparr>seq = 4, byKey = [(''build'', ''intent-4'')],
     runs = [(''run-2'', newRun (demo_req ''f'') 1 ''gen-1'' ''run-2'' ''attempt-3'')],
     attempts = [(''attempt-3'', newAttempt (demo_req ''f'') 1 ''gen-1'' ''run-2'' ''attempt-3'')],
     intents = [(''intent-4'', newIntent (demo_req ''f'') ''gen-1'' ''attempt-3'' ''intent-4'')],
     receipts = []\<rparr>"
  using Admit_new [OF demo_room, of "demo_req ''f''" 1]
  by (simp add: demo_admitted_def NewMemoryStore_def demo_req_def admitBase_def admitGen_def
      demo_ids)

lemmas demo_defs = demo_req_def newRun_def newAttempt_def newIntent_def zeroAttempt_def zeroIntent_def zeroLease_def

lemma demo_Admit:
  "Admit 1 (demo_req ''f'') NewMemoryStore =
     (Ok \<lparr>arRun = newRun (demo_req ''f'') 1 ''gen-1'' ''run-2'' ''attempt-3'',
          arAttempt = newAttempt (demo_req ''f'') 1 ''gen-1'' ''run-2'' ''attempt-3'',
          arIntent = newIntent (demo_req ''f'') ''gen-1'' ''attempt-3'' ''intent-4'', arExisting = False\<rparr>,
      demo_admitted)"
  using Admit_new [OF demo_room, of "demo_req ''f''" 1]
  by (simp add: demo_admitted_def NewMemoryStore_def demo_req_def admitBase_def admitGen_def demo_ids)

lemma demo_admitted_room: "seq_room demo_admitted"
  by (simp add: seq_room_def demo_admitted_eq)

theorem lifecycle_invariant_witness: "life_ok demo_admitted \<and> attempts demo_admitted \<noteq> []"
  using lifecycle_invariant [OF demo_steps] by (simp add: demo_admitted_eq)

theorem admit_idempotent_witness:
  "(\<exists>res'. Admit 9 (demo_req ''f'') demo_admitted = (Ok res', demo_admitted) \<and> arExisting res' \<and>
      iID (arIntent res') = ''intent-4'') \<and>
   Admit 9 (demo_req ''other'') demo_admitted = (Err ErrConflict, demo_admitted)"
  using admit_idempotent [OF rtranclp.rtrancl_refl demo_room demo_Admit rtranclp.rtrancl_refl, of "demo_req ''f''" 9]
    admit_idempotent [OF rtranclp.rtrancl_refl demo_room demo_Admit rtranclp.rtrancl_refl, of "demo_req ''other''" 9]
  by (auto simp: demo_req_def newIntent_def)

definition demo_cancelled :: life_store where
  "demo_cancelled = snd (CancelAttempt 5 ''attempt-3'' ''gen-1'' ''user'' demo_admitted)"

lemma demo_cancel: "CancelAttempt 5 ''attempt-3'' ''gen-1'' ''user'' demo_admitted = (None, demo_cancelled)"
  unfolding demo_cancelled_def
  by (simp add: CancelAttempt_def fence_def GetAttempt_def demo_admitted_eq Let_def demo_defs)

lemma demo_cancel_steps: "life_step\<^sup>*\<^sup>* NewMemoryStore demo_cancelled"
  using demo_steps life_step_op [OF demo_admitted_room refl, of 5 "OpCancel ''attempt-3'' ''gen-1'' ''user''"]
  by (simp add: demo_cancelled_def)

theorem terminal_exactly_once_witness:
  "CompleteAttempt 6 ''attempt-3'' ''gen-1'' zeroReceipt demo_cancelled = (Some ErrAlreadyTerminal, demo_cancelled) \<and>
   (\<exists>y. GetReceipt demo_cancelled ''attempt-3'' = Some y \<and> xGeneration y = ''gen-1'')"
  using terminal_exactly_once [OF demo_steps disjI2 [OF demo_cancel] rtranclp.rtrancl_refl, of 6 "''gen-1''" zeroReceipt]
  by auto

definition demo_leased :: life_store where
  "demo_leased = snd (TryAcquireLease 2 ''intent-4'' ''w1'' 100 demo_admitted)"

lemma demo_lease:
  "TryAcquireLease 2 ''intent-4'' ''w1'' 100 demo_admitted =
     (Ok ((newIntent (demo_req ''f'') ''gen-1'' ''attempt-3'' ''intent-4'')
        \<lparr>iLease := \<lparr>Owner = ''w1'', Expiry = 100\<rparr>, iDeliveryState := DeliveryLeased\<rparr>), demo_leased)"
  unfolding demo_leased_def
  by (simp add: TryAcquireLease_def GetIntent_def demo_admitted_eq Let_def leaseHeld_def demo_defs)

lemma demo_leased_room: "seq_room demo_leased"
  by (simp add: demo_leased_def TryAcquireLease_def GetIntent_def demo_admitted_eq Let_def leaseHeld_def
      seq_room_def demo_defs)


theorem acked_intent_leased_again_witness:
  "\<exists>d' s' a. TryAcquireLease 7 ''intent-4'' ''w2'' 900 demo_cancelled = (Ok d', s') \<and>
     iDeliveryState d' = DeliveryLeased \<and> GetAttempt s' (iAttemptID d') = Some a \<and> aTerminal a"
proof -
  have "\<exists>d. GetIntent demo_cancelled ''intent-4'' = Some d \<and> iDeliveryState d = DeliveryAcked"
    by (simp add: demo_cancelled_def CancelAttempt_def fence_def life_gets demo_admitted_eq Let_def demo_defs
        finishAttempt_def markTerminalLocked_def ackIntent_def)
  then obtain d where "GetIntent demo_cancelled ''intent-4'' = Some d" "iDeliveryState d = DeliveryAcked" by blast
  from acked_intent_leased_again [OF demo_cancel_steps this, of 7 "''w2''" 900] show ?thesis by blast
qed

end
