(* ===== verification/Clock.thy ===== *)
theory Clock
  imports Prelude
begin

text \<open>
  The controllable clock (\<^verbatim>\<open>internal/clock/clock.go\<close>).  An instant is an integer count of
  nanoseconds since the Unix epoch.  A channel made by \<^verbatim>\<open>AfterTime\<close> has a buffer of one; the
  channels are numbered in the order they are made, and \<open>chans\<close> holds what each has in its buffer.
  Each critical section of the clock's mutex is one function.  \<^verbatim>\<open>After\<close> has two: it computes its
  instant (\<open>afterInstant\<close>) and then calls \<^verbatim>\<open>AfterTime\<close>, perhaps on a clock that has moved since;
  the theorem about \<^verbatim>\<open>AfterTime\<close> is for every instant and every state.  The wall clock \<^verbatim>\<open>Real\<close> only calls the operating system
  and is not modelled.
\<close>

section \<open>State and operations\<close>

record waiter =
  wAt :: int
  wCh :: nat

record controllable =
  now :: int
  wait :: "waiter list"
  chans :: "int option list"

definition NewControllable :: controllable where
  "NewControllable = \<lparr>now = 0, wait = [], chans = []\<rparr>"

definition Since :: "controllable \<Rightarrow> int \<Rightarrow> int" where
  "Since c t = now c - t"

text \<open>A send that does not block: it fills an empty buffer and is dropped on a full one.\<close>

definition trySend :: "int \<Rightarrow> int option list \<Rightarrow> nat \<Rightarrow> int option list" where
  "trySend t cs ch = (if ch < length cs \<and> cs ! ch = None then cs[ch := Some t] else cs)"

fun deliver :: "int \<Rightarrow> waiter list \<Rightarrow> int option list \<Rightarrow> waiter list \<times> int option list" where
  "deliver t [] cs = ([], cs)"
| "deliver t (w # ws) cs =
     (if wAt w \<le> t then deliver t ws (trySend t cs (wCh w))
      else let (remain, cs') = deliver t ws cs in (w # remain, cs'))"

definition Advance :: "int \<Rightarrow> controllable \<Rightarrow> controllable" where
  "Advance d c =
     (let t = now c + d; (remain, cs) = deliver t (wait c) (chans c)
      in \<lparr>now = t, wait = remain, chans = cs\<rparr>)"

definition AfterTime :: "int \<Rightarrow> controllable \<Rightarrow> nat \<times> controllable" where
  "AfterTime t c =
     (let ch = length (chans c) in
      if t \<le> now c then (ch, c\<lparr>chans := chans c @ [Some (now c)]\<rparr>)
      else (ch, c\<lparr>wait := wait c @ [\<lparr>wAt = t, wCh = ch\<rparr>], chans := chans c @ [None]\<rparr>))"

text \<open>The first critical section of \<^verbatim>\<open>After\<close>: the instant it registers in its second one.\<close>

definition afterInstant :: "int \<Rightarrow> controllable \<Rightarrow> int" where
  "afterInstant d c = now c + d"

definition Recv :: "nat \<Rightarrow> controllable \<Rightarrow> controllable" where
  "Recv ch c = (if ch < length (chans c) then c\<lparr>chans := (chans c)[ch := None]\<rparr> else c)"

datatype clock_op = OpAdvance int | OpAfterTime int | OpRecv nat

fun clock_exec :: "clock_op \<Rightarrow> controllable \<Rightarrow> controllable" where
  "clock_exec (OpAdvance d) c = Advance d c"
| "clock_exec (OpAfterTime t) c = snd (AfterTime t c)"
| "clock_exec (OpRecv ch) c = Recv ch c"

fun clock_run :: "clock_op list \<Rightarrow> controllable \<Rightarrow> controllable" where
  "clock_run [] c = c"
| "clock_run (op # ops) c = clock_run ops (clock_exec op c)"

text \<open>The readings of the clock after each operation of a history.\<close>

fun readings :: "clock_op list \<Rightarrow> controllable \<Rightarrow> int list" where
  "readings [] c = []"
| "readings (op # ops) c = now (clock_exec op c) # readings ops (clock_exec op c)"

section \<open>The invariant\<close>

text \<open>Every waiter is still in the future and waits on a channel of its own that is empty.\<close>

definition clock_ok :: "controllable \<Rightarrow> bool" where
  "clock_ok c \<longleftrightarrow> distinct (map wCh (wait c)) \<and>
     (\<forall>w \<in> set (wait c). now c < wAt w \<and> wCh w < length (chans c) \<and> chans c ! wCh w = None)"

lemma clock_ok_New: "clock_ok NewControllable"
  by (simp add: clock_ok_def NewControllable_def)

lemma trySend_length [simp]: "length (trySend t cs ch) = length cs"
  by (simp add: trySend_def)

lemma trySend_nth: "i \<noteq> ch \<Longrightarrow> trySend t cs ch ! i = cs ! i"
  by (simp add: trySend_def)

lemma deliver_remain: "fst (deliver t ws cs) = filter (\<lambda>w. t < wAt w) ws"
  by (induction t ws cs rule: deliver.induct) (auto simp: split_beta Let_def)

lemma deliver_length [simp]: "length (snd (deliver t ws cs)) = length cs"
  by (induction t ws cs rule: deliver.induct) (auto simp: split_beta Let_def)

text \<open>What delivery leaves in a channel: the reading if a waiter of it is due, what was there
  otherwise.\<close>

lemma deliver_nth:
  assumes "distinct (map wCh ws)" "\<forall>w \<in> set ws. wCh w < length cs \<and> cs ! wCh w = None" "i < length cs"
  shows "snd (deliver t ws cs) ! i =
    (if \<exists>w \<in> set ws. wCh w = i \<and> wAt w \<le> t then Some t else cs ! i)"
  using assms
proof (induction t ws cs rule: deliver.induct)
  case (2 t w ws cs)
  then have p: "\<forall>v \<in> set ws. wCh v < length (trySend t cs (wCh w)) \<and> trySend t cs (wCh w) ! wCh v = None"
    by (auto simp: trySend_nth image_iff)
  show ?case
  proof (cases "wAt w \<le> t")
    case True
    then show ?thesis using 2 p by (auto simp: trySend_def image_iff nth_list_update)
  next
    case False
    then show ?thesis using 2 by (auto simp: split_beta Let_def)
  qed
qed simp

lemma Advance_sel:
  "now (Advance d c) = now c + d" "wait (Advance d c) = filter (\<lambda>w. now c + d < wAt w) (wait c)"
  "chans (Advance d c) = snd (deliver (now c + d) (wait c) (chans c))"
  by (simp_all add: Advance_def Let_def split_beta deliver_remain)

lemma Advance_chan:
  assumes "clock_ok c" "i < length (chans c)"
  shows "chans (Advance d c) ! i =
    (if \<exists>w \<in> set (wait c). wCh w = i \<and> wAt w \<le> now c + d then Some (now c + d) else chans c ! i)"
  using assms deliver_nth unfolding Advance_sel clock_ok_def by blast

lemma clock_ok_Advance:
  assumes ok: "clock_ok c"
  shows "clock_ok (Advance d c)"
proof -
  have d: "distinct (map wCh (wait c))" using ok by (simp add: clock_ok_def)
  have "chans (Advance d c) ! wCh w = None" if w: "w \<in> set (wait c)" "now c + d < wAt w" for w
  proof -
    have "wCh w < length (chans c)" "chans c ! wCh w = None" using ok w(1) by (auto simp: clock_ok_def)
    moreover have "v = w" if "v \<in> set (wait c)" "wCh v = wCh w" for v
      using d that w(1) by (meson distinct_map inj_onD)
    ultimately show ?thesis using w(2) Advance_chan [OF ok, of "wCh w" d] by (metis linorder_not_less)
  qed
  with ok show ?thesis
    by (auto simp: clock_ok_def Advance_sel distinct_map inj_on_def)
qed

lemma clock_ok_AfterTime: "clock_ok c \<Longrightarrow> clock_ok (snd (AfterTime t c))"
  by (auto simp: clock_ok_def AfterTime_def Let_def nth_append image_iff)

lemma clock_ok_Recv: "clock_ok c \<Longrightarrow> clock_ok (Recv ch c)"
  by (auto simp: clock_ok_def Recv_def nth_list_update)

lemma clock_ok_exec: "clock_ok c \<Longrightarrow> clock_ok (clock_exec op c)"
  by (cases op) (auto intro: clock_ok_Advance clock_ok_AfterTime clock_ok_Recv)

lemma clock_ok_run: "clock_ok c \<Longrightarrow> clock_ok (clock_run ops c)"
  by (induction ops arbitrary: c) (auto intro: clock_ok_exec)

section \<open>No wakeup is lost\<close>

text \<open>A channel is pending for an instant, or it holds a reading and nothing waits on it any more.\<close>

definition pending :: "int \<Rightarrow> nat \<Rightarrow> controllable \<Rightarrow> bool" where
  "pending t ch c \<longleftrightarrow> ch < length (chans c) \<and> \<lparr>wAt = t, wCh = ch\<rparr> \<in> set (wait c)"

definition fired :: "int \<Rightarrow> nat \<Rightarrow> controllable \<Rightarrow> bool" where
  "fired v ch c \<longleftrightarrow> ch < length (chans c) \<and> chans c ! ch = Some v \<and> ch \<notin> wCh ` set (wait c)"

lemma fired_exec: "clock_ok c \<Longrightarrow> fired v ch c \<Longrightarrow> op \<noteq> OpRecv ch \<Longrightarrow> fired v ch (clock_exec op c)"
  by (cases op) (auto simp: fired_def Advance_sel Advance_chan [unfolded Advance_sel] AfterTime_def Let_def
      nth_append Recv_def nth_list_update)

lemma fired_run: "clock_ok c \<Longrightarrow> fired v ch c \<Longrightarrow> OpRecv ch \<notin> set ops \<Longrightarrow> fired v ch (clock_run ops c)"
proof (induction ops arbitrary: c)
  case (Cons op ops)
  then show ?case using fired_exec clock_ok_exec by auto
qed simp

lemma pending_wait_unique:
  "clock_ok c \<Longrightarrow> pending t ch c \<Longrightarrow> w \<in> set (wait c) \<Longrightarrow> wCh w = ch \<Longrightarrow> w = \<lparr>wAt = t, wCh = ch\<rparr>"
  unfolding clock_ok_def pending_def by (metis (no_types) distinct_map inj_onD waiter.select_convs(2))

lemma pending_exec:
  assumes ok: "clock_ok c" and p: "pending t ch c" and r: "op \<noteq> OpRecv ch"
  shows "if t \<le> now (clock_exec op c) then fired (now (clock_exec op c)) ch (clock_exec op c)
         else pending t ch (clock_exec op c)"
proof (cases op)
  case (OpAdvance d)
  have "chans (Advance d c) ! ch = Some (now c + d)" if "t \<le> now c + d"
    using p that Advance_chan [OF ok, of ch d] by (fastforce simp: pending_def)
  moreover have "wAt w = t" if "w \<in> set (wait c)" "wCh w = ch" for w
    using pending_wait_unique [OF ok p that] by simp
  ultimately show ?thesis
    using p OpAdvance by (force simp: fired_def pending_def Advance_sel)
next
  case (OpAfterTime t')
  have "now c < t" using ok p by (auto simp: clock_ok_def pending_def)
  then show ?thesis using p OpAfterTime by (auto simp: pending_def AfterTime_def Let_def)
next
  case (OpRecv ch')
  have "now c < t" using ok p by (auto simp: clock_ok_def pending_def)
  then show ?thesis using p OpRecv by (auto simp: pending_def Recv_def)
qed

lemma pending_chan_None: "clock_ok c \<Longrightarrow> pending t ch c \<Longrightarrow> chans c ! ch = None"
  by (auto simp: clock_ok_def pending_def)

lemma pending_run:
  assumes "clock_ok c" "pending t ch c" "OpRecv ch \<notin> set ops"
  shows "chans (clock_run ops c) ! ch = find (\<lambda>r. t \<le> r) (readings ops c)"
  using assms
proof (induction ops arbitrary: c)
  case Nil
  then show ?case by (simp add: pending_chan_None)
next
  case (Cons op ops)
  then have ok: "clock_ok (clock_exec op c)" and p: "op \<noteq> OpRecv ch" by (auto intro: clock_ok_exec)
  show ?case
  proof (cases "t \<le> now (clock_exec op c)")
    case True
    then have "fired (now (clock_exec op c)) ch (clock_exec op c)"
      using pending_exec [OF Cons.prems(1,2) p] by simp
    from fired_run [OF ok this] Cons.prems(3) True show ?thesis by (simp add: fired_def)
  next
    case False
    then have "pending t ch (clock_exec op c)" using pending_exec [OF Cons.prems(1,2) p] by simp
    with Cons.IH [OF ok this] Cons.prems(3) False show ?thesis by simp
  qed
qed

lemma AfterTime_registers:
  assumes "clock_ok c" "AfterTime t c = (ch, c1)"
  shows "if t \<le> now c then fired (now c) ch c1 else pending t ch c1"
  using assms by (auto simp: AfterTime_def Let_def fired_def pending_def clock_ok_def split: if_splits)

text \<open>C30: no wakeup is lost and none is early.  Take any history of the clock, a deadline
  registered in it, and any further advances (in either direction), registrations and receipts on
  other channels: the deadline's channel then holds exactly the first reading of the clock, from
  its registration on, at which the deadline was reached, and nothing when it was not reached.\<close>

theorem AfterTime_no_lost_wakeup:
  assumes "AfterTime t (clock_run before NewControllable) = (ch, c1)"
    and "OpRecv ch \<notin> set later"
  shows "chans (clock_run later c1) ! ch =
         find (\<lambda>r. t \<le> r) (now (clock_run before NewControllable) # readings later c1)"
proof -
  let ?c = "clock_run before NewControllable"
  have ok: "clock_ok ?c" by (rule clock_ok_run [OF clock_ok_New])
  then have ok1: "clock_ok c1" using clock_ok_AfterTime [OF ok, of t] assms(1) by simp
  show ?thesis
  proof (cases "t \<le> now ?c")
    case True
    then have "fired (now ?c) ch c1" using AfterTime_registers [OF ok assms(1)] by simp
    from fired_run [OF ok1 this assms(2)] True show ?thesis by (simp add: fired_def)
  next
    case False
    then have "pending t ch c1" using AfterTime_registers [OF ok assms(1)] by simp
    from pending_run [OF ok1 this assms(2)] False show ?thesis by simp
  qed
qed

theorem AfterTime_no_lost_wakeup_witness:
  "chans (clock_run [OpAdvance 3, OpAfterTime 9, OpAdvance 4, OpAdvance 90]
     (snd (AfterTime 10 (clock_run [OpAdvance 5] NewControllable)))) ! 0 = Some 12"
proof -
  have "AfterTime 10 (clock_run [OpAdvance 5] NewControllable) =
      (0, snd (AfterTime 10 (clock_run [OpAdvance 5] NewControllable)))" by code_simp
  from AfterTime_no_lost_wakeup [OF this, of "[OpAdvance 3, OpAfterTime 9, OpAdvance 4, OpAdvance 90]"]
  show ?thesis by (simp add: NewControllable_def Advance_def AfterTime_def)
qed

end
