(* ===== verification/Bus.thy ===== *)
theory Bus
  imports Prelude
begin

text \<open>
  In-process event delivery (\<^verbatim>\<open>internal/bus/bus.go\<close>).  A subscriber function is a value of the
  type \<open>'h\<close>; \<open>Publish\<close> gives the calls it makes, each with the copied payload, in order.  The list
  of functions is copied under the lock, so what a handler subscribes or cancels while it runs does
  not change the deliveries of the publication that called it.  The cancel function that
  \<^verbatim>\<open>Subscribe\<close> returns is its captured topic and index.
\<close>

section \<open>State and operations\<close>

record 'h bus =
  subs :: "(string, 'h list) gmap"

record cancel =
  cTopic :: string
  cIdx :: nat

definition NewBus :: "'h bus" where
  "NewBus = \<lparr>subs = []\<rparr>"

definition topicSubs :: "'h bus \<Rightarrow> string \<Rightarrow> 'h list" where
  "topicSubs b topic = (case map_of (subs b) topic of Some hs \<Rightarrow> hs | None \<Rightarrow> [])"

definition Publish :: "'h bus \<Rightarrow> string \<Rightarrow> string \<Rightarrow> ('h \<times> string) list" where
  "Publish b topic payload = map (\<lambda>h. (h, payload)) (topicSubs b topic)"

definition Subscribe :: "string \<Rightarrow> 'h \<Rightarrow> 'h bus \<Rightarrow> cancel \<times> 'h bus" where
  "Subscribe topic h b =
     (let hs = topicSubs b topic @ [h]
      in (\<lparr>cTopic = topic, cIdx = length hs - 1\<rparr>, b\<lparr>subs := AList.update topic hs (subs b)\<rparr>))"

definition runCancel :: "cancel \<Rightarrow> 'h bus \<Rightarrow> 'h bus" where
  "runCancel c b =
     (let s = topicSubs b (cTopic c)
      in if cIdx c < length s
         then b\<lparr>subs := AList.update (cTopic c) (take (cIdx c) s @ drop (cIdx c + 1) s) (subs b)\<rparr>
         else b)"

section \<open>What a topic holds after each operation\<close>

lemma topicSubs_New [simp]: "topicSubs NewBus t = []"
  by (simp add: topicSubs_def NewBus_def)

lemma topicSubs_Subscribe [simp]:
  "topicSubs (snd (Subscribe t h b)) t' = (if t' = t then topicSubs b t @ [h] else topicSubs b t')"
  by (simp add: Subscribe_def topicSubs_def Let_def)

lemma Subscribe_cancel [simp]: "fst (Subscribe t h b) = \<lparr>cTopic = t, cIdx = length (topicSubs b t)\<rparr>"
  by (simp add: Subscribe_def Let_def)

lemma topicSubs_runCancel [simp]:
  "topicSubs (runCancel c b) t =
     (if t = cTopic c then take (cIdx c) (topicSubs b t) @ drop (cIdx c + 1) (topicSubs b t) else topicSubs b t)"
  by (auto simp: runCancel_def topicSubs_def Let_def)

text \<open>Subscribing a list of handlers in order, with the cancels they get.\<close>

fun subscribe_all :: "string \<Rightarrow> 'h list \<Rightarrow> 'h bus \<Rightarrow> cancel list \<times> 'h bus" where
  "subscribe_all t [] b = ([], b)"
| "subscribe_all t (h # hs) b =
     (let (c, b1) = Subscribe t h b; (cs, b2) = subscribe_all t hs b1 in (c # cs, b2))"

lemma subscribe_all_subs: "topicSubs (snd (subscribe_all t hs b)) t = topicSubs b t @ hs"
  by (induction hs arbitrary: b) (auto simp: split_beta Let_def)

lemma subscribe_all_other: "t' \<noteq> t \<Longrightarrow> topicSubs (snd (subscribe_all t hs b)) t' = topicSubs b t'"
  by (induction hs arbitrary: b) (auto simp: split_beta Let_def)

text \<open>A publication calls each subscriber of its topic once, in the order of the subscriptions,
  and cancelling the latest subscription undoes it.\<close>

lemma Publish_subscribe_all:
  "Publish (snd (subscribe_all t hs b)) t' p = Publish b t' p @ (if t' = t then map (\<lambda>h. (h, p)) hs else [])"
  by (auto simp: Publish_def subscribe_all_subs subscribe_all_other)

lemma cancel_latest: "topicSubs (runCancel (fst (Subscribe t h b)) (snd (Subscribe t h b))) = topicSubs b"
  by (auto simp: fun_eq_iff)

section \<open>Properties\<close>

text \<open>A cancel function removes by position, so it is only right while no earlier subscriber
  of the topic has left.  After two subscriptions, cancelling the latest is exact; cancelling the
  first and then the second leaves the second subscribed and served by the next publication; and
  cancelling the first twice also unsubscribes the second.\<close>

theorem bus_cancel_by_position:
  fixes h1 h2 :: 'h
  shows "let (c1, b1) = Subscribe t h1 bs; (c2, b2) = Subscribe t h2 b1
         in topicSubs (runCancel c2 b2) = topicSubs b1 \<and>
            Publish (runCancel c2 (runCancel c1 b2)) t p = Publish bs t p @ [(h2, p)] \<and>
            Publish (runCancel c1 (runCancel c1 b2)) t p = Publish bs t p"
  by (auto simp: split_beta Let_def Publish_def fun_eq_iff)

end
