(* ===== verification/Journal.thy ===== *)
theory Journal
  imports Prelude
begin

text \<open>
  The request journal (\<^verbatim>\<open>internal/journal/journal.go\<close>, its records from \<^verbatim>\<open>internal/spi/spi.go\<close>).
  An instant is the number of nanoseconds after Go's zero time, so the zero value is 0.
\<close>

section \<open>State and operations\<close>

record entry =
  At :: int
  RequestID :: string
  ServiceID :: string
  Operation :: string
  Tier :: string
  EAccount :: string
  ERegion :: string
  Status :: int
  ErrorCode :: string
  Duration :: int
  Note :: string

record jfilter =
  fServiceID :: string
  fOperation :: string
  fSince :: int
  fLimit :: int

record journal =
  entries :: "entry list"

definition NewJournal :: journal where
  "NewJournal = \<lparr>entries = []\<rparr>"

definition Record :: "entry \<Rightarrow> journal \<Rightarrow> journal" where
  "Record e j = j\<lparr>entries := entries j @ [e]\<rparr>"

text \<open>The loop of \<^verbatim>\<open>Query\<close>: the entries from the last to the first, and what was collected.\<close>

fun queryLoop :: "jfilter \<Rightarrow> entry list \<Rightarrow> entry list \<Rightarrow> entry list" where
  "queryLoop f [] out = out"
| "queryLoop f (e # es) out =
     (if fServiceID f \<noteq> [] \<and> ServiceID e \<noteq> fServiceID f then queryLoop f es out
      else if fOperation f \<noteq> [] \<and> Operation e \<noteq> fOperation f then queryLoop f es out
      else if fSince f \<noteq> 0 \<and> At e < fSince f then queryLoop f es out
      else let out' = out @ [e]
           in if fLimit f > 0 \<and> int (length out') \<ge> fLimit f then out' else queryLoop f es out')"

definition Query :: "jfilter \<Rightarrow> journal \<Rightarrow> entry list" where
  "Query f j = queryLoop f (rev (entries j)) []"

section \<open>The query against its specification\<close>

definition selects :: "jfilter \<Rightarrow> entry \<Rightarrow> bool" where
  "selects f e \<longleftrightarrow> (fServiceID f \<noteq> [] \<longrightarrow> ServiceID e = fServiceID f) \<and>
     (fOperation f \<noteq> [] \<longrightarrow> Operation e = fOperation f) \<and> (fSince f \<noteq> 0 \<longrightarrow> fSince f \<le> At e)"

definition limited :: "int \<Rightarrow> 'a list \<Rightarrow> 'a list" where
  "limited n xs = (if n > 0 then take (nat n) xs else xs)"

lemma queryLoop_Cons:
  "queryLoop f (e # es) out =
     (if \<not> selects f e then queryLoop f es out
      else if fLimit f > 0 \<and> fLimit f \<le> int (length out) + 1 then out @ [e]
      else queryLoop f es (out @ [e]))"
  by (auto simp: selects_def Let_def not_less)

lemma queryLoop_spec:
  assumes "fLimit f > 0 \<longrightarrow> int (length out) < fLimit f"
  shows "queryLoop f es out = limited (fLimit f) (out @ filter (selects f) es)"
  using assms
proof (induction es arbitrary: out)
  case Nil
  then show ?case by (auto simp: limited_def)
next
  case (Cons e es)
  consider (skip) "\<not> selects f e"
    | (last) "selects f e" "fLimit f > 0 \<and> fLimit f \<le> int (length out) + 1"
    | (take) "selects f e" "\<not> (fLimit f > 0 \<and> fLimit f \<le> int (length out) + 1)" by blast
  then show ?case
  proof cases
    case last
    with Cons.prems have "nat (fLimit f) = Suc (length out)" by auto
    with last show ?thesis unfolding queryLoop_Cons by (simp add: limited_def)
  qed (use Cons in \<open>auto simp del: queryLoop.simps simp: queryLoop_Cons\<close>)
qed

text \<open>A query answers with the recorded entries that pass its filter, newest first, cut at
  its limit when it has one.\<close>

theorem Query_newest_first:
  "Query f j = limited (fLimit f) (rev (filter (selects f) (entries j)))"
  by (simp add: Query_def queryLoop_spec rev_filter)

end
