(* ===== verification/PackRegistry.thy ===== *)
theory PackRegistry
  imports Prelude
begin

text \<open>
  The table of behaviour packs (\<^verbatim>\<open>internal/registry/registry.go\<close>).  The process-wide list of
  factories is an argument of \<open>New\<close> in registration order; a factory's \<^verbatim>\<open>New\<close> is a function of the
  dependencies that gives a pack or an error.  The configured tiers are read but change nothing in
  the program (\<^verbatim>\<open>_ = t\<close>), so the model has no argument for them.  \<open>closeOf\<close> says what closing a pack
  returns, \<open>None\<close> for a pack without a \<^verbatim>\<open>Close\<close> method.
\<close>

section \<open>State and operations\<close>

record ('d, 'e, 'p) factory =
  FServiceID :: string
  FNew :: "'d \<Rightarrow> ('e, 'p) res"

record 'p packs =
  enabled :: "(string, 'p) gmap"
  order :: "string list"

datatype 'e pack_err = RegisteredTwice string | NewFailed 'e

definition Register :: "('d, 'e, 'p) factory \<Rightarrow> ('d, 'e, 'p) factory list \<Rightarrow> ('d, 'e, 'p) factory list" where
  "Register f fs = fs @ [f]"

definition want :: "('d, 'e, 'p) factory list \<Rightarrow> string list \<Rightarrow> string \<Rightarrow> bool" where
  "want fs ids sid = (if ids = [] then sid \<in> set (map FServiceID fs) else sid \<in> set ids)"

fun newLoop :: "'d \<Rightarrow> (string \<Rightarrow> bool) \<Rightarrow> ('d, 'e, 'p) factory list \<Rightarrow> 'p packs \<Rightarrow> ('e pack_err, 'p packs) res" where
  "newLoop deps w [] r = Ok r"
| "newLoop deps w (f # fs) r =
     (if \<not> w (FServiceID f) then newLoop deps w fs r
      else if map_of (enabled r) (FServiceID f) \<noteq> None then Err (RegisteredTwice (FServiceID f))
      else case FNew f deps of
        Err e \<Rightarrow> Err (NewFailed e)
      | Ok p \<Rightarrow> newLoop deps w fs
          \<lparr>enabled = AList.update (FServiceID f) p (enabled r), order = order r @ [FServiceID f]\<rparr>)"

definition New :: "('d, 'e, 'p) factory list \<Rightarrow> 'd \<Rightarrow> string list \<Rightarrow> ('e pack_err, 'p packs) res" where
  "New fs deps ids = newLoop deps (want fs ids) fs \<lparr>enabled = [], order = []\<rparr>"

definition Resolve :: "'p packs \<Rightarrow> string \<Rightarrow> 'p option" where
  "Resolve r sid = map_of (enabled r) sid"

definition Enabled :: "'p packs \<Rightarrow> string list" where
  "Enabled r = order r"

text \<open>The packs are closed in the reverse of the order they were made, and every error is kept.\<close>

fun closeLoop :: "('p \<Rightarrow> 'e option) \<Rightarrow> 'p packs \<Rightarrow> string list \<Rightarrow> 'e list" where
  "closeLoop closeOf r [] = []"
| "closeLoop closeOf r (sid # sids) =
     (case map_of (enabled r) sid of
        None \<Rightarrow> []
      | Some p \<Rightarrow> (case closeOf p of Some e \<Rightarrow> [e] | None \<Rightarrow> [])) @ closeLoop closeOf r sids"

definition Close :: "('p \<Rightarrow> 'e option) \<Rightarrow> 'p packs \<Rightarrow> 'e list" where
  "Close closeOf r = closeLoop closeOf r (rev (order r))"

section \<open>Building the table\<close>

text \<open>The packs that the wanted factories make, in order.\<close>

definition made :: "'d \<Rightarrow> ('d, 'e, 'p) factory list \<Rightarrow> (string \<times> 'p) list" where
  "made deps fs = map (\<lambda>f. (FServiceID f, projr (FNew f deps))) fs"

definition builds :: "'d \<Rightarrow> ('d, 'e, 'p) factory list \<Rightarrow> bool" where
  "builds deps fs \<longleftrightarrow> (\<forall>f \<in> set fs. \<not> isl (FNew f deps))"

abbreviation wanted :: "(string \<Rightarrow> bool) \<Rightarrow> ('d, 'e, 'p) factory list \<Rightarrow> ('d, 'e, 'p) factory list" where
  "wanted w fs \<equiv> filter (\<lambda>f. w (FServiceID f)) fs"

lemma newLoop_Ok_iff:
  assumes "set (order r) = dom (map_of (enabled r))"
  shows "newLoop deps w fs r = Ok r' \<longleftrightarrow>
     builds deps (wanted w fs) \<and> distinct (map FServiceID (wanted w fs)) \<and>
     set (map FServiceID (wanted w fs)) \<inter> set (order r) = {} \<and>
     r' = \<lparr>enabled = enabled r @ made deps (wanted w fs), order = order r @ map FServiceID (wanted w fs)\<rparr>"
  using assms
proof (induction fs arbitrary: r)
  case Nil
  then show ?case by (auto simp: builds_def made_def)
next
  case (Cons f fs)
  show ?case
  proof (cases "w (FServiceID f) \<and> map_of (enabled r) (FServiceID f) = None")
    case True
    then have n: "FServiceID f \<notin> set (order r)" using Cons.prems by auto
    show ?thesis
    proof (cases "FNew f deps")
      case (Inr p)
      let ?r = "\<lparr>enabled = enabled r @ [(FServiceID f, p)], order = order r @ [FServiceID f]\<rparr>"
      have "set (order ?r) = dom (map_of (enabled ?r))" using Cons.prems by (auto simp: map_add_Some_iff)
      from Cons.IH [OF this] True Inr n show ?thesis
        by (auto simp: builds_def made_def update_fresh)
    qed (use True in \<open>auto simp: builds_def\<close>)
  next
    case False
    then show ?thesis using Cons by (auto simp: builds_def)
  qed
qed

text \<open>Building the registry succeeds exactly when the wanted services are each registered
  once and all their factories succeed; then the packs are those that the wanted factories make, in
  registration order.\<close>

theorem New_iff:
  "New fs deps ids = Ok r \<longleftrightarrow>
     builds deps (wanted (want fs ids) fs) \<and> distinct (map FServiceID (wanted (want fs ids) fs)) \<and>
     r = \<lparr>enabled = made deps (wanted (want fs ids) fs), order = map FServiceID (wanted (want fs ids) fs)\<rparr>"
  unfolding New_def by (subst newLoop_Ok_iff) auto

end
