(* ===== verification/Rand.thy ===== *)
theory Rand
  imports Prelude "HOL-Library.Word"
begin

unbundle bit_operations_syntax

text \<open>
  The seeded source of randomness (\<^verbatim>\<open>internal/rand/rand.go\<close>) and the request identifiers drawn
  from it (\<^verbatim>\<open>internal/idgen/idgen.go\<close>).  The generator hashes its seed and a counter with SHA-256,
  which is written out here on 32-bit words as FIPS 180-4 has it; the counter is a 64-bit word that
  wraps.  A length argument is a natural number: the program panics on a negative one.
\<close>

section \<open>SHA-256\<close>

type_synonym byte = "8 word"

type_synonym w32 = "32 word"

text \<open>The round constants are the first 32 bits of the fractional parts of the cube roots of the
  first 64 primes, the initial state those of the square roots of the first eight.  \<open>iroot k n\<close> is
  the \<open>k\<close>-th root of \<open>n\<close> rounded down, found bit by bit for roots below \<open>2 ^ 36\<close>.\<close>

definition iroot :: "nat \<Rightarrow> nat \<Rightarrow> nat" where
  "iroot k n = foldl (\<lambda>r b. if (r + 2 ^ b) ^ k \<le> n then r + 2 ^ b else r) 0 (rev [0..<36])"

definition small_primes :: "nat list" where
  "small_primes = filter (\<lambda>n. list_all (\<lambda>d. n mod d \<noteq> 0) [2..<n]) [2..<312]"

definition sha_k :: "w32 list" where
  "sha_k = map (\<lambda>p. of_nat (iroot 3 (p * 2 ^ 96))) small_primes"

definition sha_h0 :: "w32 list" where
  "sha_h0 = map (\<lambda>p. of_nat (iroot 2 (p * 2 ^ 64))) [2, 3, 5, 7, 11, 13, 17, 19]"

definition rotr32 :: "nat \<Rightarrow> w32 \<Rightarrow> w32" where
  "rotr32 n x = drop_bit n x OR push_bit (32 - n) x"

definition sha_s0 :: "w32 \<Rightarrow> w32" where
  "sha_s0 x = (rotr32 7 x XOR rotr32 18 x) XOR drop_bit 3 x"

definition sha_s1 :: "w32 \<Rightarrow> w32" where
  "sha_s1 x = (rotr32 17 x XOR rotr32 19 x) XOR drop_bit 10 x"

definition sha_S0 :: "w32 \<Rightarrow> w32" where
  "sha_S0 x = (rotr32 2 x XOR rotr32 13 x) XOR rotr32 22 x"

definition sha_S1 :: "w32 \<Rightarrow> w32" where
  "sha_S1 x = (rotr32 6 x XOR rotr32 11 x) XOR rotr32 25 x"

text \<open>The message schedule, latest word first.\<close>

fun sha_schedule :: "nat \<Rightarrow> w32 list \<Rightarrow> w32 list" where
  "sha_schedule 0 w = w"
| "sha_schedule (Suc n) w = sha_schedule n ((sha_s1 (w ! 1) + w ! 6 + sha_s0 (w ! 14) + w ! 15) # w)"

fun sha_round :: "w32 list \<Rightarrow> w32 \<times> w32 \<Rightarrow> w32 list" where
  "sha_round [a, b, c, d, e, f, g, h] (k, w) =
     (let t1 = h + sha_S1 e + ((e AND f) XOR (NOT e AND g)) + k + w;
          t2 = sha_S0 a + (((a AND b) XOR (a AND c)) XOR (b AND c))
      in [t1 + t2, a, b, c, d + t1, e, f, g])"
| "sha_round st _ = st"

definition sha_compress :: "w32 list \<Rightarrow> w32 list \<Rightarrow> w32 list" where
  "sha_compress hs block =
     (let w = rev (sha_schedule 48 (rev block))
      in map2 (+) hs (foldl sha_round hs (zip sha_k w)))"

definition be32 :: "byte list \<Rightarrow> w32" where
  "be32 bs = foldl (\<lambda>a b. push_bit 8 a OR ucast b) 0 bs"

definition be_bytes :: "nat \<Rightarrow> nat \<Rightarrow> byte list" where
  "be_bytes k n = map (\<lambda>i. of_nat (n div 256 ^ (k - 1 - i))) [0..<k]"

text \<open>Grouping into chunks of \<open>Suc k\<close> elements, the last one shorter when they do not fit.\<close>

function chunks :: "nat \<Rightarrow> 'a list \<Rightarrow> 'a list list" where
  "chunks k [] = []"
| "chunks k (x # xs) = take (Suc k) (x # xs) # chunks k (drop k xs)"
  by pat_completeness auto
termination by (relation "measure (length \<circ> snd)") auto

definition sha_pad :: "byte list \<Rightarrow> byte list" where
  "sha_pad m = m @ [0x80] @ replicate ((119 - length m mod 64) mod 64) 0 @ be_bytes 8 (8 * length m)"

definition sha_word_bytes :: "w32 \<Rightarrow> byte list" where
  "sha_word_bytes w = [ucast (drop_bit 24 w), ucast (drop_bit 16 w), ucast (drop_bit 8 w), ucast w]"

definition Sum256 :: "byte list \<Rightarrow> byte list" where
  "Sum256 m =
     concat (map sha_word_bytes
       (foldl sha_compress sha_h0 (map (\<lambda>b. map be32 (chunks 3 b)) (chunks 63 (sha_pad m)))))"

lemma sha_round_length [simp]: "length (sha_round st kw) = length st"
  by (cases "(st, kw)" rule: sha_round.cases) (simp_all add: Let_def)

lemma foldl_sha_round_length [simp]: "length (foldl sha_round st kws) = length st"
  by (induction kws arbitrary: st) simp_all

lemma foldl_sha_compress_length [simp]: "length (foldl sha_compress hs bs) = length hs"
  by (induction bs arbitrary: hs) (simp_all add: sha_compress_def Let_def)

lemma length_Sum256 [simp]: "length (Sum256 m) = 32"
proof -
  have l: "length (concat (map sha_word_bytes ws)) = 4 * length ws" for ws
    by (induction ws) (simp_all add: sha_word_bytes_def)
  show ?thesis unfolding Sum256_def l by (simp add: sha_h0_def)
qed

section \<open>The seeded stream\<close>

record seeded =
  ctr :: "64 word"
  seed :: "byte list"

definition str_bytes :: "string \<Rightarrow> byte list" where
  "str_bytes s = map of_char s"

definition New :: "string \<Rightarrow> seeded" where
  "New s = \<lparr>ctr = 0, seed = Sum256 (str_bytes s)\<rparr>"

definition next_block :: "seeded \<Rightarrow> byte list \<times> seeded" where
  "next_block s = (let c = ctr s + 1 in (Sum256 (seed s @ be_bytes 8 (unat c)), s\<lparr>ctr := c\<rparr>))"

definition Position :: "seeded \<Rightarrow> 64 word" where
  "Position s = ctr s"

definition Resume :: "64 word \<Rightarrow> seeded \<Rightarrow> seeded" where
  "Resume p s = (if p > ctr s then s\<lparr>ctr := p\<rparr> else s)"

definition Intn :: "int \<Rightarrow> seeded \<Rightarrow> int \<times> seeded" where
  "Intn n s =
     (if n \<le> 0 then (0, s)
      else let (b, s') = next_block s
           in (int (foldl (\<lambda>a x. 256 * a + unat x) 0 (take 8 b)) mod n, s'))"

text \<open>The loop of \<^verbatim>\<open>Bytes\<close>, with the number of bytes still missing.\<close>

function bytesLoop :: "nat \<Rightarrow> seeded \<Rightarrow> byte list \<times> seeded" where
  "bytesLoop n s =
     (if n = 0 then ([], s)
      else let (b, s1) = next_block s; (rest, s2) = bytesLoop (n - 32) s1 in (take n b @ rest, s2))"
  by pat_completeness auto
termination by (relation "measure fst") auto

declare bytesLoop.simps [simp del]

definition Bytes :: "nat \<Rightarrow> seeded \<Rightarrow> byte list \<times> seeded" where
  "Bytes n s = (let (b, s') = bytesLoop n s in (take n b, s'))"

definition hex_char :: "nat \<Rightarrow> char" where
  "hex_char d = ''0123456789abcdef'' ! d"

definition hex_byte :: "byte \<Rightarrow> string" where
  "hex_byte b = [hex_char (unat b div 16), hex_char (unat b mod 16)]"

definition hexEncode :: "byte list \<Rightarrow> string" where
  "hexEncode bs = concat (map hex_byte bs)"

definition Hex :: "nat \<Rightarrow> seeded \<Rightarrow> string \<times> seeded" where
  "Hex n s = (let (b, s') = Bytes ((n + 1) div 2) s in (take n (hexEncode b), s'))"

definition UUID :: "seeded \<Rightarrow> string \<times> seeded" where
  "UUID s =
     (let (b0, s') = Bytes 16 s;
          b1 = b0[6 := (b0 ! 6 AND 0x0f) OR 0x40];
          b = b1[8 := (b1 ! 8 AND 0x3f) OR 0x80]
      in (hexEncode (take 4 b) @ ''-'' @ hexEncode (take 2 (drop 4 b)) @ ''-'' @
          hexEncode (take 2 (drop 6 b)) @ ''-'' @ hexEncode (take 2 (drop 8 b)) @ ''-'' @
          hexEncode (take 6 (drop 10 b)), s'))"

definition Derive :: "string \<Rightarrow> seeded \<Rightarrow> seeded" where
  "Derive key s = \<lparr>ctr = 0, seed = Sum256 (seed s @ str_bytes key)\<rparr>"

text \<open>\<^verbatim>\<open>idgen.Next\<close>: a request identifier.\<close>

definition Next :: "seeded \<Rightarrow> string \<times> seeded" where
  "Next s = Hex 16 s"

section \<open>Lengths and ranges\<close>

lemma length_next_block [simp]: "length (fst (next_block s)) = 32"
  by (simp add: next_block_def Let_def)

lemma seed_next_block [simp]: "seed (snd (next_block s)) = seed s"
  by (simp add: next_block_def Let_def)

lemma bytesLoop_length: "length (fst (bytesLoop n s)) = n"
proof (induction n s rule: bytesLoop.induct)
  case (1 n s)
  show ?case
  proof (cases "n = 0")
    case False
    with 1 [OF False refl prod.collapse] show ?thesis
      by (subst bytesLoop.simps) (simp add: Let_def split_beta)
  qed (simp add: bytesLoop.simps)
qed

lemma bytesLoop_seed: "seed (snd (bytesLoop n s)) = seed s"
proof (induction n s rule: bytesLoop.induct)
  case (1 n s)
  show ?case
  proof (cases "n = 0")
    case False
    with 1 [OF False refl prod.collapse] show ?thesis
      by (subst bytesLoop.simps) (simp add: Let_def split_beta)
  qed (simp add: bytesLoop.simps)
qed

lemma Bytes_length [simp]: "length (fst (Bytes n s)) = n"
  by (simp add: Bytes_def split_beta Let_def bytesLoop_length)

lemma Bytes_seed [simp]: "seed (snd (Bytes n s)) = seed s"
  by (simp add: Bytes_def split_beta Let_def bytesLoop_seed)

lemma hexEncode_length [simp]: "length (hexEncode bs) = 2 * length bs"
  by (induction bs) (simp_all add: hexEncode_def hex_byte_def)

lemma Hex_length: "length (fst (Hex n s)) = n"
  by (simp add: Hex_def split_beta Let_def)

text \<open>A draw below a positive bound is below it, and a draw below a bound that is not positive is
  zero and takes nothing from the stream.\<close>

lemma Intn_range: "if n > 0 then 0 \<le> fst (Intn n s) \<and> fst (Intn n s) < n else Intn n s = (0, s)"
  by (auto simp: Intn_def Let_def split_beta)

section \<open>Drawing and resuming\<close>

datatype draw = DIntn int | DBytes nat | DHex nat | DUUID

fun draw_exec :: "draw \<Rightarrow> seeded \<Rightarrow> seeded" where
  "draw_exec (DIntn n) s = snd (Intn n s)"
| "draw_exec (DBytes n) s = snd (Bytes n s)"
| "draw_exec (DHex n) s = snd (Hex n s)"
| "draw_exec DUUID s = snd (UUID s)"

definition draw_all :: "draw list \<Rightarrow> seeded \<Rightarrow> seeded" where
  "draw_all ds s = foldl (\<lambda>s d. draw_exec d s) s ds"

lemma draw_exec_seed [simp]: "seed (draw_exec d s) = seed s"
  by (cases d) (simp_all add: Intn_def Hex_def UUID_def Let_def split_beta)

lemma draw_all_seed [simp]: "seed (draw_all ds s) = seed s"
  by (induction ds arbitrary: s) (simp_all add: draw_all_def)

lemma seeded_eqI: "ctr s = ctr t \<Longrightarrow> seed s = seed t \<Longrightarrow> s = (t::seeded)"
  by simp

text \<open>A restarted process continues the stream.  A fresh generator of a seed, resumed at the
  position another generator of that seed reached by any draws, is that generator, so it goes on
  with the same draws; and resuming never moves a generator back.\<close>

theorem Resume_continues:
  "Resume (Position (draw_all ds (New k))) (New k) = draw_all ds (New k) \<and> Position s \<le> Position (Resume p s)"
proof
  have s: "seed (New k) = seed (draw_all ds (New k))" by simp
  show "Resume (Position (draw_all ds (New k))) (New k) = draw_all ds (New k)"
  proof (cases "ctr (draw_all ds (New k)) = 0")
    case True
    then show ?thesis using s by (intro seeded_eqI) (simp_all add: Resume_def Position_def New_def)
  next
    case False
    then have "ctr (draw_all ds (New k)) > ctr (New k)" by (simp add: New_def word_neq_0_conv)
    then show ?thesis using s by (intro seeded_eqI) (simp_all add: Resume_def Position_def)
  qed
  show "Position s \<le> Position (Resume p s)" by (auto simp: Resume_def Position_def)
qed

section \<open>The shape of a UUID\<close>

definition hex_digits :: string where
  "hex_digits = ''0123456789abcdef''"

text \<open>A position of the template: a hexadecimal digit, the variant digit, or the character itself.\<close>

definition uuid_pos :: "char \<Rightarrow> char \<Rightarrow> bool" where
  "uuid_pos p c = (if p = CHR ''h'' then c \<in> set hex_digits
                   else if p = CHR ''v'' then c \<in> set ''89ab'' else c = p)"

lemma hex_char_digit: "d < 16 \<Longrightarrow> hex_char d \<in> set hex_digits"
  by (simp only: hex_char_def hex_digits_def) (rule nth_mem, simp)

lemma unat_byte_less: "unat (b :: byte) < 256"
  using unsigned_less [of b, where ?'a = nat] by simp

lemma hex_byte_digits: "list_all2 uuid_pos ''hh'' (hex_byte b)"
proof -
  have "unat b div 16 < 16" using unat_byte_less [of b] by simp
  then show ?thesis by (simp add: hex_byte_def uuid_pos_def hex_char_digit)
qed

lemma hexEncode_digits: "list_all2 uuid_pos (replicate (2 * length bs) (CHR ''h'')) (hexEncode bs)"
  using hex_byte_digits by (induction bs) (auto simp: hexEncode_def hex_byte_def)

lemma unat_div_16: "unat (b :: byte) div 16 = unat (drop_bit 4 b)"
  by (simp add: drop_bit_eq_div unat_div_distrib)

lemma uuid_version: "hex_char (unat ((b AND 0x0f) OR 0x40 :: byte) div 16) = CHR ''4''"
proof -
  have "drop_bit 4 ((b AND 0x0f) OR 0x40 :: byte) = (drop_bit 4 b AND drop_bit 4 0x0f) OR drop_bit 4 0x40"
    by (simp only: drop_bit_or drop_bit_and)
  also have "\<dots> = 4" by simp
  finally show ?thesis unfolding unat_div_16 by (simp add: hex_char_def)
qed

lemma uuid_variant: "hex_char (unat ((b AND 0x3f) OR 0x80 :: byte) div 16) \<in> set ''89ab''"
proof -
  have e: "drop_bit 4 ((b AND 0x3f) OR 0x80 :: byte) = (drop_bit 4 b AND 3) OR 8"
    by (simp add: drop_bit_or drop_bit_and)
  have "drop_bit 4 b AND 3 = take_bit 2 (drop_bit 4 b)"
    by (simp add: take_bit_eq_mask mask_eq_exp_minus_1)
  moreover have "take_bit 2 (w :: byte) \<in> {0, 1, 2, 3}" for w
  proof -
    have "of_nat n \<in> {0, 1, 2, 3 :: byte}" if "n < 4" for n
    proof -
      have "n = 0 \<or> n = 1 \<or> n = 2 \<or> n = 3" using that by arith
      then show ?thesis by auto
    qed
    moreover have "unat (take_bit 2 w) < 4" by (simp add: unsigned_take_bit_eq take_bit_nat_def)
    ultimately have "of_nat (unat (take_bit 2 w)) \<in> {0, 1, 2, 3 :: byte}" by blast
    then show ?thesis by (simp only: of_nat_unat ucast_id)
  qed
  ultimately have "drop_bit 4 b AND 3 \<in> {0, 1, 2, 3 :: byte}" by simp
  then show ?thesis unfolding unat_div_16 e by (auto simp: hex_char_def)
qed

lemma UUID_bytes:
  "\<exists>b. length b = 16 \<and> fst (UUID s) =
     hexEncode (take 4 b) @ ''-'' @ hexEncode (take 2 (drop 4 b)) @ ''-'' @
     hexEncode [b ! 6 AND 0x0f OR 0x40, b ! 7] @ ''-'' @ hexEncode [b ! 8 AND 0x3f OR 0x80, b ! 9] @ ''-'' @
     hexEncode (take 6 (drop 10 b))"
proof -
  define b where "b = fst (Bytes 16 s)"
  have l: "length b = 16" by (simp add: b_def)
  have d: "take 2 (drop i xs) = [xs ! i, xs ! Suc i]" if "Suc i < length xs" for i and xs :: "byte list"
    using that by (simp add: Cons_nth_drop_Suc [symmetric] numeral_2_eq_2)
  show ?thesis
    unfolding UUID_def Let_def split_beta b_def [symmetric] fst_conv
    by (rule exI [of _ b]) (simp add: l d)
qed

text \<open>A drawn UUID is a version 4 UUID: five groups of lower-case hexadecimal digits of
  lengths 8, 4, 4, 4 and 12 joined by dashes, with the version digit 4 and a variant digit among
  8, 9, a and b.\<close>

theorem UUID_version_4: "list_all2 uuid_pos ''hhhhhhhh-hhhh-4hhh-vhhh-hhhhhhhhhhhh'' (fst (UUID s))"
proof -
  obtain b where l: "length b = 16" and u: "fst (UUID s) =
     hexEncode (take 4 b) @ ''-'' @ hexEncode (take 2 (drop 4 b)) @ ''-'' @
     hexEncode [b ! 6 AND 0x0f OR 0x40, b ! 7] @ ''-'' @ hexEncode [b ! 8 AND 0x3f OR 0x80, b ! 9] @ ''-'' @
     hexEncode (take 6 (drop 10 b))" using UUID_bytes by blast
  have g: "list_all2 uuid_pos (replicate n (CHR ''h'')) (hexEncode bs)" if "n = 2 * length bs" for n bs
    using hexEncode_digits [of bs] that by simp
  have two: "hexEncode [x, y] = [hex_char (unat x div 16), hex_char (unat x mod 16)] @ hexEncode [y]" for x y
    by (simp add: hexEncode_def hex_byte_def)
  have split: "''hhhhhhhh-hhhh-4hhh-vhhh-hhhhhhhhhhhh'' =
      replicate 8 (CHR ''h'') @ ''-'' @ replicate 4 (CHR ''h'') @ ''-'' @ (''4h'' @ replicate 2 (CHR ''h'')) @ ''-'' @
      (''vh'' @ replicate 2 (CHR ''h'')) @ ''-'' @ replicate 12 (CHR ''h'')" by (simp add: numeral_eq_Suc)
  show ?thesis
    unfolding u split two
    by (intro list_all2_appendI g)
      (simp_all add: l uuid_pos_def hex_char_digit uuid_version uuid_variant [simplified])
qed

end
