(* ===== verification/HttpUri.thy ===== *)
theory HttpUri
  imports Prelude "HOL-Library.Product_Lexorder" "HOL-Library.Multiset"
begin

text \<open>
  Matching a request against the \<^verbatim>\<open>httpUri\<close> patterns of a service model
  (\<^verbatim>\<open>internal/proto/aws/httpuri/httpuri.go\<close>): the parser, the matcher with its greedy labels, and
  the ranking that picks the operation.

  A request is its method, its escaped path and its parsed query (\<^verbatim>\<open>url.Values\<close>, a map from keys to
  lists of values); \<^verbatim>\<open>url.PathUnescape\<close> is written out.  \<^verbatim>\<open>Compile\<close> is \<^verbatim>\<open>Parse\<close> behind a cache keyed
  by the pattern string, so here it is \<open>Parse\<close>.
\<close>

section \<open>Patterns\<close>

record segment =
  literal :: string
  label :: string
  sgreedy :: bool

record constraint =
  ckey :: string
  cvalue :: string
  hasValue :: bool

record Pattern =
  segments :: "segment list"
  pquery :: "constraint list"
  literals :: nat
  greedy :: bool
  bad :: bool

type_synonym query = "(string, string list) gmap"

definition parseConstraint :: "string \<Rightarrow> constraint" where
  "parseConstraint raw =
     (case Cut raw ''='' of
        (k, v, True) \<Rightarrow> \<lparr>ckey = k, cvalue = v, hasValue = True\<rparr>
      | _ \<Rightarrow> \<lparr>ckey = raw, cvalue = [], hasValue = False\<rparr>)"

definition parseSegment :: "string \<Rightarrow> segment" where
  "parseSegment part =
     (if HasPrefix part ''{'' \<and> HasSuffix part ''}''
      then let name = take (length part - 2) (drop 1 part)
           in \<lparr>literal = [], label = TrimSuffix name ''+'', sgreedy = HasSuffix name ''+''\<rparr>
      else \<lparr>literal = part, label = [], sgreedy = False\<rparr>)"

definition isLabelPart :: "string \<Rightarrow> bool" where
  "isLabelPart part \<longleftrightarrow> HasPrefix part ''{'' \<and> HasSuffix part ''}''"

definition addPart :: "Pattern \<Rightarrow> string \<Rightarrow> Pattern" where
  "addPart p part =
     (let s = parseSegment part in
      if isLabelPart part
      then p\<lparr>segments := segments p @ [s], bad := bad p \<or> label s = [], greedy := greedy p \<or> sgreedy s\<rparr>
      else p\<lparr>segments := segments p @ [s], literals := literals p + 1\<rparr>)"

definition SplitPath :: "string \<Rightarrow> string list" where
  "SplitPath path = filter (\<lambda>part. part \<noteq> []) (SplitByte (CHR ''/'') (TrimByte (CHR ''/'') path))"

definition Parse :: "string \<Rightarrow> Pattern" where
  "Parse uri =
     (let (path, cs) =
        (case IndexByte uri (CHR ''?'') of
           Some i \<Rightarrow> (take i uri,
             map parseConstraint (filter (\<lambda>raw. raw \<noteq> []) (SplitByte (CHR ''&'') (drop (i + 1) uri))))
         | None \<Rightarrow> (uri, []))
      in foldl addPart \<lparr>segments = [], pquery = cs, literals = 0, greedy = False, bad = False\<rparr> (SplitPath path))"

section \<open>Percent decoding\<close>

definition hexVal :: "char \<Rightarrow> nat option" where
  "hexVal c =
     (if is_digit c then Some (of_char c - 48)
      else if CHR ''a'' \<le> c \<and> c \<le> CHR ''f'' then Some (of_char c - 87)
      else if CHR ''A'' \<le> c \<and> c \<le> CHR ''F'' then Some (of_char c - 55)
      else None)"

fun PathUnescape :: "string \<Rightarrow> string option" where
  "PathUnescape [] = Some []"
| "PathUnescape (c # s) =
     (if c = CHR ''%'' then
        (case s of
           h # l # t \<Rightarrow>
             (case (hexVal h, hexVal l) of
                (Some x, Some y) \<Rightarrow> map_option ((#) (char_of (16 * x + y))) (PathUnescape t)
              | _ \<Rightarrow> None)
         | _ \<Rightarrow> None)
      else map_option ((#) c) (PathUnescape s))"

definition unescaped :: "string \<Rightarrow> string" where
  "unescaped part = (case PathUnescape part of Some v \<Rightarrow> v | None \<Rightarrow> part)"

section \<open>Matching\<close>

definition constraintMet :: "query \<Rightarrow> constraint \<Rightarrow> bool" where
  "constraintMet q c =
     (case map_of q (ckey c) of
        None \<Rightarrow> False
      | Some vs \<Rightarrow> hasValue c \<longrightarrow> cvalue c \<in> set vs)"

text \<open>The loop over the segments; \<open>parts\<close> is what is left of the path (\<^verbatim>\<open>parts[at:]\<close>).\<close>

fun matchSegs :: "bool \<Rightarrow> segment list \<Rightarrow> string list \<Rightarrow> (string, string) gmap \<Rightarrow> (string, string) gmap option" where
  "matchSegs bind [] parts bound = (if parts = [] then Some bound else None)"
| "matchSegs bind (seg # segs) parts bound =
     (if sgreedy seg then
        (if length parts < length segs + 1 then None
         else let n = length parts - length segs
              in matchSegs bind segs (drop n parts)
                   (if bind then AList.update (label seg) (Join (take n parts) ''/'') bound else bound))
      else case parts of
        [] \<Rightarrow> None
      | part # rest \<Rightarrow>
          if label seg = [] then (if part \<noteq> literal seg then None else matchSegs bind segs rest bound)
          else matchSegs bind segs rest
                 (if bind then AList.update (label seg) (unescaped part) bound else bound))"

definition match :: "Pattern \<Rightarrow> string list \<Rightarrow> query \<Rightarrow> bool \<Rightarrow> (string, string) gmap option" where
  "match p parts q bind =
     (if bad p then None
      else if \<not> list_all (constraintMet q) (pquery p) then None
      else matchSegs bind (segments p) parts [])"

definition Match :: "Pattern \<Rightarrow> string \<Rightarrow> query \<Rightarrow> (string, string) gmap option" where
  "Match p path q = match p (SplitPath path) q True"

definition Claims :: "Pattern \<Rightarrow> string list \<Rightarrow> query \<Rightarrow> bool" where
  "Claims p parts q = (match p parts q False \<noteq> None)"

section \<open>Operations and routing\<close>

record Operation =
  OpName :: string
  Method :: string
  URI :: string
  AltURIs :: "string list"

record http_request =
  ReqMethod :: string
  EscapedPath :: string
  ReqQuery :: query

definition Addresses :: "Operation \<Rightarrow> string list" where
  "Addresses op = (if URI op = [] then [] else URI op # AltURIs op)"

fun bindFirst :: "string list \<Rightarrow> string \<Rightarrow> query \<Rightarrow> (string, string) gmap option" where
  "bindFirst [] path q = None"
| "bindFirst (uri # uris) path q =
     (case Match (Parse uri) path q of Some bound \<Rightarrow> Some bound | None \<Rightarrow> bindFirst uris path q)"

definition Bind :: "Operation \<Rightarrow> string \<Rightarrow> query \<Rightarrow> (string, string) gmap option" where
  "Bind op path q = bindFirst (Addresses op) path q"

definition opClaims :: "Operation \<Rightarrow> string list \<Rightarrow> query \<Rightarrow> bool" where
  "opClaims op parts q = list_ex (\<lambda>uri. uri \<noteq> ''/'' \<and> Claims (Parse uri) parts q) (Addresses op)"

record candidate =
  cop :: Operation
  cbound :: "(string, string) gmap"
  cpat :: Pattern

definition candidates :: "http_request \<Rightarrow> Operation \<Rightarrow> candidate list" where
  "candidates r op =
     (if \<not> EqualFold (Method op) (ReqMethod r) then []
      else concat (map (\<lambda>uri.
             case Match (Parse uri) (EscapedPath r) (ReqQuery r) of
               None \<Rightarrow> []
             | Some bound \<Rightarrow> [\<lparr>cop = op, cbound = bound, cpat = Parse uri\<rparr>]) (Addresses op)))"

text \<open>The ranking of \<^verbatim>\<open>sort.SliceStable\<close> as a key: more query constraints first, then more literals,
  then patterns without a greedy label, then the operation's name.\<close>

definition rank :: "candidate \<Rightarrow> int \<times> int \<times> bool \<times> string" where
  "rank c = (- int (length (pquery (cpat c))), - int (literals (cpat c)), greedy (cpat c), OpName (cop c))"

definition before :: "candidate \<Rightarrow> candidate \<Rightarrow> bool" where
  "before a b =
     (if length (pquery (cpat a)) \<noteq> length (pquery (cpat b)) then length (pquery (cpat a)) > length (pquery (cpat b))
      else if literals (cpat a) \<noteq> literals (cpat b) then literals (cpat a) > literals (cpat b)
      else if greedy (cpat a) \<noteq> greedy (cpat b) then \<not> greedy (cpat a)
      else OpName (cop a) < OpName (cop b))"

definition MatchService :: "Operation list \<Rightarrow> http_request \<Rightarrow> (Operation \<times> (string, string) gmap) option" where
  "MatchService ops r =
     (case sort_key rank (concat (map (candidates r) ops)) of
        [] \<Rightarrow> None
      | c # _ \<Rightarrow> Some (cop c, cbound c))"

lemma before_iff_rank: "before a b \<longleftrightarrow> rank a < rank b"
  by (auto simp: before_def rank_def less_prod_def)

section \<open>The matcher against a declarative reading\<close>

text \<open>What a segment may stand for: a literal for itself, a label for one part, a greedy label for
  one or more; and what it binds there.\<close>

definition seg_takes :: "segment \<Rightarrow> string list \<Rightarrow> bool" where
  "seg_takes seg block =
     (if sgreedy seg then block \<noteq> []
      else if label seg = [] then block = [literal seg] else length block = 1)"

definition seg_binds :: "segment \<Rightarrow> string list \<Rightarrow> (string \<times> string) list" where
  "seg_binds seg block =
     (if sgreedy seg then [(label seg, Join block ''/'')]
      else if label seg = [] then [] else [(label seg, unescaped (hd block))])"

definition bind_all :: "(string, string) gmap \<Rightarrow> (string \<times> string) list \<Rightarrow> (string, string) gmap" where
  "bind_all = foldl (\<lambda>m (k, v). AList.update k v m)"

definition reads :: "segment list \<Rightarrow> string list list \<Rightarrow> string list \<Rightarrow> bool" where
  "reads segs blocks parts \<longleftrightarrow> list_all2 seg_takes segs blocks \<and> concat blocks = parts"

lemma reads_Nil: "reads [] blocks parts \<longleftrightarrow> blocks = [] \<and> parts = []"
  by (auto simp: reads_def)

lemma reads_Cons:
  "reads (seg # segs) blocks parts \<longleftrightarrow>
     (\<exists>b bs. blocks = b # bs \<and> seg_takes seg b \<and> reads segs bs (drop (length b) parts) \<and> take (length b) parts = b)"
  by (auto simp: reads_def list_all2_Cons1) (metis append_take_drop_id)

lemma reads_length: "reads segs blocks parts \<Longrightarrow> \<not> list_ex sgreedy segs \<Longrightarrow> length parts = length segs"
proof (induction segs arbitrary: blocks parts)
  case (Cons seg segs)
  then obtain b bs where b: "blocks = b # bs" "seg_takes seg b" "reads segs bs (drop (length b) parts)"
    "take (length b) parts = b" by (auto simp: reads_Cons)
  have "length b = 1" using b(2) Cons.prems(2) by (auto simp: seg_takes_def split: if_splits)
  moreover have "length (drop (length b) parts) = length segs"
    using Cons.IH [OF b(3)] Cons.prems(2) by simp
  moreover have "length b \<le> length parts" using arg_cong [OF b(4), of length] by simp
  ultimately show ?case by simp
qed (auto simp: reads_Nil)

lemma matchSegs_sound:
  "matchSegs True segs parts bound = Some bound' \<Longrightarrow>
   \<exists>blocks. reads segs blocks parts \<and> bound' = bind_all bound (concat (map2 seg_binds segs blocks))"
proof (induction segs arbitrary: parts bound)
  case Nil
  then show ?case by (auto simp: reads_Nil bind_all_def split: if_splits)
next
  case (Cons seg segs)
  show ?case
  proof (cases "sgreedy seg")
    case True
    let ?n = "length parts - length segs"
    from True Cons.prems have n: "length segs + 1 \<le> length parts"
      and m: "matchSegs True segs (drop ?n parts) (AList.update (label seg) (Join (take ?n parts) ''/'') bound) = Some bound'"
      by (auto simp: Let_def split: if_splits)
    from Cons.IH [OF m] obtain bs where bs: "reads segs bs (drop ?n parts)"
      "bound' = bind_all (AList.update (label seg) (Join (take ?n parts) ''/'') bound) (concat (map2 seg_binds segs bs))" by blast
    have "reads (seg # segs) (take ?n parts # bs) parts"
      using bs(1) n True by (auto simp: reads_Cons seg_takes_def min_def)
    moreover have "bound' = bind_all bound (concat (map2 seg_binds (seg # segs) (take ?n parts # bs)))"
      using bs(2) True by (simp add: seg_binds_def bind_all_def)
    ultimately show ?thesis by blast
  next
    case False
    with Cons.prems obtain part rest where p: "parts = part # rest" by (cases parts) auto
    define b' where "b' = (if label seg = [] then bound else AList.update (label seg) (unescaped part) bound)"
    have l: "label seg = [] \<Longrightarrow> part = literal seg" and m: "matchSegs True segs rest b' = Some bound'"
      using False Cons.prems p by (auto simp: b'_def split: if_splits)
    from Cons.IH [OF m] obtain bs where bs: "reads segs bs rest"
      "bound' = bind_all b' (concat (map2 seg_binds segs bs))" by blast
    have "reads (seg # segs) ([part] # bs) parts" using bs(1) p l False by (auto simp: reads_Cons seg_takes_def)
    moreover have "bound' = bind_all bound (concat (map2 seg_binds (seg # segs) ([part] # bs)))"
      using bs(2) False by (simp add: seg_binds_def bind_all_def b'_def)
    ultimately show ?thesis by blast
  qed
qed

lemma matchSegs_complete:
  assumes "reads segs blocks parts" "length (filter sgreedy segs) \<le> 1"
  shows "matchSegs True segs parts bound = Some (bind_all bound (concat (map2 seg_binds segs blocks)))"
  using assms
proof (induction segs arbitrary: blocks parts bound)
  case Nil
  then show ?case by (simp add: reads_Nil bind_all_def)
next
  case (Cons seg segs)
  then obtain b bs where b: "blocks = b # bs" "seg_takes seg b" "reads segs bs (drop (length b) parts)"
    "take (length b) parts = b" by (auto simp: reads_Cons)
  have t: "parts = b @ drop (length b) parts" using b(4) by (metis append_take_drop_id)
  show ?case
  proof (cases "sgreedy seg")
    case True
    then have "\<not> list_ex sgreedy segs" using Cons.prems(2) by (auto simp: list_ex_iff filter_empty_conv)
    from reads_length [OF b(3) this] have "length (drop (length b) parts) = length segs" .
    moreover have "b \<noteq> []" using b(2) True by (simp add: seg_takes_def)
    moreover have "length b \<le> length parts" using arg_cong [OF b(4), of length] by simp
    ultimately have n: "length parts - length segs = length b" "length segs + 1 \<le> length parts"
      by (cases b; simp)+
    show ?thesis
      using True Cons.IH [OF b(3)] Cons.prems(2) n b(4) by (simp add: b(1) Let_def seg_binds_def bind_all_def)
  next
    case False
    then obtain part where p: "b = [part]" using b(2) by (auto simp: seg_takes_def length_Suc_conv split: if_splits)
    have parts: "parts = part # drop 1 parts" using t by (simp add: p)
    have r: "reads segs bs (drop 1 parts)" using b(3) by (simp add: p)
    have l: "label seg = [] \<Longrightarrow> part = literal seg" using b(2) False by (auto simp: seg_takes_def p)
    have g: "length (filter sgreedy segs) \<le> 1" using Cons.prems(2) False by simp
    show ?thesis
      by (subst parts) (use False l Cons.IH [OF r g] in
        \<open>simp add: b(1) p seg_binds_def [of seg] bind_all_def\<close>)
  qed
qed

text \<open>Whether a pattern matches depends neither on the bindings so far nor on whether it binds.\<close>

fun fits :: "segment list \<Rightarrow> string list \<Rightarrow> bool" where
  "fits [] parts = (parts = [])"
| "fits (seg # segs) parts =
     (if sgreedy seg then length segs < length parts \<and> fits segs (drop (length parts - length segs) parts)
      else parts \<noteq> [] \<and> (label seg = [] \<longrightarrow> hd parts = literal seg) \<and> fits segs (tl parts))"

lemma matchSegs_fits: "(matchSegs bind segs parts c = None) = (\<not> fits segs parts)"
proof (induction segs arbitrary: parts c bind)
  case (Cons seg segs)
  show ?case by (cases parts) (simp_all add: Let_def Cons.IH)
qed simp

section \<open>Properties\<close>

text \<open>C18: for a pattern with at most one greedy label, as every published one is, the matcher is
  the declarative reading of the pattern: it matches exactly when the query constraints are met and
  the parts of the path can be cut into one block per segment, a literal standing for itself, a
  label for one part and the greedy label for one or more; it binds each label to its block,
  percent-decoded for a plain label.\<close>

theorem Match_iff_reads:
  assumes "length (filter sgreedy (segments p)) \<le> 1"
  shows "Match p path q = Some bound \<longleftrightarrow>
     \<not> bad p \<and> list_all (constraintMet q) (pquery p) \<and>
     (\<exists>blocks. reads (segments p) blocks (SplitPath path) \<and>
        bound = bind_all [] (concat (map2 seg_binds (segments p) blocks)))"
  using matchSegs_sound [of "segments p" "SplitPath path" "[]"]
    matchSegs_complete [OF _ assms, of _ "SplitPath path" "[]"]
  by (auto simp: Match_def match_def)

text \<open>The demultiplexer and the router agree.  An operation claims a request path through
  one of its addresses other than the bare root exactly when one of those addresses matches with
  bindings.\<close>

theorem opClaims_iff_Match:
  "opClaims op (SplitPath path) q \<longleftrightarrow>
     list_ex (\<lambda>uri. uri \<noteq> ''/'' \<and> Match (Parse uri) path q \<noteq> None) (Addresses op)"
  by (simp add: opClaims_def Claims_def Match_def match_def matchSegs_fits del: not_None_eq)

section \<open>Routing\<close>

text \<open>The head of a stable sort: the first element among those of the least key.\<close>

lemma hd_sort_key:
  assumes "xs \<noteq> []"
  shows "hd (sort_key f xs) = hd (filter (\<lambda>x. f x = Min (f ` set xs)) xs)"
proof -
  let ?m = "Min (f ` set xs)"
  have "length (sort_key f xs) \<noteq> 0" using assms by simp
  then obtain y ys where s: "sort_key f xs = y # ys" by (cases "sort_key f xs") auto
  have set: "set (y # ys) = set xs" using s by (metis set_sort)
  have "sorted (map f (y # ys))" using sorted_sort_key [of f xs] s by simp
  then have "\<forall>x \<in> set xs. f y \<le> f x" using set by auto
  then have "f y = ?m" using set by (intro Min_eqI [symmetric]) auto
  then have "hd (filter (\<lambda>x. f x = ?m) (sort_key f xs)) = y" by (simp add: s)
  then show ?thesis unfolding sort_key_stable by (simp add: s)
qed

lemma candidates_op: "c \<in> set (candidates r op) \<Longrightarrow> cop c = op"
  by (auto simp: candidates_def split: if_splits option.splits)

text \<open>Candidates of one rank have one operation name, so with distinct names they all come from
  one operation.\<close>

lemma filter_rank_one_op:
  assumes "distinct (map OpName ops)" "op \<in> set ops" "OpName op = n"
  shows "filter (\<lambda>c. rank c = (i, j, g, n)) (concat (map (candidates r) ops)) =
         filter (\<lambda>c. rank c = (i, j, g, n)) (candidates r op)"
  using assms
proof (induction ops)
  case (Cons o' ops)
  have other: "filter (\<lambda>c. rank c = (i, j, g, n)) (candidates r p) = []" if "OpName p \<noteq> n" for p
    using that candidates_op by (fastforce simp: filter_empty_conv rank_def)
  show ?case
  proof (cases "o' = op")
    case True
    have "OpName p \<noteq> n" if "p \<in> set ops" for p
      using Cons.prems(1,3) that True by (auto simp: image_iff)
    then have "filter (\<lambda>c. rank c = (i, j, g, n)) (concat (map (candidates r) ops)) = []"
      using other by (auto simp: filter_empty_conv)
    then show ?thesis by (simp add: True)
  next
    case False
    then have "op \<in> set ops" "OpName o' \<noteq> n" using Cons.prems by (auto simp: image_iff)
    with Cons other show ?thesis by simp
  qed
qed simp

lemma MatchService_head:
  "MatchService ops r =
     (let cs = concat (map (candidates r) ops) in
      if cs = [] then None
      else let c = hd (filter (\<lambda>c. rank c = Min (rank ` set cs)) cs) in Some (cop c, cbound c))"
proof (cases "concat (map (candidates r) ops)")
  case Nil
  then show ?thesis unfolding MatchService_def Nil by simp
next
  case (Cons c cs)
  define xs where "xs = concat (map (candidates r) ops)"
  have "xs \<noteq> []" "length (sort_key rank xs) \<noteq> 0" using Cons by (simp_all add: xs_def)
  then obtain y ys where y: "sort_key rank xs = y # ys" by (cases "sort_key rank xs") auto
  have "y = hd (filter (\<lambda>c. rank c = Min (rank ` set xs)) xs)"
    using hd_sort_key [OF \<open>xs \<noteq> []\<close>, of rank] y by simp
  with y \<open>xs \<noteq> []\<close> show ?thesis by (simp add: MatchService_def xs_def [symmetric] Let_def)
qed

text \<open>Routing does not depend on the order in which the model lists its operations, when
  their names are distinct.\<close>

theorem MatchService_order_independent:
  assumes "distinct (map OpName ops)" "mset ops' = mset ops"
  shows "MatchService ops' r = MatchService ops r"
proof -
  define cs cs' where "cs = concat (map (candidates r) ops)" and "cs' = concat (map (candidates r) ops')"
  have so: "set ops' = set ops" using assms(2) by (rule mset_eq_setD)
  have d': "distinct (map OpName ops')"
    using assms by (metis distinct_map distinct_count_atmost_1 mset_map mset_eq_imp_distinct_iff)
  have s: "set cs' = set cs" by (simp add: cs_def cs'_def so)
  show ?thesis
  proof (cases "cs = []")
    case False
    let ?m = "Min (rank ` set cs)"
    have "?m \<in> rank ` set cs" using False by (intro Min_in) auto
    then obtain c where c: "c \<in> set cs" "rank c = ?m" by auto
    then obtain op where op: "op \<in> set ops" "cop c = op" using candidates_op by (fastforce simp: cs_def)
    obtain i j g where m: "?m = (i, j, g, OpName op)"
      unfolding c(2) [symmetric] op(2) [symmetric] rank_def by blast
    have "filter (\<lambda>c. rank c = ?m) cs' = filter (\<lambda>c. rank c = ?m) cs"
      unfolding m unfolding cs_def cs'_def
      using filter_rank_one_op [OF assms(1) op(1) refl] filter_rank_one_op [OF d' _ refl, of op] op(1) so by simp
    then show ?thesis
      using s False unfolding MatchService_head cs_def [symmetric] cs'_def [symmetric] Let_def by (metis set_empty)
  qed (use s in \<open>simp add: MatchService_head cs_def [symmetric] cs'_def [symmetric]\<close>)
qed

text \<open>Routing answers with the most constrained candidate.  It fails exactly when no address
  of an operation with the request's method matches; otherwise the operation and the bindings it
  returns are those of a matching address that no other matching address comes before.\<close>

theorem MatchService_best:
  "case MatchService ops r of
     None \<Rightarrow> concat (map (candidates r) ops) = []
   | Some (op, bound) \<Rightarrow>
       list_ex (\<lambda>c. cop c = op \<and> cbound c = bound \<and>
           \<not> list_ex (\<lambda>d. before d c) (concat (map (candidates r) ops)))
         (concat (map (candidates r) ops))"
proof -
  define cs where "cs = concat (map (candidates r) ops)"
  show ?thesis
  proof (cases "cs = []")
    case False
    let ?f = "filter (\<lambda>c. rank c = Min (rank ` set cs)) cs"
    have "Min (rank ` set cs) \<in> rank ` set cs" using False by (intro Min_in) auto
    then have "?f \<noteq> []" by (auto simp: filter_empty_conv)
    then have "hd ?f \<in> set ?f" by (rule hd_in_set)
    then have h: "hd ?f \<in> set cs" "rank (hd ?f) = Min (rank ` set cs)" by simp_all
    then have "\<not> before d (hd ?f)" if "d \<in> set cs" for d
      using that by (simp add: before_iff_rank not_less)
    with h(1) False show ?thesis
      by (auto simp: MatchService_head Let_def cs_def [symmetric] list_ex_iff)
  qed (simp add: MatchService_head cs_def [symmetric])
qed

section \<open>A service\<close>

definition demo_op :: "string \<Rightarrow> string \<Rightarrow> Operation" where
  "demo_op name uri = \<lparr>OpName = name, Method = ''GET'', URI = uri, AltURIs = []\<rparr>"

definition demo_request :: "string \<Rightarrow> http_request" where
  "demo_request path = \<lparr>ReqMethod = ''get'', EscapedPath = path, ReqQuery = []\<rparr>"

text \<open>The pattern of S3 Control with a literal after its greedy label.\<close>

theorem Match_iff_reads_witness:
  "Match (Parse ''/mrap/{Name+}/policy'') ''/mrap/a/b/policy'' [] = Some [(''Name'', ''a/b'')]"
proof -
  let ?p = "Parse ''/mrap/{Name+}/policy''"
  have g: "length (filter sgreedy (segments ?p)) \<le> 1" by code_simp
  have sp: "SplitPath ''/mrap/a/b/policy'' = [''mrap'', ''a'', ''b'', ''policy'']" by code_simp
  have r: "reads (segments ?p) [[''mrap''], [''a'', ''b''], [''policy'']] [''mrap'', ''a'', ''b'', ''policy'']"
    by code_simp
  have b: "bind_all [] (concat (map2 seg_binds (segments ?p) [[''mrap''], [''a'', ''b''], [''policy'']])) =
      [(''Name'', ''a/b'')]" by code_simp
  have q: "\<not> bad ?p \<and> list_all (constraintMet []) (pquery ?p)" by code_simp
  show ?thesis
    unfolding Match_iff_reads [OF g] sp using r b q by metis
qed

theorem MatchService_order_independent_witness:
  "MatchService [demo_op ''GetX'' ''/d/{Id}'', demo_op ''ListAll'' ''/d/all''] (demo_request ''/d/all'') =
   MatchService [demo_op ''ListAll'' ''/d/all'', demo_op ''GetX'' ''/d/{Id}''] (demo_request ''/d/all'') \<and>
   MatchService [demo_op ''GetX'' ''/d/{Id}'', demo_op ''ListAll'' ''/d/all''] (demo_request ''/d/all'') =
   Some (demo_op ''ListAll'' ''/d/all'', [])"
proof
  show "MatchService [demo_op ''GetX'' ''/d/{Id}'', demo_op ''ListAll'' ''/d/all''] (demo_request ''/d/all'') =
    MatchService [demo_op ''ListAll'' ''/d/all'', demo_op ''GetX'' ''/d/{Id}''] (demo_request ''/d/all'')"
    by (rule MatchService_order_independent) (simp_all add: demo_op_def add_mset_commute)
  show "MatchService [demo_op ''GetX'' ''/d/{Id}'', demo_op ''ListAll'' ''/d/all''] (demo_request ''/d/all'') =
   Some (demo_op ''ListAll'' ''/d/all'', [])" by code_simp
qed

end
