(* ===== verification/Iam.thy ===== *)
theory Iam
  imports Prelude GoVal Store HttpUri
begin

text \<open>
  Policy evaluation (\<^verbatim>\<open>internal/services/aws/iam/authorizer.go\<close>): the principal of a request, the
  policies stored for it and for its organization, statement matching with globs and conditions,
  and the decision.

  The authorizer reads the in-memory store of \<open>Store\<close>.  Two functions of Go's library are
  parameters (record \<open>iam_lib\<close>): decoding a JSON document into a map (the map that is left when
  decoding fails is whatever the parameter says, empty for Go), and \<^verbatim>\<open>strconv.ParseFloat\<close>.  A Go map
  is ranged over in the order of its association list.  A \<^verbatim>\<open>map[string]string\<close> among the decoded
  values is a map of string values.
\<close>

section \<open>Globs\<close>

text \<open>The loop of \<^verbatim>\<open>globMatch\<close>: the positions \<open>p\<close> and \<open>i\<close> are the rests of the pattern and of the
  text from there, and \<open>star\<close> with \<open>retry\<close> are the pattern after the last star and the text it was
  last tried on.\<close>

fun globTail :: "string \<Rightarrow> bool" where
  "globTail [] = True"
| "globTail (c # p) = (c = CHR ''*'' \<and> globTail p)"

function globLoop :: "string \<Rightarrow> string \<Rightarrow> (string \<times> string) option \<Rightarrow> bool" where
  "globLoop p [] star = globTail p"
| "globLoop p (c # s) star =
     (if p \<noteq> [] \<and> (hd p = CHR ''?'' \<or> hd p = c) then globLoop (tl p) s star
      else if p \<noteq> [] \<and> hd p = CHR ''*'' then globLoop (tl p) (c # s) (Some (tl p, c # s))
      else case star of
        Some (sp, sr) \<Rightarrow> globLoop sp (tl sr) (Some (sp, tl sr))
      | None \<Rightarrow> False)"
  by pat_completeness auto
termination
  by (relation "measures [\<lambda>(p, s, star). max (length s) (case star of Some (_, sr) \<Rightarrow> length sr | None \<Rightarrow> 0),
      \<lambda>(p, s, star). length s + length p]")
    (auto split: option.splits simp: max_def)

definition globMatch :: "string \<Rightarrow> string \<Rightarrow> bool" where
  "globMatch pat s = globLoop pat s None"

section \<open>Decoded values\<close>

record iam_lib =
  unmarshal :: "bytes \<Rightarrow> gobj"
  parseFloat :: "string \<Rightarrow> f64 option"

fun asStrings :: "gval \<Rightarrow> string list" where
  "asStrings (VStr s) = [s]"
| "asStrings (VList vs) = concat (map (\<lambda>v. case v of VStr s \<Rightarrow> [s] | _ \<Rightarrow> []) vs)"
| "asStrings _ = []"

definition statements :: "gobj \<Rightarrow> gobj list" where
  "statements doc =
     (case gget doc ''Statement'' of
        VList vs \<Rightarrow> concat (map (\<lambda>v. case v of VMap m \<Rightarrow> [m] | _ \<Rightarrow> []) vs)
      | VMap m \<Rightarrow> [m]
      | _ \<Rightarrow> [])"

definition parseDoc :: "iam_lib \<Rightarrow> gval \<Rightarrow> gobj" where
  "parseDoc lib v = (case v of VMap m \<Rightarrow> m | VStr s \<Rightarrow> unmarshal lib s | _ \<Rightarrow> [])"

section \<open>Statements and conditions\<close>

definition actionMatches :: "gval \<Rightarrow> string \<Rightarrow> bool" where
  "actionMatches spec action = list_ex (\<lambda>p. globMatch (ToLower p) (ToLower action)) (asStrings spec)"

definition resourceMatches :: "gval \<Rightarrow> string \<Rightarrow> bool" where
  "resourceMatches spec resource =
     (asStrings spec = [] \<or> list_ex (\<lambda>p. globMatch p resource) (asStrings spec))"

definition statementActionMatches :: "gobj \<Rightarrow> string \<Rightarrow> bool" where
  "statementActionMatches st action =
     (case map_of st ''Action'' of
        Some spec \<Rightarrow> actionMatches spec action
      | None \<Rightarrow> \<not> actionMatches (gget st ''NotAction'') action)"

definition statementResourceMatches :: "gobj \<Rightarrow> string \<Rightarrow> bool" where
  "statementResourceMatches st resource =
     (case map_of st ''Resource'' of
        Some spec \<Rightarrow> resourceMatches spec resource
      | None \<Rightarrow> \<not> resourceMatches (gget st ''NotResource'') resource)"

type_synonym cvalues = "(string, string) gmap"

definition conditionValue :: "cvalues \<Rightarrow> string \<Rightarrow> string option" where
  "conditionValue values key = map_option snd (find (\<lambda>(c, _). EqualFold c key) values)"

definition matchesAny :: "string list \<Rightarrow> string \<Rightarrow> bool" where
  "matchesAny patterns actual = list_ex (\<lambda>p. globMatch p actual) patterns"

definition numericMatch :: "iam_lib \<Rightarrow> string \<Rightarrow> string \<Rightarrow> string list \<Rightarrow> bool" where
  "numericMatch lib operator actual expected =
     (case parseFloat lib actual of
        None \<Rightarrow> False
      | Some a \<Rightarrow>
          if operator = ''NumericNotEquals''
          then \<not> list_ex (\<lambda>v. case parseFloat lib v of Some b \<Rightarrow> f64_eq a b | None \<Rightarrow> False) expected
          else list_ex (\<lambda>v. case parseFloat lib v of
              None \<Rightarrow> False
            | Some b \<Rightarrow>
                if operator = ''NumericEquals'' then f64_eq a b
                else if operator = ''NumericLessThan'' then f64_lt a b
                else if operator = ''NumericLessThanEquals'' then f64_le a b
                else if operator = ''NumericGreaterThan'' then f64_lt b a
                else if operator = ''NumericGreaterThanEquals'' then f64_le b a
                else False) expected)"

text \<open>One entry of a condition block; \<open>False\<close> is the program's \<^verbatim>\<open>return false\<close>.\<close>

definition conditionHolds :: "iam_lib \<Rightarrow> cvalues \<Rightarrow> string \<Rightarrow> string \<Rightarrow> gval \<Rightarrow> bool" where
  "conditionHolds lib values operator key expected =
     (let actual = (case conditionValue values key of Some v \<Rightarrow> v | None \<Rightarrow> []);
          present = (conditionValue values key \<noteq> None);
          equal = (actual \<in> set (asStrings expected));
          op = TrimSuffix operator ''IfExists''
      in if \<not> present \<and> op \<noteq> ''Null'' \<and> HasSuffix operator ''IfExists'' then True
         else if op = ''StringEquals'' \<or> op = ''ArnEquals'' then present \<and> equal
         else if op = ''StringNotEquals'' \<or> op = ''ArnNotEquals'' then \<not> (present \<and> equal)
         else if op = ''StringLike'' \<or> op = ''ArnLike'' then present \<and> matchesAny (asStrings expected) actual
         else if op = ''StringNotLike'' \<or> op = ''ArnNotLike''
           then \<not> (present \<and> matchesAny (asStrings expected) actual)
         else if op \<in> {''NumericEquals'', ''NumericNotEquals'', ''NumericLessThan'', ''NumericLessThanEquals'',
             ''NumericGreaterThan'', ''NumericGreaterThanEquals''}
           then present \<and> numericMatch lib op actual (asStrings expected)
         else if op = ''Null'' then EqualFold (as_str expected) ''true'' \<noteq> present
         else False)"

definition conditionsMatch :: "iam_lib \<Rightarrow> gval \<Rightarrow> cvalues \<Rightarrow> bool" where
  "conditionsMatch lib spec values =
     list_all (\<lambda>(operator, raw). list_all (\<lambda>(key, expected). conditionHolds lib values operator key expected)
        (as_map raw)) (as_map spec)"

definition statementMatches :: "iam_lib \<Rightarrow> string \<Rightarrow> string \<Rightarrow> string \<Rightarrow> cvalues \<Rightarrow> gobj \<Rightarrow> bool" where
  "statementMatches lib effect action resource values st \<longleftrightarrow>
     EqualFold (as_str (gget st ''Effect'')) effect \<and> statementActionMatches st action \<and>
     statementResourceMatches st resource \<and> conditionsMatch lib (gget st ''Condition'') values"

definition effectMatch :: "iam_lib \<Rightarrow> gobj list \<Rightarrow> string \<Rightarrow> string \<Rightarrow> string \<Rightarrow> cvalues \<Rightarrow> bool" where
  "effectMatch lib docs effect action resource values =
     list_ex (\<lambda>doc. list_ex (statementMatches lib effect action resource values) (statements doc)) docs"

datatype decision = Allowed | ExplicitDeny | ImplicitDeny

definition decideWithContext :: "iam_lib \<Rightarrow> gobj list \<Rightarrow> string \<Rightarrow> string \<Rightarrow> cvalues \<Rightarrow> decision" where
  "decideWithContext lib docs action resource values =
     (if effectMatch lib docs ''Deny'' action resource values then ExplicitDeny
      else if docs = [] then Allowed
      else if effectMatch lib docs ''Allow'' action resource values then Allowed
      else ImplicitDeny)"

definition decide :: "iam_lib \<Rightarrow> gobj list \<Rightarrow> string \<Rightarrow> string \<Rightarrow> decision" where
  "decide lib docs action resource = decideWithContext lib docs action resource []"

section \<open>Principals\<close>

record Identity =
  IAccount :: string
  IRegion :: string
  AccessKeyID :: string
  ARN :: string

definition roleFromARN :: "string \<Rightarrow> string" where
  "roleFromARN arn =
     (case Index arn '':assumed-role/'' of
        None \<Rightarrow> []
      | Some i \<Rightarrow>
          (let rest = drop (i + length '':assumed-role/'') arn
           in case IndexByte rest (CHR ''/'') of Some j \<Rightarrow> take j rest | None \<Rightarrow> rest))"

definition userFromARN :: "string \<Rightarrow> string" where
  "userFromARN arn =
     (case Index arn '':user/'' of
        None \<Rightarrow> []
      | Some i \<Rightarrow> TrimPrefix (drop (i + length '':user/'') arn) ''/'')"

definition iamAction :: "string \<Rightarrow> string \<Rightarrow> string" where
  "iamAction serviceID operation =
     (let svc = TrimPrefix serviceID ''aws.'';
          svc' = (case LastIndexByte svc (CHR ''.'') of Some i \<Rightarrow> drop (i + 1) svc | None \<Rightarrow> svc)
      in svc' @ '':'' @ operation)"

definition listAll :: "memory \<Rightarrow> string \<Rightarrow> string \<Rightarrow> string \<Rightarrow> string \<Rightarrow> KV list" where
  "listAll m account region name pre = fst (listLocked account region name m pre [] 0)"

definition principal :: "iam_lib \<Rightarrow> memory \<Rightarrow> Identity \<Rightarrow> string \<times> string \<times> bool" where
  "principal lib m ident =
     (if roleFromARN (ARN ident) \<noteq> [] then (''role'', roleFromARN (ARN ident), True)
      else
        let hit = (if AccessKeyID ident = [] then None
                   else find (\<lambda>kv. gstr (unmarshal lib (Value kv)) ''AccessKeyId'' = AccessKeyID ident)
                     (listAll m (IAccount ident) (IRegion ident) ''iamak'' []))
        in case hit of
          Some kv \<Rightarrow> (let r = unmarshal lib (Value kv)
                     in (''user'', gstr r ''UserName'', \<not> EqualFold (gstr r ''Status'') ''Inactive''))
        | None \<Rightarrow> (''user'', userFromARN (ARN ident), True))"

section \<open>Stored policies\<close>

definition keepDoc :: "gobj \<Rightarrow> gobj list" where
  "keepDoc d = (if statements d \<noteq> [] then [d] else [])"

definition loadInlineDocs :: "iam_lib \<Rightarrow> memory \<Rightarrow> string \<Rightarrow> string \<Rightarrow> string \<Rightarrow> string \<Rightarrow> gobj list" where
  "loadInlineDocs lib m account region name pre =
     concat (map (\<lambda>kv. keepDoc (parseDoc lib (gget (unmarshal lib (Value kv)) ''PolicyDocument'')))
       (listAll m account region name pre))"

definition attachedDoc :: "iam_lib \<Rightarrow> memory \<Rightarrow> string \<Rightarrow> string \<Rightarrow> KV \<Rightarrow> gobj list" where
  "attachedDoc lib m account region kv =
     (let arn = gstr (unmarshal lib (Value kv)) ''PolicyArn'';
          name = (case LastIndexByte arn (CHR ''/'') of Some i \<Rightarrow> drop (i + 1) arn | None \<Rightarrow> arn)
      in case coll_Get account region ''iampolicy'' m name of
           None \<Rightarrow> []
         | Some b \<Rightarrow>
             (let pol = unmarshal lib b;
                  version = gstr pol ''DefaultVersionId'';
                  doc = (if version \<noteq> [] \<and> version \<noteq> ''v1'' then
                           (case coll_Get account region (''iampolver:'' @ name) m (name @ '':'' @ version) of
                              Some vb \<Rightarrow> gget (unmarshal lib vb) ''Document''
                            | None \<Rightarrow> gget pol ''PolicyDocument'')
                         else gget pol ''PolicyDocument'')
              in keepDoc (parseDoc lib doc)))"

definition loadAttachedDocs :: "iam_lib \<Rightarrow> memory \<Rightarrow> string \<Rightarrow> string \<Rightarrow> string \<Rightarrow> string \<Rightarrow> gobj list" where
  "loadAttachedDocs lib m account region attachments pre =
     concat (map (attachedDoc lib m account region) (listAll m account region attachments pre))"

definition loadPrincipalDocs :: "iam_lib \<Rightarrow> memory \<Rightarrow> string \<Rightarrow> string \<Rightarrow> string \<Rightarrow> string \<Rightarrow> gobj list" where
  "loadPrincipalDocs lib m account region kind name =
     (if name = [] then []
      else
        let (inline, attached) = (if kind = ''user'' then (''iamup'', ''iamuatt'') else (''iamrp'', ''iamatt''))
        in loadInlineDocs lib m account region inline (name @ '':'') @
           loadAttachedDocs lib m account region attached (name @ '':'') @
           (if kind = ''user''
            then concat (map (\<lambda>kv. loadInlineDocs lib m account region ''iamgp'' (Key kv @ '':'') @
                                   loadAttachedDocs lib m account region ''iamgable'' (Key kv @ '':''))
                   (listAll m account region (''iamug:'' @ name) []))
            else []))"

section \<open>Organization policies\<close>

text \<open>The loop up the organizational units: the parents visited so far are in \<open>seen\<close>.  It ends
  because a visited unit is not visited again and a unit that is not stored stops it, and the store
  holds finitely many.\<close>

function parentUnits :: "iam_lib \<Rightarrow> memory \<Rightarrow> string \<Rightarrow> string \<Rightarrow> string \<Rightarrow> string \<Rightarrow> string list \<Rightarrow> string list" where
  "parentUnits lib m account region rootId parent seen =
     (if parent = [] \<or> parent = rootId \<or> parent \<in> set seen then []
      else parent #
        (case coll_Get account region ''oou'' m parent of
           None \<Rightarrow> []
         | Some ou \<Rightarrow> parentUnits lib m account region rootId (gstr (unmarshal lib ou) ''ParentId'') (parent # seen)))"
  by pat_completeness auto
termination
proof (relation "measure (\<lambda>(lib, m, a, r, rootId, parent, seen). card ({k. coll_Get a r ''oou'' m k \<noteq> None} - set seen))")
  fix lib m account region rootId parent seen ou
  assume "\<not> (parent = [] \<or> parent = rootId \<or> parent \<in> set seen)"
    and "coll_Get account region ''oou'' m parent = Some ou"
  then have "{k. coll_Get account region ''oou'' m k \<noteq> None} - set (parent # seen)
      \<subset> {k. coll_Get account region ''oou'' m k \<noteq> None} - set seen" by auto
  then have "card ({k. coll_Get account region ''oou'' m k \<noteq> None} - set (parent # seen))
      < card ({k. coll_Get account region ''oou'' m k \<noteq> None} - set seen)"
    using finite_coll_Get by (intro psubset_card_mono) auto
  then show "((lib, m, account, region, rootId, gstr (unmarshal lib ou) ''ParentId'', parent # seen),
      lib, m, account, region, rootId, parent, seen)
      \<in> measure (\<lambda>(lib, m, a, r, rootId, parent, seen). card ({k. coll_Get a r ''oou'' m k \<noteq> None} - set seen))"
    by simp
qed simp

declare parentUnits.simps [simp del]

definition scpTargets :: "iam_lib \<Rightarrow> memory \<Rightarrow> Identity \<Rightarrow> gobj \<Rightarrow> string list" where
  "scpTargets lib m ident member =
     [gstr member ''RootId''] @
     parentUnits lib m (gstr member ''ManagementAccount'') (gstr member ''Region'') (gstr member ''RootId'')
       (gstr member ''ParentId'') [] @
     [IAccount ident]"

definition scpDoc :: "iam_lib \<Rightarrow> memory \<Rightarrow> string \<Rightarrow> string \<Rightarrow> KV \<Rightarrow> gobj list" where
  "scpDoc lib m account region attachment =
     (case coll_Get account region ''opolicy'' m (gstr (unmarshal lib (Value attachment)) ''PolicyId'') of
        None \<Rightarrow> []
      | Some policy \<Rightarrow> keepDoc (parseDoc lib (gget (unmarshal lib policy) ''Content'')))"

definition loadSCPDocs :: "iam_lib \<Rightarrow> memory \<Rightarrow> Identity \<Rightarrow> gobj list" where
  "loadSCPDocs lib m ident =
     (case coll_Get ''_mirror'' ''global'' ''orgmembers'' m (IAccount ident) of
        None \<Rightarrow> []
      | Some b \<Rightarrow>
          (let member = unmarshal lib b;
               account = gstr member ''ManagementAccount'';
               region = gstr member ''Region''
           in concat (map (\<lambda>target. concat (map (scpDoc lib m account region)
                  (listAll m account region ''oattach'' (target @ ''/'')))) (scpTargets lib m ident member))))"

section \<open>Condition values of a request\<close>

fun QueryUnescape :: "string \<Rightarrow> string option" where
  "QueryUnescape [] = Some []"
| "QueryUnescape (c # s) =
     (if c = CHR ''%'' then
        (case s of
           h # l # t \<Rightarrow>
             (case (hexVal h, hexVal l) of
                (Some x, Some y) \<Rightarrow> map_option ((#) (char_of (16 * x + y))) (QueryUnescape t)
              | _ \<Rightarrow> None)
         | _ \<Rightarrow> None)
      else map_option ((#) (if c = CHR ''+'' then CHR '' '' else c)) (QueryUnescape s))"

text \<open>\<^verbatim>\<open>url.ParseQuery\<close>; \<open>None\<close> when it reports an error, which the callers take as no tags.\<close>

fun parsePairs :: "string list \<Rightarrow> (string, string list) gmap \<Rightarrow> (string, string list) gmap option" where
  "parsePairs [] acc = Some acc"
| "parsePairs (kv # kvs) acc =
     (if CHR '';'' \<in> set kv then None
      else if kv = [] then parsePairs kvs acc
      else let (k, v, _) = Cut kv ''=''
           in case (QueryUnescape k, QueryUnescape v) of
                (Some k', Some v') \<Rightarrow>
                  parsePairs kvs (AList.update k' ((case map_of acc k' of Some vs \<Rightarrow> vs | None \<Rightarrow> []) @ [v']) acc)
              | _ \<Rightarrow> None)"

definition ParseQuery :: "string \<Rightarrow> (string, string list) gmap option" where
  "ParseQuery s = parsePairs (SplitByte (CHR ''&'') s) []"

definition addRequestTag :: "cvalues \<Rightarrow> string \<Rightarrow> string \<Rightarrow> cvalues" where
  "addRequestTag values key val =
     (if key = [] then values
      else AList.update (''s3:RequestObjectTag/'' @ key) val (AList.update (''aws:RequestTag/'' @ key) val values))"

definition addQueryTags :: "cvalues \<Rightarrow> string \<Rightarrow> cvalues" where
  "addQueryTags values s =
     (case ParseQuery s of
        None \<Rightarrow> values
      | Some tags \<Rightarrow> foldl (\<lambda>vs (key, vals). if vals \<noteq> [] then addRequestTag vs key (hd vals) else vs) values tags)"

definition tagPair :: "gval \<Rightarrow> string \<times> string" where
  "tagPair rawTag =
     (let tag = as_map rawTag
      in if gstr tag ''Key'' = [] then (gstr tag ''key'', gstr tag ''value'')
         else (gstr tag ''Key'', gstr tag ''Value''))"

fun addRequestTags :: "cvalues \<Rightarrow> gval \<Rightarrow> cvalues" where
  "addRequestTags values (VMap tags) = foldl (\<lambda>vs (key, v). addRequestTag vs key (as_str v)) values tags"
| "addRequestTags values (VList tags) = foldl (\<lambda>vs t. addRequestTag vs (fst (tagPair t)) (snd (tagPair t))) values tags"
| "addRequestTags values (VStr s) = addQueryTags values s"
| "addRequestTags values _ = values"

record iam_request =
  rqIdentity :: Identity
  rqServiceID :: string
  rqOperation :: string
  rqInput :: gobj
  rqTagging :: "string option"

definition requestConditionValues :: "iam_request \<Rightarrow> cvalues" where
  "requestConditionValues req =
     (let v0 = [(''aws:RequestedRegion'', IRegion (rqIdentity req))];
          token = gstr (as_map (gget (rqInput req) ''MetadataOptions'')) ''HttpTokens'';
          v1 = (if token \<noteq> [] then AList.update ''ec2:MetadataHttpTokens'' token v0 else v0);
          arn = gstr (rqInput req) ''PolicyArn'';
          v2 = (if arn \<noteq> [] then AList.update ''iam:PolicyArn'' arn v1 else v1);
          v3 = addRequestTags v2 (gget (rqInput req) ''Tags'');
          v4 = addRequestTags v3 (gget (rqInput req) ''Tagging'')
      in case rqTagging req of Some h \<Rightarrow> addQueryTags v4 h | None \<Rightarrow> v4)"

section \<open>Authorization\<close>

datatype auth_err = AccessDenied string string

definition authorize ::
  "iam_lib \<Rightarrow> memory option \<Rightarrow> Identity \<Rightarrow> string \<Rightarrow> string \<Rightarrow> string \<Rightarrow> cvalues \<Rightarrow> auth_err option" where
  "authorize lib st ident serviceID operation resource values =
     (case st of
        None \<Rightarrow> None
      | Some m \<Rightarrow>
          (let action = iamAction serviceID operation;
               (kind, name, active) = principal lib m ident;
               docs = loadPrincipalDocs lib m (IAccount ident) (IRegion ident) kind name;
               scps = loadSCPDocs lib m ident
           in if \<not> active then Some (AccessDenied (ARN ident) action)
              else if decideWithContext lib docs action resource values \<noteq> Allowed
              then Some (AccessDenied (ARN ident) action)
              else if scps \<noteq> [] \<and> decideWithContext lib scps action resource values \<noteq> Allowed
              then Some (AccessDenied (ARN ident) action)
              else None))"

definition Authorize :: "iam_lib \<Rightarrow> memory option \<Rightarrow> Identity \<Rightarrow> string \<Rightarrow> string \<Rightarrow> string \<Rightarrow> auth_err option" where
  "Authorize lib st ident serviceID operation resource =
     authorize lib st ident serviceID operation resource [(''aws:RequestedRegion'', IRegion ident)]"

definition AuthorizeRequest :: "iam_lib \<Rightarrow> memory option \<Rightarrow> iam_request option \<Rightarrow> string \<Rightarrow> auth_err option" where
  "AuthorizeRequest lib st req resource =
     (case req of
        None \<Rightarrow> None
      | Some r \<Rightarrow> authorize lib st (rqIdentity r) (rqServiceID r) (rqOperation r) resource (requestConditionValues r))"

section \<open>The glob loop against the glob language\<close>

text \<open>The language of a pattern: a star stands for any text, a question mark for one character,
  any other character for itself.\<close>

fun glob :: "string \<Rightarrow> string \<Rightarrow> bool" where
  "glob [] s = (s = [])"
| "glob (d # p) s =
     (if d = CHR ''*'' then list_ex (\<lambda>k. glob p (drop k s)) [0..<Suc (length s)]
      else s \<noteq> [] \<and> (d = CHR ''?'' \<or> d = hd s) \<and> glob p (tl s))"

lemma list_ex_upt: "list_ex P [0..<Suc n] \<longleftrightarrow> (\<exists>k\<le>n. P k)"
  by (auto simp: list_ex_iff less_Suc_eq_le simp del: upt_Suc)

lemma glob_star: "glob (CHR ''*'' # p) s \<longleftrightarrow> (\<exists>k. glob p (drop k s))"
proof
  assume "\<exists>k. glob p (drop k s)"
  then obtain k where "glob p (drop k s)" by blast
  moreover have "drop k s = drop (min k (length s)) s" by (simp add: min_def)
  ultimately have "glob p (drop (min k (length s)) s)" by simp
  then have "\<exists>k\<le>length s. glob p (drop k s)" by (intro exI [of _ "min k (length s)"]) simp
  then show "glob (CHR ''*'' # p) s" by (simp add: list_ex_upt del: upt_Suc)
qed (auto simp: list_ex_upt simp del: upt_Suc)

lemma glob_tail: "globTail p = glob p []"
  by (induction p) (auto simp: list_ex_iff)

definition char_ok :: "char \<Rightarrow> char \<Rightarrow> bool" where
  "char_ok d c \<longleftrightarrow> d \<noteq> CHR ''*'' \<and> (d = CHR ''?'' \<or> d = c)"

text \<open>A part of a pattern without stars matches character by character.\<close>

lemma glob_append:
  "CHR ''*'' \<notin> set q \<Longrightarrow>
   glob (q @ p) s \<longleftrightarrow> length q \<le> length s \<and> list_all2 char_ok q (take (length q) s) \<and> glob p (drop (length q) s)"
proof (induction q arbitrary: s)
  case (Cons d q)
  then show ?case by (cases s) (auto simp: char_ok_def)
qed simp

lemma glob_length: "glob p s \<Longrightarrow> length (filter (\<lambda>d. d \<noteq> CHR ''*'') p) \<le> length s"
proof (induction p s rule: glob.induct)
  case (2 d p s)
  show ?case
  proof (cases "d = CHR ''*''")
    case True
    with "2.prems" have "\<exists>k\<le>length s. glob p (drop k s)" by (simp add: list_ex_upt del: upt_Suc)
    then obtain k where k: "k \<le> length s" "glob p (drop k s)" by blast
    have "length (filter (\<lambda>d. d \<noteq> CHR ''*'') p) \<le> length (drop k s)"
      using k True by (intro "2.IH"(1)) auto
    then show ?thesis using True by simp
  next
    case False
    with 2 show ?thesis by (cases s) auto
  qed
qed simp

text \<open>Where the loop stands after its last star: \<open>q\<close> is the star-free part of the pattern that has
  matched \<open>u\<close> since the star was last tried.\<close>

definition since_star :: "string \<Rightarrow> string \<Rightarrow> string \<Rightarrow> string \<Rightarrow> bool" where
  "since_star p s sp sr \<longleftrightarrow> (\<exists>q u. sp = q @ p \<and> sr = u @ s \<and> CHR ''*'' \<notin> set q \<and> list_all2 char_ok q u)"

lemma since_star_fresh: "since_star p s p s"
  by (auto simp: since_star_def intro!: exI [of _ "[]"])

lemma since_star_step:
  assumes "since_star (d # p) (c # s) sp sr" "char_ok d c"
  shows "since_star p s sp sr"
proof -
  obtain q u where "sp = q @ d # p" "sr = u @ c # s" "CHR ''*'' \<notin> set q" "list_all2 char_ok q u"
    using assms(1) by (auto simp: since_star_def)
  then show ?thesis using assms(2) unfolding since_star_def
    by (intro exI [of _ "q @ [d]"] exI [of _ "u @ [c]"]) (auto simp: char_ok_def intro: list_all2_appendI)
qed

lemma since_star_glob:
  assumes "since_star p s sp sr"
  shows "glob p s = glob sp sr"
proof -
  obtain q u where q: "sp = q @ p" "sr = u @ s" "CHR ''*'' \<notin> set q" "list_all2 char_ok q u"
    using assms by (auto simp: since_star_def)
  moreover have "length q = length u" using q(4) by (rule list_all2_lengthD)
  ultimately show ?thesis by (simp add: glob_append)
qed

lemma since_star_shift:
  assumes "since_star p s sp sr"
  shows "glob sp (drop k sr) \<Longrightarrow> glob p (drop k s)"
proof -
  assume g: "glob sp (drop k sr)"
  obtain q u where q: "sp = q @ p" "sr = u @ s" "CHR ''*'' \<notin> set q" "length q = length u"
    using assms by (auto simp: since_star_def dest: list_all2_lengthD)
  have "drop (length q) (drop k sr) = drop k s" unfolding q(2,4) drop_drop by simp
  then show ?thesis using g glob_append [OF q(3), of p "drop k sr"] by (simp add: q(1))
qed

lemma since_star_end: "since_star p [] sp sr \<Longrightarrow> glob sp (drop k sr) \<Longrightarrow> glob p []"
  using since_star_shift by fastforce

lemma globLoop_one: "hd p = CHR ''?'' \<or> hd p = c \<Longrightarrow> p \<noteq> [] \<Longrightarrow> globLoop p (c # s) star = globLoop (tl p) s star"
  by simp

lemma globLoop_many:
  "\<not> (hd p = CHR ''?'' \<or> hd p = c) \<Longrightarrow> hd p = CHR ''*'' \<Longrightarrow> p \<noteq> [] \<Longrightarrow>
   globLoop p (c # s) star = globLoop (tl p) (c # s) (Some (tl p, c # s))"
  by simp

lemma globLoop_none:
  "\<not> (p \<noteq> [] \<and> (hd p = CHR ''?'' \<or> hd p = c)) \<Longrightarrow> \<not> (p \<noteq> [] \<and> hd p = CHR ''*'') \<Longrightarrow>
   globLoop p (c # s) star = (case star of Some (sp, sr) \<Rightarrow> globLoop sp (tl sr) (Some (sp, tl sr)) | None \<Rightarrow> False)"
  by (subst globLoop.simps(2)) (simp only: if_False)

lemma glob_one: "p \<noteq> [] \<Longrightarrow> char_ok (hd p) c \<Longrightarrow> glob p (c # s) = glob (tl p) s"
  by (cases p) (auto simp: char_ok_def)

lemma glob_none:
  "\<not> (p \<noteq> [] \<and> (hd p = CHR ''?'' \<or> hd p = c)) \<Longrightarrow> \<not> (p \<noteq> [] \<and> hd p = CHR ''*'') \<Longrightarrow> \<not> glob p (c # s)"
  by (cases p) auto

text \<open>At a new star the earlier one needs no more retries, and after a mismatch the star takes one
  character more.\<close>

lemma since_star_many:
  assumes ss: "since_star (CHR ''*'' # p) s sp sr"
  shows "glob (CHR ''*'' # p) s = glob (CHR ''*'' # sp) sr"
proof
  assume "glob (CHR ''*'' # p) s"
  then have "glob sp (drop 0 sr)" using since_star_glob [OF ss] by simp
  then show "glob (CHR ''*'' # sp) sr" unfolding glob_star by blast
next
  assume "glob (CHR ''*'' # sp) sr"
  then obtain k where "glob (CHR ''*'' # p) (drop k s)"
    unfolding glob_star [of sp] using since_star_shift [OF ss] by blast
  then obtain j where "glob p (drop (j + k) s)" unfolding glob_star drop_drop by blast
  then show "glob (CHR ''*'' # p) s" unfolding glob_star by blast
qed

lemma glob_star_Cons:
  assumes "\<not> glob sp (e # sr)"
  shows "glob (CHR ''*'' # sp) (e # sr) = glob (CHR ''*'' # sp) sr"
proof -
  have "(\<exists>k. glob sp (drop k (e # sr))) \<longleftrightarrow> glob sp (e # sr) \<or> (\<exists>k. glob sp (drop k sr))"
  proof
    assume "\<exists>k. glob sp (drop k (e # sr))"
    then obtain k where "glob sp (drop k (e # sr))" by blast
    then show "glob sp (e # sr) \<or> (\<exists>k. glob sp (drop k sr))" by (cases k) auto
  next
    assume "glob sp (e # sr) \<or> (\<exists>k. glob sp (drop k sr))"
    then show "\<exists>k. glob sp (drop k (e # sr))" by (metis drop0 drop_Suc_Cons)
  qed
  with assms show ?thesis unfolding glob_star by blast
qed

declare globLoop.simps(2) [simp del] glob.simps(2) [simp del]

fun star_ok :: "string \<Rightarrow> string \<Rightarrow> (string \<times> string) option \<Rightarrow> bool" where
  "star_ok p s None = True"
| "star_ok p s (Some (sp, sr)) = (since_star p s sp sr \<and> CHR ''*'' \<notin> set sr)"

fun star_glob :: "string \<Rightarrow> string \<Rightarrow> (string \<times> string) option \<Rightarrow> bool" where
  "star_glob p s None = glob p s"
| "star_glob p s (Some (sp, sr)) = glob (CHR ''*'' # sp) sr"

lemma star_ok_one: "star_ok p (c # s) star \<Longrightarrow> p \<noteq> [] \<Longrightarrow> char_ok (hd p) c \<Longrightarrow> star_ok (tl p) s star"
  by (cases star; cases p) (auto intro: since_star_step)

lemma star_glob_end: "star_ok p [] star \<Longrightarrow> globTail p = star_glob p [] star"
proof (cases star)
  case (Some z)
  obtain sp sr where z: "z = (sp, sr)" by (cases z)
  assume "star_ok p [] star"
  then have ss: "since_star p [] sp sr" by (simp add: Some z)
  have "glob p [] \<longleftrightarrow> (\<exists>k. glob sp (drop k sr))"
    using since_star_glob [OF ss] since_star_end [OF ss] by (metis drop0)
  then show ?thesis by (simp add: Some z glob_tail glob_star)
qed (simp add: glob_tail)

lemma globLoop_glob: "CHR ''*'' \<notin> set s \<Longrightarrow> star_ok p s star \<Longrightarrow> globLoop p s star = star_glob p s star"
proof (induction p s star rule: globLoop.induct)
  case (1 p star)
  then show ?case using star_glob_end by simp
next
  case (2 p c s star)
  then have c: "c \<noteq> CHR ''*''" and ns: "CHR ''*'' \<notin> set s" by auto
  consider (one) "p \<noteq> [] \<and> (hd p = CHR ''?'' \<or> hd p = c)"
    | (many) "\<not> (p \<noteq> [] \<and> (hd p = CHR ''?'' \<or> hd p = c))" "p \<noteq> [] \<and> hd p = CHR ''*''"
    | (none) "\<not> (p \<noteq> [] \<and> (hd p = CHR ''?'' \<or> hd p = c))" "\<not> (p \<noteq> [] \<and> hd p = CHR ''*'')" by blast
  then show ?case
  proof cases
    case one
    then have ok: "char_ok (hd p) c" using c by (auto simp: char_ok_def)
    have "globLoop p (c # s) star = star_glob (tl p) s star"
      using globLoop_one one "2.IH"(1) [OF one ns star_ok_one [OF "2.prems"(2) _ ok]] by simp
    then show ?thesis using glob_one [OF _ ok] one by (cases star) auto
  next
    case many
    obtain p' where p: "p = CHR ''*'' # p'" using many(2) by (cases p) auto
    have "globLoop p (c # s) star = glob (CHR ''*'' # p') (c # s)"
      using globLoop_many [of p c s star] many "2.IH"(2) [OF many "2.prems"(1)] "2.prems"(1) since_star_fresh [of p' "c # s"]
      by (simp add: p)
    then show ?thesis
      using "2.prems"(2) since_star_many [of p' "c # s"]
      by (cases star) (auto simp: p)
  next
    case none
    show ?thesis
    proof (cases star)
      case None
      then show ?thesis using globLoop_none [OF none] glob_none [OF none] by simp
    next
      case (Some z)
      obtain sp sr where z: "z = (sp, sr)" by (cases z)
      have ss: "since_star p (c # s) sp sr" and nr: "CHR ''*'' \<notin> set sr" using "2.prems"(2) by (simp_all add: Some z)
      obtain e sr' where sr: "sr = e # sr'" using ss by (cases sr) (auto simp: since_star_def)
      have "\<not> glob sp (e # sr')" using glob_none [OF none] since_star_glob [OF ss] by (simp add: sr)
      moreover have "globLoop p (c # s) star = glob (CHR ''*'' # sp) sr'"
        using globLoop_none [OF none, of s star] "2.IH"(3) [OF none Some z [symmetric]] nr since_star_fresh [of sp sr']
        by (simp add: Some z sr)
      ultimately show ?thesis using glob_star_Cons by (simp add: Some z sr)
    qed
  qed
qed

section \<open>Properties\<close>

text \<open>C31: on a text without a star character, the backtracking loop of \<^verbatim>\<open>globMatch\<close>, which only
  ever returns to the last star, decides the language of the pattern.\<close>

theorem globMatch_correct:
  assumes "CHR ''*'' \<notin> set s"
  shows "globMatch pat s = glob pat s"
  using globLoop_glob [OF assms, where star = None and p = pat] by (simp add: globMatch_def)

theorem globMatch_correct_witness:
  "globMatch ''arn:*:obj/?.txt'' ''arn:aws:s3:obj/a.txt'' = glob ''arn:*:obj/?.txt'' ''arn:aws:s3:obj/a.txt'' \<and>
   globMatch ''arn:*:obj/?.txt'' ''arn:aws:s3:obj/a.txt''"
proof
  show "globMatch ''arn:*:obj/?.txt'' ''arn:aws:s3:obj/a.txt'' = glob ''arn:*:obj/?.txt'' ''arn:aws:s3:obj/a.txt''"
    by (rule globMatch_correct) simp
qed code_simp

lemma globLoop_literal: "CHR ''*'' \<notin> set u \<Longrightarrow> globLoop (u @ p) (u @ s) None = globLoop p s None"
  by (induction u) (auto simp: globLoop.simps(2))

text \<open>A star in the text itself is taken for a literal match of the pattern's star.  A pattern
  that ends in a star, which should match every text under its prefix, refuses each such text whose
  rest starts with a star and goes on, so a statement that denies every object of a bucket does not
  deny an object whose name starts with a star.\<close>

theorem globMatch_star_in_text:
  assumes "CHR ''*'' \<notin> set u"
  shows "globMatch (u @ ''*'') (u @ ''*'' @ t) \<longleftrightarrow> t = []"
  using globLoop_literal [OF assms, of "''*''" "''*'' @ t"] by (cases t) (simp_all add: globMatch_def globLoop.simps(2))

theorem globMatch_star_in_text_witness:
  "glob ''arn:aws:s3:::b/*'' ''arn:aws:s3:::b/*secret'' \<and>
   \<not> statementResourceMatches [(''Effect'', VStr ''Deny''), (''Resource'', VStr ''arn:aws:s3:::b/*'')]
       ''arn:aws:s3:::b/*secret''"
proof
  show "glob ''arn:aws:s3:::b/*'' ''arn:aws:s3:::b/*secret''" by code_simp
  have "\<not> globMatch (''arn:aws:s3:::b/'' @ ''*'') (''arn:aws:s3:::b/'' @ ''*'' @ ''secret'')"
    using globMatch_star_in_text [of "''arn:aws:s3:::b/''" "''secret''"] by simp
  then show "\<not> statementResourceMatches [(''Effect'', VStr ''Deny''), (''Resource'', VStr ''arn:aws:s3:::b/*'')]
       ''arn:aws:s3:::b/*secret''" by (simp add: statementResourceMatches_def resourceMatches_def)
qed

lemma decide_deny: "effectMatch lib docs ''Deny'' action resource values \<Longrightarrow>
  decideWithContext lib docs action resource values = ExplicitDeny"
  by (simp add: decideWithContext_def)

lemma effectMatchI:
  "doc \<in> set docs \<Longrightarrow> st \<in> set (statements doc) \<Longrightarrow> statementMatches lib effect action resource values st \<Longrightarrow>
   effectMatch lib docs effect action resource values"
  by (auto simp: effectMatch_def list_ex_iff)

text \<open>C5: an explicit deny wins.  If any statement of any policy stored for the principal, or of
  the organization's policies, denies the action on the resource under the request's condition
  values, the request is denied, whatever other statements allow and in whatever order they are
  stored.\<close>

theorem authorize_deny_wins:
  assumes "principal lib m ident = (kind, name, active)"
    and "doc \<in> set (loadPrincipalDocs lib m (IAccount ident) (IRegion ident) kind name @ loadSCPDocs lib m ident)"
    and "st \<in> set (statements doc)"
    and "statementMatches lib ''Deny'' (iamAction serviceID operation) resource values st"
  shows "authorize lib (Some m) ident serviceID operation resource values =
         Some (AccessDenied (ARN ident) (iamAction serviceID operation))"
proof -
  have "effectMatch lib (loadPrincipalDocs lib m (IAccount ident) (IRegion ident) kind name) ''Deny''
          (iamAction serviceID operation) resource values \<or>
        (loadSCPDocs lib m ident \<noteq> [] \<and> effectMatch lib (loadSCPDocs lib m ident) ''Deny''
          (iamAction serviceID operation) resource values)"
    using effectMatchI [OF _ assms(3,4)] assms(2) by fastforce
  then show ?thesis using assms(1) by (auto simp: authorize_def Let_def dest: decide_deny)
qed

text \<open>A store with one user policy, as the decoder reads it.\<close>

definition demo_lib :: iam_lib where
  "demo_lib = \<lparr>unmarshal = (\<lambda>b. if b = ''P'' then [(''PolicyDocument'', VMap [(''Statement'', VList
       [VMap [(''Effect'', VStr ''Allow''), (''Action'', VStr ''*''), (''Resource'', VStr ''*'')],
        VMap [(''Effect'', VStr ''deny''), (''Action'', VStr ''S3:Get*''), (''Resource'', VStr ''*'')]])])] else []),
     parseFloat = (\<lambda>_. None)\<rparr>"

definition demo_ident :: Identity where
  "demo_ident = \<lparr>IAccount = ''1'', IRegion = ''us'', AccessKeyID = [], ARN = ''arn:aws:iam::1:user/ann''\<rparr>"

definition demo_store :: memory where
  "demo_store = coll_Put ''1'' ''us'' ''iamup'' (NewMemory []) ''ann:p'' ''P''"

theorem authorize_deny_wins_witness:
  "authorize demo_lib (Some demo_store) demo_ident ''aws.s3'' ''GetObject'' ''arn:x'' [] =
     Some (AccessDenied ''arn:aws:iam::1:user/ann'' ''s3:GetObject'') \<and>
   authorize demo_lib (Some demo_store) demo_ident ''aws.s3'' ''PutObject'' ''arn:x'' [] = None"
proof
  let ?st = "[(''Effect'', VStr ''deny''), (''Action'', VStr ''S3:Get*''), (''Resource'', VStr ''*'')]"
  let ?doc = "[(''Statement'', VList
       [VMap [(''Effect'', VStr ''Allow''), (''Action'', VStr ''*''), (''Resource'', VStr ''*'')], VMap ?st])]"
  have p: "principal demo_lib demo_store demo_ident = (''user'', ''ann'', True)" by code_simp
  have d: "?doc \<in> set (loadPrincipalDocs demo_lib demo_store (IAccount demo_ident) (IRegion demo_ident) ''user'' ''ann''
      @ loadSCPDocs demo_lib demo_store demo_ident)" by code_simp
  have s: "?st \<in> set (statements ?doc)" by code_simp
  have m: "statementMatches demo_lib ''Deny'' (iamAction ''aws.s3'' ''GetObject'') ''arn:x'' [] ?st" by code_simp
  have "iamAction ''aws.s3'' ''GetObject'' = ''s3:GetObject''" by code_simp
  with authorize_deny_wins [OF p d s m] show "authorize demo_lib (Some demo_store) demo_ident ''aws.s3'' ''GetObject'' ''arn:x'' [] =
     Some (AccessDenied ''arn:aws:iam::1:user/ann'' ''s3:GetObject'')" by (simp add: demo_ident_def)
  show "authorize demo_lib (Some demo_store) demo_ident ''aws.s3'' ''PutObject'' ''arn:x'' [] = None" by code_simp
qed

end
