(* ===== verification/Page.thy ===== *)
theory Page
  imports GoVal "HOL-Library.Product_Lexorder"
begin

text \<open>
  Listings by cursor (\<^verbatim>\<open>internal/engine/cursor.go\<close>, \<^verbatim>\<open>internal/engine/page.go\<close>) and the folding of
  hierarchical names (\<^verbatim>\<open>internal/engine/tagmatch.go\<close>).

  A cursor is a \<^verbatim>\<open>float64\<close>: the arithmetic on it is written with the rounding of \<open>GoVal\<close> after every
  operation, and that it is exact is proved.  Integers are 64-bit: where the program adds or
  subtracts sequence numbers the result is wrapped.  \<^verbatim>\<open>strconv.ParseFloat\<close> is the parameter \<open>pf\<close>.
\<close>

section \<open>Slots and cursors\<close>

definition slotBits :: "int \<Rightarrow> nat" where
  "slotBits ms = min (53 - bitlen (nat \<bar>ms\<bar>)) 12"

definition slotCount :: "int \<Rightarrow> int" where
  "slotCount ms = 2 ^ slotBits ms - 1"

text \<open>Go's remainder, which has the sign of the dividend.\<close>

definition go_rem :: "int \<Rightarrow> int \<Rightarrow> int" where
  "go_rem a n = (if a < 0 then - ((- a) mod n) else a mod n)"

definition slotOf :: "int \<Rightarrow> int \<Rightarrow> int" where
  "slotOf ms sq =
     (let n = slotCount ms in if n = 0 then 0 else 1 + go_rem (go_rem sq n + n) n)"

fun f64_bin :: "(rat \<Rightarrow> rat \<Rightarrow> rat) \<Rightarrow> f64 \<Rightarrow> f64 \<Rightarrow> f64" where
  "f64_bin f (Fin a) (Fin b) = f64_of_rat (f a b)"
| "f64_bin f _ _ = NaN"

text \<open>The operations a finite cursor takes part in; all operands are finite there.\<close>

abbreviation f64_plus :: "f64 \<Rightarrow> f64 \<Rightarrow> f64" where "f64_plus \<equiv> f64_bin (+)"
abbreviation f64_minus :: "f64 \<Rightarrow> f64 \<Rightarrow> f64" where "f64_minus \<equiv> f64_bin (-)"
abbreviation f64_times :: "f64 \<Rightarrow> f64 \<Rightarrow> f64" where "f64_times \<equiv> f64_bin (*)"
abbreviation f64_over :: "f64 \<Rightarrow> f64 \<Rightarrow> f64" where "f64_over \<equiv> f64_bin (/)"

definition pageCursor :: "int \<Rightarrow> int \<Rightarrow> f64" where
  "pageCursor ms sq =
     (let slot = slotOf ms sq
      in if slot = 0 then f64_of_int ms
         else f64_plus (f64_of_int ms) (f64_over (f64_of_int slot) (f64_of_int (2 ^ slotBits ms))))"

record cursor =
  cset :: bool
  cms :: int
  cslot :: int

definition noCursor :: cursor where
  "noCursor = \<lparr>cset = False, cms = 0, cslot = 0\<rparr>"

datatype cursor_err = NotANumber | NotInRange | NoSuchPlace

fun cursorOf :: "f64 \<Rightarrow> (cursor_err, cursor) res" where
  "cursorOf (Fin q) =
     (let f = min (max q (- (2 ^ 53))) (2 ^ 53);
          ms = \<lfloor>f\<rfloor>;
          frac = f64_minus (Fin f) (Fin (of_int ms))
      in if f64_eq frac (Fin 0) then Ok \<lparr>cset = True, cms = ms, cslot = 0\<rparr>
         else case f64_times frac (f64_of_int (2 ^ slotBits ms)) of
           Fin places \<Rightarrow>
             if places \<noteq> of_int (trunc_rat places) then Err NoSuchPlace
             else Ok \<lparr>cset = True, cms = ms, cslot = trunc_rat places\<rparr>
         | _ \<Rightarrow> Err NoSuchPlace)"
| "cursorOf _ = Err NotANumber"

text \<open>The grammar of a cursor's text: a sign, digits with no leading zero, a fraction, an exponent.\<close>

definition digits :: "string \<Rightarrow> string \<times> string" where
  "digits s = (takeWhile is_digit s, dropWhile is_digit s)"

definition grammarExp :: "string \<Rightarrow> bool" where
  "grammarExp s =
     (case s of
        [] \<Rightarrow> True
      | c # t \<Rightarrow> (c = CHR ''e'' \<or> c = CHR ''E'') \<and>
          (let t' = (case t of d # u \<Rightarrow> if d = CHR ''+'' \<or> d = CHR ''-'' then u else t | [] \<Rightarrow> [])
           in t' \<noteq> [] \<and> list_all is_digit t'))"

definition grammarFrac :: "string \<Rightarrow> bool" where
  "grammarFrac s =
     (case s of
        CHR ''.'' # t \<Rightarrow> fst (digits t) \<noteq> [] \<and> grammarExp (snd (digits t))
      | _ \<Rightarrow> grammarExp s)"

definition cursorGrammar :: "string \<Rightarrow> bool" where
  "cursorGrammar s =
     (let t = TrimPrefix s ''-''
      in case t of
           [] \<Rightarrow> False
         | c # u \<Rightarrow>
             if c = CHR ''0'' then grammarFrac u
             else is_digit c \<and> grammarFrac (snd (digits t)))"

fun toFloat :: "gval \<Rightarrow> f64 option" where
  "toFloat (VFloat f) = Some f"
| "toFloat (VInt i) = Some (f64_of_int i)"
| "toFloat (VInt64 i) = Some (f64_of_int i)"
| "toFloat _ = None"

definition parseCursor :: "(string \<Rightarrow> f64 option) \<Rightarrow> gval \<Rightarrow> (cursor_err, cursor) res" where
  "parseCursor pf v =
     (case v of
        VNil \<Rightarrow> Ok noCursor
      | VStr t \<Rightarrow>
          if TrimSpace t = [] then Ok noCursor
          else if \<not> cursorGrammar t then Err NotANumber
          else (case pf t of None \<Rightarrow> Err NotInRange | Some f \<Rightarrow> cursorOf f)
      | _ \<Rightarrow> (case toFloat v of None \<Rightarrow> Err NotANumber | Some f \<Rightarrow> cursorOf f))"

section \<open>Pages\<close>

record entry =
  erec :: gval
  ems :: int
  eseq :: int

definition numOf :: "gval \<Rightarrow> int" where
  "numOf v = (case toFloat v of Some f \<Rightarrow> f64_to_int64 f | None \<Rightarrow> 0)"

definition entryOf :: "string \<Rightarrow> gval \<Rightarrow> entry" where
  "entryOf msMember it =
     \<lparr>erec = it, ems = numOf (gget (as_map it) msMember), eseq = numOf (gget (as_map it) ''seq'')\<rparr>"

definition entriesOf :: "gval list \<Rightarrow> string \<Rightarrow> entry list" where
  "entriesOf items msMember = map (entryOf msMember) items"

record bound =
  bcursor :: cursor
  bseq :: int

definition boundOf :: "cursor \<Rightarrow> entry list \<Rightarrow> bound" where
  "boundOf c es =
     (if cslot c = 0 then \<lparr>bcursor = c, bseq = 0\<rparr>
      else
        let n = slotCount (cms c);
            run = map eseq (filter (\<lambda>e. ems e = cms c) es);
            lo = (case run of [] \<Rightarrow> 0 | x # xs \<Rightarrow> foldl min x xs);
            hi = (case run of [] \<Rightarrow> 0 | x # xs \<Rightarrow> foldl max x xs);
            s = wrap64 (lo + go_rem (go_rem (wrap64 (cslot c - 1 - lo)) n + n) n)
        in \<lparr>bcursor = c,
            bseq = (if run \<noteq> [] \<and> hi < s \<and> wrap64 (lo - wrap64 (s - n)) < wrap64 (s - hi)
                    then wrap64 (s - n) else s)\<rparr>)"

definition olderThan :: "bound \<Rightarrow> entry \<Rightarrow> bool" where
  "olderThan b e \<longleftrightarrow>
     (if \<not> cset (bcursor b) then True
      else ems e < cms (bcursor b) \<or> cslot (bcursor b) \<noteq> 0 \<and> ems e = cms (bcursor b) \<and> eseq e < bseq b)"

definition newerThan :: "bound \<Rightarrow> entry \<Rightarrow> bool" where
  "newerThan b e \<longleftrightarrow>
     (if \<not> cset (bcursor b) then True
      else ems e > cms (bcursor b) \<or> cslot (bcursor b) \<noteq> 0 \<and> ems e = cms (bcursor b) \<and> eseq e > bseq b)"

definition sortEntries :: "bool \<Rightarrow> entry list \<Rightarrow> entry list" where
  "sortEntries ascending es =
     (if ascending then sort_key (\<lambda>e. (ems e, eseq e)) es else sort_key (\<lambda>e. (- ems e, - eseq e)) es)"

text \<open>The entries that every cursor keeps, in the order of the listing.\<close>

definition keepOf :: "entry list \<Rightarrow> cursor list \<Rightarrow> cursor list \<Rightarrow> bool \<Rightarrow> entry list" where
  "keepOf es newer older ascending =
     sortEntries ascending
       (filter (\<lambda>e. list_all (\<lambda>c. newerThan (boundOf c es) e) newer \<and>
                    list_all (\<lambda>c. olderThan (boundOf c es) e) older) es)"

record page =
  pPage :: "gval list"
  pCount :: int
  pNext :: "f64 option"
  pFirst :: "f64 option"

definition pageOf :: "gval list \<Rightarrow> string \<Rightarrow> cursor list \<Rightarrow> cursor list \<Rightarrow> bool \<Rightarrow> int \<Rightarrow> page" where
  "pageOf items msMember newer older ascending limit =
     (let keep = keepOf (entriesOf items msMember) newer older ascending;
          l = nat (max limit 0);
          pg = take (min l (length keep)) keep
      in \<lparr>pPage = map erec pg,
          pCount = int (length pg),
          pNext = (if 0 < l \<and> l < length keep
                   then Some (pageCursor (ems (keep ! (l - 1))) (eseq (keep ! (l - 1)))) else None),
          pFirst = (if keep \<noteq> [] then Some (pageCursor (ems (hd keep)) (eseq (hd keep))) else None)\<rparr>)"

section \<open>Hierarchical listings\<close>

definition hierEntry :: "string \<Rightarrow> string \<Rightarrow> string \<Rightarrow> string" where
  "hierEntry pre delim n =
     (if delim = [] then n
      else case Index (drop (length pre) n) delim of
        Some i \<Rightarrow> pre @ take (i + length delim) (drop (length pre) n)
      | None \<Rightarrow> n)"

fun hierLoop :: "string \<Rightarrow> string \<Rightarrow> string list \<Rightarrow> string list \<Rightarrow> string list" where
  "hierLoop pre delim [] out = out"
| "hierLoop pre delim (n # names) out =
     (if \<not> HasPrefix n pre then hierLoop pre delim names out
      else if hierEntry pre delim n \<in> set out then hierLoop pre delim names out
      else hierLoop pre delim names (out @ [hierEntry pre delim n]))"

definition hierList :: "string list \<Rightarrow> string \<Rightarrow> string \<Rightarrow> string list" where
  "hierList names pre delim = sort (hierLoop pre delim names [])"

section \<open>Slots\<close>

lemma go_rem_twice: "0 < n \<Longrightarrow> go_rem (go_rem a n + n) n = a mod n"
proof -
  assume n: "0 < n"
  have r: "0 \<le> go_rem a n + n" using n by (simp add: go_rem_def) (smt (verit) pos_mod_bound)
  have "go_rem a n mod n = a mod n" by (simp add: go_rem_def mod_minus_eq)
  with r show ?thesis by (simp add: go_rem_def [of "go_rem a n + n"])
qed

lemma slotBits_le: "slotBits ms \<le> 12"
  by (simp add: slotBits_def)

lemma slotCount_nonneg: "0 \<le> slotCount ms"
  by (simp add: slotCount_def)

lemma slotOf_eq: "slotCount ms \<noteq> 0 \<Longrightarrow> slotOf ms sq = 1 + sq mod slotCount ms"
  using slotCount_nonneg [of ms] by (simp add: slotOf_def Let_def go_rem_twice)

lemma slotOf_range:
  assumes "slotCount ms \<noteq> 0"
  shows "1 \<le> slotOf ms sq" "slotOf ms sq < 2 ^ slotBits ms"
proof -
  have n: "0 < slotCount ms" using assms slotCount_nonneg [of ms] by simp
  show "1 \<le> slotOf ms sq" using n by (simp add: slotOf_eq assms)
  have "sq mod slotCount ms < slotCount ms" using n by simp
  then show "slotOf ms sq < 2 ^ slotBits ms" using slotOf_eq [OF assms, of sq] by (simp add: slotCount_def)
qed

text \<open>The millisecond and the slot fit into 53 bits together.\<close>

lemma slot_fits:
  assumes "slotBits ms \<noteq> 0" "0 \<le> slot" "slot < 2 ^ slotBits ms"
  shows "\<bar>ms * 2 ^ slotBits ms + slot\<bar> < 2 ^ 53"
proof -
  let ?k = "slotBits ms" and ?b = "bitlen (nat \<bar>ms\<bar>)"
  have kb: "?k + ?b \<le> 53" using assms(1) by (simp add: slotBits_def)
  have "nat \<bar>ms\<bar> < 2 ^ ?b" by (rule bitlen_less)
  then have m: "\<bar>ms\<bar> + 1 \<le> 2 ^ ?b" by (simp add: nat_less_iff)
  have "(\<bar>ms\<bar> + 1) * 2 ^ ?k \<le> 2 ^ ?b * 2 ^ ?k" using m by (intro mult_right_mono) auto
  also have "\<dots> = (2 :: int) ^ (?k + ?b)" by (simp add: power_add mult.commute)
  also have "\<dots> \<le> 2 ^ 53" using kb by (intro power_increasing) auto
  finally have u: "\<bar>ms\<bar> * 2 ^ ?k + 2 ^ ?k \<le> 2 ^ 53" by (simp add: distrib_right)
  have "\<bar>ms * 2 ^ ?k + slot\<bar> \<le> \<bar>ms * 2 ^ ?k\<bar> + slot" using assms(2) by (simp add: abs_triangle_ineq order_trans [OF abs_triangle_ineq])
  then show ?thesis using u assms(3) by (simp add: abs_mult)
qed

lemma slotCount_0_iff: "slotCount ms = 0 \<longleftrightarrow> slotBits ms = 0"
proof (cases "slotBits ms = 0")
  case False
  then have "(1 :: int) < 2 ^ slotBits ms" by (intro one_less_power) auto
  then have "slotCount ms \<noteq> 0" unfolding slotCount_def by linarith
  with False show ?thesis by simp
qed (simp add: slotCount_def)

lemma slotOf_0_iff: "slotOf ms sq = 0 \<longleftrightarrow> slotBits ms = 0"
  using slotOf_range(1) [of ms sq] slotCount_0_iff [of ms] by (force simp: slotOf_def Let_def)

text \<open>The double of a cursor is exactly its millisecond and its slot.\<close>

lemma pageCursor_exact:
  assumes "\<bar>ms\<bar> < 2 ^ 53"
  shows "pageCursor ms sq = Fin (of_int ms + of_int (slotOf ms sq) / 2 ^ slotBits ms)"
proof (cases "slotBits ms = 0")
  case True
  then show ?thesis using assms slotOf_0_iff [of ms sq] by (simp add: pageCursor_def f64_exact_int)
next
  case False
  let ?k = "slotBits ms" and ?s = "slotOf ms sq"
  have r: "1 \<le> ?s" "?s < 2 ^ ?k" using slotOf_range [of ms sq] False by (simp_all add: slotCount_0_iff)
  have k: "?k \<le> 1074" using slotBits_le [of ms] by simp
  have p: "(2 :: int) ^ ?k \<le> 2 ^ 12" using slotBits_le by (intro power_increasing) auto
  have s: "\<bar>?s\<bar> < 2 ^ 53" "\<bar>2 ^ ?k :: int\<bar> < 2 ^ 53" using r p by simp_all
  have d: "f64_over (f64_of_int ?s) (f64_of_int (2 ^ ?k)) = Fin (of_int ?s / 2 ^ ?k)"
    using f64_exact [OF s(1) k] unfolding f64_exact_int [OF s(1)] f64_exact_int [OF s(2)] by simp
  have "(of_int ms :: rat) + of_int ?s / 2 ^ ?k = of_int (ms * 2 ^ ?k + ?s) / 2 ^ ?k"
    by (simp add: add_divide_distrib)
  then have "f64_of_rat (of_int ms + of_int ?s / 2 ^ ?k) = Fin (of_int ms + of_int ?s / 2 ^ ?k)"
    using f64_exact [OF slot_fits [OF False _ r(2)] k] r(1) by simp
  then show ?thesis
    unfolding pageCursor_def Let_def d f64_exact_int [OF assms] using r(1) by simp
qed

lemma cursorOf_pageCursor:
  assumes ms: "\<bar>ms\<bar> < 2 ^ 53"
  shows "cursorOf (pageCursor ms sq) = Ok \<lparr>cset = True, cms = ms, cslot = slotOf ms sq\<rparr>"
proof -
  let ?k = "slotBits ms" and ?s = "slotOf ms sq"
  let ?q = "of_int ms + of_int ?s / 2 ^ ?k :: rat"
  have s: "0 \<le> ?s" "?s < 2 ^ ?k" "?s = 0 \<longleftrightarrow> ?k = 0"
    using slotOf_range [of ms sq] slotOf_0_iff [of ms sq] by (cases "?k = 0"; simp add: slotCount_0_iff)+
  have fr: "0 \<le> (of_int ?s / 2 ^ ?k :: rat)" "of_int ?s / 2 ^ ?k < (1 :: rat)"
    using s(1,2) by (simp_all add: divide_less_eq)
  have fl: "\<lfloor>?q\<rfloor> = ms" using fr by (simp add: floor_eq_iff)
  have cl: "min (max ?q (- (2 ^ 53))) (2 ^ 53) = ?q"
  proof -
    have "of_int ms + 1 \<le> (2 ^ 53 :: rat)" "- (2 ^ 53) \<le> (of_int ms :: rat)"
    proof -
      have "ms + 1 \<le> 2 ^ 53" "- (2 ^ 53) \<le> ms" using ms by auto
      then have "of_int (ms + 1) \<le> (of_int (2 ^ 53) :: rat)" "of_int (- (2 ^ 53)) \<le> (of_int ms :: rat)"
        by (simp_all only: of_int_le_iff)
      then show "of_int ms + 1 \<le> (2 ^ 53 :: rat)" "- (2 ^ 53) \<le> (of_int ms :: rat)" by simp_all
    qed
    then have "- (2 ^ 53) \<le> ?q" "?q \<le> 2 ^ 53" using fr by linarith+
    then show ?thesis by (simp only: max_absorb1 min_absorb1)
  qed
  have p: "(2 :: int) ^ ?k \<le> 2 ^ 12" using slotBits_le by (intro power_increasing) auto
  have b: "\<bar>?s\<bar> < 2 ^ 53" "\<bar>2 ^ ?k :: int\<bar> < 2 ^ 53" using s(1,2) p by simp_all
  have k: "?k \<le> 1074" using slotBits_le [of ms] by simp
  have sub: "f64_minus (Fin ?q) (Fin (of_int ms)) = Fin (of_int ?s / 2 ^ ?k)" using f64_exact [OF b(1) k] by simp
  have mul: "f64_times (Fin (of_int ?s / 2 ^ ?k)) (f64_of_int (2 ^ ?k)) = Fin (of_int ?s)"
    using f64_exact [OF b(1), of 0] unfolding f64_exact_int [OF b(2)] by simp
  have tr: "trunc_rat (of_int ?s) = ?s" by (simp add: trunc_rat_def)
  have z: "f64_eq (Fin (of_int ?s / 2 ^ ?k)) (Fin 0) \<longleftrightarrow> ?s = 0" by (auto simp: f64_eq_def)
  show ?thesis
    unfolding pageCursor_exact [OF ms] cursorOf.simps Let_def cl fl sub z mul
    using s(1) by (auto simp: tr)
qed

section \<open>The item a cursor names\<close>

lemma foldl_min_le: "foldl min x xs \<le> (x :: int) \<and> (\<forall>y \<in> set xs. foldl min x xs \<le> y) \<and> foldl min x xs \<in> set (x # xs)"
proof (induction xs arbitrary: x)
  case (Cons y ys)
  from Cons.IH [of "min x y"] show ?case by (auto simp: min_def split: if_splits)
qed simp

lemma foldl_max_ge: "(x :: int) \<le> foldl max x xs \<and> (\<forall>y \<in> set xs. y \<le> foldl max x xs)"
proof (induction xs arbitrary: x)
  case (Cons y ys)
  from Cons.IH [of "max x y"] show ?case by (auto simp: max_def split: if_splits)
qed simp

text \<open>The ceiling: the sequence numbers that the entries of one millisecond have are counts below
  \<open>2 ^ 62\<close> and span less than the number of slots.\<close>

definition within_ceiling :: "entry list \<Rightarrow> bool" where
  "within_ceiling es \<longleftrightarrow>
     list_all (\<lambda>e. 0 \<le> eseq e \<and> eseq e < 2 ^ 62 \<and> \<bar>ems e\<bar> < 2 ^ 53 \<and>
       list_all (\<lambda>f. ems f = ems e \<longrightarrow> eseq f - eseq e < slotCount (ems e)) es) es"

lemma within_ceilingD:
  assumes "within_ceiling es" "e \<in> set es"
  shows "0 \<le> eseq e" "eseq e < 2 ^ 62" "\<bar>ems e\<bar> < 2 ^ 53"
    and "f \<in> set es \<Longrightarrow> ems f = ems e \<Longrightarrow> eseq f - eseq e < slotCount (ems e)"
    and "0 < slotCount (ems e)"
  using assms unfolding within_ceiling_def list_all_iff by fastforce+

lemma boundOf_exact:
  assumes w: "within_ceiling es" and e: "e \<in> set es"
  shows "boundOf \<lparr>cset = True, cms = ems e, cslot = slotOf (ems e) (eseq e)\<rparr> es =
    \<lparr>bcursor = \<lparr>cset = True, cms = ems e, cslot = slotOf (ems e) (eseq e)\<rparr>, bseq = eseq e\<rparr>"
proof -
  let ?n = "slotCount (ems e)"
  define run where "run = map eseq (filter (\<lambda>f. ems f = ems e) es)"
  have in_run: "eseq e \<in> set run" using e by (auto simp: run_def)
  then obtain x xs where run: "run = x # xs" by (cases run) auto
  define lo hi where "lo = foldl min x xs" and "hi = foldl max x xs"
  have lo: "lo \<in> set run" "lo \<le> eseq e" using foldl_min_le [of x xs] in_run by (auto simp: lo_def run)
  have hi: "eseq e \<le> hi" using foldl_max_ge [of x xs] in_run by (auto simp: hi_def run)
  have bounds: "0 \<le> y \<and> y < 2 ^ 62 \<and> y - z < ?n" if y: "y \<in> set run" and z: "z \<in> set run" for y z
  proof -
    obtain f g where "f \<in> set es" "ems f = ems e" "y = eseq f" "g \<in> set es" "ems g = ems e" "z = eseq g"
      using y z by (auto simp: run_def)
    then show ?thesis using w by (auto simp: within_ceiling_def list_all_iff)
  qed
  have n: "0 < ?n" using bounds [OF in_run in_run] by simp
  have nb: "?n < 2 ^ 12" using power_increasing [OF slotBits_le, of "2 :: int" "ems e"] by (simp add: slotCount_def)
  have slot: "slotOf (ems e) (eseq e) = 1 + eseq e mod ?n" using n by (intro slotOf_eq) simp
  have mb: "0 \<le> eseq e mod ?n" "eseq e mod ?n < ?n" using n by simp_all
  have b: "0 \<le> lo" "lo < 2 ^ 62" "eseq e < 2 ^ 62" "eseq e - lo < ?n"
    using bounds [OF lo(1) lo(1)] bounds [OF in_run lo(1)] by auto
  have w1: "wrap64 (slotOf (ems e) (eseq e) - 1 - lo) = eseq e mod ?n - lo"
    using mb b nb by (subst wrap64_id) (auto simp: in_int64_def slot)
  have m: "go_rem (go_rem (eseq e mod ?n - lo) ?n + ?n) ?n = eseq e - lo"
    using b lo n by (simp add: go_rem_twice mod_diff_left_eq)
  have w2: "wrap64 (lo + (eseq e - lo)) = eseq e" using b lo by (subst wrap64_id) (auto simp: in_int64_def)
  have s0: "slotOf (ems e) (eseq e) \<noteq> 0" using mb by (simp add: slot)
  show ?thesis
    unfolding boundOf_def Let_def cursor.select_convs run_def [symmetric] run list.case
      lo_def [symmetric] hi_def [symmetric] w1 m w2
    using s0 hi by simp
qed

section \<open>Walking a listing\<close>

abbreviation newest_first :: "entry \<Rightarrow> int \<times> int" where
  "newest_first e \<equiv> (- ems e, - eseq e)"

definition one_order :: "entry list \<Rightarrow> bool" where
  "one_order es \<longleftrightarrow> distinct (map (\<lambda>e. (ems e, eseq e)) es)"

abbreviation itemCursor :: "entry \<Rightarrow> cursor" where
  "itemCursor e \<equiv> \<lparr>cset = True, cms = ems e, cslot = slotOf (ems e) (eseq e)\<rparr>"

lemma strict_sorted_filter_greater:
  fixes f :: "'a \<Rightarrow> 'b::linorder"
  assumes "sorted_wrt (\<lambda>x y. f x < f y) xs" "j < length xs"
  shows "filter (\<lambda>x. f (xs ! j) < f x) xs = drop (Suc j) xs"
  using assms
proof (induction xs arbitrary: j)
  case (Cons x xs)
  show ?case
  proof (cases j)
    case 0
    then show ?thesis using Cons.prems by (auto simp: filter_id_conv)
  next
    case (Suc i)
    then have "f x < f (xs ! i)" using Cons.prems by auto
    then have "\<not> f (xs ! i) < f x" by (rule less_not_sym)
    moreover have "filter (\<lambda>y. f (xs ! i) < f y) xs = drop (Suc i) xs" using Cons.IH Cons.prems Suc by simp
    ultimately show ?thesis by (simp add: Suc)
  qed
qed simp

lemma sorted_distinct_strict:
  fixes f :: "'a \<Rightarrow> 'b::linorder"
  shows "distinct (map f xs) \<Longrightarrow> sorted (map f xs) \<Longrightarrow> sorted_wrt (\<lambda>x y. f x < f y) xs"
  by (induction xs) (auto simp: less_le)

lemma one_order_strict:
  assumes "one_order es"
  shows "sorted_wrt (\<lambda>x y. newest_first x < newest_first y) (sortEntries False es)"
proof -
  have "inj_on (\<lambda>e. (ems e, eseq e)) (set es)" "distinct es" using assms by (auto simp: one_order_def distinct_map)
  then have "distinct (map newest_first (sortEntries False es))"
    by (auto simp: distinct_map sortEntries_def inj_on_def)
  then show ?thesis by (intro sorted_distinct_strict) (simp_all add: sortEntries_def)
qed

text \<open>The cut at the cursor of an item of the listing is the rest of the listing after it.\<close>

lemma keepOf_after:
  assumes w: "within_ceiling es" and o: "one_order es" and j: "j < length es"
  shows "keepOf es [] [itemCursor (sortEntries False es ! j)] False = drop (Suc j) (sortEntries False es)"
proof -
  let ?K = "sortEntries False es"
  let ?e = "?K ! j"
  have lenK: "length ?K = length es" by (simp add: sortEntries_def)
  then have e: "?e \<in> set es" using j nth_mem [of j ?K] by (simp add: sortEntries_def)
  have s0: "slotOf (ems ?e) (eseq ?e) \<noteq> 0"
    using slotOf_range(1) [of "ems ?e" "eseq ?e"] within_ceilingD(5) [OF w e] by fastforce
  have "olderThan (boundOf (itemCursor ?e) es) f \<longleftrightarrow> newest_first ?e < newest_first f" for f
    unfolding boundOf_exact [OF w e] using s0 by (auto simp: olderThan_def less_prod_def)
  then have "keepOf es [] [itemCursor ?e] False = sort_key newest_first (filter (\<lambda>f. newest_first ?e < newest_first f) es)"
    by (simp add: keepOf_def sortEntries_def)
  also have "\<dots> = filter (\<lambda>f. newest_first ?e < newest_first f) ?K" by (simp add: sortEntries_def filter_sort)
  also have "\<dots> = drop (Suc j) ?K" using strict_sorted_filter_greater [OF one_order_strict [OF o]] j lenK by simp
  finally show ?thesis .
qed

text \<open>A client that asks for page after page, sending back the \<^verbatim>\<open>next\<close> it got; at most \<open>fuel\<close>
  requests.\<close>

fun walk :: "nat \<Rightarrow> (string \<Rightarrow> f64 option) \<Rightarrow> gval list \<Rightarrow> string \<Rightarrow> int \<Rightarrow> cursor list \<Rightarrow> gval list list" where
  "walk 0 pf items member limit older = []"
| "walk (Suc fuel) pf items member limit older =
     (let p = pageOf items member [] older False limit
      in pPage p #
         (case pNext p of
            None \<Rightarrow> []
          | Some f \<Rightarrow> (case parseCursor pf (VFloat f) of
              Ok c \<Rightarrow> walk fuel pf items member limit [c]
            | Err _ \<Rightarrow> [])))"

lemma walk_from:
  assumes w: "within_ceiling (entriesOf items member)" and o: "one_order (entriesOf items member)" and l: "0 < limit"
    and k: "keepOf (entriesOf items member) [] older False = drop j (sortEntries False (entriesOf items member))"
    and f: "length items - j < fuel" "j \<le> length items"
  shows "concat (walk fuel pf items member limit older) =
    map erec (drop j (sortEntries False (entriesOf items member)))"
  using k f
proof (induction fuel arbitrary: older j)
  case (Suc fuel)
  let ?es = "entriesOf items member" and ?l = "nat limit"
  let ?K = "sortEntries False ?es"
  have lenK: "length ?K = length items" by (simp add: sortEntries_def entriesOf_def)
  have l1: "nat (max limit 0) = ?l" "0 < ?l" using l by auto
  show ?case
  proof (cases "?l < length (drop j ?K)")
    case False
    then show ?thesis using l1 by (simp add: pageOf_def Let_def Suc.prems(1))
  next
    case True
    let ?i = "j + (?l - 1)"
    have i: "?i < length ?es" using True l1(2) lenK by (simp add: entriesOf_def)
    have nth: "drop j ?K ! (?l - 1) = ?K ! ?i" using True by simp
    have "?K ! ?i \<in> set ?es" using i nth_mem [of ?i ?K] lenK by (simp add: sortEntries_def entriesOf_def)
    then have ms: "\<bar>ems (?K ! ?i)\<bar> < 2 ^ 53" using within_ceilingD(3) [OF w] by blast
    have nxt: "parseCursor pf (VFloat (pageCursor (ems (?K ! ?i)) (eseq (?K ! ?i)))) = Ok (itemCursor (?K ! ?i))"
      using cursorOf_pageCursor [OF ms] by (simp add: parseCursor_def)
    have "concat (walk fuel pf items member limit [itemCursor (?K ! ?i)]) = map erec (drop (Suc ?i) ?K)"
      using Suc.prems True l1(2) lenK by (intro Suc.IH keepOf_after [OF w o i]) auto
    moreover have "Suc ?i = j + ?l" using l1(2) by simp
    moreover have "map erec (take ?l (drop j ?K)) @ map erec (drop (j + ?l) ?K) = map erec (drop j ?K)"
      by (metis add.commute append_take_drop_id drop_drop map_append)
    ultimately show ?thesis
      using True l1 nxt nth by (simp add: pageOf_def Let_def Suc.prems(1))
  qed
qed simp

section \<open>Properties\<close>

text \<open>A cursor is exact.  For every millisecond within \<open>2 ^ 53\<close> of the epoch and every
  sequence number, the double that a page answers as \<^verbatim>\<open>next\<close> reads back as that millisecond and that
  slot: no rounding of the division, the addition, the subtraction or the multiplication loses any
  of it.\<close>

theorem cursor_roundtrip:
  assumes "\<bar>ms\<bar> < 2 ^ 53"
  shows "parseCursor pf (VFloat (pageCursor ms sq)) = Ok \<lparr>cset = True, cms = ms, cslot = slotOf ms sq\<rparr>"
  using cursorOf_pageCursor [OF assms] by (simp add: parseCursor_def)

theorem cursor_roundtrip_witness:
  "parseCursor (\<lambda>_. None) (VFloat (pageCursor 1750000000123 5000)) =
     Ok \<lparr>cset = True, cms = 1750000000123, cslot = slotOf 1750000000123 5000\<rparr>"
  using cursor_roundtrip [of 1750000000123 "\<lambda>_. None" 5000] by simp

text \<open>A cursor names its item.  While the sequence numbers of one millisecond's items span
  fewer than its slots, the bound found for an item's cursor is that item's own sequence number,
  wherever the run falls in the count, although a slot is only a remainder.\<close>

theorem cursor_names_its_item:
  assumes "within_ceiling es" "e \<in> set es"
  shows "cursorOf (pageCursor (ems e) (eseq e)) = Ok c \<Longrightarrow> bseq (boundOf c es) = eseq e"
  using boundOf_exact [OF assms] cursorOf_pageCursor [OF within_ceilingD(3) [OF assms]] by auto

definition demo_items :: "gval list" where
  "demo_items = map (\<lambda>i. VMap [(''createdAt'', VInt64 1000), (''seq'', VInt64 i)]) [4095, 4096, 4097]"

lemma demo_entries:
  "entriesOf demo_items ''createdAt'' =
     map (\<lambda>i. \<lparr>erec = VMap [(''createdAt'', VInt64 1000), (''seq'', VInt64 i)], ems = 1000, eseq = i\<rparr>) [4095, 4096, 4097]"
  by (simp add: entriesOf_def demo_items_def entryOf_def numOf_def f64_exact_int trunc_rat_def in_int64_def)

lemma demo_bits: "slotBits 1000 = 12"
  using bitlen_le [of 1000 10] by (simp add: slotBits_def)

lemma demo_ceiling: "within_ceiling (entriesOf demo_items ''createdAt'')"
  by (simp add: demo_entries within_ceiling_def slotCount_def demo_bits)

theorem cursor_names_its_item_witness:
  "bseq (boundOf \<lparr>cset = True, cms = 1000, cslot = slotOf 1000 4096\<rparr> (entriesOf demo_items ''createdAt'')) = 4096"
proof -
  let ?e = "\<lparr>erec = VMap [(''createdAt'', VInt64 1000), (''seq'', VInt64 4096)], ems = 1000, eseq = 4096\<rparr>"
  have e: "?e \<in> set (entriesOf demo_items ''createdAt'')" by (simp add: demo_entries)
  have "cursorOf (pageCursor (ems ?e) (eseq ?e)) = Ok \<lparr>cset = True, cms = 1000, cslot = slotOf 1000 4096\<rparr>"
    using cursorOf_pageCursor [of 1000 4096] by simp
  from cursor_names_its_item [OF demo_ceiling e this] show ?thesis by simp
qed



lemma hierLoop_spec:
  "distinct out \<Longrightarrow> distinct (hierLoop pre delim names out) \<and>
   set (hierLoop pre delim names out) = set out \<union> hierEntry pre delim ` {n \<in> set names. HasPrefix n pre}"
  by (induction pre delim names out rule: hierLoop.induct) auto

text \<open>A hierarchical listing is the sorted list, without repetitions, of what the names under
  the prefix fold to, whatever the order and the repetitions of the names.\<close>

theorem hierList_folds:
  "hierList names pre delim = sorted_list_of_set (hierEntry pre delim ` {n \<in> set names. HasPrefix n pre})"
proof -
  have "distinct (hierLoop pre delim names []) \<and>
      set (hierLoop pre delim names []) = hierEntry pre delim ` {n \<in> set names. HasPrefix n pre}"
    using hierLoop_spec [of "[]" pre delim names] by simp
  then show ?thesis unfolding hierList_def by (metis sorted_list_of_set_sort_remdups distinct_remdups_id)
qed

end
