(* ===== verification/Bir.thy ===== *)
theory Bir
  imports GoVal
begin

text \<open>
  The types of a behaviour bundle (\<^verbatim>\<open>internal/bir/bir.go\<close>) and of the generated service model the engine
  checks requests against (\<^verbatim>\<open>internal/model/model.go\<close>), with the members the engine reads.

  An expression of a bundle is named by the path it was compiled under; the members that hold its
  source text are kept because the engine asks whether they are empty.  An effect is a Go struct of
  pointers of which the engine takes the first that is set: here it is a datatype with one
  constructor per case of that switch.
\<close>

section \<open>Identifiers and lifecycles\<close>

record generate =
  GKind :: string
  GBytes :: int
  GPrefix :: string

record ident =
  IDGenerate :: "generate option"
  IDInputMembers :: "string list"
  IDDerive :: string

record timer =
  Deadline :: string
  TTarget :: string

record move =
  MTo :: "(string, string) gmap"
  MSet :: gobj
  MState :: string

datatype action =
    ActSet gobj
  | ActDeadline string string
  | ActMove move
  | ActEmpty

record transition =
  Guard :: string
  Target :: string
  Actions :: "action list"

record state =
  Final :: bool
  On :: "(string, transition list) gmap"
  Timers :: "timer list"

record chart =
  Initial :: string
  States :: "(string, state) gmap"

record resource =
  RCollection :: string
  RSingleton :: string
  RKey :: string
  RKeyAliases :: string
  RGlobal :: bool
  RID :: ident
  RARN :: string
  RRecord :: gobj
  RViews :: "(string, string) gmap"
  RChart :: "chart option"

section \<open>Operations\<close>

record errdef =
  EDCode :: string
  EDHTTP :: int
  EDFault :: string
  EDMessage :: string

record read =
  RdResource :: string
  RdKey :: string

record require =
  RqCond :: string
  RqError :: string
  RqMessage :: string
  RqMessageExpr :: string
  RqFields :: "(string, string) gmap"

record group =
  GrWhen :: string
  GrBy :: string
  GrExclusive :: string
  GrDrain :: bool

record select =
  SelBinding :: string
  SelResource :: string
  SelState :: string
  SelOrderBy :: string
  SelLimit :: string
  SelGroup :: "group option"
  SelFilter :: string
  SelCount :: string

record wait =
  WUntil :: string
  WTimeout :: string
  WOnTimeout :: gobj

record listspec =
  LResource :: string
  LMember :: string
  LKey :: string
  LFilter :: string
  LPrefix :: string
  LAfter :: string
  LToken :: string
  LReads :: "(string, read) gmap"
  LLet :: "(string, string) gmap"

section \<open>Effects\<close>

record write_deadline =
  WDName :: string
  WDAfter :: string
  WDWhen :: string

record write_effect =
  WResource :: string
  WKey :: string
  WRecord :: gobj
  WWhen :: string
  WSpread :: string
  WForEach :: string
  WWhere :: string
  WMissing :: string
  WState :: string
  WDeadline :: "write_deadline option"

record delete_effect =
  DResource :: string
  DKey :: string
  DWhen :: string
  DWhere :: string

record dedup_effect =
  DDTable :: string
  DDKey :: string
  DDTTL :: string
  DDWhen :: string
  DDOnHit :: gobj
  DDRecord :: "(string, string) gmap"

record send_event =
  SEResource :: string
  SEKey :: string
  SEForEach :: string
  SEEvent :: string
  SEContext :: "(string, string) gmap"
  SEMissing :: string

record execute_effect =
  XAction :: string
  XArgs :: "(string, string) gmap"
  XBind :: string
  XWhen :: string
  XAbsentError :: string
  XAbsentMessage :: string

record generate_effect =
  GEBind :: string
  GEGenerate :: generate
  GEWhen :: string

datatype effect =
    Create write_effect
  | Put write_effect
  | Patch write_effect
  | Delete delete_effect
  | Counter string
  | Dedup dedup_effect
  | Generate generate_effect
  | SendEvent send_event
  | Execute execute_effect
  | OtherEffect

record batch =
  BOf :: string
  BEntries :: string
  BID :: string
  BCarry :: "string list"
  BSuccessful :: string
  BFailed :: string
  BResult :: "string list"
  BMaxEntries :: int
  BEmptyError :: string
  BTooManyError :: string
  BInvalidIDError :: string
  BBareField :: string
  BMaxBytes :: int
  BTooLongError :: string

record operation =
  OReads :: "(string, read) gmap"
  OLet :: "(string, string) gmap"
  ORequire :: "require list"
  OSelect :: "select option"
  OWait :: "wait option"
  OEffects :: "effect list"
  OList :: "listspec option"
  OBatch :: "batch option"
  OOutput :: "(string, string) gmap"
  OStatus :: int
  OOmitNull :: "string list"

record service =
  SvID :: string
  SvResources :: "(string, resource) gmap"
  SvErrors :: "(string, errdef) gmap"
  SvOperations :: "(string, operation) gmap"
  SvMissingInput :: string
  SvMissingMessages :: "(string, string) gmap"

section \<open>The service model\<close>

record constraints =
  MinLength :: "int option"
  MaxLength :: "int option"
  MinValue :: "f64 option"
  MaxValue :: "f64 option"

record member =
  MShape :: string
  MRequired :: bool
  MLocation :: string

record shape =
  ShKind :: string
  ShMembers :: "(string, member) gmap"
  ShConstraints :: constraints

record pagination =
  PInputToken :: string
  POutputToken :: string
  PPageSize :: string

record model_operation =
  MoCode :: int
  MoInput :: string
  MoPagination :: "pagination option"

type_synonym shapes = "(string, shape) gmap"

definition scalarKindBody :: "string \<Rightarrow> bool" where
  "scalarKindBody k \<longleftrightarrow>
     k \<in> set [''string'', ''blob'', ''boolean'', ''integer'', ''long'', ''float'', ''double'']"

definition ScalarBody :: "shapes \<Rightarrow> string \<Rightarrow> bool" where
  "ScalarBody shs i =
     (case map_of shs i of
        None \<Rightarrow> False
      | Some sh \<Rightarrow>
          scalarKindBody (ShKind sh) \<or>
          (ShKind sh = ''union'' \<and> ShMembers sh \<noteq> [] \<and>
           list_all (\<lambda>(_, m). case map_of shs (MShape m) of Some o' \<Rightarrow> scalarKindBody (ShKind o') | None \<Rightarrow> False)
             (ShMembers sh)))"

section \<open>Members that address a resource\<close>

definition isWord :: "char \<Rightarrow> bool" where
  "isWord c \<longleftrightarrow> is_digit c \<or> is_lower c \<or> is_upper c \<or> c = CHR ''_''"

text \<open>\<^verbatim>\<open>inputRefs\<close>: the matches of \<^verbatim>\<open>\binput\.([A-Za-z_][A-Za-z0-9_]*)\<close> from left to right; the flag says
  whether the byte before is part of a word.\<close>

function refsFrom :: "bool \<Rightarrow> string \<Rightarrow> string list" where
  "refsFrom prev [] = []"
| "refsFrom prev (c # s) =
     (let rest = drop 6 (c # s) in
      if \<not> prev \<and> HasPrefix (c # s) ''input.'' \<and> rest \<noteq> [] \<and> isWord (hd rest) \<and> \<not> is_digit (hd rest)
      then takeWhile isWord rest # refsFrom True (dropWhile isWord rest)
      else refsFrom (isWord c) s)"
  by pat_completeness auto
termination
  by (relation "measure (\<lambda>(prev, s). length s)") (auto intro: le_less_trans [OF length_dropWhile_le])

definition inputRefs :: "string \<Rightarrow> string list" where
  "inputRefs ex = refsFrom False ex"

definition AddressMembers :: "resource \<Rightarrow> string list" where
  "AddressMembers r =
     rev (remdups (rev (IDInputMembers (RID r) @
       (if IDDerive (RID r) \<noteq> [] then inputRefs (IDDerive (RID r)) else []))))"

end
