(* ===== verification/Spi.thy ===== *)
theory Spi
  imports GoVal
begin

text \<open>
  The types behaviour packs and the engine share (\<^verbatim>\<open>internal/spi/spi.go\<close>): requests with the identity they act for,
  responses, and the fault a client sees.  A request's headers and host are those the engine reads.
\<close>

record fault =
  FCode :: string
  FMessage :: string
  FStatus :: int
  FKind :: string
  FFields :: gobj

definition notImplemented :: "string \<Rightarrow> string \<Rightarrow> fault" where
  "notImplemented serviceID operation =
     \<lparr>FCode = ''MirrorNotImplemented'',
      FMessage = serviceID @ ''.'' @ operation @ '' is not implemented at the requested fidelity; required tier: emulate'',
      FStatus = 501, FKind = ''client'',
      FFields = [(''service'', VStr serviceID), (''operation'', VStr operation), (''requiredTier'', VStr ''emulate'')]\<rparr>"

record http =
  hHost :: string
  hHeader :: "(string, string list) gmap"

record request =
  qServiceID :: string
  qOperation :: string
  qInput :: gobj
  qAccount :: string
  qRegion :: string
  qAccessKeyID :: string
  qARN :: string
  qProject :: string
  qBody :: "string option"
  qHTTP :: "http option"
  qAdvertiseURL :: string

record response =
  rOutput :: gobj
  rStatus :: int

end
