(* ===== verification/EvalState.thy ===== *)
theory EvalState
  imports Bir Spi Store Rand Page
begin

text \<open>
  The state of one evaluation and what every step of it uses (\<^verbatim>\<open>internal/engine/eval.go\<close> and
  \<^verbatim>\<open>engine.go\<close>): bindings and the activation of an expression, templates, collections, generated
  identifiers, counters, record values, and the write of a record.

  A step is a function from the evaluation's state to a result and the new state: \<open>'a ev\<close>, with
  \<open>ret\<close>, \<open>fail\<close> and \<open>andThen\<close>.  An error keeps the state reached so far, because what was written
  to the store stays written; the bindings after an error are not restored, since nothing reads them
  any more.  The rules \<open>keeps\<close> prove an invariant of the state for a step from its parts.

  Parameters, in the record \<open>engine\<close>: the compiled CEL programs with the conversion of their results
  to Go values, \<^verbatim>\<open>encoding/json\<close>, \<^verbatim>\<open>fmt.Sprint\<close> on values other than text, truth values, integers and
  nil, the text of an error, \<^verbatim>\<open>time.ParseDuration\<close>, \<^verbatim>\<open>net/url\<close>, and the executor, which answers a call
  knowing the calls before it.  The clock is the controllable one: it reads the same instant
  throughout a request, except that a request may park: \<open>eScript\<close> says when and over which store it
  resumes, and \<open>eParked\<close> collects the instants it parked until.  \<open>Parked\<close> is the result of a request that is
  still waiting at the end of its script, \<open>NeverReturns\<close> that of a loop that does not end.  Maps in a record are values: no modelled step changes a map nested in the request.
\<close>

section \<open>Errors\<close>

datatype chart_err =
    UndefinedState string
  | TimerUnknownTarget string string
  | NotSettled
  | NoStatechart
  | TransitionUnknownTarget string
  | EmptyAction
  | NoKey

datatype eerr =
    AFault fault
  | ShortCircuit
  | Parked
  | NeverReturns
  | NotCompiled string
  | CelFailed string string
  | NotABool string gval
  | UnknownResource string
  | Unterminated string
  | UnknownBinding string
  | NotARecord string
  | BadGenerate string
  | JSONFailed
  | NoKeyMember string string
  | BadState string string
  | NotADuration string gval
  | NotAList string gval
  | SpreadFailed string
  | BadOutputMap string
  | NotTheSelection string
  | NeedsResource string
  | BadTTL string
  | Unsupported string
  | NotAnOperation string
  | Wrapped string eerr
  | ChartErr string chart_err
  | ExecFailed string
  | HookFailed string

section \<open>The engine and its parameters\<close>

datatype actval = AVal gval | ATime int

type_synonym activation = "(string, actval) gmap"

type_synonym program = "activation \<Rightarrow> (string, gval) res"

record call =
  cAccount :: string
  cRegion :: string
  cAction :: string
  cArgs :: gobj

datatype exec_err = ExecAbsent string | ExecFailure string | ExecOther string

record url =
  uHost :: string
  uHostname :: string
  uPort :: string
  uPath :: string

record engine =
  gIR :: service
  gShapes :: shapes
  gModelOps :: "(string, model_operation) gmap"
  gPrograms :: "string \<Rightarrow> program option"
  gSprint :: "gval \<Rightarrow> string"
  gMarshal :: "gobj \<Rightarrow> bytes option"
  gUnmarshal :: "bytes \<Rightarrow> gobj option"
  gUnmarshalN :: "bytes \<Rightarrow> int option"
  gUnmarshalDedup :: "bytes \<Rightarrow> (int \<times> gobj) option"
  gQuote :: "string \<Rightarrow> string"
  gErrText :: "eerr \<Rightarrow> string"
  gParseDuration :: "string \<Rightarrow> int option"
  gParseURL :: "string \<Rightarrow> url option"
  gURLString :: "url \<Rightarrow> string"
  gHasBus :: bool
  gStrategy :: string
  gExecutor :: "(call list \<Rightarrow> call \<Rightarrow> (exec_err, gobj) res) option"

section \<open>Requests and the state of an evaluation\<close>

record selected =
  sKey :: string
  sRec :: gobj

record pending_dedup =
  pdCol :: string
  pdKey :: string
  pdUntil :: int

datatype wake = WakeAt int memory | CtxDone

record evals =
  eReq :: request
  eOp :: operation
  eBinds :: gobj
  eID :: string
  eFx :: gobj
  eSelection :: "selected list"
  eBound :: "string list"
  eCur :: "(string \<times> nat) option"
  eShort :: "gobj option"
  eDedup :: "pending_dedup option"
  eResIDs :: "(string, string) gmap"
  eLastCol :: string
  eSqsWakes :: "bytes list"
  eMem :: memory
  eRand :: seeded
  eNow :: int
  ePub :: "(string \<times> bytes) list"
  eCalls :: "call list"
  eScript :: "wake list"
  eParked :: "int list"

section \<open>Steps\<close>

type_synonym 'a ev = "evals \<Rightarrow> (eerr, 'a) res \<times> evals"

definition ret :: "'a \<Rightarrow> 'a ev" where
  "ret x = (\<lambda>s. (Ok x, s))"

definition fail :: "eerr \<Rightarrow> 'a ev" where
  "fail e = (\<lambda>s. (Err e, s))"

definition andThen :: "'a ev \<Rightarrow> ('a \<Rightarrow> 'b ev) \<Rightarrow> 'b ev" where
  "andThen m f = (\<lambda>s. case m s of (Inl e, s') \<Rightarrow> (Inl e, s') | (Inr x, s') \<Rightarrow> f x s')"

definition ask :: "(evals \<Rightarrow> (eerr, 'a) res) \<Rightarrow> 'a ev" where
  "ask f = (\<lambda>s. (f s, s))"

definition gets :: "(evals \<Rightarrow> 'a) \<Rightarrow> 'a ev" where
  "gets f = (\<lambda>s. (Ok (f s), s))"

definition upd :: "(evals \<Rightarrow> evals) \<Rightarrow> unit ev" where
  "upd f = (\<lambda>s. (Ok (), f s))"

text \<open>The result of a step as a value: for the code that holds an error back.\<close>

definition attempt :: "'a ev \<Rightarrow> (eerr, 'a) res ev" where
  "attempt m = (\<lambda>s. case m s of (r, s') \<Rightarrow> (Ok r, s'))"

text \<open>\<^verbatim>\<open>fmt.Errorf("engine: %s: %w", path, err)\<close>.\<close>

definition wrapE :: "string \<Rightarrow> 'a ev \<Rightarrow> 'a ev" where
  "wrapE path m = (\<lambda>s. case m s of (Inl e, s') \<Rightarrow> (Inl (Wrapped path e), s') | (Inr x, s') \<Rightarrow> (Inr x, s'))"

fun forM :: "('a \<Rightarrow> unit ev) \<Rightarrow> 'a list \<Rightarrow> unit ev" where
  "forM f [] = ret ()"
| "forM f (x # xs) = andThen (f x) (\<lambda>_. forM f xs)"

fun mapE :: "('a \<Rightarrow> 'b ev) \<Rightarrow> 'a list \<Rightarrow> 'b list ev" where
  "mapE f [] = ret []"
| "mapE f (x # xs) = andThen (f x) (\<lambda>y. andThen (mapE f xs) (\<lambda>ys. ret (y # ys)))"

fun foldE :: "('b \<Rightarrow> 'a \<Rightarrow> 'b ev) \<Rightarrow> 'b \<Rightarrow> 'a list \<Rightarrow> 'b ev" where
  "foldE f acc [] = ret acc"
| "foldE f acc (x # xs) = andThen (f acc x) (\<lambda>acc'. foldE f acc' xs)"

lemma mapE_cong [fundef_cong]:
  "xs = ys \<Longrightarrow> (\<And>x. x \<in> set ys \<Longrightarrow> f x = g x) \<Longrightarrow> mapE f xs = mapE g ys"
  by (induction ys arbitrary: xs) auto

lemma andThen_simps [simp]:
  "andThen (ret x) f1 = f1 x" "andThen (fail e) f2 = fail e" "andThen (gets g) f3 = (\<lambda>s. f3 (g s) s)"
  "andThen (upd u) f4 = (\<lambda>s. f4 () (u s))"
  by (simp_all add: andThen_def ret_def fail_def gets_def upd_def fun_eq_iff)

lemma andThen_Ok: "fst (andThen m f s) = Ok y \<longleftrightarrow> (\<exists>x s'. m s = (Ok x, s') \<and> fst (f x s') = Ok y)"
  by (auto simp: andThen_def split: prod.splits sum.splits)

lemma andThen_run: "m s = (Ok x, s') \<Longrightarrow> andThen m f s = f x s'"
  by (simp add: andThen_def)

lemma andThen_run_Err: "m s = (Err e, s') \<Longrightarrow> andThen m f s = (Err e, s')"
  by (simp add: andThen_def)

section \<open>Invariants of a step\<close>

text \<open>\<open>keeps I m\<close>: the relation \<open>I\<close> between a state and a later one holds across the step \<open>m\<close>,
  whether it succeeds or fails.\<close>

definition keeps :: "(evals \<Rightarrow> evals \<Rightarrow> bool) \<Rightarrow> 'a ev \<Rightarrow> bool" where
  "keeps I m \<longleftrightarrow> (\<forall>s. I s (snd (m s)))"

locale preorder_rel =
  fixes I :: "evals \<Rightarrow> evals \<Rightarrow> bool"
  assumes refl: "I s s"
    and trans: "I s t \<Longrightarrow> I t u \<Longrightarrow> I s u"
begin

lemma keeps_ret: "keeps I (ret x)"
  by (simp add: keeps_def ret_def refl)

lemma keeps_fail: "keeps I (fail e)"
  by (simp add: keeps_def fail_def refl)

lemma keeps_ask: "keeps I (ask f)"
  by (simp add: keeps_def ask_def refl)

lemma keeps_gets: "keeps I (gets f)"
  by (simp add: keeps_def gets_def refl)

lemma keeps_upd: "(\<And>s. I s (f s)) \<Longrightarrow> keeps I (upd f)"
  by (simp add: keeps_def upd_def)

lemma keeps_andThen: "keeps I m \<Longrightarrow> (\<And>x. keeps I (f x)) \<Longrightarrow> keeps I (andThen m f)"
proof -
  assume m: "keeps I m" and f: "\<And>x. keeps I (f x)"
  have "I s (snd (andThen m f s))" for s
  proof -
    obtain r t where r: "m s = (r, t)" by force
    have st: "I s t" using m r unfolding keeps_def by (metis snd_conv)
    show ?thesis
    proof (cases r)
      case (Inr x)
      have "I t (snd (f x t))" using f unfolding keeps_def by blast
      then show ?thesis using r Inr trans [OF st] by (simp add: andThen_run)
    qed (use r st in \<open>simp add: andThen_run_Err\<close>)
  qed
  then show "keeps I (andThen m f)" by (simp add: keeps_def)
qed

lemma keeps_attempt: "keeps I m \<Longrightarrow> keeps I (attempt m)"
  unfolding keeps_def attempt_def by (simp add: case_prod_beta)

lemma keeps_wrapE: "keeps I m \<Longrightarrow> keeps I (wrapE p m)"
  unfolding keeps_def wrapE_def by (auto split: prod.splits sum.splits) (metis snd_conv)+

lemma keeps_forM: "(\<And>x. x \<in> set xs \<Longrightarrow> keeps I (f x)) \<Longrightarrow> keeps I (forM f xs)"
  by (induction xs) (auto intro: keeps_ret keeps_andThen)

lemma keeps_mapE: "(\<And>x. x \<in> set xs \<Longrightarrow> keeps I (f x)) \<Longrightarrow> keeps I (mapE f xs)"
  by (induction xs) (auto intro!: keeps_ret keeps_andThen)

lemma keeps_foldE: "(\<And>b x. x \<in> set xs \<Longrightarrow> keeps I (f b x)) \<Longrightarrow> keeps I (foldE f b xs)"
  by (induction xs arbitrary: b) (auto intro!: keeps_ret keeps_andThen)

lemmas keeps_basic = keeps_ret keeps_fail keeps_ask keeps_gets keeps_upd keeps_andThen keeps_attempt keeps_wrapE
  keeps_forM keeps_mapE keeps_foldE

end

lemma keeps_if: "(b \<Longrightarrow> keeps I m) \<Longrightarrow> (\<not> b \<Longrightarrow> keeps I n) \<Longrightarrow> keeps I (if b then m else n)"
  by simp

lemma keeps_option:
  "(x = None \<Longrightarrow> keeps I m) \<Longrightarrow> (\<And>y. x = Some y \<Longrightarrow> keeps I (f y)) \<Longrightarrow>
     keeps I (case x of None \<Rightarrow> m | Some y \<Rightarrow> f y)"
  by (cases x) auto

lemma keeps_sum: "(\<And>e. keeps I (f e)) \<Longrightarrow> (\<And>y. keeps I (g y)) \<Longrightarrow> keeps I (case x of Inl e \<Rightarrow> f e | Inr y \<Rightarrow> g y)"
  by (cases x) auto

lemma keeps_prod: "(\<And>a b. keeps I (f a b)) \<Longrightarrow> keeps I (case x of (a, b) \<Rightarrow> f a b)"
  by (cases x) auto

lemma keeps_let: "(\<And>y. keeps I (f y)) \<Longrightarrow> keeps I (let y = x in f y)"
  by simp

lemmas keeps_splits = keeps_if keeps_option keeps_sum keeps_prod keeps_let


section \<open>Collections\<close>

text \<open>A collection handle: whether it is of the global scope, and its name.  The other scope is that of
  the request's identity, which no step of an evaluation changes.\<close>

type_synonym col = "bool \<times> string"

definition scopeOf :: "bool \<Rightarrow> evals \<Rightarrow> string \<times> string" where
  "scopeOf g s = (if g then (''_mirror'', ''global'') else (qAccount (eReq s), qRegion (eReq s)))"

definition colGet :: "col \<Rightarrow> string \<Rightarrow> bytes option ev" where
  "colGet c key = gets (\<lambda>s. coll_Get (fst (scopeOf (fst c) s)) (snd (scopeOf (fst c) s)) (snd c) (eMem s) key)"

definition colPut :: "col \<Rightarrow> string \<Rightarrow> bytes \<Rightarrow> unit ev" where
  "colPut c key val =
     upd (\<lambda>s. s\<lparr>eMem := coll_Put (fst (scopeOf (fst c) s)) (snd (scopeOf (fst c) s)) (snd c) (eMem s) key val\<rparr>)"

definition colDelete :: "col \<Rightarrow> string \<Rightarrow> unit ev" where
  "colDelete c key =
     upd (\<lambda>s. s\<lparr>eMem := coll_Delete (fst (scopeOf (fst c) s)) (snd (scopeOf (fst c) s)) (snd c) (eMem s) key\<rparr>)"

definition colList :: "col \<Rightarrow> string \<Rightarrow> string \<Rightarrow> int \<Rightarrow> (KV list \<times> bool) ev" where
  "colList c pre after limit =
     gets (\<lambda>s. listLocked (fst (scopeOf (fst c) s)) (snd (scopeOf (fst c) s)) (snd c) (eMem s) pre after limit)"

section \<open>Values as text\<close>

text \<open>\<^verbatim>\<open>fmt.Sprint\<close>.\<close>

definition Sprint :: "engine \<Rightarrow> gval \<Rightarrow> string" where
  "Sprint G v =
     (case v of
        VNil \<Rightarrow> ''<nil>''
      | VStr s \<Rightarrow> s
      | VBool b \<Rightarrow> if b then ''true'' else ''false''
      | VInt i \<Rightarrow> show_int i
      | VInt64 i \<Rightarrow> show_int i
      | _ \<Rightarrow> gSprint G v)"

definition anyString :: "engine \<Rightarrow> gval \<Rightarrow> string" where
  "anyString G v = (if v = VNil then [] else Sprint G v)"

section \<open>Activations and expressions\<close>

definition defaultEndpoint :: string where
  "defaultEndpoint = ''http://127.0.0.1:4566''"

definition sqsEndpoint :: "engine \<Rightarrow> string \<Rightarrow> string \<Rightarrow> string \<Rightarrow> string" where
  "sqsEndpoint G base strategy0 region =
     (let strategy = ToLower strategy0 in
      if strategy = [] \<or> strategy = ''off'' then base
      else case gParseURL G base of
        None \<Rightarrow> base
      | Some parsed \<Rightarrow>
          if uHost parsed = [] then base
          else
            let host = (if uHostname parsed = ''localhost'' then ''localhost.localstack.cloud'' else uHostname parsed);
                withPort = (\<lambda>h. if uPort parsed \<noteq> [] then h @ '':'' @ uPort parsed else h)
            in if strategy = ''standard'' then
                 gURLString G (parsed\<lparr>uHost := withPort (''sqs.'' @ region @ ''.'' @ host)\<rparr>)
               else if strategy = ''domain'' then
                 gURLString G (parsed\<lparr>uHost := withPort
                   (if region = ''us-east-1'' then ''queue.'' @ host else region @ ''.queue.'' @ host)\<rparr>)
               else if strategy = ''path'' then
                 gURLString G (parsed\<lparr>uPath := ''/queue/'' @ region, uHost := withPort host\<rparr>)
               else base)"

definition endpoint :: "engine \<Rightarrow> evals \<Rightarrow> string" where
  "endpoint G s =
     (let q = eReq s;
          base = (if qAdvertiseURL q \<noteq> [] then rev (dropWhile (\<lambda>c. c = CHR ''/'') (rev (qAdvertiseURL q)))
                  else case qHTTP q of
                    Some h \<Rightarrow> if hHost h \<noteq> [] then ''http://'' @ hHost h else defaultEndpoint
                  | None \<Rightarrow> defaultEndpoint)
      in sqsEndpoint G base (gStrategy G) (qRegion q))"

text \<open>The variables an expression sees; a binding hides the variable of its name.\<close>

definition activation :: "engine \<Rightarrow> evals \<Rightarrow> activation" where
  "activation G s =
     (let q = eReq s;
          headers = (case qHTTP q of
              Some h \<Rightarrow> concat (map (\<lambda>(k, vs). case vs of v # _ \<Rightarrow> [(k, VStr v)] | [] \<Rightarrow> []) (hHeader h))
            | None \<Rightarrow> []);
          base = [(''input'', AVal (VMap (qInput q))),
                  (''identity'', AVal (VMap
                     [(''account'', VStr (qAccount q)), (''region'', VStr (qRegion q)), (''arn'', VStr (qARN q)),
                      (''project'', VStr (qProject q)), (''access_key'', VStr (qAccessKeyID q))])),
                  (''now'', ATime (eNow s)),
                  (''now_ms'', AVal (VInt64 (wrap64 (eNow s div 1000000)))),
                  (''id'', AVal (VStr (eID s))),
                  (''fx'', AVal (VMap (eFx s))),
                  (''hit'', AVal (VMap [])),
                  (''headers'', AVal (VMap headers)),
                  (''has_http'', AVal (VBool (qHTTP q \<noteq> None))),
                  (''endpoint'', AVal (VStr (endpoint G s)))]
      in map (\<lambda>(k, v). (k, AVal v)) (eBinds s) @ filter (\<lambda>(k, _). map_of (eBinds s) k = None) base)"

definition evalP :: "engine \<Rightarrow> string \<Rightarrow> gval ev" where
  "evalP G path =
     ask (\<lambda>s. case gPrograms G path of
         None \<Rightarrow> Err (NotCompiled path)
       | Some prg \<Rightarrow> (case prg (activation G s) of Err m \<Rightarrow> Err (CelFailed path m) | Ok v \<Rightarrow> Ok v))"

definition evalBool :: "engine \<Rightarrow> string \<Rightarrow> bool ev" where
  "evalBool G path =
     andThen (evalP G path) (\<lambda>v. case v of VBool b \<Rightarrow> ret b | _ \<Rightarrow> fail (NotABool path v))"

text \<open>\<^verbatim>\<open>evalAt\<close>: an expression that was not compiled is its own text.\<close>

definition evalAt :: "engine \<Rightarrow> string \<Rightarrow> string \<Rightarrow> gval ev" where
  "evalAt G path src = (if gPrograms G path \<noteq> None then evalP G path else ret (VStr src))"

section \<open>Templates\<close>

definition lookup :: "string \<Rightarrow> evals \<Rightarrow> (eerr, gval) res" where
  "lookup ref s =
     (if ref = ''account'' then Ok (VStr (qAccount (eReq s)))
      else if ref = ''region'' then Ok (VStr (qRegion (eReq s)))
      else if ref = ''partition'' then Ok (VStr ''aws'')
      else if ref = ''id'' then Ok (VStr (eID s))
      else case Cut ref ''.'' of
        (head, rest, _) \<Rightarrow>
          (case (if rest = ''id'' then map_of (eResIDs s) head else None) of
             Some key \<Rightarrow> Ok (VStr key)
           | None \<Rightarrow>
               (case map_of (eBinds s) head of
                  None \<Rightarrow> Err (UnknownBinding head)
                | Some v \<Rightarrow>
                    if rest = [] then Ok v
                    else (case v of VMap m \<Rightarrow> Ok (gget m rest) | _ \<Rightarrow> Err (NotARecord head)))))"

text \<open>The next \<open>{ref}\<close> of a template: the text before it, the reference and the text after it.\<close>

datatype template = Plain | Open | Ref string string string

definition nextRef :: "string \<Rightarrow> template" where
  "nextRef s =
     (case IndexByte s (CHR ''{'') of
        None \<Rightarrow> Plain
      | Some i \<Rightarrow>
          (case IndexByte (drop i s) (CHR ''}'') of
             None \<Rightarrow> Open
           | Some j \<Rightarrow> Ref (take i s) (take (j - 1) (drop (i + 1) s)) (drop (i + j + 1) s)))"

lemma nextRef_shorter: "nextRef s = Ref a r t \<Longrightarrow> length t < length s"
  by (auto simp: nextRef_def split: option.splits dest!: IndexByte_Some)

function interpLoop :: "engine \<Rightarrow> evals \<Rightarrow> string \<Rightarrow> (eerr, string) res" where
  "interpLoop G s t =
     (case nextRef t of
        Plain \<Rightarrow> Ok t
      | Open \<Rightarrow> Err (Unterminated t)
      | Ref before ref rest \<Rightarrow>
          bindR (lookup ref s) (\<lambda>v. bindR (interpLoop G s rest) (\<lambda>more. Ok (before @ Sprint G v @ more))))"
  by pat_completeness auto
termination
  by (relation "measure (\<lambda>(G, s, t). length t)") (auto dest: nextRef_shorter)

declare interpLoop.simps [simp del]

definition interpolate :: "engine \<Rightarrow> string \<Rightarrow> string ev" where
  "interpolate G t = ask (\<lambda>s. interpLoop G s t)"

function templateRefs :: "string \<Rightarrow> string list" where
  "templateRefs s = (case nextRef s of Ref before ref rest \<Rightarrow> ref # templateRefs rest | _ \<Rightarrow> [])"
  by pat_completeness auto
termination
  by (relation "measure length") (auto dest: nextRef_shorter)

declare templateRefs.simps [simp del]

definition collection :: "engine \<Rightarrow> resource \<Rightarrow> col ev" where
  "collection G res =
     andThen (interpolate G (RCollection res)) (\<lambda>name.
     andThen (upd (\<lambda>s. s\<lparr>eLastCol := name\<rparr>)) (\<lambda>_.
     ret (RGlobal res, name)))"

definition resourceOf :: "engine \<Rightarrow> string \<Rightarrow> resource ev" where
  "resourceOf G name =
     (case map_of (SvResources (gIR G)) name of Some r \<Rightarrow> ret r | None \<Rightarrow> fail (UnknownResource name))"

section \<open>Bindings\<close>

definition bindV :: "string \<Rightarrow> gval \<Rightarrow> unit ev" where
  "bindV k v = upd (\<lambda>s. s\<lparr>eBinds := AList.update k v (eBinds s)\<rparr>)"

definition unbind :: "string \<Rightarrow> unit ev" where
  "unbind k = upd (\<lambda>s. s\<lparr>eBinds := AList.delete k (eBinds s)\<rparr>)"

definition restore :: "string \<Rightarrow> gval option \<Rightarrow> unit ev" where
  "restore k prev = (case prev of Some v \<Rightarrow> bindV k v | None \<Rightarrow> unbind k)"

text \<open>A binding for the length of a step, put back afterwards.\<close>

definition scoped :: "string \<Rightarrow> 'a ev \<Rightarrow> 'a ev" where
  "scoped k m =
     andThen (gets (\<lambda>s. map_of (eBinds s) k)) (\<lambda>prev.
     andThen m (\<lambda>x. andThen (restore k prev) (\<lambda>_. ret x)))"

lemma run_restore: "restore k prev s = (Ok (), snd (restore k prev s))"
  by (simp add: restore_def bindV_def unbind_def upd_def split: option.splits)

lemma fst_scoped [simp]: "fst (scoped k m s) = fst (m s)"
proof -
  obtain r t where r: "m s = (r, t)" by force
  show ?thesis
  proof (cases r)
    case (Inr x)
    have "fst (andThen (restore k prev) (\<lambda>_. ret x) t) = Ok x" for prev
      by (subst andThen_run [OF run_restore]) (simp add: ret_def)
    then show ?thesis using r Inr by (simp add: scoped_def andThen_run)
  qed (use r in \<open>simp add: scoped_def andThen_run_Err\<close>)
qed

text \<open>The record of a selection that a transition is changing is the map bound in the selection's list:
  \<open>touch\<close> shows the change there, and \<open>withRec\<close> also under \<^verbatim>\<open>rec\<close>.\<close>

definition touch :: "gobj \<Rightarrow> unit ev" where
  "touch rc =
     upd (\<lambda>s. case eCur s of
         None \<Rightarrow> s
       | Some (b, i) \<Rightarrow>
           (case map_of (eBinds s) b of
              Some (VList xs) \<Rightarrow> s\<lparr>eBinds := AList.update b (VList (xs[i := VMap rc])) (eBinds s)\<rparr>
            | _ \<Rightarrow> s))"

definition withRec :: "gobj \<Rightarrow> unit ev" where
  "withRec rc = andThen (touch rc) (\<lambda>_. bindV ''rec'' (VMap rc))"

lemma run_touch: "touch rc s = (Ok (), snd (touch rc s))"
  by (simp add: touch_def upd_def)

lemma run_withRec: "withRec rc s = (Ok (), snd (withRec rc s))"
  by (simp add: withRec_def touch_def bindV_def upd_def andThen_def)

lemma andThen_total [simp]:
  "andThen (touch rc) f = (\<lambda>s. f () (snd (touch rc s)))"
  "andThen (withRec rc) f = (\<lambda>s. f () (snd (withRec rc s)))"
  "andThen (restore k p) f = (\<lambda>s. f () (snd (restore k p s)))"
  by (simp_all add: fun_eq_iff andThen_run [OF run_touch] andThen_run [OF run_withRec] andThen_run [OF run_restore])

section \<open>Identifiers and counters\<close>

definition generateID :: "generate \<Rightarrow> string ev" where
  "generateID g =
     (\<lambda>s. let draw = (if GKind g = ''uuid'' then UUID (eRand s)
                      else if GKind g = ''int'' then (case Intn (2 ^ 30) (eRand s) of (n, r) \<Rightarrow> (show_int n, r))
                      else Hex (nat (if GBytes g \<le> 0 then 8 else GBytes g)) (eRand s))
          in (Ok (GPrefix g @ fst draw), s\<lparr>eRand := snd draw\<rparr>))"

definition countersCollection :: string where
  "countersCollection = ''__counters''"

definition marshalE :: "engine \<Rightarrow> gobj \<Rightarrow> bytes ev" where
  "marshalE G m = (case gMarshal G m of Some b \<Rightarrow> ret b | None \<Rightarrow> fail JSONFailed)"

definition unmarshalE :: "engine \<Rightarrow> bytes \<Rightarrow> gobj ev" where
  "unmarshalE G b = (case gUnmarshal G b of Some m \<Rightarrow> ret m | None \<Rightarrow> fail JSONFailed)"

definition nextCounter :: "engine \<Rightarrow> string \<Rightarrow> int ev" where
  "nextCounter G name =
     andThen (colGet (False, countersCollection) name) (\<lambda>raw.
     andThen (case raw of
         None \<Rightarrow> ret 0
       | Some b \<Rightarrow> (case gUnmarshalN G b of Some n \<Rightarrow> ret n | None \<Rightarrow> fail JSONFailed)) (\<lambda>cur.
     let n = wrap64 (cur + 1) in
     andThen (marshalE G [(''n'', VInt64 n)]) (\<lambda>blob.
     andThen (colPut (False, countersCollection) name blob) (\<lambda>_. ret n))))"

section \<open>Record values\<close>

definition generateSpec :: "engine \<Rightarrow> string \<Rightarrow> gval \<Rightarrow> (eerr, generate) res" where
  "generateSpec G path raw =
     (case raw of
        VMap m \<Rightarrow>
          (let k = Sprint G (gget m ''kind'') in
           if k \<in> set [''hex'', ''uuid'', ''int''] then
             Ok \<lparr>GKind = k, GBytes = (case toFloat (gget m ''bytes'') of Some n \<Rightarrow> f64_to_int64 n | None \<Rightarrow> 0), GPrefix = []\<rparr>
           else Err (BadGenerate path))
      | _ \<Rightarrow> Err (BadGenerate path))"

lemma gget_size: "k \<in> set (gkeys m) \<Longrightarrow> size (gget m k) < size (VMap m)"
proof -
  assume "k \<in> set (gkeys m)"
  then obtain v where v: "map_of m k = Some v" by (metis gkeys_iff not_None_eq)
  then have "(k, v) \<in> set m" by (rule map_of_SomeD)
  then have "size v < size_list (size_prod (\<lambda>_. 0) size) m + 1"
    by (induction m) auto
  then show ?thesis using v by (simp add: gget_def)
qed

lemma enum_size: "(i, v) \<in> set (enumerate n xs) \<Longrightarrow> size v < size (VList xs)"
proof -
  assume "(i, v) \<in> set (enumerate n xs)"
  then have "v \<in> set xs" by (metis in_set_enumerate_eq nth_mem prod.sel enumerate_eq_zip set_zip_rightD)
  then show ?thesis by (induction xs) auto
qed

function recordValue :: "engine \<Rightarrow> string \<Rightarrow> gval \<Rightarrow> gval ev" where
  "recordValue G path (VStr src) = evalAt G path src"
| "recordValue G path (VMap v) =
     (if length v = 1 \<and> map_of v ''generate'' \<noteq> None
      then (case generateSpec G path (gget v ''generate'') of
              Err e \<Rightarrow> fail e
            | Ok g \<Rightarrow> andThen (generateID g) (\<lambda>x. ret (VStr x)))
      else if length v = 1 \<and> map_of v ''counter'' \<noteq> None
      then andThen (wrapE path (interpolate G (Sprint G (gget v ''counter'')))) (\<lambda>name.
           andThen (nextCounter G name) (\<lambda>n. ret (VInt64 n)))
      else andThen (mapE (\<lambda>k. andThen (recordValue G (path @ ''.'' @ k) (gget v k)) (\<lambda>x. ret (k, x)))
                     (sort (gkeys v))) (\<lambda>out. ret (VMap out)))"
| "recordValue G path (VList xs) =
     andThen (mapE (\<lambda>(i, x). recordValue G (path @ ''['' @ show_nat i @ '']'') x) (enumerate 0 xs)) (\<lambda>out. ret (VList out))"
| "recordValue G path VNil = ret VNil"
| "recordValue G path (VBool b) = ret (VBool b)"
| "recordValue G path (VInt i) = ret (VInt i)"
| "recordValue G path (VInt64 i) = ret (VInt64 i)"
| "recordValue G path (VFloat f) = ret (VFloat f)"
| "recordValue G path (VBytes b) = ret (VBytes b)"
| "recordValue G path (VDuration d) = ret (VDuration d)"
  by pat_completeness auto
termination
  by (relation "measure (\<lambda>(G, path, v). size v)") (auto simp: gget_size enum_size simp del: gval.size)

section \<open>Writing a record\<close>

definition setDefault :: "string \<Rightarrow> gval \<Rightarrow> gobj \<Rightarrow> gobj" where
  "setDefault k v m = (if map_of m k = None then AList.update k v m else m)"

text \<open>The payload of a wake-up for a sent message: the stored record with the queue, the account, the
  region and the queue's ARN filled in.\<close>

definition sqsPayload :: "engine \<Rightarrow> evals \<Rightarrow> bytes \<Rightarrow> gobj" where
  "sqsPayload G s blob =
     (let q = eReq s;
          p0 = (case gUnmarshal G blob of Some m \<Rightarrow> m | None \<Rightarrow> []);
          p1 = setDefault ''queue'' (VStr (TrimPrefix (eLastCol s) ''msgs:'')) p0;
          p2 = setDefault ''account'' (VStr (qAccount q)) p1;
          p3 = setDefault ''region'' (VStr (qRegion q)) p2
      in setDefault ''queueArn''
           (VStr (''arn:aws:sqs:'' @ qRegion q @ '':'' @ qAccount q @ '':'' @ Sprint G (gget p3 ''queue''))) p3)"

definition wakeUps :: "engine \<Rightarrow> bytes \<Rightarrow> evals \<Rightarrow> evals" where
  "wakeUps G blob s =
     (if gHasBus G \<and> eLastCol s \<noteq> [] then
        let s1 = s\<lparr>ePub := ePub s @ [(''collection:'' @ eLastCol s, [])]\<rparr> in
        if HasPrefix (eLastCol s) ''msgs:'' \<and> qOperation (eReq s) \<in> set [''SendMessage'', ''SendMessageBatch''] then
          (case gMarshal G (sqsPayload G s blob) of
             Some raw \<Rightarrow> s1\<lparr>eSqsWakes := eSqsWakes s1 @ [raw]\<rparr>
           | None \<Rightarrow> s1)
        else s1
      else s)"

definition putRecord :: "engine \<Rightarrow> col \<Rightarrow> string \<Rightarrow> gobj \<Rightarrow> unit ev" where
  "putRecord G c key rc =
     andThen (marshalE G rc) (\<lambda>blob.
     andThen (colPut c key blob) (\<lambda>_.
     upd (wakeUps G blob)))"

definition flushSQSWakes :: "engine \<Rightarrow> evals \<Rightarrow> evals" where
  "flushSQSWakes G s =
     (if gHasBus G then s\<lparr>ePub := ePub s @ map (\<lambda>b. (''sqs'', b)) (eSqsWakes s), eSqsWakes := []\<rparr> else s)"

end
