(* ===== verification/Statechart.thy ===== *)
theory Statechart
  imports EvalState
begin

text \<open>
  Record lifecycles (\<^verbatim>\<open>internal/engine/statechart.go\<close>, \<^verbatim>\<open>settleWrite\<close> and \<^verbatim>\<open>putKeyAlias\<close> of
  \<^verbatim>\<open>effects.go\<close>): the state and the armed deadlines on a record, lazy timers, events with guards and
  actions, moves to another collection, key aliases, loading a record and writing it back.

  The Go code changes the record's map in place while it is bound as \<^verbatim>\<open>rec\<close>; here the changed record is
  passed along and bound anew before the next evaluation.
\<close>

section \<open>State and deadlines of a record\<close>

definition stateMember :: string where "stateMember = ''__state''"

definition deadlinesMember :: string where "deadlinesMember = ''__deadlines''"

definition stateOf :: "gobj \<Rightarrow> chart \<Rightarrow> string" where
  "stateOf rc ch = (case map_of rc stateMember of Some (VStr s) \<Rightarrow> if s \<noteq> [] then s else Initial ch | _ \<Rightarrow> Initial ch)"

text \<open>A deadline is read through \<^verbatim>\<open>toFloat\<close>, so it passes through a double.\<close>

definition deadlinesOf :: "gobj \<Rightarrow> (string, int) gmap" where
  "deadlinesOf rc =
     (case map_of rc deadlinesMember of
        Some (VMap raw) \<Rightarrow>
          concat (map (\<lambda>(name, v). case toFloat v of Some n \<Rightarrow> [(name, f64_to_int64 n)] | None \<Rightarrow> []) raw)
      | _ \<Rightarrow> [])"

definition setDeadline :: "gobj \<Rightarrow> string \<Rightarrow> int \<Rightarrow> gobj" where
  "setDeadline rc name t =
     (let d = (case map_of rc deadlinesMember of Some (VMap raw) \<Rightarrow> raw | _ \<Rightarrow> [])
      in AList.update deadlinesMember (VMap (AList.update name (VInt64 t) d)) rc)"

definition clearDeadline :: "gobj \<Rightarrow> string \<Rightarrow> gobj" where
  "clearDeadline rc name =
     (case map_of rc deadlinesMember of
        Some (VMap raw) \<Rightarrow> AList.update deadlinesMember (VMap (AList.delete name raw)) rc
      | _ \<Rightarrow> rc)"

section \<open>Settling\<close>

definition due :: "int \<Rightarrow> gobj \<Rightarrow> timer \<Rightarrow> bool" where
  "due now rc t = (case map_of (deadlinesOf rc) (Deadline t) of Some at_ \<Rightarrow> at_ \<le> now | None \<Rightarrow> False)"

definition fire :: "gobj \<Rightarrow> timer \<Rightarrow> gobj" where
  "fire rc t = clearDeadline (AList.update stateMember (VStr (TTarget t)) rc) (Deadline t)"

fun settleLoop :: "nat \<Rightarrow> int \<Rightarrow> chart \<Rightarrow> gobj \<Rightarrow> bool \<Rightarrow> gobj \<times> bool \<times> chart_err option" where
  "settleLoop 0 now ch rc changed = (rc, changed, Some NotSettled)"
| "settleLoop (Suc hops) now ch rc changed =
     (case map_of (States ch) (stateOf rc ch) of
        None \<Rightarrow> (rc, changed, Some (UndefinedState (stateOf rc ch)))
      | Some st \<Rightarrow>
          (case find (due now rc) (Timers st) of
             None \<Rightarrow> (rc, changed, None)
           | Some t \<Rightarrow>
               if map_of (States ch) (TTarget t) = None
               then (rc, changed, Some (TimerUnknownTarget (Deadline t) (TTarget t)))
               else settleLoop hops now ch (fire rc t) True))"

text \<open>\<^verbatim>\<open>settle\<close> hops from 0 to the number of states inclusive.\<close>

definition settle :: "int \<Rightarrow> chart option \<Rightarrow> gobj \<Rightarrow> gobj \<times> bool \<times> chart_err option" where
  "settle now ch rc =
     (case ch of
        None \<Rightarrow> (rc, False, None)
      | Some c \<Rightarrow> settleLoop (length (States c) + 1) now c rc False)"

section \<open>Events\<close>

text \<open>\<^verbatim>\<open>asDuration\<close>: a number counts seconds.\<close>

definition asDuration :: "gval \<Rightarrow> int option" where
  "asDuration v =
     (case v of
        VDuration d \<Rightarrow> Some d
      | VInt64 d \<Rightarrow> Some (wrap64 (d * 1000000000))
      | VFloat f \<Rightarrow> Some (wrap64 (f64_to_int64 f * 1000000000))
      | _ \<Rightarrow> None)"

text \<open>Assigning members in the order of their names, each seeing the ones before it.\<close>

fun setMembers :: "engine \<Rightarrow> string \<Rightarrow> gobj \<Rightarrow> string list \<Rightarrow> gobj \<Rightarrow> gobj ev" where
  "setMembers G path spec [] rc = ret rc"
| "setMembers G path spec (k # ks) rc =
     andThen (recordValue G (path @ k) (gget spec k)) (\<lambda>v.
     let rc' = AList.update k v rc in
     andThen (withRec rc') (\<lambda>_. setMembers G path spec ks rc'))"

definition recordKey :: "engine \<Rightarrow> resource \<Rightarrow> gobj \<Rightarrow> evals \<Rightarrow> string" where
  "recordKey G res rc s =
     (if RKey res \<noteq> [] then (case map_of rc (RKey res) of Some v \<Rightarrow> Sprint G v | None \<Rightarrow> []) else eID s)"

text \<open>The identifiers a move overrides, and what they were: an absent one is put back as empty text.\<close>

fun moveTargets :: "engine \<Rightarrow> string \<Rightarrow> string list \<Rightarrow> (string, string) gmap \<Rightarrow> (string, string) gmap ev" where
  "moveTargets G path [] saved = ret saved"
| "moveTargets G path (k # ks) saved =
     andThen (evalP G (path @ ''.move.to.'' @ k)) (\<lambda>v.
     if k = ''resource'' then moveTargets G path ks saved
     else andThen (gets (\<lambda>s. case map_of (eResIDs s) k of Some i \<Rightarrow> i | None \<Rightarrow> [])) (\<lambda>old.
          andThen (upd (\<lambda>s. s\<lparr>eResIDs := AList.update k (Sprint G v) (eResIDs s)\<rparr>)) (\<lambda>_.
          moveTargets G path ks (AList.update k old saved))))"

definition moveRecord :: "engine \<Rightarrow> string \<Rightarrow> resource \<Rightarrow> move \<Rightarrow> gobj \<Rightarrow> gobj ev" where
  "moveRecord G path res m rc =
     andThen (setMembers G (path @ ''.move.set.'') (MSet m) (sort (gkeys (MSet m))) rc) (\<lambda>rc1.
     let rc2 = (if MState m \<noteq> []
                then AList.delete deadlinesMember (AList.update stateMember (VStr (MState m)) rc1) else rc1) in
     andThen (withRec rc2) (\<lambda>_.
     andThen (moveTargets G path (sort (gkeys (MTo m))) []) (\<lambda>saved.
     andThen (collection G res) (\<lambda>dest.
     andThen (gets (recordKey G res rc2)) (\<lambda>key.
     if key = [] then fail (ChartErr path NoKey)
     else andThen (putRecord G dest key rc2) (\<lambda>_.
          andThen (upd (\<lambda>s. s\<lparr>eResIDs := foldl (\<lambda>ids (k, i). AList.update k i ids) (eResIDs s) saved\<rparr>)) (\<lambda>_.
          ret rc2)))))))"

definition runAction :: "engine \<Rightarrow> string \<Rightarrow> resource \<Rightarrow> action \<Rightarrow> gobj \<Rightarrow> (gobj \<times> bool) ev" where
  "runAction G path res a rc =
     (case a of
        ActSet spec \<Rightarrow>
          andThen (setMembers G (path @ ''.set.'') spec (sort (gkeys spec)) rc) (\<lambda>rc'. ret (rc', False))
      | ActDeadline name _ \<Rightarrow>
          andThen (evalP G (path @ ''.deadline.after'')) (\<lambda>v.
          case asDuration v of
            None \<Rightarrow> fail (NotADuration path v)
          | Some dur \<Rightarrow>
              andThen (gets eNow) (\<lambda>now.
              let rc' = setDeadline rc name (wrap64 (now + dur)) in
              andThen (withRec rc') (\<lambda>_. ret (rc', False))))
      | ActMove m \<Rightarrow> andThen (moveRecord G path res m rc) (\<lambda>rc'. ret (rc', True))
      | ActEmpty \<Rightarrow> fail (ChartErr path EmptyAction))"

fun runActions :: "engine \<Rightarrow> string \<Rightarrow> resource \<Rightarrow> nat \<Rightarrow> action list \<Rightarrow> gobj \<Rightarrow> bool \<Rightarrow> (gobj \<times> bool) ev" where
  "runActions G path res j [] rc moved = ret (rc, moved)"
| "runActions G path res j (a # as) rc moved =
     andThen (runAction G (path @ ''.actions['' @ show_nat j @ '']'') res a rc) (\<lambda>(rc', didMove).
     runActions G path res (Suc j) as rc' (moved \<or> didMove))"

text \<open>The transitions of an event in order; the first whose guard holds is taken.  The result is the record,
  whether it changed and whether it moved.\<close>

fun takeFirst ::
  "engine \<Rightarrow> string \<Rightarrow> resource \<Rightarrow> chart \<Rightarrow> nat \<Rightarrow> transition list \<Rightarrow> gobj \<Rightarrow> bool \<Rightarrow> (gobj \<times> bool \<times> bool) ev" where
  "takeFirst G base res ch i [] rc changed = ret (rc, changed, False)"
| "takeFirst G base res ch i (t # ts) rc changed =
     (let path = base @ ''['' @ show_nat i @ '']'' in
      andThen (if Guard t = [] then ret True else evalBool G (path @ ''.guard'')) (\<lambda>holds.
      if \<not> holds then takeFirst G base res ch (Suc i) ts rc changed
      else if map_of (States ch) (Target t) = None then fail (ChartErr path (TransitionUnknownTarget (Target t)))
      else andThen (runActions G path res 0 (Actions t) rc False) (\<lambda>(rc', moved).
           let rc'' = AList.update stateMember (VStr (Target t)) rc' in
           andThen (withRec rc'') (\<lambda>_. ret (rc'', True, moved)))))"

definition settleE :: "string \<Rightarrow> chart option \<Rightarrow> gobj \<Rightarrow> (gobj \<times> bool) ev" where
  "settleE name ch rc =
     (\<lambda>s. case settle (eNow s) ch rc of
        (rc', changed, None) \<Rightarrow> (Ok (rc', changed), s)
      | (rc', changed, Some e) \<Rightarrow> (Err (ChartErr name e), s))"

text \<open>\<^verbatim>\<open>pushEventScope\<close> binds the record and the event, and what it returns puts the old bindings back.\<close>

definition eventScope :: "gobj \<Rightarrow> gobj \<Rightarrow> 'a ev \<Rightarrow> 'a ev" where
  "eventScope rc evt m =
     scoped ''event'' (scoped ''rec''
       (andThen (withRec rc) (\<lambda>_. andThen (bindV ''event'' (VMap evt)) (\<lambda>_. m))))"

lemma fst_eventScope:
  "fst (eventScope rc evt m s) = Ok x \<longleftrightarrow> (\<exists>t. fst (m t) = Ok x \<and>
     t = snd (bindV ''event'' (VMap evt) (snd (withRec rc s))))"
  by (auto simp: eventScope_def andThen_Ok withRec_def touch_def bindV_def upd_def andThen_def)

definition sendEvent :: "engine \<Rightarrow> string \<Rightarrow> resource \<Rightarrow> gobj \<Rightarrow> string \<Rightarrow> gobj \<Rightarrow> (gobj \<times> bool \<times> bool) ev" where
  "sendEvent G name res rc event evt =
     (case RChart res of
        None \<Rightarrow> fail (ChartErr name NoStatechart)
      | Some ch \<Rightarrow>
          andThen (settleE name (Some ch) rc) (\<lambda>(rc1, changed).
          andThen (touch rc1) (\<lambda>_.
          case map_of (States ch) (stateOf rc1 ch) of
            None \<Rightarrow> fail (ChartErr name (UndefinedState (stateOf rc1 ch)))
          | Some st \<Rightarrow>
              (case map_of (On st) event of
                 None \<Rightarrow> ret (rc1, changed, False)
               | Some ts \<Rightarrow>
                   eventScope rc1 evt
                     (takeFirst G (''resources.'' @ name @ ''.statechart.states.'' @ stateOf rc1 ch @ ''.on.'' @ event)
                        res ch 0 ts rc1 changed)))))"

section \<open>Reading a record\<close>

text \<open>Following key aliases until one repeats or has no successor; a visited key is not visited
  again and the store has finitely many.\<close>

function followAlias :: "string \<Rightarrow> string \<Rightarrow> string \<Rightarrow> memory \<Rightarrow> string list \<Rightarrow> string \<Rightarrow> string" where
  "followAlias account region name m seen key =
     (if key \<in> set seen then key
      else case coll_Get account region name m key of
        None \<Rightarrow> key
      | Some nxt \<Rightarrow> if nxt = [] then key else followAlias account region name m (key # seen) nxt)"
  by pat_completeness auto
termination
proof (relation "measure (\<lambda>(a, r, n, m, seen, key). card ({k. coll_Get a r n m k \<noteq> None} - set seen))")
  fix a r n m seen key nxt
  assume "key \<notin> set seen" "coll_Get a r n m key = Some nxt"
  then have "{k. coll_Get a r n m k \<noteq> None} - set (key # seen) \<subset> {k. coll_Get a r n m k \<noteq> None} - set seen" by auto
  then show "((a, r, n, m, key # seen, nxt), a, r, n, m, seen, key)
      \<in> measure (\<lambda>(a, r, n, m, seen, key). card ({k. coll_Get a r n m k \<noteq> None} - set seen))"
    using finite_coll_Get by (simp add: psubset_card_mono)
qed simp

declare followAlias.simps [simp del]

definition resolveKeyAlias :: "engine \<Rightarrow> resource \<Rightarrow> string \<Rightarrow> string ev" where
  "resolveKeyAlias G res key =
     (if RKeyAliases res = [] \<or> key = [] then ret key
      else andThen (interpolate G (RKeyAliases res)) (\<lambda>name.
           gets (\<lambda>s. followAlias (qAccount (eReq s)) (qRegion (eReq s)) name (eMem s) [] key)))"

text \<open>\<^verbatim>\<open>loadRecord\<close>: the record a key finds, through its aliases, with its timers settled.\<close>

definition loadRecord :: "engine \<Rightarrow> col \<Rightarrow> string \<Rightarrow> resource \<Rightarrow> (gobj \<times> bool) option ev" where
  "loadRecord G c key res =
     andThen (resolveKeyAlias G res key) (\<lambda>resolved.
     andThen (colGet c resolved) (\<lambda>raw.
     case raw of
       None \<Rightarrow> ret None
     | Some b \<Rightarrow>
         andThen (unmarshalE G b) (\<lambda>rc.
         andThen (settleE [] (RChart res) rc) (\<lambda>(rc', changed). ret (Some (rc', changed))))))"

definition putKeyAlias :: "engine \<Rightarrow> resource \<Rightarrow> string \<Rightarrow> string \<Rightarrow> unit ev" where
  "putKeyAlias G res oldKey newKey =
     (if RKeyAliases res = [] \<or> oldKey = [] \<or> newKey = [] \<or> oldKey = newKey then ret ()
      else andThen (interpolate G (RKeyAliases res)) (\<lambda>name. colPut (False, name) oldKey newKey))"

definition finalState :: "resource \<Rightarrow> gobj \<Rightarrow> bool" where
  "finalState res rc =
     (case RChart res of
        None \<Rightarrow> False
      | Some ch \<Rightarrow> (case map_of (States ch) (stateOf rc ch) of Some st \<Rightarrow> Final st | None \<Rightarrow> False))"

definition settleWrite :: "engine \<Rightarrow> col \<Rightarrow> string \<Rightarrow> resource \<Rightarrow> gobj \<Rightarrow> bool \<Rightarrow> bool \<Rightarrow> unit ev" where
  "settleWrite G c key res rc changed moved =
     (if \<not> changed \<and> \<not> moved then ret ()
      else if moved \<or> finalState res rc then colDelete c key
      else andThen (gets (recordKey G res rc)) (\<lambda>newKey.
           if newKey \<noteq> [] \<and> newKey \<noteq> key
           then andThen (putKeyAlias G res key newKey) (\<lambda>_.
                andThen (colDelete c key) (\<lambda>_. putRecord G c newKey rc))
           else putRecord G c key rc))"

section \<open>Firing a timer\<close>

lemma members_distinct [simp]: "stateMember \<noteq> deadlinesMember" "deadlinesMember \<noteq> stateMember"
  by (simp_all add: stateMember_def deadlinesMember_def)

lemma deadlinesOf_state [simp]: "deadlinesOf (AList.update stateMember v rc) = deadlinesOf rc"
  by (simp add: deadlinesOf_def)

lemma concat_map_delete:
  "concat (map (\<lambda>(name, v). case f v of Some n \<Rightarrow> [(name, g n)] | None \<Rightarrow> []) (AList.delete k raw)) =
   AList.delete k (concat (map (\<lambda>(name, v). case f v of Some n \<Rightarrow> [(name, g n)] | None \<Rightarrow> []) raw))"
  by (induction raw) (auto simp: AList.delete_eq split: option.splits)

lemma deadlinesOf_clear: "deadlinesOf (clearDeadline rc name) = AList.delete name (deadlinesOf rc)"
  by (auto simp: clearDeadline_def deadlinesOf_def concat_map_delete split: option.splits gval.splits)

lemma deadlinesOf_fire: "deadlinesOf (fire rc t) = AList.delete (Deadline t) (deadlinesOf rc)"
  by (simp add: fire_def deadlinesOf_clear)

lemma delete_shorter: "map_of m k = Some v \<Longrightarrow> length (AList.delete k m) < length m"
proof -
  assume "map_of m k = Some v"
  then have "(k, v) \<in> set m" by (rule map_of_SomeD)
  then show ?thesis unfolding AList.delete_eq
    by (metis (mono_tags, lifting) case_prodD length_filter_less)
qed

lemma due_deadline: "due now rc t \<Longrightarrow> length (deadlinesOf (fire rc t)) < length (deadlinesOf rc)"
  by (auto simp: due_def deadlinesOf_fire split: option.splits intro: delete_shorter)

lemma find_due: "find (due now rc) ts = Some t \<Longrightarrow> due now rc t"
  by (auto simp: find_Some_iff)

lemmas settleLoop_fire = settleLoop.simps(2)

declare settleLoop.simps(2) [simp del]

text \<open>Where settling ends without an error: in a state of the chart with no timer due.\<close>

definition settled :: "int \<Rightarrow> chart \<Rightarrow> gobj \<Rightarrow> bool" where
  "settled now ch rc =
     (case map_of (States ch) (stateOf rc ch) of
        None \<Rightarrow> False
      | Some st \<Rightarrow> \<not> list_ex (due now rc) (Timers st))"

lemma settled_iff:
  "settled now ch rc \<longleftrightarrow> (\<exists>st. map_of (States ch) (stateOf rc ch) = Some st \<and> find (due now rc) (Timers st) = None)"
  by (auto simp: settled_def find_None_iff list_ex_iff split: option.splits)

lemma settleLoop_settled:
  "settleLoop hops now ch rc changed = (rc', changed', None) \<Longrightarrow> settled now ch rc'"
proof (induction hops arbitrary: rc changed)
  case (Suc hops)
  from Suc.prems show ?case
    by (auto simp: settleLoop_fire settled_iff split: option.splits if_splits dest: Suc.IH [unfolded settled_iff])
qed simp

lemma settled_settleLoop: "settled now ch rc \<Longrightarrow> settleLoop (Suc hops) now ch rc changed = (rc, changed, None)"
  by (auto simp: settled_iff settleLoop_fire)

lemma settleLoop_terminates:
  "length (deadlinesOf rc) < hops \<Longrightarrow> snd (snd (settleLoop hops now ch rc changed)) \<noteq> Some NotSettled"
proof (induction hops arbitrary: rc changed)
  case (Suc hops)
  show ?case
  proof (cases "map_of (States ch) (stateOf rc ch)")
    case (Some st)
    show ?thesis
    proof (cases "find (due now rc) (Timers st)")
      case (Some t)
      have "length (deadlinesOf (fire rc t)) < hops" using due_deadline [OF find_due [OF Some]] Suc.prems by simp
      from Suc.IH [OF this] show ?thesis using Some \<open>map_of (States ch) (stateOf rc ch) = Some st\<close>
        by (simp add: settleLoop_fire)
    qed (simp add: settleLoop_fire Some)
  qed (simp add: settleLoop_fire)
qed simp

section \<open>Taking a transition\<close>

lemma stateOf_update: "s \<noteq> [] \<Longrightarrow> stateOf (AList.update stateMember (VStr s) rc) ch = s"
  by (simp add: stateOf_def)

lemma takeFirst_state:
  assumes "map_of (States ch) (stateOf rc ch) \<noteq> None" "map_of (States ch) [] = None"
    and "fst (takeFirst G base res ch i ts rc changed s) = Ok (rc', changed', moved)"
  shows "map_of (States ch) (stateOf rc' ch) \<noteq> None"
  using assms(3)
proof (induction ts arbitrary: i s)
  case Nil
  then show ?case using assms(1) by (simp add: ret_def)
next
  case (Cons t ts)
  define path where "path = base @ ''['' @ show_nat i @ '']''"
  obtain holds s1 where
    rest: "fst ((if \<not> holds then takeFirst G base res ch (Suc i) ts rc changed
      else if map_of (States ch) (Target t) = None then fail (ChartErr path (TransitionUnknownTarget (Target t)))
      else andThen (runActions G path res 0 (Actions t) rc False) (\<lambda>(rc', moved).
           let rc'' = AList.update stateMember (VStr (Target t)) rc' in
           andThen (withRec rc'') (\<lambda>_. ret (rc'', True, moved)))) s1) = Ok (rc', changed', moved)"
    using Cons.prems unfolding takeFirst.simps Let_def path_def [symmetric] by (auto simp: andThen_Ok)
  show ?case
  proof (cases holds)
    case False
    then show ?thesis using rest Cons.IH by simp
  next
    case True
    then have t: "map_of (States ch) (Target t) \<noteq> None" using rest by (auto simp: fail_def split: if_splits)
    then obtain rc0 where "rc' = AList.update stateMember (VStr (Target t)) rc0"
      using rest True by (auto simp: andThen_Ok ret_def Let_def split: prod.splits)
    moreover have "Target t \<noteq> []" using t assms(2) by auto
    ultimately show ?thesis using t by (simp add: stateOf_update)
  qed
qed

lemma settle_state_defined:
  "settle now (Some ch) rc = (rc', changed, None) \<Longrightarrow> map_of (States ch) (stateOf rc' ch) \<noteq> None"
  using settleLoop_settled by (fastforce simp: settle_def settled_iff)

section \<open>Properties\<close>

text \<open>C26: one look at a record is enough.  When settling succeeds, no timer of the state it ends in
  is due, and settling again at the same reading of the clock changes nothing.\<close>

theorem settle_idempotent:
  assumes "settle now (Some ch) rc = (rc', changed, None)"
  shows "settled now ch rc' \<and> settle now (Some ch) rc' = (rc', False, None)"
proof
  show s: "settled now ch rc'" using assms by (auto simp: settle_def intro: settleLoop_settled)
  show "settle now (Some ch) rc' = (rc', False, None)" using settled_settleLoop [OF s] by (simp add: settle_def)
qed


definition demo_chart :: chart where
  "demo_chart = \<lparr>Initial = ''hidden'', States =
     [(''hidden'', \<lparr>Final = False, On = [(''show'', [\<lparr>Guard = [], Target = ''visible'', Actions = []\<rparr>])],
                     Timers = [\<lparr>Deadline = ''vis'', TTarget = ''visible''\<rparr>]\<rparr>),
      (''visible'', \<lparr>Final = False, On = [], Timers = []\<rparr>)]\<rparr>"

definition demo_rec :: gobj where
  "demo_rec = [(deadlinesMember, VMap [(''vis'', VInt64 30)])]"

definition demo_visible :: gobj where
  "demo_visible = [(deadlinesMember, VMap []), (stateMember, VStr ''visible'')]"

lemma demo_settle: "settle 31 (Some demo_chart) demo_rec = (demo_visible, True, None)"
  by (simp add: settle_def demo_chart_def demo_rec_def demo_visible_def settleLoop_fire fire_def stateOf_def
      deadlinesOf_def due_def clearDeadline_def f64_exact_int trunc_rat_def in_int64_def stateMember_def
      deadlinesMember_def)

theorem settle_idempotent_witness:
  "settled 31 demo_chart demo_visible \<and> settle 31 (Some demo_chart) demo_visible = (demo_visible, False, None)"
  using settle_idempotent [OF demo_settle] .


definition one_state :: chart where
  "one_state = \<lparr>Initial = ''s'', States = [(''s'', \<lparr>Final = False, On = [],
     Timers = [\<lparr>Deadline = ''a'', TTarget = ''s''\<rparr>, \<lparr>Deadline = ''b'', TTarget = ''s''\<rparr>]\<rparr>)]\<rparr>"

definition two_expired :: gobj where
  "two_expired = [(deadlinesMember, VMap [(''a'', VInt64 1), (''b'', VInt64 2)])]"

text \<open>With more expired deadlines than states, a record that does come to rest is reported as a
  cycle of expired deadlines: a chart of one state with two timers back to it, both expired, fails
  although it leaves no deadline armed and nothing due.\<close>

theorem settle_false_cycle:
  "case settle 5 (Some one_state) two_expired of
     (rc', changed, err) \<Rightarrow> err = Some NotSettled \<and> deadlinesOf rc' = [] \<and> settled 5 one_state rc'"
  by (simp add: settle_def one_state_def two_expired_def settleLoop_fire fire_def stateOf_def settled_def
      deadlinesOf_def due_def clearDeadline_def f64_exact_int trunc_rat_def in_int64_def stateMember_def
      deadlinesMember_def)

lemma sendEvent_in_chart:
  assumes "RChart res = Some ch" "map_of (States ch) [] = None"
    and "fst (sendEvent G name res rc event evt s) = Ok (rc', changed, moved)"
  shows "map_of (States ch) (stateOf rc' ch) \<noteq> None"
proof -
  obtain rc1 changed1 err where st: "settle (eNow s) (Some ch) rc = (rc1, changed1, err)"
    by (cases "settle (eNow s) (Some ch) rc") auto
  have "err = None" using assms(1,3) st
    by (cases err) (auto simp: sendEvent_def andThen_Ok settleE_def)
  with st settle_state_defined obtain sta where sta: "map_of (States ch) (stateOf rc1 ch) = Some sta" by blast
  show ?thesis
  proof (cases "map_of (On sta) event")
    case None
    then show ?thesis using assms(1,3) st sta \<open>err = None\<close>
      by (auto simp: sendEvent_def settleE_def andThen_Ok ret_def)
  next
    case (Some ts)
    then obtain base s1 where "fst (takeFirst G base res ch 0 ts rc1 changed1 s1) = Ok (rc', changed, moved)"
      using assms(1,3) st sta \<open>err = None\<close>
      by (auto simp: sendEvent_def settleE_def fst_eventScope andThen_Ok)
    then show ?thesis using takeFirst_state [of ch rc1] assms(2) sta by auto
  qed
qed


definition demo_engine :: engine where
  "demo_engine = \<lparr>
     gIR = \<lparr>SvID = [], SvResources = [], SvErrors = [], SvOperations = [], SvMissingInput = [], SvMissingMessages = []\<rparr>,
     gShapes = [], gModelOps = [], gPrograms = (\<lambda>_. None), gSprint = (\<lambda>_. []), gMarshal = (\<lambda>_. Some []),
     gUnmarshal = (\<lambda>_. Some []), gUnmarshalN = (\<lambda>_. Some 0), gUnmarshalDedup = (\<lambda>_. None), gQuote = id, gErrText = (\<lambda>_. []),
     gParseDuration = (\<lambda>_. None), gParseURL = (\<lambda>_. None), gURLString = (\<lambda>_. []), gHasBus = False, gStrategy = [],
     gExecutor = None\<rparr>"

definition demo_res :: resource where
  "demo_res = \<lparr>RCollection = ''msgs'', RSingleton = [], RKey = [], RKeyAliases = [], RGlobal = False,
     RID = \<lparr>IDGenerate = None, IDInputMembers = [], IDDerive = []\<rparr>, RARN = [], RRecord = [], RViews = [],
     RChart = Some demo_chart\<rparr>"

definition demo_request :: request where
  "demo_request = \<lparr>qServiceID = [], qOperation = ''Op'', qInput = [], qAccount = ''1'', qRegion = ''us'',
     qAccessKeyID = [], qARN = [], qProject = [], qBody = None, qHTTP = None, qAdvertiseURL = []\<rparr>"

definition demo_op :: operation where
  "demo_op = \<lparr>OReads = [], OLet = [], ORequire = [], OSelect = None, OWait = None, OEffects = [], OList = None,
     OBatch = None, OOutput = [], OStatus = 0, OOmitNull = []\<rparr>"

definition demo_evals :: evals where
  "demo_evals = \<lparr>eReq = demo_request, eOp = demo_op, eBinds = [], eID = ''m'', eFx = [], eSelection = [],
     eBound = [], eCur = None, eShort = None, eDedup = None, eResIDs = [], eLastCol = [], eSqsWakes = [],
     eMem = NewMemory [], eRand = \<lparr>ctr = 0, seed = []\<rparr>, eNow = 1, ePub = [], eCalls = [], eScript = [], eParked = []\<rparr>"

definition demo_shown :: gobj where
  "demo_shown = [(deadlinesMember, VMap [(''vis'', VInt64 30)]), (stateMember, VStr ''visible'')]"

lemma demo_send:
  "fst (sendEvent demo_engine ''message'' demo_res demo_rec ''show'' [] demo_evals) = Ok (demo_shown, True, False)"
proof -
  have "settle 1 (Some demo_chart) demo_rec = (demo_rec, False, None)"
    by (simp add: settle_def demo_chart_def demo_rec_def settleLoop_fire stateOf_def deadlinesOf_def due_def
        f64_exact_int trunc_rat_def in_int64_def stateMember_def deadlinesMember_def)
  then have "settleE ''message'' (Some demo_chart) demo_rec demo_evals = (Ok (demo_rec, False), demo_evals)"
    by (simp add: settleE_def demo_evals_def)
  moreover have "map_of (States demo_chart) (stateOf demo_rec demo_chart) =
      Some (snd (hd (States demo_chart)))" "map_of (On (snd (hd (States demo_chart)))) ''show'' =
      Some [\<lparr>Guard = [], Target = ''visible'', Actions = []\<rparr>]"
    by (simp_all add: demo_chart_def demo_rec_def stateOf_def stateMember_def deadlinesMember_def)
  moreover have "fst (takeFirst demo_engine base demo_res demo_chart 0
      [\<lparr>Guard = [], Target = ''visible'', Actions = []\<rparr>] demo_rec False t) = Ok (demo_shown, True, False)" for base t
    by (simp add: Let_def) (simp add: ret_def demo_chart_def demo_rec_def demo_shown_def stateMember_def deadlinesMember_def)
  moreover have "RChart demo_res = Some demo_chart" by (simp add: demo_res_def)
  ultimately show ?thesis
    by (simp add: sendEvent_def andThen_run fst_eventScope del: takeFirst.simps)
qed


lemma deadline_exact:
  assumes "\<bar>t\<bar> < 2 ^ 53"
  shows "map_of (deadlinesOf (setDeadline [] name t)) name = Some t"
  using assms by (auto simp: deadlinesOf_def setDeadline_def f64_exact_int trunc_rat_def in_int64_def)

text \<open>A deadline is read back through a double, so an instant of more than 53 bits is rounded.
  At a reading of today's magnitude, \<open>2 ^ 60 + 129\<close> nanoseconds, the armed deadline is read 127
  nanoseconds late, and a timer looked at exactly at its deadline does not fire.\<close>

theorem deadline_rounded:
  "map_of (deadlinesOf (setDeadline [] ''vis'' 1152921504606847105)) ''vis'' = Some 1152921504606847232 \<and>
   settle 1152921504606847105 (Some demo_chart) (setDeadline [] ''vis'' 1152921504606847105) =
     (setDeadline [] ''vis'' 1152921504606847105, False, None)"
proof -
  have r: "f64_of_int 1152921504606847105 = Fin 1152921504606847232"
  proof -
    have b: "bitlen 1152921504606847105 = 61" by (simp add: bitlen.simps)
    have f: "\<lfloor>1152921504606847105 / 256 :: rat\<rfloor> = 4503599627370496" by (rule floor_unique) simp_all
    have "round_even (1152921504606847105 / 256) = 4503599627370497" by (simp add: round_even_def Let_def f)
    then have "f64_round_rat 1152921504606847105 = 1152921504606847232" by (simp add: f64_round_rat_def Let_def b)
    then show ?thesis by (simp add: f64_of_int_def f64_of_rat_def Let_def)
  qed
  have d: "deadlinesOf (setDeadline [] ''vis'' 1152921504606847105) = [(''vis'', 1152921504606847232)]"
    by (simp add: deadlinesOf_def setDeadline_def r trunc_rat_def in_int64_def)
  then show ?thesis
    by (simp add: settle_def demo_chart_def settleLoop_fire stateOf_def due_def setDeadline_def)
qed

end
