(* ===== verification/Calendar.thy ===== *)
theory Calendar
  imports Main
begin

text \<open>
  The civil calendar of Go's package \<^verbatim>\<open>time\<close>: days are counted from 1 January of the year 1, as the
  package counts them, and a day is read back as year, month and day of the month.

  \<open>civil_daysBefore\<close> and \<open>daysBefore_civil\<close> show that reading and writing are inverse to each other;
  \<open>yearOf_bounds\<close> and \<open>year_unique\<close> place a day between the start of its year and that of the next,
  which is what a scan over the calendar needs.
\<close>

section \<open>Years\<close>

definition isLeap :: "int \<Rightarrow> bool" where
  "isLeap y \<longleftrightarrow> y mod 4 = 0 \<and> (y mod 100 \<noteq> 0 \<or> y mod 400 = 0)"

text \<open>The days before 1 January of a year.\<close>

definition yearStart :: "int \<Rightarrow> int" where
  "yearStart y = (let p = y - 1 in 365 * p + p div 4 - p div 100 + p div 400)"

definition yearOf :: "int \<Rightarrow> int" where
  "yearOf d =
     (let y = 400 * d div 146097 + 1 in
      if d < yearStart y then y - 1 else if yearStart (y + 1) \<le> d then y + 1 else y)"

section \<open>Months\<close>

definition monthLengths :: "int \<Rightarrow> nat list" where
  "monthLengths y = [31, if isLeap y then 29 else 28, 31, 30, 31, 30, 31, 31, 30, 31, 30, 31]"

text \<open>The month, counted from 0, and the day of the month, counted from 1, of a day of the year.\<close>

fun findMonth :: "nat list \<Rightarrow> nat \<Rightarrow> nat \<times> nat" where
  "findMonth [] n = (0, n + 1)"
| "findMonth (l # ls) n = (if n < l then (0, n + 1) else (case findMonth ls (n - l) of (m, d) \<Rightarrow> (m + 1, d)))"

definition civil :: "int \<Rightarrow> int \<times> nat \<times> nat" where
  "civil d =
     (let y = yearOf d; (m, k) = findMonth (monthLengths y) (nat (d - yearStart y)) in (y, m + 1, k))"

text \<open>The days before the first of a month (1 to 12), and before a date; the day may leave its month.\<close>

definition monthStart :: "int \<Rightarrow> nat \<Rightarrow> int" where
  "monthStart y m = yearStart y + int (sum_list (take (m - 1) (monthLengths y)))"

definition daysBefore :: "int \<Rightarrow> nat \<Rightarrow> int \<Rightarrow> int" where
  "daysBefore y m d = monthStart y m + d - 1"

definition lastDay :: "int \<Rightarrow> nat \<Rightarrow> nat" where
  "lastDay y m = monthLengths y ! (m - 1)"

text \<open>Sunday is 0; 1 January of the year 1 is a Monday.\<close>

definition weekdayOf :: "int \<Rightarrow> int" where
  "weekdayOf d = (d + 1) mod 7"

section \<open>Facts about years\<close>

lemma div_step: "0 < k \<Longrightarrow> y div k = (y - 1) div k + (if k dvd y then 1 else 0)" for k y :: int
proof (cases "k dvd y")
  case True
  assume k: "0 < k"
  obtain q where q: "y = k * q" using True by auto
  have "(k * q - 1) div k = q - 1"
    using k by (intro int_div_pos_eq [of _ _ _ "k - 1"]) (simp_all add: algebra_simps)
  then show ?thesis using q k by simp
next
  case False
  assume k: "0 < k"
  then have "0 < y mod k"
    using False pos_mod_sign [OF k, of y] by (simp add: dvd_eq_mod_eq_0 less_le)
  then have "(y - 1) div k = y div k"
    using pos_mod_bound [OF k, of y] mult_div_mod_eq [of k y]
    by (intro int_div_pos_eq [of _ _ _ "y mod k - 1"]) simp_all
  then show ?thesis using False by simp
qed

lemma isLeap_dvd: "isLeap y \<longleftrightarrow> 4 dvd y \<and> (\<not> 100 dvd y \<or> 400 dvd y)"
  by (simp add: isLeap_def dvd_eq_mod_eq_0)

lemma isLeap_div:
  "y div 4 - y div 100 + y div 400 =
     (y - 1) div 4 - (y - 1) div 100 + (y - 1) div 400 + (if isLeap y then 1 else 0)"
proof -
  have add: "a - b + c = a' - b' + c' + (if P \<and> (\<not> Q \<or> R) then 1 else 0)"
    if "a = a' + (if P then 1 else 0)" "b = b' + (if Q then 1 else 0)" "c = c' + (if R then 1 else 0)"
      "R \<Longrightarrow> Q" "Q \<Longrightarrow> P" for a a' b b' c c' :: int and P Q R
    by (cases P; cases Q; cases R) (use that in simp_all)
  have *: "400 dvd y \<Longrightarrow> 100 dvd y" "100 dvd y \<Longrightarrow> 4 dvd y"
    by (rule dvd_trans [of 100 400 y], simp, assumption) (rule dvd_trans [of 4 100 y], simp, assumption)
  show ?thesis
    unfolding isLeap_dvd by (rule add [OF div_step div_step div_step *]) simp_all
qed

lemma yearStart_Suc: "yearStart (y + 1) = yearStart y + (if isLeap y then 366 else 365)"
  using isLeap_div [of y] by (cases "isLeap y") (simp_all add: yearStart_def Let_def)

lemma yearStart_less: "yearStart y < yearStart (y + 1)"
  by (simp add: yearStart_Suc)

lemma yearStart_mono: "x \<le> y \<Longrightarrow> yearStart x \<le> yearStart y"
proof (induction y rule: int_ge_induct)
  case (step y)
  then show ?case using yearStart_less [of y] by simp
qed simp

lemma div_range: "0 < k \<Longrightarrow> k * (x div k) \<le> x \<and> x \<le> k * (x div k) + (k - 1)" for k x :: int
  using pos_mod_bound [of k x] pos_mod_sign [of k x] mult_div_mod_eq [of k x] by linarith

lemma yearStart_range:
  "400 * yearStart (x + 1) \<le> 146097 * x + 396" "146097 * x - 699 \<le> 400 * yearStart (x + 1)"
proof -
  define a b c where "a = x div 4" "b = x div 100" "c = x div 400"
  have "yearStart (x + 1) = 365 * x + a - b + c"
    by (simp only: yearStart_def Let_def add_diff_cancel_right' a_b_c_def)
  moreover have "4 * a \<le> x \<and> x \<le> 4 * a + (4 - 1)" "100 * b \<le> x \<and> x \<le> 100 * b + (100 - 1)"
    "400 * c \<le> x \<and> x \<le> 400 * c + (400 - 1)"
    unfolding a_b_c_def by (rule div_range, simp)+
  ultimately show "400 * yearStart (x + 1) \<le> 146097 * x + 396" "146097 * x - 699 \<le> 400 * yearStart (x + 1)"
    by simp_all
qed

lemma yearOf_bounds: "yearStart (yearOf d) \<le> d" "d < yearStart (yearOf d + 1)"
proof -
  obtain q where q: "146097 * q \<le> 400 * d" "400 * d \<le> 146097 * q + 146096" "q = 400 * d div 146097"
    using div_range [of 146097 "400 * d"] by auto
  have "yearStart q \<le> d" "d < yearStart (q + 3)"
    using yearStart_range [of "q - 1"] yearStart_range [of "q + 2"] q(1,2) by (simp_all add: add.commute)
  moreover have "yearOf d = (if d < yearStart (q + 1) then q else if yearStart (q + 2) \<le> d then q + 2 else q + 1)"
    by (simp only: yearOf_def Let_def q(3) [symmetric] add.commute add_diff_cancel_left') (simp add: add.commute)
  ultimately show "yearStart (yearOf d) \<le> d" "d < yearStart (yearOf d + 1)"
    by (auto simp: add.commute split: if_splits)
qed

lemma year_unique: "yearStart y \<le> d \<Longrightarrow> d < yearStart (y + 1) \<Longrightarrow> yearOf d = y"
  using yearOf_bounds [of d] yearStart_mono [of "yearOf d + 1" y] yearStart_mono [of "y + 1" "yearOf d"]
  by linarith

lemma yearOf_mono: "c \<le> d \<Longrightarrow> yearOf c \<le> yearOf d"
  using yearOf_bounds [of c] yearOf_bounds [of d] yearStart_mono [of "yearOf d + 1" "yearOf c"] by linarith

section \<open>Facts about months\<close>

lemma monthLengths_length [simp]: "length (monthLengths y) = 12"
  by (simp add: monthLengths_def)

lemma sum_monthLengths: "yearStart y + int (sum_list (monthLengths y)) = yearStart (y + 1)"
  by (simp add: yearStart_Suc monthLengths_def)

lemma findMonth_spec:
  "n < sum_list ls \<Longrightarrow> findMonth ls n = (m, k) \<Longrightarrow>
     m < length ls \<and> 1 \<le> k \<and> k \<le> ls ! m \<and> n + 1 = sum_list (take m ls) + k"
proof (induction ls n arbitrary: m k rule: findMonth.induct)
  case (2 l ls n)
  show ?case
  proof (cases "n < l")
    case False
    obtain m' k' where f: "findMonth ls (n - l) = (m', k')" by force
    then have mk: "m = m' + 1" "k = k'" using "2.prems" False by auto
    have "n - l < sum_list ls" using "2.prems"(1) False by simp
    from "2.IH" [OF False this f] show ?thesis using mk False by auto
  qed (use 2 in auto)
qed simp

lemma findMonth_found:
  "m < length ls \<Longrightarrow> 1 \<le> k \<Longrightarrow> k \<le> ls ! m \<Longrightarrow> findMonth ls (sum_list (take m ls) + k - 1) = (m, k)"
proof (induction ls arbitrary: m)
  case (Cons l ls)
  show ?case
  proof (cases m)
    case (Suc m')
    then have "sum_list (take m (l # ls)) + k - 1 - l = sum_list (take m' ls) + k - 1"
      "\<not> sum_list (take m (l # ls)) + k - 1 < l" using Cons.prems by auto
    then show ?thesis using Cons Suc by simp
  qed (use Cons in auto)
qed simp

text \<open>Writing a date and reading it, and the other way round.\<close>

lemma civil_daysBefore:
  assumes "1 \<le> m" "m \<le> 12" "1 \<le> k" "k \<le> lastDay y m"
  shows "civil (daysBefore y m (int k)) = (y, m, k)"
proof -
  let ?ls = "monthLengths y" and ?d = "daysBefore y m (int k)"
  have k: "k \<le> ?ls ! (m - 1)" "m - 1 < length ?ls" using assms by (auto simp: lastDay_def)
  have "sum_list (take (m - 1) ?ls) + ?ls ! (m - 1) \<le> sum_list ?ls"
    using k(2) by (metis id_take_nth_drop sum_list.append sum_list.Cons le_add1 add.assoc append_take_drop_id)
  then have d: "?d - yearStart y = int (sum_list (take (m - 1) ?ls) + k - 1)"
    "yearStart y \<le> ?d" "?d < yearStart (y + 1)"
    using assms k sum_monthLengths [of y] by (simp_all add: daysBefore_def monthStart_def)
  have "nat (?d - yearStart y) = sum_list (take (m - 1) ?ls) + k - 1" unfolding d(1) by (rule nat_int)
  then show ?thesis
    using findMonth_found [OF k(2) assms(3) k(1)] assms(1) year_unique [OF d(2,3)]
    by (simp only: civil_def Let_def) simp
qed

lemma daysBefore_civil:
  assumes "civil d = (y, m, k)"
  shows "daysBefore y m (int k) = d" "yearOf d = y" "1 \<le> m" "m \<le> 12" "1 \<le> k" "k \<le> lastDay y m"
proof -
  let ?ls = "monthLengths y"
  show y: "yearOf d = y" using assms by (auto simp: civil_def Let_def split: prod.splits)
  have n: "nat (d - yearStart y) < sum_list ?ls"
    using yearOf_bounds [of d] sum_monthLengths [of y] unfolding y by (simp add: nat_less_iff)
  have f: "findMonth ?ls (nat (d - yearStart y)) = (m - 1, k)" "1 \<le> m"
    using assms y by (auto simp: civil_def Let_def split: prod.splits)
  note s = findMonth_spec [OF n f(1)]
  then show "1 \<le> m" "m \<le> 12" "1 \<le> k" "k \<le> lastDay y m"
    using f(2) by (auto simp: lastDay_def)
  have "int (nat (d - yearStart y)) = d - yearStart y" using yearOf_bounds(1) [of d] y by simp
  moreover have "int (nat (d - yearStart y)) + 1 = int (sum_list (take (m - 1) ?ls)) + int k"
    using s by linarith
  ultimately show "daysBefore y m (int k) = d"
    by (simp only: daysBefore_def monthStart_def)
qed

end
