(* ===== verification/Identity.thy ===== *)
theory Identity
  imports GoVal Calendar
begin

text \<open>
  The caller's identity (\<^verbatim>\<open>internal/identity/identity.go\<close>): what a request's headers and query
  say about account, region and access key, when a presigned URL has run out, and which incomplete
  presigned requests are refused.

  A request is its headers (keys in canonical form) and its parsed query, both maps from keys to
  lists of values; \<open>Get\<close> is the first value or the empty string.  A \<^verbatim>\<open>time.Time\<close> is what Go compares:
  the seconds since the year 1, an \<^verbatim>\<open>int64\<close>, and the nanoseconds.
\<close>

section \<open>Requests and instants\<close>

type_synonym url_values = "(string, string list) gmap"

record http_request =
  Header :: url_values
  Query :: url_values

definition Get :: "url_values \<Rightarrow> string \<Rightarrow> string" where
  "Get m k = (case map_of m k of Some (v # _) \<Rightarrow> v | _ \<Rightarrow> [])"

record instant =
  tsec :: int
  tnsec :: nat

definition Before :: "instant \<Rightarrow> instant \<Rightarrow> bool" where
  "Before t u \<longleftrightarrow> tsec t < tsec u \<or> tsec t = tsec u \<and> tnsec t < tnsec u"

definition unixToInternal :: int where
  "unixToInternal = 62135596800"

definition Unix :: "int \<Rightarrow> instant" where
  "Unix s = \<lparr>tsec = wrap64 (s + unixToInternal), tnsec = 0\<rparr>"

text \<open>\<^verbatim>\<open>Time.Add\<close> of a whole number of seconds: a sum that leaves \<^verbatim>\<open>int64\<close> saturates.\<close>

definition AddSeconds :: "instant \<Rightarrow> int \<Rightarrow> instant" where
  "AddSeconds t d = t\<lparr>tsec := max (- (2 ^ 63 - 1)) (min (2 ^ 63 - 1) (tsec t + d))\<rparr>"

text \<open>
  \<^verbatim>\<open>time.Parse\<close> for the layout \<^verbatim>\<open>20060102T150405Z\<close>.  The fields have fixed width; after the seconds
  \<^verbatim>\<open>time.Parse\<close> also takes a fraction, of which at most nine digits count.
\<close>

definition parseFraction :: "string \<Rightarrow> nat \<times> string" where
  "parseFraction s =
     (case s of
        c # r \<Rightarrow>
          (let ds = takeWhile is_digit r; nine = take 9 ds in
           if (c = CHR ''.'' \<or> c = CHR '','') \<and> ds \<noteq> []
           then (the (parse_digits nine) * 10 ^ (9 - length nine), dropWhile is_digit r)
           else (0, s))
      | [] \<Rightarrow> (0, s))"

definition parseAmzDate :: "string \<Rightarrow> instant option" where
  "parseAmzDate s =
     (case (parse_digits (take 4 s), parse_digits (take 2 (drop 4 s)), parse_digits (take 2 (drop 6 s)),
            parse_digits (take 2 (drop 9 s)), parse_digits (take 2 (drop 11 s)), parse_digits (take 2 (drop 13 s))) of
        (Some y, Some mo, Some d, Some h, Some mi, Some sec) \<Rightarrow>
          (let (ns, rest) = parseFraction (drop 15 s) in
           if 15 \<le> length s \<and> s ! 8 = CHR ''T'' \<and> rest = ''Z'' \<and>
              1 \<le> mo \<and> mo \<le> 12 \<and> 1 \<le> d \<and> d \<le> lastDay (int y) mo \<and>
              h < 24 \<and> mi < 60 \<and> sec < 60
           then Some \<lparr>tsec = daysBefore (int y) mo (int d) * 86400 + int h * 3600 + int mi * 60 + int sec,
                      tnsec = ns\<rparr>
           else None)
      | _ \<Rightarrow> None)"

section \<open>Presigned requests\<close>

definition PresignedExpiry :: "http_request \<Rightarrow> instant option" where
  "PresignedExpiry r =
     (let q = Query r;
          v2 = (if Get q ''Expires'' \<noteq> [] \<and> Get q ''AWSAccessKeyId'' \<noteq> []
                then map_option Unix (ParseInt10 (Get q ''Expires'')) else None)
      in if Get q ''X-Amz-Expires'' \<noteq> []
         then (case (ParseInt10 (Get q ''X-Amz-Expires''), parseAmzDate (Get q ''X-Amz-Date'')) of
                 (Some secs, Some started) \<Rightarrow>
                   if 0 \<le> secs \<and> secs \<le> 7 * 24 * 60 * 60 then Some (AddSeconds started secs) else v2
               | _ \<Rightarrow> v2)
         else v2)"

record Fault =
  fCode :: string
  fMessage :: string
  HTTPStatus :: nat
  fFault :: string

record auth_group =
  gnames :: "string list"
  gcode :: string
  gmessage :: string
  gstatus :: nat

definition auth_groups :: "auth_group list" where
  "auth_groups =
     [\<lparr>gnames = [''X-Amz-Algorithm'', ''X-Amz-Credential'', ''X-Amz-Signature'', ''X-Amz-Date'',
                ''X-Amz-SignedHeaders'', ''X-Amz-Expires''],
       gcode = ''AuthorizationQueryParametersError'',
       gmessage = ''Query-string authentication version 4 requires the X-Amz-Algorithm, X-Amz-Credential, X-Amz-Signature, X-Amz-Date, X-Amz-SignedHeaders, and X-Amz-Expires parameters.'',
       gstatus = 400\<rparr>,
      \<lparr>gnames = [''Signature'', ''Expires'', ''AWSAccessKeyId''],
       gcode = ''AccessDenied'',
       gmessage = ''Query-string authentication requires the Signature, Expires and AWSAccessKeyId parameters'',
       gstatus = 403\<rparr>]"

definition group_fault :: "url_values \<Rightarrow> auth_group \<Rightarrow> Fault option" where
  "group_fault q g =
     (if (\<exists>n \<in> set (gnames g). Get q n \<noteq> []) \<and> \<not> (\<forall>n \<in> set (gnames g). Get q n \<noteq> [])
      then Some \<lparr>fCode = gcode g, fMessage = gmessage g, HTTPStatus = gstatus g, fFault = ''client''\<rparr>
      else None)"

fun first_fault :: "url_values \<Rightarrow> auth_group list \<Rightarrow> Fault option" where
  "first_fault q [] = None"
| "first_fault q (g # gs) = (case group_fault q g of Some f \<Rightarrow> Some f | None \<Rightarrow> first_fault q gs)"

definition query_error :: "string \<Rightarrow> Fault" where
  "query_error m = \<lparr>fCode = ''AuthorizationQueryParametersError'', fMessage = m, HTTPStatus = 400,
                    fFault = ''client''\<rparr>"

definition PresignedAuthFault :: "http_request \<Rightarrow> Fault option" where
  "PresignedAuthFault r =
     (let q = Query r in
      case first_fault q auth_groups of
        Some f \<Rightarrow> Some f
      | None \<Rightarrow>
          if Get q ''X-Amz-Algorithm'' = ''AWS4-HMAC-SHA256'' \<and>
             length (SplitByte (CHR ''/'') (Get q ''X-Amz-Credential'')) \<noteq> 5
          then Some (query_error ''Error parsing the X-Amz-Credential parameter; the Credential is mal-formed; expecting \"<YOUR-AKID>/YYYYMMDD/REGION/SERVICE/aws4_request\".'')
          else if Get q ''X-Amz-Algorithm'' = ''AWS4-ECDSA-P256-SHA256'' \<and>
                  Get q ''X-Amz-Region-Set'' = []
          then Some (query_error ''Query-string authentication version 4A requires the X-Amz-Region-Set parameter.'')
          else None)"

section \<open>Credentials\<close>

definition parseCredential :: "string \<Rightarrow> string \<times> string" where
  "parseCredential h =
     (if HasPrefix h ''AWS ''
      then (fst (Cut (TrimPrefix h ''AWS '') '':''), [])
      else
        (let rest = (case Index h ''Credential='' of
                       Some i \<Rightarrow> drop (i + length ''Credential='') h
                     | None \<Rightarrow> h);
             parts = SplitByte (CHR ''/'') (TrimSpace (hd (SplitByte (CHR '','') rest)))
         in (hd parts,
             if length parts = 5 \<and> parts ! 4 = ''aws4_request'' then parts ! 2 else [])))"

fun isDigits :: "string \<Rightarrow> bool" where
  "isDigits [] = True"
| "isDigits (c # s) = (if c < CHR ''0'' \<or> c > CHR ''9'' then False else isDigits s)"

definition arn :: "string \<Rightarrow> string" where
  "arn account = ''arn:aws:iam::'' @ account @ '':user/mirror-local''"

section \<open>Parse\<close>

record Identity =
  Account :: string
  Region :: string
  AccessKeyID :: string
  ARN :: string
  Project :: string

definition defaultAccount :: string where "defaultAccount = ''000000000000''"
definition defaultRegion :: string where "defaultRegion = ''us-east-1''"

definition expiredMark :: string where "expiredMark = '':expired''"

text \<open>The steps of \<open>Parse\<close>, in its order: the mirror headers, the credential and the expiry mark,
  what the credential says, the mark again, the project and the role.\<close>

definition headerIdentity :: "http_request \<Rightarrow> string \<Rightarrow> string \<Rightarrow> Identity" where
  "headerIdentity r defAcct defReg =
     (let defaultAcct = (if defAcct = [] then defaultAccount else defAcct);
          defaultReg = (if defReg = [] then defaultRegion else defReg);
          id0 = \<lparr>Account = defaultAcct, Region = defaultReg, AccessKeyID = [],
                 ARN = arn defaultAcct, Project = []\<rparr>;
          v = Get (Header r) ''X-Mirror-Region'';
          id1 = (if v \<noteq> [] then id0\<lparr>Region := v\<rparr> else id0);
          a = Get (Header r) ''X-Mirror-Account-Id''
      in if length a = 12 then id1\<lparr>Account := a, ARN := arn a\<rparr> else id1)"

definition credentialOf :: "http_request \<Rightarrow> string" where
  "credentialOf r =
     (let cred = Get (Header r) ''Authorization'' in
      if cred = []
      then let cred = Get (Query r) ''X-Amz-Credential'' in
           if cred = [] then Get (Query r) ''AWSAccessKeyId'' else cred
      else cred)"

definition markExpired :: "http_request \<Rightarrow> instant \<Rightarrow> Identity \<Rightarrow> Identity" where
  "markExpired r now i =
     (if Get (Header r) ''Authorization'' = []
      then case PresignedExpiry r of
             Some expires \<Rightarrow> if \<not> Before now expires then i\<lparr>ARN := ARN i @ expiredMark\<rparr> else i
           | None \<Rightarrow> i
      else i)"

definition credentialIdentity :: "http_request \<Rightarrow> Identity \<Rightarrow> Identity" where
  "credentialIdentity r i =
     (let (akid, region0) = parseCredential (credentialOf r);
          region = (if region0 = ''localhost'' then defaultRegion else region0)
      in if akid \<noteq> []
         then let a = i\<lparr>AccessKeyID := akid\<rparr>;
                  b = (if Get (Header r) ''X-Mirror-Region'' = [] \<and> region \<noteq> []
                       then a\<lparr>Region := region\<rparr> else a)
              in if Get (Header r) ''X-Mirror-Account-Id'' = []
                 then let c = (if length akid = 12 \<and> isDigits akid
                               then b\<lparr>Account := akid\<rparr> else b)
                      in c\<lparr>ARN := arn (Account c)\<rparr>
                 else b
         else i)"

definition roleIdentity :: "http_request \<Rightarrow> Identity \<Rightarrow> Identity" where
  "roleIdentity r i =
     (let v = Get (Header r) ''X-Mirror-Role'' in
      if v \<noteq> []
      then i\<lparr>ARN := ''arn:aws:sts::'' @ Account i @ '':assumed-role/'' @ v @ ''/mirror''\<rparr>
      else i)"

definition ParseIdentity :: "http_request \<Rightarrow> string \<Rightarrow> string \<Rightarrow> instant \<Rightarrow> Identity" where
  "ParseIdentity r defAcct defReg now =
     (let id3 = markExpired r now (headerIdentity r defAcct defReg);
          expired = HasSuffix (ARN id3) expiredMark;
          id4 = credentialIdentity r id3;
          id5 = (if expired \<and> \<not> HasSuffix (ARN id4) expiredMark
                 then id4\<lparr>ARN := ARN id4 @ expiredMark\<rparr> else id4);
          id6 = (if Project id5 = [] then id5\<lparr>Project := Account id5\<rparr> else id5)
      in roleIdentity r id6)"

definition Expired :: "Identity \<Rightarrow> bool" where
  "Expired i \<longleftrightarrow> HasSuffix (ARN i) '':expired''"

section \<open>Facts\<close>

lemma marked_last: "HasSuffix s expiredMark \<Longrightarrow> last s = CHR ''d''"
proof -
  assume "HasSuffix s expiredMark"
  then have "s = take (length s - length expiredMark) s @ expiredMark"
    by (metis HasSuffix_def append_take_drop_id)
  then have "last s = last expiredMark"
    by (metis expiredMark_def last_appendR list.distinct(1))
  then show ?thesis by (simp add: expiredMark_def)
qed

lemma not_marked:
  "\<not> HasSuffix (arn a) expiredMark"
  "\<not> HasSuffix (''arn:aws:sts::'' @ a @ '':assumed-role/'' @ v @ ''/mirror'') expiredMark"
  using marked_last by (fastforce simp: arn_def)+

abbreviation marked :: "Identity \<Rightarrow> bool" where
  "marked i \<equiv> HasSuffix (ARN i) expiredMark"

lemma header_not_marked: "\<not> marked (headerIdentity r a g)"
  by (simp add: headerIdentity_def Let_def not_marked)

lemma marked_markExpired:
  "\<not> marked i \<Longrightarrow> marked (markExpired r now i) \<longleftrightarrow>
     Get (Header r) ''Authorization'' = [] \<and> (\<exists>t. PresignedExpiry r = Some t \<and> \<not> Before now t)"
  by (simp add: markExpired_def split: option.split)

lemma marked_credential: "marked (credentialIdentity r i) \<Longrightarrow> marked i"
  by (auto simp: credentialIdentity_def Let_def not_marked split: prod.splits if_splits)

lemma marked_role:
  "marked (roleIdentity r i) \<longleftrightarrow> Get (Header r) ''X-Mirror-Role'' = [] \<and> marked i"
  using not_marked(2) by (auto simp: roleIdentity_def Let_def simp del: append_Cons)

text \<open>The expiry of a presigned URL reaches the caller of \<open>Parse\<close> exactly when the request
  has no \<^verbatim>\<open>Authorization\<close> header, its expiry instant is not after the clock, and it has no
  \<^verbatim>\<open>X-Mirror-Role\<close> header: the role overwrites the ARN that carries the mark, so a request that
  names a role is never seen as expired.  The account, region and access key it names, however
  spelled, can neither set nor clear the mark.\<close>

theorem Expired_iff:
  "Expired (ParseIdentity r acct reg now) \<longleftrightarrow>
     Get (Header r) ''X-Mirror-Role'' = [] \<and> Get (Header r) ''Authorization'' = [] \<and>
     (\<exists>t. PresignedExpiry r = Some t \<and> \<not> Before now t)"
proof -
  let ?i = "markExpired r now (headerIdentity r acct reg)"
  have "Expired (ParseIdentity r acct reg now) \<longleftrightarrow> Get (Header r) ''X-Mirror-Role'' = [] \<and> marked ?i"
    using marked_credential [of r ?i]
    by (auto simp: Expired_def ParseIdentity_def Let_def marked_role simp flip: expiredMark_def)
  then show ?thesis by (simp add: marked_markExpired header_not_marked)
qed

end
