(* ===== verification/Chunked.thy ===== *)
theory Chunked
  imports GoVal HttpUri
begin

text \<open>
  The \<^verbatim>\<open>aws-chunked\<close> transfer framing (\<^verbatim>\<open>internal/edge/chunked.go\<close>): the chunk loop, the chunk
  header with its signature extension, and the trailers.

  The reader's content, or its error, is the argument.  Go returns several results at once, and
  after a bad trailer it returns the body together with the error, so the result is a record in
  which \<open>perr\<close> is the error and the failing paths leave the other fields empty, as the code does.
\<close>

section \<open>Numbers and header names\<close>

definition parse_hex :: "string \<Rightarrow> nat option" where
  "parse_hex s =
     (if s \<noteq> [] \<and> list_all (\<lambda>c. hexVal c \<noteq> None) s
      then Some (foldl (\<lambda>n c. 16 * n + the (hexVal c)) 0 s) else None)"

text \<open>\<^verbatim>\<open>strconv.ParseInt(s, 16, 64)\<close>; \<open>None\<close> for either of its errors.\<close>

definition ParseInt16 :: "string \<Rightarrow> int option" where
  "ParseInt16 s =
     (let (neg, body) = (case s of
             c # t \<Rightarrow> if c = CHR ''-'' then (True, t) else if c = CHR ''+'' then (False, t) else (False, s)
           | [] \<Rightarrow> (False, []))
      in case parse_hex body of
           None \<Rightarrow> None
         | Some n \<Rightarrow> (let i = (if neg then - int n else int n) in if in_int64 i then Some i else None))"

definition validHeaderFieldByte :: "char \<Rightarrow> bool" where
  "validHeaderFieldByte c \<longleftrightarrow>
     is_upper c \<or> is_lower c \<or> is_digit c \<or> c \<in> set ''!#$%&*+-.^_`|~'' \<or> c = CHR 0x27"

fun canonLoop :: "bool \<Rightarrow> string \<Rightarrow> string" where
  "canonLoop upper [] = []"
| "canonLoop upper (c # s) =
     (if upper then to_upper_char c else to_lower_char c) # canonLoop (c = CHR ''-'') s"

text \<open>\<^verbatim>\<open>http.CanonicalHeaderKey\<close> and \<^verbatim>\<open>http.Header.Add\<close>.\<close>

definition CanonicalHeaderKey :: "string \<Rightarrow> string" where
  "CanonicalHeaderKey s = (if list_all validHeaderFieldByte s then canonLoop True s else s)"

definition header_Add :: "(string, string list) gmap \<Rightarrow> string \<Rightarrow> string \<Rightarrow> (string, string list) gmap" where
  "header_Add h k v =
     (let key = CanonicalHeaderKey k in
      AList.update key ((case map_of h key of Some vs \<Rightarrow> vs | None \<Rightarrow> []) @ [v]) h)"

section \<open>The parser\<close>

datatype chunk_error =
    ReadError string
  | MissingHeader
  | DuplicateSignature
  | BadSize string
  | TruncatedChunk
  | MissingTerminator
  | MissingFinal
  | MissingTrailerTerminator
  | DataAfterTrailers
  | MalformedTrailer

record chunked =
  pbody :: string
  pchunks :: "string list"
  psignatures :: "string list"
  ptrailers :: "(string, string list) gmap option"
  perr :: "chunk_error option"

definition failed :: "chunk_error \<Rightarrow> chunked" where
  "failed e = \<lparr>pbody = [], pchunks = [], psignatures = [], ptrailers = None, perr = Some e\<rparr>"

definition CRLF :: string where "CRLF = [CHR 0x0D, CHR 0x0A]"

lemma Index_CRLF_bound: "Index s CRLF = Some i \<Longrightarrow> i + 2 \<le> length s"
  using Index_bound [of s CRLF i] by (simp add: CRLF_def)

function trailerLoop ::
  "(string, string list) gmap \<Rightarrow> string \<Rightarrow> (chunk_error, (string, string list) gmap) res" where
  "trailerLoop trailers rest =
     (case Index rest CRLF of
        None \<Rightarrow> Err MissingTrailerTerminator
      | Some nl \<Rightarrow>
          (let line = take nl rest; rest1 = drop (nl + 2) rest in
           if line = []
           then if rest1 \<noteq> [] then Err DataAfterTrailers else Ok trailers
           else (case Cut line '':'' of
                   (name, value, ok) \<Rightarrow>
                     if \<not> ok \<or> TrimSpace name = [] then Err MalformedTrailer
                     else trailerLoop (header_Add trailers (TrimSpace name) (TrimSpace value)) rest1)))"
  by pat_completeness auto
termination
  by (relation "measure (\<lambda>(_, rest). length rest)") (auto dest: Index_CRLF_bound)

definition parseAWSChunkedTrailers ::
  "string \<Rightarrow> (chunk_error, (string, string list) gmap) res" where
  "parseAWSChunkedTrailers rest = (if rest = [] then Ok [] else trailerLoop [] rest)"

fun extensionLoop :: "string \<Rightarrow> string list \<Rightarrow> (chunk_error, string) res" where
  "extensionLoop signature [] = Ok signature"
| "extensionLoop signature (extension # es) =
     (case Cut extension ''='' of
        (name, value, ok) \<Rightarrow>
          if ok \<and> EqualFold (TrimSpace name) ''chunk-signature''
          then if signature \<noteq> [] then Err DuplicateSignature
               else extensionLoop (TrimSpace value) es
          else extensionLoop signature es)"

text \<open>The size text, trimmed, and the signature of a chunk header.\<close>

definition chunkHeader :: "string \<Rightarrow> (chunk_error, string \<times> string) res" where
  "chunkHeader header =
     (case IndexByte header (CHR '';'') of
        Some i \<Rightarrow>
          bindR (extensionLoop [] (SplitByte (CHR '';'') (drop (i + 1) header)))
            (\<lambda>signature. Ok (TrimSpace (take i header), signature))
      | None \<Rightarrow> Ok (TrimSpace header, []))"

function chunkLoop :: "string \<Rightarrow> string list \<Rightarrow> string list \<Rightarrow> string \<Rightarrow> chunked" where
  "chunkLoop out chunks signatures rest =
     (if rest = [] then failed MissingFinal
      else case Index rest CRLF of
        None \<Rightarrow> failed MissingHeader
      | Some nl \<Rightarrow>
          (let rest1 = drop (nl + 2) rest in
           case chunkHeader (take nl rest) of
             Inl e \<Rightarrow> failed e
           | Inr (sizePart, signature) \<Rightarrow>
               if sizePart = [] then chunkLoop out chunks signatures rest1
               else (case ParseInt16 sizePart of
                  None \<Rightarrow> failed (BadSize sizePart)
                | Some n \<Rightarrow>
                    if n < 0 then failed (BadSize sizePart)
                    else if n = 0
                    then (case parseAWSChunkedTrailers rest1 of
                            Inl e \<Rightarrow> \<lparr>pbody = out, pchunks = chunks @ [[]],
                                      psignatures = signatures @ [signature],
                                      ptrailers = None, perr = Some e\<rparr>
                          | Inr ts \<Rightarrow> \<lparr>pbody = out, pchunks = chunks @ [[]],
                                      psignatures = signatures @ [signature],
                                      ptrailers = Some ts, perr = None\<rparr>)
                    else if length rest1 < 2 \<or> n > int (length rest1 - 2) then failed TruncatedChunk
                    else (let chunk = take (nat n) rest1; rest2 = drop (nat n) rest1 in
                          if \<not> HasPrefix rest2 CRLF then failed MissingTerminator
                          else chunkLoop (out @ chunk) (chunks @ [chunk])
                                 (signatures @ [signature]) (drop 2 rest2)))))"
  by pat_completeness auto
termination
  by (relation "measure (\<lambda>(_, _, _, rest). length rest)") (auto dest: Index_CRLF_bound)

declare trailerLoop.simps [simp del] chunkLoop.simps [simp del]

definition parseAWSChunked :: "(string, string) res \<Rightarrow> chunked" where
  "parseAWSChunked r =
     (case r of Inl e \<Rightarrow> failed (ReadError e) | Inr raw \<Rightarrow> chunkLoop [] [] [] raw)"

definition deframeAWSChunked :: "(string, string) res \<Rightarrow> string \<times> chunk_error option" where
  "deframeAWSChunked r = (let p = parseAWSChunked r in (pbody p, perr p))"

section \<open>The framing a client writes\<close>

definition hex_char :: "nat \<Rightarrow> char" where
  "hex_char d = char_of (if d < 10 then 48 + d else 87 + d)"

function show_hex :: "nat \<Rightarrow> string" where
  "show_hex n = (if n < 16 then [hex_char n] else show_hex (n div 16) @ [hex_char (n mod 16)])"
  by pat_completeness auto
termination
  by (relation "measure id") auto

declare show_hex.simps [simp del]

definition frameHeader :: "nat \<Rightarrow> string \<Rightarrow> string" where
  "frameHeader n signature = show_hex n @ '';chunk-signature='' @ signature"

definition frameChunk :: "string \<times> string \<Rightarrow> string" where
  "frameChunk = (\<lambda>(signature, chunk). frameHeader (length chunk) signature @ CRLF @ chunk @ CRLF)"

definition frameTrailer :: "string \<times> string \<Rightarrow> string" where
  "frameTrailer = (\<lambda>(name, value). name @ '':'' @ value @ CRLF)"

definition frame :: "(string \<times> string) list \<Rightarrow> string \<Rightarrow> (string \<times> string) list \<Rightarrow> string" where
  "frame chunks final trailers =
     concat (map frameChunk chunks) @ frameHeader 0 final @ CRLF @
     concat (map frameTrailer trailers) @ CRLF"

definition sig_ok :: "string \<Rightarrow> bool" where
  "sig_ok s \<longleftrightarrow> list_all (\<lambda>c. c \<noteq> CHR '';'' \<and> \<not> is_space c) s"

definition chunk_ok :: "string \<times> string \<Rightarrow> bool" where
  "chunk_ok = (\<lambda>(signature, chunk). sig_ok signature \<and> chunk \<noteq> [] \<and> length chunk < 2 ^ 63)"

definition trailer_ok :: "string \<times> string \<Rightarrow> bool" where
  "trailer_ok = (\<lambda>(name, value).
     name \<noteq> [] \<and> list_all (\<lambda>c. c \<noteq> CHR '':'' \<and> \<not> is_space c) name \<and>
     list_all (\<lambda>c. c \<noteq> CHR 0x0D) value \<and> TrimSpace value = value)"

section \<open>Reading a frame back\<close>

lemma hexVal_hex_char: "d < 16 \<Longrightarrow> hexVal (hex_char d) = Some d"
  by (auto simp: hexVal_def hex_char_def is_digit_def less_eq_char_def)

lemma hex_char_plain:
  "d < 16 \<Longrightarrow> \<not> is_space (hex_char d) \<and> hex_char d \<noteq> CHR '';'' \<and> hex_char d \<noteq> CHR ''-'' \<and>
     hex_char d \<noteq> CHR ''+''"
proof -
  assume d: "d < 16"
  have "code_of (hex_char d) = (if d < 10 then 48 + d else 87 + d)"
    using d by (simp add: hex_char_def)
  then show ?thesis by (auto simp: is_space_def split: if_splits)
qed

lemma show_hex_not_Nil [simp]: "show_hex n \<noteq> []"
  by (subst show_hex.simps) simp

lemma show_hex_chars: "c \<in> set (show_hex n) \<Longrightarrow> \<exists>d<16. c = hex_char d"
proof (induction n rule: show_hex.induct)
  case (1 n)
  then show ?case
    by (subst (asm) (2) show_hex.simps) (auto split: if_splits intro: exI [of _ "n mod 16"])
qed

lemma foldl_show_hex: "foldl (\<lambda>n c. 16 * n + the (hexVal c)) 0 (show_hex n) = n"
proof (induction n rule: show_hex.induct)
  case (1 n)
  then show ?case
    by (subst show_hex.simps) (auto simp: hexVal_hex_char)
qed

lemma parse_hex_show_hex: "parse_hex (show_hex n) = Some n"
proof -
  have "list_all (\<lambda>c. hexVal c \<noteq> None) (show_hex n)"
    unfolding list_all_iff using show_hex_chars hexVal_hex_char by fastforce
  then show ?thesis by (simp add: parse_hex_def foldl_show_hex)
qed

lemma ParseInt16_show_hex: "n < 2 ^ 63 \<Longrightarrow> ParseInt16 (show_hex n) = Some (int n)"
proof -
  assume n: "n < 2 ^ 63"
  obtain c s where cs: "show_hex n = c # s"
    by (metis list.exhaust show_hex_not_Nil)
  then have "c \<noteq> CHR ''-'' \<and> c \<noteq> CHR ''+''"
    using show_hex_chars [of c n] hex_char_plain by auto
  moreover have "int n < 2 ^ 63"
    using n by (metis of_nat_less_iff of_nat_numeral of_nat_power)
  ultimately show ?thesis
    using cs parse_hex_show_hex [of n] by (simp add: ParseInt16_def in_int64_def)
qed

lemma dropWhile_space_id: "(\<And>c. c \<in> set s \<Longrightarrow> \<not> is_space c) \<Longrightarrow> dropWhile is_space s = s"
  by (cases s) auto

lemma TrimSpace_id: "(\<And>c. c \<in> set s \<Longrightarrow> \<not> is_space c) \<Longrightarrow> TrimSpace s = s"
  using dropWhile_space_id [of s] dropWhile_space_id [of "rev s"] by (simp add: TrimSpace_def)

lemma Index_CRLF: "CHR 0x0D \<notin> set h \<Longrightarrow> Index (h @ CRLF @ t) CRLF = Some (length h)"
  by (induction h) (auto simp: CRLF_def)

lemma show_hex_plain: "c \<in> set (show_hex n) \<Longrightarrow> \<not> is_space c \<and> c \<noteq> CHR '';''"
  using show_hex_chars [of c n] hex_char_plain by auto

lemma frameHeader_read:
  "sig_ok signature \<Longrightarrow> chunkHeader (frameHeader n signature) = Inr (show_hex n, signature)"
proof -
  assume s: "sig_ok signature"
  let ?e = "''chunk-signature='' @ signature"
  have no: "CHR '';'' \<notin> set (show_hex n)" using show_hex_plain by blast
  have ix: "IndexByte (frameHeader n signature) (CHR '';'') = Some (length (show_hex n))"
    unfolding frameHeader_def using IndexByte_append [OF no, of ?e] by simp
  have sp: "CHR '';'' \<notin> set signature" "\<And>c. c \<in> set signature \<Longrightarrow> \<not> is_space c"
    using s by (auto simp: sig_ok_def list_all_iff)
  have one: "SplitByte (CHR '';'') ?e = [?e]"
    using sp by (intro SplitByte_no_sep) auto
  have cut: "Cut ?e ''='' = (''chunk-signature'', signature, True)"
    using Cut_byte_append [of "CHR ''=''" "''chunk-signature''" signature] by simp
  have "TrimSpace ''chunk-signature'' = ''chunk-signature''"
    by (rule TrimSpace_id) (auto simp: is_space_def)
  then have ext: "extensionLoop [] [?e] = Inr signature"
    using sp by (simp only: extensionLoop.simps cut) (simp add: TrimSpace_id)
  have dr: "drop (length (show_hex n) + 1) (frameHeader n signature) = ?e"
    by (simp add: frameHeader_def)
  have "TrimSpace (show_hex n) = show_hex n"
    using show_hex_plain by (intro TrimSpace_id) blast
  then show ?thesis
    unfolding chunkHeader_def ix option.case dr one ext by (simp add: frameHeader_def)
qed

lemma frameHeader_no_CR: "sig_ok signature \<Longrightarrow> CHR 0x0D \<notin> set (frameHeader n signature)"
  using show_hex_plain [of "CHR 0x0D" n]
  by (auto simp: frameHeader_def sig_ok_def list_all_iff is_space_def)

lemma trailerLoop_step:
  assumes "CHR 0x0D \<notin> set line" "line \<noteq> []" "Cut line '':'' = (name, value, True)" "TrimSpace name \<noteq> []"
  shows "trailerLoop h (line @ CRLF @ rest) =
           trailerLoop (header_Add h (TrimSpace name) (TrimSpace value)) rest"
  using assms
  by (subst trailerLoop.simps) (simp add: Index_CRLF Let_def CRLF_def [THEN arg_cong [of _ _ length]])

lemma trailerLoop_frame:
  "list_all trailer_ok ts \<Longrightarrow>
     trailerLoop h (concat (map frameTrailer ts) @ CRLF) =
       Inr (foldl (\<lambda>h (name, value). header_Add h name value) h ts)"
proof (induction ts arbitrary: h)
  case Nil
  have "Index CRLF CRLF = Some 0" "length CRLF = 2" by (simp_all add: CRLF_def)
  then show ?case by (simp add: trailerLoop.simps [of h CRLF])
next
  case (Cons t ts)
  obtain n v where t: "t = (n, v)" by force
  have ok: "n \<noteq> []" "CHR '':'' \<notin> set n" "\<And>c. c \<in> set n \<Longrightarrow> \<not> is_space c"
    "CHR 0x0D \<notin> set v" "TrimSpace v = v"
    using Cons.prems t by (auto simp: trailer_ok_def list_all_iff)
  have n: "TrimSpace n = n" using ok(3) by (rule TrimSpace_id)
  have cr: "CHR 0x0D \<notin> set (n @ '':'' @ v)"
    using ok(3) [of "CHR 0x0D"] ok(4) by (auto simp: is_space_def)
  have "trailerLoop h ((n @ '':'' @ v) @ CRLF @ concat (map frameTrailer ts) @ CRLF) =
          trailerLoop (header_Add h (TrimSpace n) (TrimSpace v)) (concat (map frameTrailer ts) @ CRLF)"
    by (rule trailerLoop_step [OF cr]) (use ok n in auto)
  then show ?case
    using Cons t ok n by (simp add: frameTrailer_def)
qed

lemma chunkLoop_final:
  assumes "sig_ok final" "list_all trailer_ok ts"
  shows "chunkLoop out cs ss (frameHeader 0 final @ CRLF @ concat (map frameTrailer ts) @ CRLF) =
    \<lparr>pbody = out, pchunks = cs @ [[]], psignatures = ss @ [final],
     ptrailers = Some (foldl (\<lambda>h (name, value). header_Add h name value) [] ts), perr = None\<rparr>"
proof -
  let ?t = "concat (map frameTrailer ts) @ CRLF"
  have ix: "Index (frameHeader 0 final @ CRLF @ ?t) CRLF = Some (length (frameHeader 0 final))"
    using assms(1) by (intro Index_CRLF frameHeader_no_CR)
  have dr: "drop (length (frameHeader 0 final) + 2) (frameHeader 0 final @ CRLF @ ?t) = ?t"
    by (simp add: CRLF_def)
  have p: "ParseInt16 (show_hex 0) = Some 0" using ParseInt16_show_hex [of 0] by simp
  have t: "parseAWSChunkedTrailers ?t = Inr (foldl (\<lambda>h (name, value). header_Add h name value) [] ts)"
    using trailerLoop_frame [OF assms(2), of "[]"]
    by (simp add: parseAWSChunkedTrailers_def) (simp add: CRLF_def)
  have ne: "CRLF \<noteq> []" by (simp add: CRLF_def)
  show ?thesis
    using assms(1) ne
    by (subst chunkLoop.simps, subst ix) (simp only: option.case Let_def dr, simp add: frameHeader_read p t)
qed

lemma chunkLoop_chunk:
  assumes "chunk_ok (signature, chunk)"
  shows "chunkLoop out cs ss (frameChunk (signature, chunk) @ rest) =
           chunkLoop (out @ chunk) (cs @ [chunk]) (ss @ [signature]) rest"
proof -
  let ?h = "frameHeader (length chunk) signature"
  have ok: "sig_ok signature" "chunk \<noteq> []" "length chunk < 2 ^ 63"
    using assms by (auto simp: chunk_ok_def)
  have fr: "frameChunk (signature, chunk) @ rest = ?h @ CRLF @ chunk @ CRLF @ rest"
    by (simp add: frameChunk_def)
  have ix: "Index (?h @ CRLF @ chunk @ CRLF @ rest) CRLF = Some (length ?h)"
    using ok(1) by (intro Index_CRLF frameHeader_no_CR)
  have dr: "drop (length ?h + 2) (?h @ CRLF @ chunk @ CRLF @ rest) = chunk @ CRLF @ rest"
    by (simp add: CRLF_def)
  have two: "length CRLF = 2" by (simp add: CRLF_def)
  show ?thesis
    unfolding fr using ok two
    by (subst chunkLoop.simps, subst ix)
       (simp only: option.case Let_def dr, simp add: frameHeader_read ParseInt16_show_hex)
qed

text \<open>C39: The parser reads back what a client frames: for any non-empty chunks with their signatures,
  any final signature and any trailers, the parse succeeds and gives the chunks' concatenation, the
  chunks and signatures in order with the empty final chunk, and the trailers collected under their
  canonical names.  The chunk data is arbitrary bytes: line ends and text that looks like a chunk
  header inside it are not read as framing.\<close>

theorem chunked_roundtrip:
  assumes "list_all chunk_ok chunks" "sig_ok final" "list_all trailer_ok trailers"
  shows "parseAWSChunked (Inr (frame chunks final trailers)) =
    \<lparr>pbody = concat (map snd chunks), pchunks = map snd chunks @ [[]],
     psignatures = map fst chunks @ [final],
     ptrailers = Some (foldl (\<lambda>h (name, value). header_Add h name value) [] trailers), perr = None\<rparr>"
proof -
  let ?t = "frameHeader 0 final @ CRLF @ concat (map frameTrailer trailers) @ CRLF"
  have "chunkLoop out cs ss (concat (map frameChunk chunks) @ ?t) =
    \<lparr>pbody = out @ concat (map snd chunks), pchunks = cs @ map snd chunks @ [[]],
     psignatures = ss @ map fst chunks @ [final],
     ptrailers = Some (foldl (\<lambda>h (name, value). header_Add h name value) [] trailers), perr = None\<rparr>"
    for out cs ss
    using assms(1)
  proof (induction chunks arbitrary: out cs ss)
    case Nil
    then show ?case using chunkLoop_final [OF assms(2,3)] by simp
  next
    case (Cons c chunks)
    then show ?case
      using chunkLoop_chunk [of "fst c" "snd c" out cs ss "concat (map frameChunk chunks) @ ?t"] by simp
  qed
  then show ?thesis by (simp add: parseAWSChunked_def frame_def)
qed

theorem chunked_roundtrip_witness:
  "parseAWSChunked (Inr (frame [(''a1'', [CHR 0x0D, CHR 0x0A]), ([], ''xyz'')] ''ff'' [(''x-amz-sum'', ''q'')])) =
    \<lparr>pbody = [CHR 0x0D, CHR 0x0A] @ ''xyz'', pchunks = [[CHR 0x0D, CHR 0x0A], ''xyz'', []],
     psignatures = [''a1'', [], ''ff''],
     ptrailers = Some (header_Add [] ''x-amz-sum'' ''q''), perr = None\<rparr>"
  by (subst chunked_roundtrip)
     (simp_all add: chunk_ok_def sig_ok_def trailer_ok_def is_space_def TrimSpace_def)

text \<open>What the loop keeps: the body is the chunks written so far, there is one signature per chunk, and
  no chunk before the final one is empty.\<close>

definition chunks_inv :: "chunked \<Rightarrow> bool" where
  "chunks_inv p \<longleftrightarrow> pbody p = concat (pchunks p) \<and> length (psignatures p) = length (pchunks p) \<and>
     pchunks p \<noteq> [] \<and> last (pchunks p) = [] \<and> [] \<notin> set (butlast (pchunks p))"

lemma failed_simps [simp]:
  "perr (failed e) = Some e" "pchunks (failed e) = []" "psignatures (failed e) = []" "pbody (failed e) = []"
  by (simp_all add: failed_def)

lemma chunkHeader_size: "chunkHeader h = Inr (z, s) \<Longrightarrow> z \<noteq> [] \<Longrightarrow> h \<noteq> []"
  by (auto simp: chunkHeader_def TrimSpace_def)

text \<open>The three ways an iteration can go on: the loop ends with the final chunk, it skips a line without a
  size, or it takes a chunk; in every other case it fails and returns no chunks.\<close>

lemma chunkLoop_cases:
  assumes "\<forall>e. chunkLoop out cs ss rest \<noteq> failed e"
  obtains (final) sig where
      "chunkLoop out cs ss rest = \<lparr>pbody = out, pchunks = cs @ [[]], psignatures = ss @ [sig],
         ptrailers = ptrailers (chunkLoop out cs ss rest), perr = perr (chunkLoop out cs ss rest)\<rparr>"
      "3 \<le> length rest"
  | (skip) rest1 where "chunkLoop out cs ss rest = chunkLoop out cs ss rest1" "length rest1 < length rest"
  | (chunk) c sig rest1 where "chunkLoop out cs ss rest = chunkLoop (out @ c) (cs @ [c]) (ss @ [sig]) rest1"
      "c \<noteq> []" "length c + length rest1 < length rest"
proof -
  have ne: "rest \<noteq> []" using assms by (auto simp: chunkLoop.simps [of out cs ss rest])
  with assms obtain nl where nl: "Index rest CRLF = Some nl"
    by (cases "Index rest CRLF") (auto simp: chunkLoop.simps [of out cs ss rest])
  note unf = chunkLoop.simps [of out cs ss rest] ne nl Let_def
  have len: "nl + 2 \<le> length rest" using nl by (rule Index_CRLF_bound)
  obtain z sig where h: "chunkHeader (take nl rest) = Inr (z, sig)"
    using assms by (cases "chunkHeader (take nl rest)") (auto simp: unf)
  let ?r = "drop (nl + 2) rest"
  show thesis
  proof (cases "z = []")
    case True
    then show thesis using h len by (intro skip [of ?r]) (auto simp: unf)
  next
    case z: False
    have nl0: "nl \<noteq> 0" using chunkHeader_size [OF h z] by auto
    obtain n where n: "ParseInt16 z = Some n" "0 \<le> n"
      using assms z h by (cases "ParseInt16 z") (auto simp: unf split: if_splits)
    show thesis
    proof (cases "n = 0")
      case True
      then show thesis using h z n len nl0
        by (intro final [of sig]) (auto simp: unf split: sum.split)
    next
      case False
      then have fits: "2 \<le> length ?r" "n \<le> int (length ?r - 2)" "HasPrefix (drop (nat n) ?r) CRLF"
        using assms z h n by (auto simp: unf not_less split: if_splits)
      have "take (nat n) ?r \<noteq> []" using False n fits by auto
      then show thesis using h z n False fits len
        by (intro chunk [of "take (nat n) ?r" sig "drop 2 (drop (nat n) ?r)"]) (auto simp: unf)
    qed
  qed
qed

lemma chunkLoop_inv:
  "out = concat cs \<Longrightarrow> length ss = length cs \<Longrightarrow> [] \<notin> set cs \<Longrightarrow>
   \<forall>e. chunkLoop out cs ss rest \<noteq> failed e \<Longrightarrow>
     chunks_inv (chunkLoop out cs ss rest) \<and>
     length (pbody (chunkLoop out cs ss rest)) + 3 \<le> length out + length rest"
proof (induction "length rest" arbitrary: out cs ss rest rule: less_induct)
  case less
  from less.prems(4) show ?case
  proof (cases rule: chunkLoop_cases)
    case (final sig)
    show ?thesis using final(2) less.prems by (subst (1 2) final(1)) (simp add: chunks_inv_def)
  next
    case (skip rest1)
    show ?thesis using less.hyps [OF skip(2), of out cs ss] less.prems skip by simp
  next
    case (chunk c sig rest1)
    show ?thesis
      using less.hyps [of rest1 "out @ c" "cs @ [c]" "ss @ [sig]"] less.prems chunk by simp
  qed
qed

text \<open>The four results of a parse that succeeds agree with each other: the body is the concatenation of
  the chunks, every chunk has its signature, the last chunk and only the last is empty, and the body is
  at least three bytes shorter than the input, so no size field can make the parser return more than
  it read.\<close>

theorem parse_consistent:
  assumes "perr (parseAWSChunked r) = None"
  shows "chunks_inv (parseAWSChunked r) \<and>
         (\<exists>raw. r = Inr raw \<and> length (pbody (parseAWSChunked r)) + 3 \<le> length raw)"
proof -
  obtain raw where r: "r = Inr raw"
    using assms by (cases r) (auto simp: parseAWSChunked_def)
  have "\<forall>e. chunkLoop [] [] [] raw \<noteq> failed e"
    using assms by (auto simp: parseAWSChunked_def r)
  then show ?thesis using chunkLoop_inv [of "[]" "[]" "[]" raw] by (simp add: parseAWSChunked_def r)
qed

theorem parse_consistent_witness:
  "chunks_inv (parseAWSChunked (Inr (''3'' @ CRLF @ ''abc'' @ CRLF @ ''0'' @ CRLF))) \<and>
   pbody (parseAWSChunked (Inr (''3'' @ CRLF @ ''abc'' @ CRLF @ ''0'' @ CRLF))) = ''abc''"
proof -
  have p: "parseAWSChunked (Inr (''3'' @ CRLF @ ''abc'' @ CRLF @ ''0'' @ CRLF)) =
    \<lparr>pbody = ''abc'', pchunks = [''abc'', []], psignatures = [[], []], ptrailers = Some [], perr = None\<rparr>"
    by code_simp
  show ?thesis
    using parse_consistent [of "Inr (''3'' @ CRLF @ ''abc'' @ CRLF @ ''0'' @ CRLF)"] p by simp
qed

end
