(* ===== verification/TagExpr.thy ===== *)
theory TagExpr
  imports GoVal
begin

text \<open>
  Azure tag conditions (\<^verbatim>\<open>internal/bir/tagexpr.go\<close>): the recursive-descent parser of
  \<^verbatim>\<open>ParseTagExpr\<close>, the evaluators it builds, and the scan \<^verbatim>\<open>TagExprKeys\<close>.

  The closures of the code are the constructors of \<open>texpr\<close>, one for each place that builds one, and
  \<open>evalTag\<close> is the body of each.  The parser's state \<^verbatim>\<open>(s, pos)\<close> is the text from \<^verbatim>\<open>pos\<close> on; an
  error that names a position holds the number of bytes left there, which \<open>ParseTagExpr\<close> turns
  into the position.  The three parsing functions call each other, so they carry fuel and give \<open>None\<close>
  when it runs out; \<open>ParseTagExpr\<close> gives them three units per byte and three more, and
  \<open>ParseTagExpr_total\<close> shows that this is enough for every input.
\<close>

section \<open>Expressions and their evaluation\<close>

datatype tagop = OpNe | OpGe | OpLe | OpEq | OpGt | OpLt

fun tagop_text :: "tagop \<Rightarrow> string" where
  "tagop_text OpNe = ''<>''"
| "tagop_text OpGe = ''>=''"
| "tagop_text OpLe = ''<=''"
| "tagop_text OpEq = ''=''"
| "tagop_text OpGt = ''>''"
| "tagop_text OpLt = ''<''"

definition tagOps :: "tagop list" where
  "tagOps = [OpNe, OpGe, OpLe, OpEq, OpGt, OpLt]"

datatype operand = TagKey string | Container

datatype texpr =
    TOr texpr texpr
  | TAnd texpr texpr
  | TNot texpr
  | TCmp operand tagop string

fun cmpTag :: "tagop \<Rightarrow> string \<Rightarrow> string \<Rightarrow> bool" where
  "cmpTag OpEq h v = (h = v)"
| "cmpTag OpNe h v = (h \<noteq> v)"
| "cmpTag OpGt h v = (h > v)"
| "cmpTag OpGe h v = (h \<ge> v)"
| "cmpTag OpLt h v = (h < v)"
| "cmpTag OpLe h v = (h \<le> v)"

text \<open>\<^verbatim>\<open>fmt.Sprint\<close> of a dynamic value; the layout of floats and composites is the argument \<open>other\<close>.\<close>

fun Sprint :: "(gval \<Rightarrow> string) \<Rightarrow> gval \<Rightarrow> string" where
  "Sprint other (VStr s) = s"
| "Sprint other (VBool b) = (if b then ''true'' else ''false'')"
| "Sprint other (VInt i) = show_int i"
| "Sprint other (VInt64 i) = show_int i"
| "Sprint other v = other v"

fun evalTag :: "(gval \<Rightarrow> string) \<Rightarrow> texpr \<Rightarrow> gobj \<Rightarrow> string \<Rightarrow> bool" where
  "evalTag other (TOr l r) t c = (evalTag other l t c \<or> evalTag other r t c)"
| "evalTag other (TAnd l r) t c = (evalTag other l t c \<and> evalTag other r t c)"
| "evalTag other (TNot e) t c = (\<not> evalTag other e t c)"
| "evalTag other (TCmp Container opr v) t c = cmpTag opr c v"
| "evalTag other (TCmp (TagKey k) opr v) t c =
     (case map_of t k of
        None \<Rightarrow> False
      | Some x \<Rightarrow> if x = VNil then False else cmpTag opr (Sprint other x) v)"

section \<open>Lexing\<close>

datatype tag_error =
    TrailingInput nat
  | MissingParen
  | MissingOperator nat
  | ValueNotQuoted nat
  | UnterminatedLiteral
  | UnterminatedName
  | UnsupportedParameter nat
  | ExpectedName nat

definition blank :: "char \<Rightarrow> bool" where
  "blank c \<longleftrightarrow> c = CHR '' '' \<or> c = CHR 0x09"

definition ws :: "string \<Rightarrow> string" where
  "ws r = dropWhile blank r"

definition isTagIdentByte :: "char \<Rightarrow> bool" where
  "isTagIdentByte c \<longleftrightarrow> is_lower c \<or> is_upper c \<or> is_digit c \<or> c = CHR ''_''"

text \<open>\<open>keyword\<close> gives whether it matched and the text it leaves: it skips blanks even when it fails.\<close>

definition keyword :: "string \<Rightarrow> string \<Rightarrow> bool \<times> string" where
  "keyword kw r =
     (let rest = ws r; after = drop (length kw) rest in
      if length rest < length kw \<or> \<not> EqualFold (take (length kw) rest) kw then (False, rest)
      else if after \<noteq> [] \<and> isTagIdentByte (hd after) then (False, rest)
      else (True, after))"

definition parseOperand :: "string \<Rightarrow> (tag_error, operand \<times> string) res" where
  "parseOperand r =
     (if r \<noteq> [] \<and> hd r = CHR 0x22
      then let key = takeWhile (\<lambda>c. c \<noteq> CHR 0x22) (tl r); after = dropWhile (\<lambda>c. c \<noteq> CHR 0x22) (tl r) in
           if after = [] then Err UnterminatedName else Ok (TagKey key, tl after)
      else if HasPrefix r ''@''
      then let rest = tl r; after = drop (length ''container'') rest in
           if \<not> HasPrefix rest ''container'' \<or> after \<noteq> [] \<and> isTagIdentByte (hd after)
           then Err (UnsupportedParameter (length r)) else Ok (Container, after)
      else let name = takeWhile isTagIdentByte r in
           if name = [] then Err (ExpectedName (length r)) else Ok (TagKey name, dropWhile isTagIdentByte r))"

fun matchOp :: "tagop list \<Rightarrow> string \<Rightarrow> (tagop \<times> string) option" where
  "matchOp [] r = None"
| "matchOp (cand # cands) r =
     (if HasPrefix r (tagop_text cand) then Some (cand, drop (length (tagop_text cand)) r)
      else matchOp cands r)"

fun literalLoop :: "string \<Rightarrow> string \<Rightarrow> (tag_error, string \<times> string) res" where
  "literalLoop lit [] = Err UnterminatedLiteral"
| "literalLoop lit (c # r) =
     (if c = CHR 0x27
      then (case r of
              d # r' \<Rightarrow> if d = CHR 0x27 then literalLoop (lit @ [CHR 0x27]) r' else Ok (lit, r)
            | [] \<Rightarrow> Ok (lit, r))
      else literalLoop (lit @ [c]) r)"

definition parseComparison :: "string \<Rightarrow> (tag_error, texpr \<times> string) res" where
  "parseComparison r =
     bindR (parseOperand (ws r)) (\<lambda>(key, r1).
       let r2 = ws r1 in
       case matchOp tagOps r2 of
         None \<Rightarrow> Err (MissingOperator (length r2))
       | Some (opr, r3) \<Rightarrow>
           (let r4 = ws r3 in
            if r4 = [] \<or> hd r4 \<noteq> CHR 0x27 then Err (ValueNotQuoted (length r4))
            else bindR (literalLoop [] (tl r4)) (\<lambda>(value, r5). Ok (TCmp key opr value, r5))))"

section \<open>The parser\<close>

type_synonym presult = "(tag_error, texpr \<times> string) res option"

definition bindP :: "presult \<Rightarrow> (texpr \<Rightarrow> string \<Rightarrow> presult) \<Rightarrow> presult" where
  "bindP p f =
     (case p of
        None \<Rightarrow> None
      | Some (Inl e) \<Rightarrow> Some (Inl e)
      | Some (Inr (x, r)) \<Rightarrow> f x r)"

fun parseOr :: "nat \<Rightarrow> string \<Rightarrow> presult"
  and orLoop :: "nat \<Rightarrow> texpr \<Rightarrow> string \<Rightarrow> presult"
  and parseAnd :: "nat \<Rightarrow> string \<Rightarrow> presult"
  and andLoop :: "nat \<Rightarrow> texpr \<Rightarrow> string \<Rightarrow> presult"
  and parseUnary :: "nat \<Rightarrow> string \<Rightarrow> presult" where
  "parseOr 0 r = None"
| "parseOr (Suc f) r = bindP (parseAnd f r) (orLoop f)"
| "orLoop 0 left r = None"
| "orLoop (Suc f) left r =
     (case keyword ''or'' r of
        (True, r1) \<Rightarrow> bindP (parseAnd f r1) (\<lambda>right. orLoop f (TOr left right))
      | (False, r1) \<Rightarrow> Some (Inr (left, r1)))"
| "parseAnd 0 r = None"
| "parseAnd (Suc f) r = bindP (parseUnary f r) (andLoop f)"
| "andLoop 0 left r = None"
| "andLoop (Suc f) left r =
     (case keyword ''and'' r of
        (True, r1) \<Rightarrow> bindP (parseUnary f r1) (\<lambda>right. andLoop f (TAnd left right))
      | (False, r1) \<Rightarrow> Some (Inr (left, r1)))"
| "parseUnary 0 r = None"
| "parseUnary (Suc f) r =
     (case keyword ''not'' r of
        (True, r1) \<Rightarrow> bindP (parseUnary f r1) (\<lambda>inner r2. Some (Inr (TNot inner, r2)))
      | (False, r1) \<Rightarrow>
          (let r2 = ws r1 in
           if r2 \<noteq> [] \<and> hd r2 = CHR ''(''
           then bindP (parseOr f (tl r2)) (\<lambda>inner r3.
                  let r4 = ws r3 in
                  if r4 = [] \<or> hd r4 \<noteq> CHR '')'' then Some (Inl MissingParen)
                  else Some (Inr (inner, tl r4)))
           else Some (parseComparison r2)))"

fun errorAt :: "string \<Rightarrow> tag_error \<Rightarrow> tag_error" where
  "errorAt s (TrailingInput n) = TrailingInput (length s - n)"
| "errorAt s (MissingOperator n) = MissingOperator (length s - n)"
| "errorAt s (ValueNotQuoted n) = ValueNotQuoted (length s - n)"
| "errorAt s (UnsupportedParameter n) = UnsupportedParameter (length s - n)"
| "errorAt s (ExpectedName n) = ExpectedName (length s - n)"
| "errorAt s e = e"

definition ParseTagExpr :: "string \<Rightarrow> (tag_error, texpr) res option" where
  "ParseTagExpr s =
     (case parseOr (3 * length s + 3) s of
        None \<Rightarrow> None
      | Some (Inl e) \<Rightarrow> Some (Inl (errorAt s e))
      | Some (Inr (e, r)) \<Rightarrow>
          Some (if ws r \<noteq> [] then Inl (errorAt s (TrailingInput (length (ws r)))) else Inr e))"

section \<open>The scan for keys\<close>

definition addKey :: "string list \<Rightarrow> string \<Rightarrow> string list" where
  "addKey out k = (if k \<in> set out then out else out @ [k])"

definition followedByOp :: "string \<Rightarrow> bool" where
  "followedByOp r \<longleftrightarrow> matchOp tagOps (ws r) \<noteq> None"

definition isKeywordWord :: "string \<Rightarrow> bool" where
  "isKeywordWord w \<longleftrightarrow> EqualFold w ''and'' \<or> EqualFold w ''or'' \<or> EqualFold w ''not''"

text \<open>\<open>prev\<close> is the byte before the position, if there is one; \<open>seen\<close> is membership in the output.  The
  end of a literal is one byte past its closing quote, and past the end of the text when it has none.\<close>

function keyScan :: "char option \<Rightarrow> string list \<Rightarrow> string \<Rightarrow> string list" where
  "keyScan prev out [] = out"
| "keyScan prev out (c # r) =
     (if c = CHR 0x27
      then keyScan (Some (CHR 0x27)) out (drop 1 (dropWhile (\<lambda>d. d \<noteq> CHR 0x27) r))
      else if c = CHR 0x22
      then keyScan (Some (CHR 0x22)) (addKey out (takeWhile (\<lambda>d. d \<noteq> CHR 0x22) r))
             (drop 1 (dropWhile (\<lambda>d. d \<noteq> CHR 0x22) r))
      else if c = CHR ''@''
      then keyScan (Some (last (c # takeWhile isTagIdentByte r))) out (dropWhile isTagIdentByte r)
      else if isTagIdentByte c \<and> (case prev of None \<Rightarrow> True | Some d \<Rightarrow> \<not> isTagIdentByte d)
      then let word = takeWhile isTagIdentByte (c # r); rest = dropWhile isTagIdentByte (c # r) in
           keyScan (Some (last word))
             (if isKeywordWord word then out else if followedByOp rest then addKey out word else out) rest
      else keyScan (Some c) out r)"
  by pat_completeness auto
termination
  by (relation "measure (\<lambda>(_, _, r). length r)")
     (auto simp: length_dropWhile_le less_Suc_eq_le intro: order_trans [OF diff_le_self])

definition TagExprKeys :: "string \<Rightarrow> string list" where
  "TagExprKeys s = keyScan None [] s"

declare keyScan.simps(2) [simp del]

section \<open>The fuel is enough\<close>

lemma bindP_simps [simp]:
  "bindP None f = None" "bindP (Some (Inl e)) f = Some (Inl e)" "bindP (Some (Inr (x, r))) f = f x r"
  by (simp_all add: bindP_def)

lemma bindP_cong: "p = q \<Longrightarrow> (\<And>x r. q = Some (Inr (x, r)) \<Longrightarrow> f x r = g x r) \<Longrightarrow> bindP p f = bindP q g"
  by (auto simp: bindP_def split: option.split sum.split)

text \<open>A result that leaves at most \<open>n\<close> bytes.\<close>

definition leaves :: "nat \<Rightarrow> presult \<Rightarrow> bool" where
  "leaves n p \<longleftrightarrow> (case p of None \<Rightarrow> False | Some (Inl _) \<Rightarrow> True | Some (Inr (_, r)) \<Rightarrow> length r \<le> n)"

lemma leaves_simps [simp]:
  "\<not> leaves n None" "leaves n (Some (Inl e))" "leaves n (Some (Inr (x, r))) \<longleftrightarrow> length r \<le> n"
  by (simp_all add: leaves_def)

lemma leaves_mono: "leaves m p \<Longrightarrow> m \<le> n \<Longrightarrow> leaves n p"
  by (auto simp: leaves_def split: option.splits sum.splits)

lemma leaves_bindP:
  assumes "leaves m p" "m \<le> n" "\<And>x r. length r \<le> m \<Longrightarrow> leaves (length r) (f x r)"
  shows "leaves n (bindP p f)"
proof (cases p)
  case (Some q)
  show ?thesis
  proof (cases q)
    case (Inr xr)
    obtain x r where xr: "xr = (x, r)" by force
    have "length r \<le> m" using assms(1) Some Inr xr by simp
    then have "leaves n (f x r)"
      using assms(2) leaves_mono [OF assms(3) [of r x]] by simp
    then show ?thesis using Some Inr xr by simp
  qed (use Some in simp)
qed (use assms(1) in simp)

lemma ws_length: "length (ws r) \<le> length r"
  by (simp add: ws_def length_dropWhile_le)

lemma keyword_length:
  "keyword kw r = (b, r1) \<Longrightarrow> length r1 + (if b then length kw else 0) \<le> length r"
  using ws_length [of r] by (auto simp: keyword_def Let_def split: if_splits)

lemma matchOp_length: "matchOp ops r = Some (p, r1) \<Longrightarrow> length r1 \<le> length r"
  by (induction ops r rule: matchOp.induct) (auto split: if_splits)

lemma literalLoop_length: "literalLoop lit r = Inr (v, r1) \<Longrightarrow> length r1 \<le> length r"
  by (induction lit r rule: literalLoop.induct) (auto split: if_splits list.splits)

lemma parseOperand_length: "parseOperand r = Inr (k, r1) \<Longrightarrow> length r1 \<le> length r"
  using length_dropWhile_le [of isTagIdentByte r] length_dropWhile_le [of "\<lambda>c. c \<noteq> CHR 0x22" "tl r"]
  by (auto simp: parseOperand_def Let_def split: if_splits)

lemma parseComparison_length: "leaves (length r) (Some (parseComparison r))"
proof (cases "parseComparison r")
  case (Inr p)
  then obtain k r1 where o: "parseOperand (ws r) = Inr (k, r1)"
    by (auto simp: parseComparison_def bindR_Ok_iff)
  obtain opr r3 where m: "matchOp tagOps (ws r1) = Some (opr, r3)"
    using Inr o by (auto simp: parseComparison_def Let_def split: option.splits)
  obtain v r5 where l: "literalLoop [] (tl (ws r3)) = Inr (v, r5)" and p: "p = (TCmp k opr v, r5)"
    using Inr o m by (auto simp: parseComparison_def Let_def bindR_Ok_iff split: if_splits)
  have "length (tl (ws r3)) \<le> length r3" using ws_length [of r3] by simp
  with literalLoop_length [OF l] matchOp_length [OF m] parseOperand_length [OF o]
  show ?thesis using Inr p ws_length [of r] ws_length [of r1] by simp
qed simp

lemma parse_fuel:
  "(\<forall>r. 3 * length r + 3 \<le> f \<longrightarrow> leaves (length r) (parseOr f r)) \<and>
   (\<forall>e r. 3 * length r + 1 \<le> f \<longrightarrow> leaves (length r) (orLoop f e r)) \<and>
   (\<forall>r. 3 * length r + 2 \<le> f \<longrightarrow> leaves (length r) (parseAnd f r)) \<and>
   (\<forall>e r. 3 * length r + 1 \<le> f \<longrightarrow> leaves (length r) (andLoop f e r)) \<and>
   (\<forall>r. 3 * length r + 1 \<le> f \<longrightarrow> leaves (length r) (parseUnary f r))"
proof (induction f)
  case (Suc f)
  have IH: "3 * length r + 3 \<le> f \<Longrightarrow> leaves (length r) (parseOr f r)"
    "3 * length r + 1 \<le> f \<Longrightarrow> leaves (length r) (orLoop f e r)"
    "3 * length r + 2 \<le> f \<Longrightarrow> leaves (length r) (parseAnd f r)"
    "3 * length r + 1 \<le> f \<Longrightarrow> leaves (length r) (andLoop f e r)"
    "3 * length r + 1 \<le> f \<Longrightarrow> leaves (length r) (parseUnary f r)" for r e
    using Suc by auto
  have o: "leaves (length r) (parseOr (Suc f) r)" if l: "3 * length r + 3 \<le> Suc f" for r
    unfolding parseOr.simps by (rule leaves_bindP [of "length r"]; (rule IH)?) (use l in auto)
  have a: "leaves (length r) (parseAnd (Suc f) r)" if l: "3 * length r + 2 \<le> Suc f" for r
    unfolding parseAnd.simps by (rule leaves_bindP [of "length r"]; (rule IH)?) (use l in auto)
  have ol: "leaves (length r) (orLoop (Suc f) e r)" if l: "3 * length r + 1 \<le> Suc f" for r e
  proof -
    obtain b r1 where k: "keyword ''or'' r = (b, r1)" by force
    have "leaves (length r) (bindP (parseAnd f r1) (\<lambda>x. orLoop f (TOr e x)))" if b
      by (rule leaves_bindP [of "length r1"]; (rule IH)?) (use l keyword_length [OF k] \<open>b\<close> in auto)
    then show ?thesis using k keyword_length [OF k] by (cases b) auto
  qed
  have al: "leaves (length r) (andLoop (Suc f) e r)" if l: "3 * length r + 1 \<le> Suc f" for r e
  proof -
    obtain b r1 where k: "keyword ''and'' r = (b, r1)" by force
    have "leaves (length r) (bindP (parseUnary f r1) (\<lambda>x. andLoop f (TAnd e x)))" if b
      by (rule leaves_bindP [of "length r1"]; (rule IH)?) (use l keyword_length [OF k] \<open>b\<close> in auto)
    then show ?thesis using k keyword_length [OF k] by (cases b) auto
  qed
  have u: "leaves (length r) (parseUnary (Suc f) r)" if l: "3 * length r + 1 \<le> Suc f" for r
  proof -
    obtain b r1 where k: "keyword ''not'' r = (b, r1)" by force
    note len = keyword_length [OF k] ws_length [of r1]
    have n: "leaves (length r) (bindP (parseUnary f r1) (\<lambda>x r2. Some (Inr (TNot x, r2))))" if b
      by (rule leaves_bindP [of "length r1"]; (rule IH)?) (use l len \<open>b\<close> in auto)
    let ?t = "tl (ws r1)"
    have p: "leaves (length r) (bindP (parseOr f ?t) (\<lambda>x r3.
        if ws r3 = [] \<or> hd (ws r3) \<noteq> CHR '')'' then Some (Inl MissingParen) else Some (Inr (x, tl (ws r3)))))"
      if "\<not> b" "ws r1 \<noteq> []"
    proof (rule leaves_bindP [of "length ?t"])
      show "leaves (length ?t) (parseOr f ?t)"
        by (rule IH) (use that l len in \<open>cases "ws r1"; simp\<close>)
      show "length ?t \<le> length r" using that len by simp
    qed (use ws_length in \<open>auto intro: order_trans [OF diff_le_self]\<close>)
    have c: "leaves (length r) (Some (parseComparison (ws r1)))" if "\<not> b"
      using leaves_mono [OF parseComparison_length [of "ws r1"], of "length r"] len that by simp
    show ?thesis using k n p c by (cases b) (auto simp: Let_def)
  qed
  show ?case using o a ol al u by blast
qed simp

lemma ParseTagExpr_total: "ParseTagExpr s \<noteq> None"
  using parse_fuel [of "3 * length s + 3"]
  by (auto simp: ParseTagExpr_def leaves_def split: option.splits sum.splits)

section \<open>More fuel changes nothing\<close>

lemma bindP_mono:
  assumes "bindP p f = Some q" "\<And>y. p = Some y \<Longrightarrow> p' = Some y"
    and "\<And>x r. f x r \<noteq> None \<Longrightarrow> f' x r = f x r"
  shows "bindP p' f' = Some q"
  using assms by (auto simp: bindP_def split: option.splits sum.splits)

lemma parse_mono_all:
  "f \<le> g \<Longrightarrow>
   (\<forall>r x. parseOr f r = Some x \<longrightarrow> parseOr g r = Some x) \<and>
   (\<forall>e r x. orLoop f e r = Some x \<longrightarrow> orLoop g e r = Some x) \<and>
   (\<forall>r x. parseAnd f r = Some x \<longrightarrow> parseAnd g r = Some x) \<and>
   (\<forall>e r x. andLoop f e r = Some x \<longrightarrow> andLoop g e r = Some x) \<and>
   (\<forall>r x. parseUnary f r = Some x \<longrightarrow> parseUnary g r = Some x)"
proof (induction f arbitrary: g)
  case (Suc f)
  then obtain h where g: "g = Suc h" and le: "f \<le> h" by (cases g) auto
  have IH: "parseOr f r = Some x \<Longrightarrow> parseOr h r = Some x"
    "parseAnd f r = Some x \<Longrightarrow> parseAnd h r = Some x"
    "parseUnary f r = Some x \<Longrightarrow> parseUnary h r = Some x" for r x
    using Suc.IH [OF le] by blast+
  have same: "orLoop f e r \<noteq> None \<Longrightarrow> orLoop h e r = orLoop f e r"
    "andLoop f e r \<noteq> None \<Longrightarrow> andLoop h e r = andLoop f e r" for e r
    using Suc.IH [OF le] by (metis not_None_eq)+
  have "parseOr (Suc f) r = Some x \<Longrightarrow> parseOr (Suc h) r = Some x"
    and "parseAnd (Suc f) r = Some x \<Longrightarrow> parseAnd (Suc h) r = Some x"
    and "orLoop (Suc f) e r = Some x \<Longrightarrow> orLoop (Suc h) e r = Some x"
    and "andLoop (Suc f) e r = Some x \<Longrightarrow> andLoop (Suc h) e r = Some x"
    and "parseUnary (Suc f) r = Some x \<Longrightarrow> parseUnary (Suc h) r = Some x" for e r x
    by (auto simp: Let_def split: prod.splits bool.splits if_split_asm elim!: bindP_mono
        intro: IH same [simplified])
  then show ?case unfolding g by blast
qed simp

lemma parse_mono:
  assumes "f \<le> g"
  shows "parseOr f r = Some x \<Longrightarrow> parseOr g r = Some x"
    and "orLoop f e r = Some x \<Longrightarrow> orLoop g e r = Some x"
    and "parseAnd f r = Some x \<Longrightarrow> parseAnd g r = Some x"
    and "andLoop f e r = Some x \<Longrightarrow> andLoop g e r = Some x"
    and "parseUnary f r = Some x \<Longrightarrow> parseUnary g r = Some x"
  using parse_mono_all [OF assms] by blast+

section \<open>Writing an expression\<close>

fun doubled :: "string \<Rightarrow> string" where
  "doubled [] = []"
| "doubled (c # s) = (if c = CHR 0x27 then [c, c] else [c]) @ doubled s"

fun operand_text :: "operand \<Rightarrow> string" where
  "operand_text (TagKey k) = [CHR 0x22] @ k @ [CHR 0x22]"
| "operand_text Container = ''@container''"

definition paren :: "bool \<Rightarrow> string \<Rightarrow> string" where
  "paren b s = (if b then ''('' @ s @ '')'' else s)"

text \<open>\<open>show_at n e\<close> writes \<open>e\<close> where an operand of \<open>or\<close> (0), of \<open>and\<close> (1) or of \<open>not\<close> (2) may stand.\<close>

fun show_at :: "nat \<Rightarrow> texpr \<Rightarrow> string" where
  "show_at n (TOr a b) = paren (0 < n) (show_at 0 a @ '' or '' @ show_at 1 b)"
| "show_at n (TAnd a b) = paren (1 < n) (show_at 1 a @ '' and '' @ show_at 2 b)"
| "show_at n (TNot a) = ''not '' @ show_at 2 a"
| "show_at n (TCmp k opr v) =
     operand_text k @ tagop_text opr @ [CHR 0x27] @ doubled v @ [CHR 0x27]"

fun texpr_ok :: "texpr \<Rightarrow> bool" where
  "texpr_ok (TOr a b) \<longleftrightarrow> texpr_ok a \<and> texpr_ok b"
| "texpr_ok (TAnd a b) \<longleftrightarrow> texpr_ok a \<and> texpr_ok b"
| "texpr_ok (TNot a) \<longleftrightarrow> texpr_ok a"
| "texpr_ok (TCmp (TagKey k) opr v) \<longleftrightarrow> CHR 0x22 \<notin> set k"
| "texpr_ok (TCmp Container opr v) \<longleftrightarrow> True"

fun addKeys :: "string list \<Rightarrow> texpr \<Rightarrow> string list" where
  "addKeys out (TOr a b) = addKeys (addKeys out a) b"
| "addKeys out (TAnd a b) = addKeys (addKeys out a) b"
| "addKeys out (TNot a) = addKeys out a"
| "addKeys out (TCmp (TagKey k) opr v) = addKey out k"
| "addKeys out (TCmp Container opr v) = out"

section \<open>Parsing what was written\<close>

definition yields :: "(nat \<Rightarrow> presult) \<Rightarrow> (tag_error, texpr \<times> string) res \<Rightarrow> bool" where
  "yields p y \<longleftrightarrow> (\<exists>f. p f = Some y)"

lemma yields_parseOr:
  assumes "yields (\<lambda>f. parseAnd f r) (Inr (e, r1))" "yields (\<lambda>f. orLoop f e r1) y"
  shows "yields (\<lambda>f. parseOr f r) y"
proof -
  obtain f g where "parseAnd f r = Some (Inr (e, r1))" "orLoop g e r1 = Some y"
    using assms by (auto simp: yields_def)
  then have "parseOr (Suc (max f g)) r = Some y"
    using parse_mono(3) [of f "max f g"] parse_mono(2) [of g "max f g"] by simp
  then show ?thesis unfolding yields_def by blast
qed

lemma yields_parseAnd:
  assumes "yields (\<lambda>f. parseUnary f r) (Inr (e, r1))" "yields (\<lambda>f. andLoop f e r1) y"
  shows "yields (\<lambda>f. parseAnd f r) y"
proof -
  obtain f g where "parseUnary f r = Some (Inr (e, r1))" "andLoop g e r1 = Some y"
    using assms by (auto simp: yields_def)
  then have "parseAnd (Suc (max f g)) r = Some y"
    using parse_mono(5) [of f "max f g"] parse_mono(4) [of g "max f g"] by simp
  then show ?thesis unfolding yields_def by blast
qed

lemma yields_orLoop_stop:
  "keyword ''or'' r = (False, r1) \<Longrightarrow> yields (\<lambda>f. orLoop f e r) (Inr (e, r1))"
  unfolding yields_def by (rule exI [of _ 1]) simp

lemma yields_andLoop_stop:
  "keyword ''and'' r = (False, r1) \<Longrightarrow> yields (\<lambda>f. andLoop f e r) (Inr (e, r1))"
  unfolding yields_def by (rule exI [of _ 1]) simp

lemma yields_orLoop:
  assumes "keyword ''or'' r = (True, r1)" "yields (\<lambda>f. parseAnd f r1) (Inr (x, r2))"
    and "yields (\<lambda>f. orLoop f (TOr e x) r2) y"
  shows "yields (\<lambda>f. orLoop f e r) y"
proof -
  obtain f g where "parseAnd f r1 = Some (Inr (x, r2))" "orLoop g (TOr e x) r2 = Some y"
    using assms by (auto simp: yields_def)
  then have "orLoop (Suc (max f g)) e r = Some y"
    using assms(1) parse_mono(3) [of f "max f g"] parse_mono(2) [of g "max f g"] by simp
  then show ?thesis unfolding yields_def by blast
qed

lemma yields_andLoop:
  assumes "keyword ''and'' r = (True, r1)" "yields (\<lambda>f. parseUnary f r1) (Inr (x, r2))"
    and "yields (\<lambda>f. andLoop f (TAnd e x) r2) y"
  shows "yields (\<lambda>f. andLoop f e r) y"
proof -
  obtain f g where "parseUnary f r1 = Some (Inr (x, r2))" "andLoop g (TAnd e x) r2 = Some y"
    using assms by (auto simp: yields_def)
  then have "andLoop (Suc (max f g)) e r = Some y"
    using assms(1) parse_mono(5) [of f "max f g"] parse_mono(4) [of g "max f g"] by simp
  then show ?thesis unfolding yields_def by blast
qed

lemma yields_not:
  assumes "keyword ''not'' r = (True, r1)" "yields (\<lambda>f. parseUnary f r1) (Inr (x, r2))"
  shows "yields (\<lambda>f. parseUnary f r) (Inr (TNot x, r2))"
proof -
  obtain f where "parseUnary f r1 = Some (Inr (x, r2))"
    using assms by (auto simp: yields_def)
  then have "parseUnary (Suc f) r = Some (Inr (TNot x, r2))" using assms(1) by simp
  then show ?thesis unfolding yields_def by blast
qed

lemma yields_group:
  assumes "keyword ''not'' (CHR ''('' # r) = (False, CHR ''('' # r)"
    and "yields (\<lambda>f. parseOr f r) (Inr (x, CHR '')'' # r2))"
  shows "yields (\<lambda>f. parseUnary f (CHR ''('' # r)) (Inr (x, r2))"
proof -
  obtain f where "parseOr f r = Some (Inr (x, CHR '')'' # r2))"
    using assms by (auto simp: yields_def)
  then have "parseUnary (Suc f) (CHR ''('' # r) = Some (Inr (x, r2))"
    using assms(1) by (simp add: ws_def blank_def)
  then show ?thesis unfolding yields_def by blast
qed

lemma yields_ws: "yields (\<lambda>f. parseUnary f r) y \<Longrightarrow> yields (\<lambda>f. parseUnary f (CHR '' '' # r)) y"
proof -
  have "keyword kw (CHR '' '' # r) = keyword kw r" for kw
    by (simp add: keyword_def ws_def blank_def)
  then have "parseUnary f (CHR '' '' # r) = parseUnary f r" for f
    by (cases f) simp_all
  then show "yields (\<lambda>f. parseUnary f r) y \<Longrightarrow> ?thesis" by simp
qed

text \<open>A text at which no keyword starts: empty, or beginning with a byte that is neither blank nor the
  first letter of a keyword.\<close>

definition no_keyword :: "string \<Rightarrow> bool" where
  "no_keyword r \<longleftrightarrow> (case r of [] \<Rightarrow> True
     | c # _ \<Rightarrow> \<not> blank c \<and> to_lower_char c \<notin> {CHR ''a'', CHR ''o'', CHR ''n''})"

lemma keyword_none:
  "no_keyword r \<Longrightarrow> kw \<in> {''or'', ''and'', ''not''} \<Longrightarrow> keyword kw r = (False, r)"
  by (cases r) (auto simp: no_keyword_def keyword_def ws_def Let_def EqualFold_def ToLower_def
      to_lower_char_def is_upper_def less_eq_char_def)

lemma no_keyword_simps [simp]:
  "no_keyword []" "no_keyword (CHR ''('' # r)" "no_keyword (CHR '')'' # r)"
  "no_keyword (CHR 0x22 # r)" "no_keyword (CHR ''@'' # r)"
  by (simp_all add: no_keyword_def blank_def to_lower_char_def is_upper_def less_eq_char_def)

lemma keyword_written [simp]:
  "keyword ''or'' (CHR '' '' # CHR ''o'' # CHR ''r'' # CHR '' '' # r) = (True, CHR '' '' # r)"
  "keyword ''and'' (CHR '' '' # CHR ''a'' # CHR ''n'' # CHR ''d'' # CHR '' '' # r) = (True, CHR '' '' # r)"
  "keyword ''not'' (CHR ''n'' # CHR ''o'' # CHR ''t'' # CHR '' '' # r) = (True, CHR '' '' # r)"
  "keyword ''and'' (CHR '' '' # CHR ''o'' # CHR ''r'' # CHR '' '' # r) =
     (False, CHR ''o'' # CHR ''r'' # CHR '' '' # r)"
  "keyword ''or'' (CHR ''o'' # CHR ''r'' # CHR '' '' # r) = (True, CHR '' '' # r)"
  by (auto simp: keyword_def ws_def blank_def EqualFold_def ToLower_def isTagIdentByte_def
      is_lower_def is_upper_def is_digit_def to_lower_char_def less_eq_char_def)

lemma matchOp_written:
  "matchOp tagOps (tagop_text opr @ CHR 0x27 # r) = Some (opr, CHR 0x27 # r)"
  by (cases opr) (simp_all add: tagOps_def)

lemma ws_op: "ws (tagop_text opr @ r) = tagop_text opr @ r"
  by (cases opr) (simp_all add: ws_def blank_def)

lemma literal_written:
  "(\<And>c s. r = c # s \<Longrightarrow> c \<noteq> CHR 0x27) \<Longrightarrow> literalLoop lit (doubled v @ CHR 0x27 # r) = Inr (lit @ v, r)"
proof (induction v arbitrary: lit)
  case Nil
  then show ?case by (cases r) auto
qed simp

lemma parseOperand_written:
  "texpr_ok (TCmp k opr v) \<Longrightarrow>
     parseOperand (operand_text k @ tagop_text opr @ r) = Inr (k, tagop_text opr @ r)"
proof (cases k)
  case (TagKey n)
  assume "texpr_ok (TCmp k opr v)"
  then have n: "\<And>c. c \<in> set n \<Longrightarrow> c \<noteq> CHR 0x22" using TagKey by auto
  have "takeWhile (\<lambda>c. c \<noteq> CHR 0x22) (n @ CHR 0x22 # s) = n"
    "dropWhile (\<lambda>c. c \<noteq> CHR 0x22) (n @ CHR 0x22 # s) = CHR 0x22 # s" for s
    using n by (simp_all add: takeWhile_append dropWhile_append)
  then show ?thesis using TagKey by (simp add: parseOperand_def)
next
  case Container
  then show ?thesis
    by (cases opr) (simp_all add: parseOperand_def isTagIdentByte_def is_lower_def is_upper_def
        is_digit_def less_eq_char_def)
qed

definition starts_quote :: "string \<Rightarrow> bool" where
  "starts_quote r \<longleftrightarrow> (\<exists>s. r = CHR 0x27 # s)"

lemma yields_comparison:
  assumes "texpr_ok (TCmp k opr v)" "\<not> starts_quote r"
  shows "yields (\<lambda>f. parseUnary f (show_at n (TCmp k opr v) @ r)) (Inr (TCmp k opr v, r))"
proof -
  let ?s = "show_at n (TCmp k opr v) @ r"
  have no: "no_keyword ?s" and w: "ws ?s = ?s" and h: "hd ?s \<noteq> CHR ''(''"
    by (cases k; simp add: ws_def blank_def)+
  have q: "ws (CHR 0x27 # x) = CHR 0x27 # x" for x by (simp add: ws_def blank_def)
  have l: "literalLoop [] (doubled v @ CHR 0x27 # r) = Inr (v, r)"
    using assms(2) literal_written [of r "[]" v] by (auto simp: starts_quote_def)
  have s: "?s = operand_text k @ tagop_text opr @ CHR 0x27 # doubled v @ CHR 0x27 # r" by simp
  have "parseComparison ?s = Inr (TCmp k opr v, r)"
    unfolding parseComparison_def w unfolding s parseOperand_written [OF assms(1)]
    by (simp add: ws_op matchOp_written q l)
  then have "parseUnary 1 ?s = Some (Inr (TCmp k opr v, r))"
    using keyword_none [OF no, of "''not''"] h
    by (simp only: One_nat_def parseUnary.simps) (simp del: show_at.simps add: w)
  then show ?thesis unfolding yields_def by blast
qed

text \<open>What each level of the parser does with an expression written for it, whatever follows.\<close>

definition readU :: "texpr \<Rightarrow> bool" where
  "readU e \<longleftrightarrow> (\<forall>r. \<not> starts_quote r \<longrightarrow> yields (\<lambda>f. parseUnary f (show_at 2 e @ r)) (Inr (e, r)))"

definition readA :: "texpr \<Rightarrow> bool" where
  "readA e \<longleftrightarrow> (\<forall>r y. \<not> starts_quote r \<longrightarrow> yields (\<lambda>f. andLoop f e r) y \<longrightarrow>
     yields (\<lambda>f. parseAnd f (show_at 1 e @ r)) y)"

definition readO :: "texpr \<Rightarrow> bool" where
  "readO e \<longleftrightarrow> (\<forall>r r1 y. \<not> starts_quote r \<longrightarrow> keyword ''and'' r = (False, r1) \<longrightarrow>
     yields (\<lambda>f. orLoop f e r1) y \<longrightarrow> yields (\<lambda>f. parseOr f (show_at 0 e @ r)) y)"

lemma not_starts_quote [simp]: "c \<noteq> CHR 0x27 \<Longrightarrow> \<not> starts_quote (c # r)" "\<not> starts_quote []"
  by (simp_all add: starts_quote_def)

lemma readA_of_readU: "readU e \<Longrightarrow> show_at 1 e = show_at 2 e \<Longrightarrow> readA e"
  unfolding readA_def readU_def by (auto intro: yields_parseAnd)

lemma readO_of_readA: "readA e \<Longrightarrow> show_at 0 e = show_at 1 e \<Longrightarrow> readO e"
  unfolding readO_def readA_def by (metis yields_andLoop_stop yields_parseOr)

lemma readU_of_readO:
  assumes "readO e" "show_at 2 e = ''('' @ show_at 0 e @ '')''"
  shows "readU e"
  unfolding readU_def
proof (intro allI impI)
  fix r :: string
  have "keyword ''and'' (CHR '')'' # r) = (False, CHR '')'' # r)"
    "keyword ''or'' (CHR '')'' # r) = (False, CHR '')'' # r)"
    by (rule keyword_none; simp)+
  then have "yields (\<lambda>f. parseOr f (show_at 0 e @ CHR '')'' # r)) (Inr (e, CHR '')'' # r))"
    using assms(1) yields_orLoop_stop [of "CHR '')'' # r" _ e] unfolding readO_def by simp
  moreover have "keyword ''not'' (CHR ''('' # x) = (False, CHR ''('' # x)" for x
    by (rule keyword_none) simp_all
  ultimately show "yields (\<lambda>f. parseUnary f (show_at 2 e @ r)) (Inr (e, r))"
    using yields_group assms(2) by simp
qed

lemma keyword_blank: "keyword kw (CHR '' '' # r) = keyword kw r"
  by (simp add: keyword_def ws_def blank_def)

lemma yields_parseAnd_ws: "yields (\<lambda>f. parseAnd f r) y \<Longrightarrow> yields (\<lambda>f. parseAnd f (CHR '' '' # r)) y"
proof -
  have u: "parseUnary f (CHR '' '' # r) = parseUnary f r" for f
    by (cases f) (simp_all add: keyword_blank)
  have "parseAnd f (CHR '' '' # r) = parseAnd f r" for f
    by (cases f) (simp_all add: u)
  then show "yields (\<lambda>f. parseAnd f r) y \<Longrightarrow> ?thesis" by simp
qed

lemma readO_or: "readO a \<Longrightarrow> readA b \<Longrightarrow> readO (TOr a b)"
  unfolding readO_def [of "TOr a b"]
proof (intro allI impI)
  fix r r1 y
  assume a: "readO a" and b: "readA b" and r: "\<not> starts_quote r"
    and k: "keyword ''and'' r = (False, r1)" and y: "yields (\<lambda>f. orLoop f (TOr a b) r1) y"
  let ?r = "'' or '' @ show_at 1 b @ r"
  have "yields (\<lambda>f. parseAnd f (show_at 1 b @ r)) (Inr (b, r1))"
    using b r yields_andLoop_stop [OF k] unfolding readA_def by blast
  then have "yields (\<lambda>f. orLoop f a (''or '' @ show_at 1 b @ r)) y"
    using y by (intro yields_orLoop [of _ "CHR '' '' # show_at 1 b @ r"] yields_parseAnd_ws) simp_all
  then have "yields (\<lambda>f. parseOr f (show_at 0 a @ ?r)) y"
    using a unfolding readO_def by (elim allE [of _ ?r] allE [of _ "''or '' @ show_at 1 b @ r"]) simp
  then show "yields (\<lambda>f. parseOr f (show_at 0 (TOr a b) @ r)) y" by (simp add: paren_def)
qed

lemma readA_and: "readA a \<Longrightarrow> readU b \<Longrightarrow> readA (TAnd a b)"
  unfolding readA_def [of "TAnd a b"]
proof (intro allI impI)
  fix r y
  assume a: "readA a" and b: "readU b" and r: "\<not> starts_quote r"
    and y: "yields (\<lambda>f. andLoop f (TAnd a b) r) y"
  let ?r = "'' and '' @ show_at 2 b @ r"
  have "yields (\<lambda>f. parseUnary f (show_at 2 b @ r)) (Inr (b, r))"
    using b r unfolding readU_def by blast
  then have "yields (\<lambda>f. andLoop f a ?r) y"
    using y by (intro yields_andLoop [of _ "CHR '' '' # show_at 2 b @ r"] yields_ws) simp_all
  then have "yields (\<lambda>f. parseAnd f (show_at 1 a @ ?r)) y"
    using a unfolding readA_def by (elim allE [of _ ?r]) simp
  then show "yields (\<lambda>f. parseAnd f (show_at 1 (TAnd a b) @ r)) y" by (simp add: paren_def)
qed

lemma readU_not: "readU a \<Longrightarrow> readU (TNot a)"
  unfolding readU_def
  by (auto intro!: yields_not [of _ "CHR '' '' # show_at 2 a @ r" for r] yields_ws)

lemma read_all: "texpr_ok e \<Longrightarrow> readU e \<and> readA e \<and> readO e"
proof (induction e)
  case (TOr a b)
  then have o: "readO (TOr a b)" by (simp add: readO_or)
  moreover have u: "readU (TOr a b)" using readU_of_readO [OF o] by (simp add: paren_def)
  ultimately show ?case using readA_of_readU [OF u] by (simp add: paren_def)
next
  case (TAnd a b)
  then have a: "readA (TAnd a b)" by (simp add: readA_and)
  moreover have o: "readO (TAnd a b)" using readO_of_readA [OF a] by (simp add: paren_def)
  ultimately show ?case using readU_of_readO [OF o] by (simp add: paren_def)
next
  case (TNot a)
  then have u: "readU (TNot a)" by (simp add: readU_not)
  then have a: "readA (TNot a)" by (rule readA_of_readU) simp
  then show ?case using u readO_of_readA [OF a] by simp
next
  case (TCmp k opr v)
  then have u: "readU (TCmp k opr v)"
    unfolding readU_def using yields_comparison by blast
  then have a: "readA (TCmp k opr v)" by (rule readA_of_readU) simp
  then show ?case using u readO_of_readA [OF a] by simp
qed

lemma ParseTagExpr_written: "texpr_ok e \<Longrightarrow> ParseTagExpr (show_at 0 e) = Some (Inr e)"
proof -
  assume ok: "texpr_ok e"
  let ?s = "show_at 0 e"
  have "yields (\<lambda>f. orLoop f e []) (Inr (e, []))"
    by (rule yields_orLoop_stop) (simp add: keyword_none)
  then have "yields (\<lambda>f. parseOr f (?s @ [])) (Inr (e, []))"
    using read_all [OF ok] keyword_none [of "[]" "''and''", simplified] not_starts_quote(2)
    unfolding readO_def by blast
  then obtain f where f: "parseOr f ?s = Some (Inr (e, []))" by (auto simp: yields_def)
  obtain x where x: "parseOr (3 * length ?s + 3) ?s = Some x"
    using parse_fuel [of "3 * length ?s + 3"] by (metis leaves_simps(1) not_None_eq order_refl)
  have "x = Inr (e, [])"
    using parse_mono(1) [OF max.cobounded1 f, of "3 * length ?s + 3"]
      parse_mono(1) [OF max.cobounded2 x, of f] by simp
  then show ?thesis using x by (simp add: ParseTagExpr_def ws_def)
qed

section \<open>The keys of what was written\<close>

definition boundary :: "char option \<Rightarrow> bool" where
  "boundary prev \<longleftrightarrow> (case prev of None \<Rightarrow> True | Some d \<Rightarrow> \<not> isTagIdentByte d)"

lemma not_ident [simp]:
  "\<not> isTagIdentByte (CHR '' '')" "\<not> isTagIdentByte (CHR ''('')" "\<not> isTagIdentByte (CHR '')'')"
  "\<not> isTagIdentByte (CHR ''<'')" "\<not> isTagIdentByte (CHR ''>'')" "\<not> isTagIdentByte (CHR ''='')"
  "\<not> isTagIdentByte (CHR 0x27)" "\<not> isTagIdentByte (CHR 0x22)" "\<not> isTagIdentByte (CHR ''@'')"
  by (simp_all add: isTagIdentByte_def is_lower_def is_upper_def is_digit_def less_eq_char_def)

lemma ident_letters [simp]:
  "isTagIdentByte (CHR ''o'')" "isTagIdentByte (CHR ''r'')" "isTagIdentByte (CHR ''a'')"
  "isTagIdentByte (CHR ''n'')" "isTagIdentByte (CHR ''d'')" "isTagIdentByte (CHR ''t'')"
  "isTagIdentByte (CHR ''c'')" "isTagIdentByte (CHR ''i'')" "isTagIdentByte (CHR ''e'')"
  by (simp_all add: isTagIdentByte_def is_lower_def is_upper_def is_digit_def less_eq_char_def)

text \<open>A byte that is no quote, no \<^verbatim>\<open>@\<close> and no identifier byte is passed over.\<close>

lemma keyScan_skip:
  "\<not> isTagIdentByte c \<Longrightarrow> c \<notin> {CHR 0x27, CHR 0x22, CHR ''@''} \<Longrightarrow>
     keyScan prev out (c # r) = keyScan (Some c) out r"
  by (simp add: keyScan.simps(2))

lemma keyScan_op:
  "\<exists>c. \<not> isTagIdentByte c \<and> keyScan prev out (tagop_text opr @ r) = keyScan (Some c) out r"
proof -
  have "tagop_text opr = [c] \<or> tagop_text opr = [b, c] \<Longrightarrow> {b, c} \<subseteq> set ''<>='' \<Longrightarrow> ?thesis" for b c
    by (rule exI [of _ c]) (auto simp: keyScan_skip)
  then show ?thesis by (cases opr) (simp_all, blast+)
qed

lemma keyScan_word:
  assumes "boundary prev" "w \<noteq> []" "list_all isTagIdentByte w" "isKeywordWord w"
  shows "keyScan prev out (w @ CHR '' '' # r) = keyScan (Some (CHR '' '')) out r"
proof -
  obtain c v where w: "w = c # v" using assms(2) by (cases w) auto
  have t: "takeWhile isTagIdentByte (w @ CHR '' '' # r) = w"
    "dropWhile isTagIdentByte (w @ CHR '' '' # r) = CHR '' '' # r"
    using assms(3) by (simp_all add: takeWhile_append dropWhile_append list_all_iff)
  have c: "isTagIdentByte c" "c \<noteq> CHR 0x27" "c \<noteq> CHR 0x22" "c \<noteq> CHR ''@''"
    using assms(3) w by auto
  have "keyScan prev out (w @ CHR '' '' # r) = keyScan (Some (last w)) out (CHR '' '' # r)"
    using assms(1,4) c t unfolding w by (simp add: keyScan.simps(2) boundary_def Let_def)
  then show ?thesis by (simp add: keyScan_skip)
qed

lemma keyScan_literal:
  "keyScan prev out (CHR 0x27 # doubled v @ CHR 0x27 # r) = keyScan (Some (CHR 0x27)) out r"
proof (induction "length v" arbitrary: v prev rule: less_induct)
  case less
  define a where "a = takeWhile (\<lambda>c. c \<noteq> CHR 0x27) v"
  have a: "CHR 0x27 \<notin> set a" unfolding a_def by (metis (full_types) set_takeWhileD)
  have plain: "CHR 0x27 \<notin> set x \<Longrightarrow> doubled (x @ y) = x @ doubled y" for x y
    by (induction x) auto
  have dw: "dropWhile (\<lambda>d. d \<noteq> CHR 0x27) (a @ CHR 0x27 # x) = CHR 0x27 # x" for x
    using a by (induction a) auto
  show ?case
  proof (cases "dropWhile (\<lambda>c. c \<noteq> CHR 0x27) v")
    case Nil
    then have "v = a" unfolding a_def by (metis append_Nil2 takeWhile_dropWhile_id)
    then show ?thesis using plain [OF a, of "[]"] dw by (simp add: keyScan.simps(2))
  next
    case (Cons d b)
    then have "d = CHR 0x27" by (metis (full_types) dropWhile_eq_Cons_conv)
    then have v: "v = a @ CHR 0x27 # b" using Cons a_def by (metis takeWhile_dropWhile_id)
    then have "length b < length v" by simp
    then show ?thesis using less.hyps [of b "Some (CHR 0x27)"] dw
      by (simp add: v plain [OF a] keyScan.simps(2))
  qed
qed

lemma keyScan_operand:
  "texpr_ok (TCmp k opr v) \<Longrightarrow>
     \<exists>p. keyScan prev out (operand_text k @ tagop_text opr @ r) =
         keyScan p (addKeys out (TCmp k opr v)) (tagop_text opr @ r)"
proof (cases k)
  case (TagKey n)
  assume "texpr_ok (TCmp k opr v)"
  then have n: "\<And>c. c \<in> set n \<Longrightarrow> c \<noteq> CHR 0x22" using TagKey by auto
  have "takeWhile (\<lambda>c. c \<noteq> CHR 0x22) (n @ CHR 0x22 # s) = n"
    "dropWhile (\<lambda>c. c \<noteq> CHR 0x22) (n @ CHR 0x22 # s) = CHR 0x22 # s" for s
    using n by (simp_all add: takeWhile_append dropWhile_append)
  then show ?thesis using TagKey by (auto simp: keyScan.simps(2))
next
  case Container
  have "takeWhile isTagIdentByte (''container'' @ tagop_text opr @ r) = ''container''"
    "dropWhile isTagIdentByte (''container'' @ tagop_text opr @ r) = tagop_text opr @ r"
    by (cases opr; simp)+
  then show ?thesis using Container by (auto simp: keyScan.simps(2))
qed

text \<open>The scan passes over a written expression, whatever follows, and adds its keys.\<close>

definition scans :: "string \<Rightarrow> texpr \<Rightarrow> bool" where
  "scans s e \<longleftrightarrow> (\<forall>prev out r. boundary prev \<longrightarrow>
     (\<exists>p. boundary p \<and> keyScan prev out (s @ r) = keyScan p (addKeys out e) r))"

lemma scans_join:
  assumes "scans s a" "scans t b" "list_all isTagIdentByte w" "w \<noteq> []" "isKeywordWord w"
  shows "\<forall>prev out r. boundary prev \<longrightarrow>
    (\<exists>p. boundary p \<and> keyScan prev out (s @ CHR '' '' # w @ CHR '' '' # t @ r) =
         keyScan p (addKeys (addKeys out a) b) r)"
proof (intro allI impI)
  fix prev out r
  assume "boundary prev"
  then obtain p where "boundary p" and
      p: "keyScan prev out (s @ CHR '' '' # w @ CHR '' '' # t @ r) =
          keyScan p (addKeys out a) (CHR '' '' # w @ CHR '' '' # t @ r)"
    using assms(1) unfolding scans_def by meson
  have b: "boundary (Some (CHR '' ''))" by (simp add: boundary_def)
  obtain q where "boundary q" and
      q: "keyScan (Some (CHR '' '')) (addKeys out a) (t @ r) = keyScan q (addKeys (addKeys out a) b) r"
    using assms(2) b unfolding scans_def by meson
  then show "\<exists>p. boundary p \<and> keyScan prev out (s @ CHR '' '' # w @ CHR '' '' # t @ r) =
         keyScan p (addKeys (addKeys out a) b) r"
    using p keyScan_word [OF b assms(4,3,5)] by (auto simp: keyScan_skip)
qed

lemma scans_paren: "scans s e \<Longrightarrow> scans (paren b s) e"
proof (cases b)
  case True
  assume s: "scans s e"
  show ?thesis
    unfolding scans_def
  proof (intro allI impI)
    fix prev out r
    have "boundary (Some (CHR ''(''))" by (simp add: boundary_def)
    then obtain p where
      "keyScan (Some (CHR ''('')) out (s @ CHR '')'' # r) = keyScan p (addKeys out e) (CHR '')'' # r)"
      using s unfolding scans_def by meson
    then show "\<exists>p. boundary p \<and> keyScan prev out (paren b s @ r) = keyScan p (addKeys out e) r"
      using True by (intro exI [of _ "Some (CHR '')'')"]) (simp add: paren_def keyScan_skip boundary_def)
  qed
qed (simp add: paren_def)

lemma scans_written: "texpr_ok e \<Longrightarrow> scans (show_at n e) e"
proof (induction e arbitrary: n)
  case (TOr a b)
  have "scans (show_at 0 a @ '' or '' @ show_at 1 b) (TOr a b)"
    using scans_join [of "show_at 0 a" a "show_at 1 b" b "''or''"] TOr
    by (simp add: scans_def isKeywordWord_def)
  then show ?case by (simp add: scans_paren)
next
  case (TAnd a b)
  have "scans (show_at 1 a @ '' and '' @ show_at 2 b) (TAnd a b)"
    using scans_join [of "show_at 1 a" a "show_at 2 b" b "''and''"] TAnd
    by (simp add: scans_def isKeywordWord_def)
  then show ?case by (simp add: scans_paren)
next
  case (TNot a)
  show ?case
    unfolding scans_def
  proof (intro allI impI)
    fix prev out r
    assume b: "boundary prev"
    have w: "keyScan prev out (''not'' @ CHR '' '' # x) = keyScan (Some (CHR '' '')) out x" for x
      by (rule keyScan_word [OF b]) (simp_all add: isKeywordWord_def)
    have "boundary (Some (CHR '' ''))" by (simp add: boundary_def)
    then show "\<exists>p. boundary p \<and> keyScan prev out (show_at n (TNot a) @ r) = keyScan p (addKeys out (TNot a)) r"
      using TNot w unfolding scans_def by simp
  qed
next
  case (TCmp k opr v)
  show ?case
    unfolding scans_def
  proof (intro allI impI)
    fix prev out r
    have "boundary (Some (CHR 0x27))" by (simp add: boundary_def)
    then show "\<exists>p. boundary p \<and> keyScan prev out (show_at n (TCmp k opr v) @ r) =
        keyScan p (addKeys out (TCmp k opr v)) r"
      using keyScan_operand [OF TCmp, of prev out "CHR 0x27 # doubled v @ CHR 0x27 # r"]
        keyScan_op keyScan_literal by (simp del: addKeys.simps) metis
  qed
qed

text \<open>C40: Every condition over keys without a double quote, written with quoted keys, doubled quotes in the
  literals, \<open>or\<close> weaker than \<open>and\<close> weaker than \<open>not\<close> and parentheses only where the precedences need
  them, parses to exactly that condition; and the scan that picks the tags to answer, which does not
  parse, finds exactly its keys, each once and in the order of their first use: no word of a literal,
  no keyword and not \<^verbatim>\<open>@container\<close>.\<close>

theorem tagexpr_roundtrip:
  "texpr_ok e \<Longrightarrow> ParseTagExpr (show_at 0 e) = Some (Inr e) \<and> TagExprKeys (show_at 0 e) = addKeys [] e"
proof
  assume ok: "texpr_ok e"
  then show "ParseTagExpr (show_at 0 e) = Some (Inr e)" by (rule ParseTagExpr_written)
  have "boundary None" by (simp add: boundary_def)
  then obtain p where "keyScan None [] (show_at 0 e @ []) = keyScan p (addKeys [] e) []"
    using scans_written [OF ok, of 0] unfolding scans_def by meson
  then show "TagExprKeys (show_at 0 e) = addKeys [] e" by (simp add: TagExprKeys_def)
qed

theorem tagexpr_roundtrip_witness:
  "ParseTagExpr ([CHR 0x22] @ ''a'' @ [CHR 0x22] @ ''>='' @ [CHR 0x27] @ ''it'' @ [CHR 0x27, CHR 0x27] @
      ''s'' @ [CHR 0x27] @ '' and not @container='' @ [CHR 0x27] @ ''c'' @ [CHR 0x27]) =
    Some (Inr (TAnd (TCmp (TagKey ''a'') OpGe (''it'' @ [CHR 0x27] @ ''s'')) (TNot (TCmp Container OpEq ''c''))))"
  using tagexpr_roundtrip
    [of "TAnd (TCmp (TagKey ''a'') OpGe (''it'' @ [CHR 0x27] @ ''s'')) (TNot (TCmp Container OpEq ''c''))"]
  by (simp add: paren_def)

end
