(* ===== verification/Schedule.thy ===== *)
theory Schedule
  imports GoVal Calendar
begin

text \<open>
  Schedule expressions (\<^verbatim>\<open>internal/services/aws/scheduleexpr/expression.go\<close>): \<^verbatim>\<open>at\<close>, \<^verbatim>\<open>rate\<close> and
  \<^verbatim>\<open>cron\<close>, their parser and the search for the next invocation.

  An instant is a number of nanoseconds since the zero \<^verbatim>\<open>time.Time\<close> (1 January of the year 1, UTC), so
  \<^verbatim>\<open>IsZero\<close> is equality with 0; a \<^verbatim>\<open>time.Duration\<close> is a number of nanoseconds.  A location is what
  \<^verbatim>\<open>Location.lookup\<close> answers for an instant in seconds: the offset from UTC and the interval in which it
  holds; \<open>goDate\<close> and the accessors follow \<^verbatim>\<open>time.Date\<close> and the methods of \<^verbatim>\<open>time.Time\<close>.  The time zone
  database is the argument \<open>zones\<close>.

  The search may run for ever: \<open>nextLoop\<close> gives \<open>None\<close> then.  In UTC it does not, and finds the least
  matching minute (\<open>next_least\<close>); in a location that puts its clocks forward it can
  (\<open>next_hangs\<close>).
\<close>

section \<open>Time\<close>

record location =
  lookup :: "int \<Rightarrow> int \<times> int \<times> int"

definition UTC :: location where
  "UTC = \<lparr>lookup = (\<lambda>_. (0, - (2 ^ 63), 2 ^ 63 - 1))\<rparr>"

definition offsetAt :: "location \<Rightarrow> int \<Rightarrow> int" where
  "offsetAt loc s = fst (lookup loc s)"

definition localSecs :: "location \<Rightarrow> int \<Rightarrow> int" where
  "localSecs loc s = s + offsetAt loc s"

definition Year :: "location \<Rightarrow> int \<Rightarrow> int" where
  "Year loc s = fst (civil (localSecs loc s div 86400))"

definition Month :: "location \<Rightarrow> int \<Rightarrow> nat" where
  "Month loc s = fst (snd (civil (localSecs loc s div 86400)))"

definition Day :: "location \<Rightarrow> int \<Rightarrow> nat" where
  "Day loc s = snd (snd (civil (localSecs loc s div 86400)))"

definition Hour :: "location \<Rightarrow> int \<Rightarrow> int" where
  "Hour loc s = localSecs loc s mod 86400 div 3600"

definition Minute :: "location \<Rightarrow> int \<Rightarrow> int" where
  "Minute loc s = localSecs loc s mod 3600 div 60"

definition Weekday :: "location \<Rightarrow> int \<Rightarrow> int" where
  "Weekday loc s = weekdayOf (localSecs loc s div 86400)"

text \<open>\<^verbatim>\<open>time.Date\<close>: month, day, hour and minute may leave their ranges; the offset is looked up as if the
  local time were UTC and looked up again when the result lies outside that offset's interval.\<close>

definition goDate :: "location \<Rightarrow> int \<Rightarrow> nat \<Rightarrow> int \<Rightarrow> int \<Rightarrow> int \<Rightarrow> int \<Rightarrow> int" where
  "goDate loc y m d h mi sec =
     (let y' = y + int ((m - 1) div 12); m' = (m - 1) mod 12 + 1;
          unix = daysBefore y' m' d * 86400 + h * 3600 + mi * 60 + sec;
          (offset, start, until) = lookup loc unix
      in if offset \<noteq> 0
         then let utc = unix - offset in
              if utc < start \<or> until \<le> utc then unix - offsetAt loc utc else utc
         else unix)"

definition second :: int where "second = 10 ^ 9"
definition minute :: int where "minute = 60 * second"

section \<open>Expressions\<close>

type_synonym intField = "int list"

record dayField =
  dany :: bool
  dlast :: bool
  dvalues :: intField
  nearestWeekday :: int
  lastWeekday :: int
  weekday :: int
  ordinal :: int

definition zeroDay :: dayField where
  "zeroDay = \<lparr>dany = False, dlast = False, dvalues = [], nearestWeekday = 0, lastWeekday = 0,
              weekday = 0, ordinal = 0\<rparr>"

record cronExpression =
  clocation :: location
  cminute :: intField
  chour :: intField
  cmonth :: intField
  cyr :: intField
  dayOfMonth :: dayField
  dayOfWeek :: dayField

record Expression =
  eat :: int
  eevery :: int
  ecron :: "cronExpression option"

definition zeroExpression :: Expression where
  "zeroExpression = \<lparr>eat = 0, eevery = 0, ecron = None\<rparr>"

definition months :: "(string, int) gmap" where
  "months = [(''JAN'', 1), (''FEB'', 2), (''MAR'', 3), (''APR'', 4), (''MAY'', 5), (''JUN'', 6),
             (''JUL'', 7), (''AUG'', 8), (''SEP'', 9), (''OCT'', 10), (''NOV'', 11), (''DEC'', 12)]"

definition weekdays :: "(string, int) gmap" where
  "weekdays = [(''SUN'', 1), (''MON'', 2), (''TUE'', 3), (''WED'', 4), (''THU'', 5), (''FRI'', 6), (''SAT'', 7)]"

datatype sched_err =
    InvalidTimezone string
  | InvalidAt
  | InvalidRate
  | InvalidRateValue
  | InvalidRateUnit
  | RateTooLarge
  | InvalidSchedule
  | CronFields
  | InvalidStep string
  | InvalidValue string
  | OutOfRange string
  | EmptyField
  | InvalidW string
  | InvalidHash string
  | InvalidL string

section \<open>Parsing cron fields\<close>

definition fieldNumber :: "string \<Rightarrow> (string, int) gmap \<Rightarrow> (sched_err, int) res" where
  "fieldNumber raw names =
     (case map_of names raw of
        Some n \<Rightarrow> Ok n
      | None \<Rightarrow> (case ParseInt10 raw of Some n \<Rightarrow> Ok n | None \<Rightarrow> Err (InvalidValue raw)))"

text \<open>\<^verbatim>\<open>for n := lo; n <= hi; n += step\<close>, whose sum wraps: \<open>None\<close> if it does not end.\<close>

partial_function (option) stepLoop :: "int \<Rightarrow> int \<Rightarrow> int \<Rightarrow> intField \<Rightarrow> intField option" where
  "stepLoop n hi step out =
     (if n \<le> hi then stepLoop (wrap64 (n + step)) hi step (out @ [n]) else Some out)"

definition itemStep :: "string \<Rightarrow> (sched_err, string \<times> int \<times> bool) res" where
  "itemStep item =
     (case Cut item ''/'' of
        (base, stepRaw, hasStep) \<Rightarrow>
          if hasStep
          then (case ParseInt10 stepRaw of
                  None \<Rightarrow> Err (InvalidStep item)
                | Some step \<Rightarrow> if step < 1 then Err (InvalidStep item) else Ok (base, step, True))
          else Ok (base, 1, False))"

definition itemRange ::
  "string \<Rightarrow> bool \<Rightarrow> int \<Rightarrow> int \<Rightarrow> (string, int) gmap \<Rightarrow> (sched_err, int \<times> int) res" where
  "itemRange base hasStep mn mx names =
     (if base = ''*'' then Ok (mn, mx)
      else (case Cut base ''-'' of
              (left, right, ranged) \<Rightarrow>
                bindR (fieldNumber left names) (\<lambda>lo.
                  if ranged then bindR (fieldNumber right names) (\<lambda>hi. Ok (lo, hi))
                  else Ok (lo, if hasStep then mx else lo))))"

definition parseItem ::
  "int \<Rightarrow> int \<Rightarrow> (string, int) gmap \<Rightarrow> string \<Rightarrow> intField \<Rightarrow> (sched_err, intField) res option" where
  "parseItem mn mx names item out =
     (case bindR (itemStep item) (\<lambda>(base, step, hasStep).
             bindR (itemRange base hasStep mn mx names) (\<lambda>(lo, hi). Ok (step, lo, hi))) of
        Inl e \<Rightarrow> Some (Inl e)
      | Inr (step, lo, hi) \<Rightarrow>
          if lo < mn \<or> mx < hi \<or> (hi < lo \<and> (mn \<noteq> 0 \<or> mx \<noteq> 23)) then Some (Inl (OutOfRange item))
          else if hi < lo
          then Option.bind (stepLoop lo mx step out) (\<lambda>out1.
                 map_option Inr (stepLoop mn hi step out1))
          else map_option Inr (stepLoop lo hi step out))"

fun parseItems ::
  "int \<Rightarrow> int \<Rightarrow> (string, int) gmap \<Rightarrow> string list \<Rightarrow> intField \<Rightarrow> (sched_err, intField) res option" where
  "parseItems mn mx names [] out = Some (if out = [] then Inl EmptyField else Inr out)"
| "parseItems mn mx names (item # items) out =
     (case parseItem mn mx names item out of
        None \<Rightarrow> None
      | Some (Inl e) \<Rightarrow> Some (Inl e)
      | Some (Inr out1) \<Rightarrow> parseItems mn mx names items out1)"

definition parseIntField ::
  "string \<Rightarrow> int \<Rightarrow> int \<Rightarrow> (string, int) gmap \<Rightarrow> (sched_err, intField) res option" where
  "parseIntField raw mn mx names = parseItems mn mx names (SplitByte (CHR '','') raw) []"

definition parseValues :: "string \<Rightarrow> bool \<Rightarrow> (sched_err, dayField) res option" where
  "parseValues raw wd =
     map_option (\<lambda>r. bindR r (\<lambda>vs. Ok (zeroDay\<lparr>dvalues := vs\<rparr>)))
       (parseIntField raw 1 (if wd then 7 else 31) (if wd then weekdays else []))"

definition parseDayField :: "string \<Rightarrow> bool \<Rightarrow> (sched_err, dayField) res option" where
  "parseDayField raw wd =
     (if raw = ''?'' then Some (Ok (zeroDay\<lparr>dany := True\<rparr>))
      else if \<not> wd \<and> raw = ''L'' then Some (Ok (zeroDay\<lparr>dlast := True\<rparr>))
      else if \<not> wd \<and> HasSuffix raw ''W''
      then Some (case fieldNumber (TrimSuffix raw ''W'') [] of
                   Inl _ \<Rightarrow> Err (InvalidW raw)
                 | Inr n \<Rightarrow> if n < 1 \<or> 31 < n then Err (InvalidW raw)
                           else Ok (zeroDay\<lparr>nearestWeekday := n\<rparr>))
      else if wd \<and> snd (snd (Cut raw ''#''))
      then Some (case (fieldNumber (fst (Cut raw ''#'')) weekdays, ParseInt10 (fst (snd (Cut raw ''#'')))) of
                   (Inr w, Some n) \<Rightarrow>
                     if w < 1 \<or> 7 < w \<or> n < 1 \<or> 5 < n then Err (InvalidHash raw)
                     else Ok (zeroDay\<lparr>weekday := w, ordinal := n\<rparr>)
                 | _ \<Rightarrow> Err (InvalidHash raw))
      else if wd \<and> HasSuffix raw ''L''
      then Some (case fieldNumber (TrimSuffix raw ''L'') weekdays of
                   Inl _ \<Rightarrow> Err (InvalidL raw)
                 | Inr w \<Rightarrow> if w < 1 \<or> 7 < w then Err (InvalidL raw)
                           else Ok (zeroDay\<lparr>lastWeekday := w\<rparr>))
      else parseValues raw wd)"

text \<open>Sequencing of results that may not come.\<close>

definition bindO :: "('e, 'a) res option \<Rightarrow> ('a \<Rightarrow> ('e, 'b) res option) \<Rightarrow> ('e, 'b) res option" where
  "bindO p f = (case p of None \<Rightarrow> None | Some (Inl e) \<Rightarrow> Some (Inl e) | Some (Inr x) \<Rightarrow> f x)"

definition parseCron :: "string \<Rightarrow> location \<Rightarrow> (sched_err, cronExpression) res option" where
  "parseCron raw loc =
     (case Fields (ToUpper raw) of
        [p0, p1, p2, p3, p4, p5] \<Rightarrow>
          if (p2 = ''?'') = (p4 = ''?'') then Some (Err CronFields)
          else bindO (parseIntField p0 0 59 []) (\<lambda>mi.
               bindO (parseIntField p1 0 23 []) (\<lambda>h.
               bindO (parseDayField p2 False) (\<lambda>dom.
               bindO (parseIntField p3 1 12 months) (\<lambda>mo.
               bindO (parseDayField p4 True) (\<lambda>dow.
               bindO (parseIntField p5 1970 2199 []) (\<lambda>y.
                 Some (Ok \<lparr>clocation = loc, cminute = mi, chour = h, cmonth = mo, cyr = y,
                           dayOfMonth = dom, dayOfWeek = dow\<rparr>)))))))
      | _ \<Rightarrow> Some (Err CronFields))"

section \<open>The next invocation of a cron expression\<close>

definition nearestDay :: "location \<Rightarrow> int \<Rightarrow> int \<Rightarrow> int \<Rightarrow> int" where
  "nearestDay loc t day ld =
     (let w = Weekday loc (goDate loc (Year loc t) (Month loc t) day 0 0 0) in
      if w = 6 then (if day = 1 then day + 2 else day - 1)
      else if w = 0 then (if day = ld then day - 2 else day + 1)
      else day)"

definition matchesField :: "location \<Rightarrow> dayField \<Rightarrow> int \<Rightarrow> bool \<Rightarrow> bool" where
  "matchesField loc d t wd =
     (let ld = int (Day loc (goDate loc (Year loc t) (Month loc t + 1) 0 0 0 0));
          day = int (Day loc t);
          awsWeekday = Weekday loc t + 1
      in if dany d then True
         else if dlast d then day = ld
         else if lastWeekday d \<noteq> 0 then awsWeekday = lastWeekday d \<and> ld < day + 7
         else if weekday d \<noteq> 0 then awsWeekday = weekday d \<and> (day - 1) div 7 + 1 = ordinal d
         else if nearestWeekday d \<noteq> 0
         then (if ld < nearestWeekday d then False else day = nearestDay loc t (nearestWeekday d) ld)
         else (if wd then awsWeekday else day) \<in> set (dvalues d))"

definition matchesDay :: "cronExpression \<Rightarrow> int \<Rightarrow> bool" where
  "matchesDay c t \<longleftrightarrow>
     matchesField (clocation c) (dayOfMonth c) t False \<and> matchesField (clocation c) (dayOfWeek c) t True"

partial_function (option) nextLoop :: "cronExpression \<Rightarrow> int \<Rightarrow> int option" where
  "nextLoop c t =
     (if Year (clocation c) t \<le> 2199
      then if Year (clocation c) t \<notin> set (cyr c)
           then nextLoop c (goDate (clocation c) (Year (clocation c) t + 1) 1 1 0 0 0)
           else if int (Month (clocation c) t) \<notin> set (cmonth c)
           then nextLoop c (goDate (clocation c) (Year (clocation c) t) (Month (clocation c) t + 1) 1 0 0 0)
           else if \<not> matchesDay c t
           then nextLoop c (goDate (clocation c) (Year (clocation c) t) (Month (clocation c) t)
                              (int (Day (clocation c) t) + 1) 0 0 0)
           else if Hour (clocation c) t \<notin> set (chour c)
           then nextLoop c (goDate (clocation c) (Year (clocation c) t) (Month (clocation c) t)
                              (int (Day (clocation c) t)) (Hour (clocation c) t + 1) 0 0)
           else if Minute (clocation c) t \<notin> set (cminute c)
           then nextLoop c (t + 60)
           else Some (t * second)
      else Some 0)"

text \<open>The argument and the result are instants in nanoseconds; the loop works on whole minutes.\<close>

definition cron_next :: "cronExpression \<Rightarrow> int \<Rightarrow> int option" where
  "cron_next c after = nextLoop c (after div minute * 60 + 60)"

section \<open>Parsing and using an expression\<close>

text \<open>\<^verbatim>\<open>time.ParseInLocation\<close> for the layout \<^verbatim>\<open>2006-01-02T15:04:05\<close>: the hour may have one digit, and a
  fraction may follow the seconds.\<close>

fun lit :: "char \<Rightarrow> string \<Rightarrow> string option" where
  "lit c [] = None"
| "lit c (d # s) = (if c = d then Some s else None)"

definition num :: "nat \<Rightarrow> string \<Rightarrow> (nat \<times> string) option" where
  "num w s = (if w \<le> length s then map_option (\<lambda>n. (n, drop w s)) (parse_digits (take w s)) else None)"

definition hourNum :: "string \<Rightarrow> (nat \<times> string) option" where
  "hourNum s = (case num 2 s of Some r \<Rightarrow> Some r | None \<Rightarrow> num 1 s)"

definition fraction :: "string \<Rightarrow> nat option" where
  "fraction s =
     (case s of
        [] \<Rightarrow> Some 0
      | c # r \<Rightarrow>
          if (c = CHR ''.'' \<or> c = CHR '','') \<and> r \<noteq> [] \<and> list_all is_digit r
          then map_option (\<lambda>n. n * 10 ^ (9 - min 9 (length r))) (parse_digits (take 9 r))
          else None)"

definition parseAt :: "string \<Rightarrow> location \<Rightarrow> int option" where
  "parseAt s loc =
     Option.bind (num 4 s) (\<lambda>(y, s). Option.bind (lit (CHR ''-'') s) (\<lambda>s.
     Option.bind (num 2 s) (\<lambda>(mo, s). Option.bind (lit (CHR ''-'') s) (\<lambda>s.
     Option.bind (num 2 s) (\<lambda>(d, s). Option.bind (lit (CHR ''T'') s) (\<lambda>s.
     Option.bind (hourNum s) (\<lambda>(h, s). Option.bind (lit (CHR '':'') s) (\<lambda>s.
     Option.bind (num 2 s) (\<lambda>(mi, s). Option.bind (lit (CHR '':'') s) (\<lambda>s.
     Option.bind (num 2 s) (\<lambda>(sec, s). Option.bind (fraction s) (\<lambda>ns.
       if 1 \<le> mo \<and> mo \<le> 12 \<and> 1 \<le> d \<and> d \<le> lastDay (int y) mo \<and> h < 24 \<and> mi < 60 \<and> sec < 60
       then Some (goDate loc (int y) mo (int d) (int h) (int mi) (int sec) * second + int ns)
       else None))))))))))))"

definition bodyOf :: "string \<Rightarrow> string \<Rightarrow> string option" where
  "bodyOf raw pre =
     (if HasPrefix raw (pre @ ''('') \<and> HasSuffix raw '')''
      then Some (TrimSuffix (TrimPrefix raw (pre @ ''('')) '')'') else None)"

definition units :: "(string, int) gmap" where
  "units = [(''minute'', minute), (''minutes'', minute), (''hour'', 60 * minute), (''hours'', 60 * minute),
            (''day'', 24 * 60 * minute), (''days'', 24 * 60 * minute)]"

definition parseRate :: "string \<Rightarrow> (sched_err, Expression) res" where
  "parseRate value =
     (case Fields value of
        [p0, p1] \<Rightarrow>
          (case ParseInt10 p0 of
             None \<Rightarrow> Err InvalidRateValue
           | Some n \<Rightarrow>
               if n < 1 then Err InvalidRateValue
               else (case map_of units p1 of
                  None \<Rightarrow> Err InvalidRateUnit
                | Some u \<Rightarrow>
                    if (n = 1) \<noteq> (\<not> HasSuffix p1 ''s'') then Err InvalidRateUnit
                    else if (2 ^ 63 - 1) div u < n then Err RateTooLarge
                    else Ok (zeroExpression\<lparr>eevery := n * u\<rparr>)))
      | _ \<Rightarrow> Err InvalidRate)"

definition ParseSchedule ::
  "(string \<Rightarrow> location option) \<Rightarrow> string \<Rightarrow> string \<Rightarrow> (sched_err, Expression) res option" where
  "ParseSchedule zones raw timezone =
     (case (if timezone = [] then Some UTC else zones timezone) of
        None \<Rightarrow> Some (Err (InvalidTimezone timezone))
      | Some loc \<Rightarrow>
          (case bodyOf raw ''at'' of
             Some value \<Rightarrow>
               Some (case parseAt value loc of
                       None \<Rightarrow> Err InvalidAt
                     | Some a \<Rightarrow> Ok (zeroExpression\<lparr>eat := a\<rparr>))
           | None \<Rightarrow>
               (case bodyOf raw ''rate'' of
                  Some value \<Rightarrow> Some (parseRate value)
                | None \<Rightarrow>
                    (case bodyOf raw ''cron'' of
                       Some value \<Rightarrow>
                         bindO (parseCron value loc) (\<lambda>c. Some (Ok (zeroExpression\<lparr>ecron := Some c\<rparr>)))
                     | None \<Rightarrow> Some (Err InvalidSchedule)))))"

definition First :: "Expression \<Rightarrow> int \<Rightarrow> int \<Rightarrow> int option" where
  "First e now start =
     (if eat e \<noteq> 0 then Some (if eat e < now then 0 else eat e)
      else let now = (if now < start then start else now) in
        if 0 < eevery e then Some now
        else case ecron e of
          Some c \<Rightarrow>
            Option.bind (cron_next c (now - minute)) (\<lambda>n.
              if n \<noteq> 0 \<and> n < now then cron_next c n else Some n)
        | None \<Rightarrow> Some 0)"

definition After :: "Expression \<Rightarrow> int \<Rightarrow> int option" where
  "After e t =
     (if 0 < eevery e then Some (t + eevery e)
      else case ecron e of Some c \<Rightarrow> cron_next c t | None \<Rightarrow> Some 0)"

definition OneTime :: "Expression \<Rightarrow> bool" where
  "OneTime e \<longleftrightarrow> eat e \<noteq> 0"

section \<open>The search in UTC\<close>

lemma UTC_lookup [simp]: "lookup UTC s = (0, - (2 ^ 63), 2 ^ 63 - 1)"
  by (simp add: UTC_def)

lemma localSecs_UTC [simp]: "localSecs UTC s = s"
  by (simp add: localSecs_def offsetAt_def)

lemma goDate_UTC:
  "goDate UTC y m d h mi sec =
     daysBefore (y + int ((m - 1) div 12)) ((m - 1) mod 12 + 1) d * 86400 + h * 3600 + mi * 60 + sec"
  by (simp add: goDate_def Let_def)

lemma civil_split: "civil (s div 86400) = (Year UTC s, Month UTC s, Day UTC s)"
  by (simp add: Year_def Month_def Day_def)

lemmas civil_facts = daysBefore_civil [OF civil_split]

lemma same_day:
  assumes "u div 86400 = t div 86400"
  shows "Year UTC u = Year UTC t" "Month UTC u = Month UTC t" "Day UTC u = Day UTC t"
    "Weekday UTC u = Weekday UTC t"
  using assms by (simp_all add: Year_def Month_def Day_def Weekday_def)

lemma div_less_iff: "0 < k \<Longrightarrow> x div k < a \<longleftrightarrow> x < a * k" for k x a :: int
proof
  assume k: "0 < k" and "x div k < a"
  then have "k * (x div k + 1) \<le> k * a" by (intro mult_left_mono) simp_all
  then show "x < a * k" using div_range [OF k, of x] by (simp add: algebra_simps)
next
  assume k: "0 < k" and "x < a * k"
  then have "k * (x div k) < k * a"
    using div_range [OF k, of x] unfolding mult.commute [of k a] by linarith
  then show "x div k < a" unfolding mult_less_cancel_left_pos [OF k] .
qed

lemma between_div:
  fixes k :: int
  assumes "0 < k" "t \<le> u" "u < (t div k + n) * k"
  shows "t div k \<le> u div k" "u div k < t div k + n"
  using assms zdiv_mono1 [of t u k] div_less_iff [of k u "t div k + n"] by simp_all

text \<open>The starts of the year, month, day and hour after \<open>t\<close>, as the loop computes them, and what does not
  change before them.\<close>

lemma next_year:
  assumes "t' = goDate UTC (Year UTC t + 1) 1 1 0 0 0"
  shows "t < t'" "60 dvd t'" "t \<le> u \<Longrightarrow> u < t' \<Longrightarrow> Year UTC u = Year UTC t"
proof -
  have y: "yearOf (s div 86400) = Year UTC s" for s using civil_facts(2) .
  have t': "t' = yearStart (Year UTC t + 1) * 86400"
    using assms by (simp add: goDate_UTC daysBefore_def monthStart_def)
  show "60 dvd t'" unfolding t' by simp
  have "t div 86400 < yearStart (Year UTC t + 1)"
    using yearOf_bounds(2) [of "t div 86400"] y by simp
  then show "t < t'" unfolding t' by (simp add: div_less_iff)
  assume u: "t \<le> u" "u < t'"
  have "u div 86400 < yearStart (Year UTC t + 1)"
    using u(2) unfolding t' by (simp add: div_less_iff)
  moreover have "yearStart (Year UTC t) \<le> u div 86400"
    using yearOf_bounds(1) [of "t div 86400"] y zdiv_mono1 [OF u(1), of 86400] by simp
  ultimately show "Year UTC u = Year UTC t" using year_unique y by metis
qed

lemma next_month_start:
  assumes "1 \<le> m" "m \<le> 12"
  shows "daysBefore (y + int ((m + 1 - 1) div 12)) ((m + 1 - 1) mod 12 + 1) 1 = monthStart y m + int (lastDay y m)"
proof (cases "m = 12")
  case True
  have "monthStart y 12 + int (lastDay y 12) = yearStart (y + 1)"
    using sum_monthLengths [of y] by (simp add: monthStart_def lastDay_def monthLengths_def)
  then show ?thesis using True by (simp add: daysBefore_def monthStart_def)
next
  case False
  then have m: "m < 12" "(m + 1 - 1) div 12 = 0" "(m + 1 - 1) mod 12 + 1 = m + 1" using assms by auto
  have "take m (monthLengths y) = take (m - 1) (monthLengths y) @ [monthLengths y ! (m - 1)]"
    using assms(1) m(1) take_Suc_conv_app_nth [of "m - 1" "monthLengths y"] by simp
  then show ?thesis unfolding m by (simp add: daysBefore_def monthStart_def lastDay_def)
qed

lemma next_month:
  assumes "t' = goDate UTC (Year UTC t) (Month UTC t + 1) 1 0 0 0"
  shows "t < t'" "60 dvd t'"
    "t \<le> u \<Longrightarrow> u < t' \<Longrightarrow> Year UTC u = Year UTC t \<and> Month UTC u = Month UTC t"
proof -
  let ?y = "Year UTC t" and ?m = "Month UTC t" and ?d = "Day UTC t"
  note f = civil_facts [of t]
  have t': "t' = (monthStart ?y ?m + int (lastDay ?y ?m)) * 86400"
    using assms next_month_start [OF f(3,4), of ?y] by (simp add: goDate_UTC)
  show "60 dvd t'" unfolding t' by simp
  have day: "t div 86400 = monthStart ?y ?m + int ?d - 1" using f(1) by (simp add: daysBefore_def)
  then have "t div 86400 < monthStart ?y ?m + int (lastDay ?y ?m)" using f(6) by simp
  then show "t < t'" unfolding t' by (simp add: div_less_iff)
  assume u: "t \<le> u" "u < t'"
  have hi: "u div 86400 < monthStart ?y ?m + int (lastDay ?y ?m)"
    using u(2) unfolding t' by (simp add: div_less_iff)
  define k where "k = nat (u div 86400 - monthStart ?y ?m + 1)"
  have "t div 86400 \<le> u div 86400" using u(1) by (rule zdiv_mono1) simp
  then have k: "1 \<le> k" "k \<le> lastDay ?y ?m" "u div 86400 = daysBefore ?y ?m (int k)"
    using hi day f(5) by (auto simp: k_def daysBefore_def)
  have "civil (u div 86400) = (?y, ?m, k)" using civil_daysBefore [OF f(3,4) k(1,2)] k(3) by simp
  then show "Year UTC u = ?y \<and> Month UTC u = ?m" by (simp add: Year_def Month_def)
qed

lemma date_of_day: "1 \<le> m \<Longrightarrow> m \<le> 12 \<Longrightarrow> (m - 1) div 12 = 0 \<and> (m - 1) mod 12 + 1 = m" for m :: nat
  by auto

lemma next_day:
  assumes "t' = goDate UTC (Year UTC t) (Month UTC t) (int (Day UTC t) + 1) 0 0 0"
  shows "t < t'" "60 dvd t'" "t \<le> u \<Longrightarrow> u < t' \<Longrightarrow> u div 86400 = t div 86400"
proof -
  note f = civil_facts [of t]
  have t': "t' = (t div 86400 + 1) * 86400"
    using assms f(1) date_of_day [OF f(3,4)] by (simp add: goDate_UTC daysBefore_def)
  show "60 dvd t'" unfolding t' by simp
  show "t < t'" unfolding t' using div_less_iff [of 86400 t "t div 86400 + 1"] by simp
  show "t \<le> u \<Longrightarrow> u < t' \<Longrightarrow> u div 86400 = t div 86400"
    using between_div [of 86400 t u 1] unfolding t' by simp
qed

lemma next_hour:
  assumes "t' = goDate UTC (Year UTC t) (Month UTC t) (int (Day UTC t)) (Hour UTC t + 1) 0 0"
  shows "t < t'" "60 dvd t'" "t \<le> u \<Longrightarrow> u < t' \<Longrightarrow> u div 3600 = t div 3600"
proof -
  note f = civil_facts [of t]
  have "t' = t div 86400 * 86400 + (t mod 86400 div 3600 + 1) * 3600"
    using assms f(1) date_of_day [OF f(3,4)] by (simp add: goDate_UTC Hour_def)
  also have "\<dots> = (t div 3600 + 1) * 3600"
  proof -
    have "t div 3600 = t div 86400 * 24 + t mod 86400 div 3600"
      using div_mult_self1 [of 3600 "t mod 86400" "t div 86400 * 24"]
        arg_cong [OF div_mult_mod_eq [of t 86400], of "\<lambda>x. x div 3600"] by (simp add: algebra_simps)
    then show ?thesis by simp
  qed
  finally have t': "t' = (t div 3600 + 1) * 3600" .
  show "60 dvd t'" unfolding t' by simp
  show "t < t'" unfolding t' using div_less_iff [of 3600 t "t div 3600 + 1"] by simp
  show "t \<le> u \<Longrightarrow> u < t' \<Longrightarrow> u div 3600 = t div 3600"
    using between_div [of 3600 t u 1] unfolding t' by simp
qed

text \<open>What the loop looks for, at the instants it can stop at.\<close>

definition fires :: "cronExpression \<Rightarrow> int \<Rightarrow> bool" where
  "fires c t \<longleftrightarrow>
     (let loc = clocation c in
      Year loc t \<le> 2199 \<and> Year loc t \<in> set (cyr c) \<and> int (Month loc t) \<in> set (cmonth c) \<and>
      matchesDay c t \<and> Hour loc t \<in> set (chour c) \<and> Minute loc t \<in> set (cminute c))"

definition whole :: "int \<Rightarrow> bool" where
  "whole u \<longleftrightarrow> 60 dvd u"

definition quiet :: "cronExpression \<Rightarrow> int \<Rightarrow> int \<Rightarrow> bool" where
  "quiet c t t' \<longleftrightarrow> (\<forall>u. whole u \<longrightarrow> t \<le> u \<longrightarrow> u < t' \<longrightarrow> \<not> fires c u)"

lemma matchesDay_day:
  assumes "clocation c = UTC" "u div 86400 = t div 86400"
  shows "matchesDay c u = matchesDay c t"
  unfolding matchesDay_def matchesField_def nearestDay_def assms(1) same_day [OF assms(2)] ..

lemma hour_of: "Hour UTC t = t div 3600 mod 24"
proof -
  have "t mod (3600 * 24) = t mod 3600 + 3600 * (t div 3600 mod 24)"
    using zmod_zmult2_eq [of 24 t 3600] by simp
  moreover have "(t mod 3600 + 3600 * q) div 3600 = q" for q :: int
    by (simp add: div_pos_pos_trivial)
  ultimately show ?thesis by (simp add: Hour_def)
qed

lemma quietI: "(\<And>u. whole u \<Longrightarrow> t \<le> u \<Longrightarrow> u < t' \<Longrightarrow> \<not> fires c u) \<Longrightarrow> quiet c t t'"
  by (simp add: quiet_def)

text \<open>One iteration that does not stop moves to a later whole minute and skips no firing minute.\<close>

lemma nextLoop_step:
  assumes "clocation c = UTC" "whole t" "Year UTC t \<le> 2199" "\<not> fires c t"
  obtains t' where "nextLoop c t = nextLoop c t'" "t < t'" "whole t'" "quiet c t t'"
proof -
  note unf = nextLoop.simps [of c t] assms(1,3)
  consider (y) "Year UTC t \<notin> set (cyr c)"
    | (m) "Year UTC t \<in> set (cyr c)" "int (Month UTC t) \<notin> set (cmonth c)"
    | (d) "Year UTC t \<in> set (cyr c)" "int (Month UTC t) \<in> set (cmonth c)" "\<not> matchesDay c t"
    | (h) "Year UTC t \<in> set (cyr c)" "int (Month UTC t) \<in> set (cmonth c)" "matchesDay c t"
        "Hour UTC t \<notin> set (chour c)"
    | (mi) "Year UTC t \<in> set (cyr c)" "int (Month UTC t) \<in> set (cmonth c)" "matchesDay c t"
        "Hour UTC t \<in> set (chour c)" "Minute UTC t \<notin> set (cminute c)"
    using assms(1,3,4) by (auto simp: fires_def Let_def)
  then show thesis
  proof cases
    case y
    note n = next_year [OF refl, of t, folded whole_def]
    let ?t = "goDate UTC (Year UTC t + 1) 1 1 0 0 0"
    have "quiet c t ?t"
    proof (rule quietI)
      fix u
      assume "t \<le> u" "u < ?t"
      then have "Year UTC u = Year UTC t" by (rule n(3))
      then show "\<not> fires c u" using y assms(1) by (simp add: fires_def Let_def)
    qed
    then show thesis using n(1,2) y by (intro that) (simp_all add: unf)
  next
    case m
    note n = next_month [OF refl, of t, folded whole_def]
    let ?t = "goDate UTC (Year UTC t) (Month UTC t + 1) 1 0 0 0"
    have "quiet c t ?t"
    proof (rule quietI)
      fix u
      assume "t \<le> u" "u < ?t"
      then have "Year UTC u = Year UTC t \<and> Month UTC u = Month UTC t" by (rule n(3))
      then show "\<not> fires c u" using m assms(1) by (simp add: fires_def Let_def)
    qed
    then show thesis using n(1,2) m by (intro that) (simp_all add: unf)
  next
    case d
    note n = next_day [OF refl, of t, folded whole_def]
    let ?t = "goDate UTC (Year UTC t) (Month UTC t) (int (Day UTC t) + 1) 0 0 0"
    have "quiet c t ?t"
    proof (rule quietI)
      fix u
      assume "t \<le> u" "u < ?t"
      then have "u div 86400 = t div 86400" by (rule n(3))
      then show "\<not> fires c u" using d assms(1) by (simp add: fires_def Let_def matchesDay_day [of c u t])
    qed
    then show thesis using n(1,2) d by (intro that) (simp_all add: unf)
  next
    case h
    note n = next_hour [OF refl, of t, folded whole_def]
    let ?t = "goDate UTC (Year UTC t) (Month UTC t) (int (Day UTC t)) (Hour UTC t + 1) 0 0"
    have "quiet c t ?t"
    proof (rule quietI)
      fix u
      assume "t \<le> u" "u < ?t"
      then have "u div 3600 = t div 3600" by (rule n(3))
      then show "\<not> fires c u" using h assms(1) by (simp add: fires_def Let_def hour_of)
    qed
    then show thesis using n(1,2) h by (intro that) (simp_all add: unf)
  next
    case mi
    have only: "u = t" if "whole u" "t \<le> u" "u < t + 60" for u
    proof -
      have "60 dvd u - t" using that(1) assms(2) unfolding whole_def by (rule dvd_diff)
      then obtain q where q: "u - t = 60 * q" by (rule dvdE)
      then have "0 \<le> q" "q < 1" using that(2,3) by linarith+
      then show ?thesis using q by simp
    qed
    then have "quiet c t (t + 60)"
      using assms(4) by (intro quietI) metis
    moreover have "whole (t + 60)" using assms(2) by (simp add: whole_def)
    ultimately show thesis using mi by (intro that) (simp_all add: unf)
  qed
qed

lemma quiet_trans: "quiet c t t' \<Longrightarrow> quiet c t' t'' \<Longrightarrow> quiet c t t''"
  unfolding quiet_def by (meson not_less)

text \<open>The search returns, and what it returns.\<close>

definition first_from :: "cronExpression \<Rightarrow> int \<Rightarrow> int \<Rightarrow> bool" where
  "first_from c t r \<longleftrightarrow>
     (\<exists>u. whole u \<and> t \<le> u \<and> fires c u \<and> quiet c t u \<and> r = u * second) \<or>
     r = 0 \<and> (\<forall>u. whole u \<longrightarrow> t \<le> u \<longrightarrow> \<not> fires c u)"

lemma first_from_quiet: "quiet c t t' \<Longrightarrow> t \<le> t' \<Longrightarrow> first_from c t' r \<Longrightarrow> first_from c t r"
proof -
  assume q: "quiet c t t'" "t \<le> t'" and f: "first_from c t' r"
  show ?thesis
  proof (cases "\<exists>u. whole u \<and> t' \<le> u \<and> fires c u \<and> quiet c t' u \<and> r = u * second")
    case True
    then show ?thesis unfolding first_from_def using q quiet_trans order_trans by blast
  next
    case False
    then have "r = 0" "\<And>u. whole u \<Longrightarrow> t' \<le> u \<Longrightarrow> \<not> fires c u"
      using f unfolding first_from_def by blast+
    then show ?thesis using q unfolding first_from_def quiet_def by (meson not_less)
  qed
qed

lemma year_mono: "t \<le> u \<Longrightarrow> Year UTC t \<le> Year UTC u"
  using yearOf_mono [OF zdiv_mono1, of t u 86400] by (simp add: civil_facts(2))

lemma nextLoop_UTC:
  assumes "clocation c = UTC"
  shows "whole t \<Longrightarrow> \<exists>r. nextLoop c t = Some r \<and> first_from c t r"
proof (induction "nat (yearStart 2200 * 86400 - t)" arbitrary: t rule: less_induct)
  case less
  show ?case
  proof (cases "Year UTC t \<le> 2199")
    case False
    have "\<not> fires c u" if "t \<le> u" for u
      using False year_mono [OF that] assms by (simp add: fires_def Let_def)
    then show ?thesis using False assms by (simp add: nextLoop.simps [of c t] first_from_def)
  next
    case y: True
    show ?thesis
    proof (cases "fires c t")
      case True
      then have "nextLoop c t = Some (t * second)"
        using assms y by (simp add: nextLoop.simps [of c t] fires_def Let_def)
      moreover have "first_from c t (t * second)"
        using True less.prems unfolding first_from_def quiet_def by (metis not_less order_refl)
      ultimately show ?thesis by blast
    next
      case False
      obtain t' where t': "nextLoop c t = nextLoop c t'" "t < t'" "whole t'" "quiet c t t'"
        using nextLoop_step [OF assms less.prems y False] .
      have "t div 86400 < yearStart 2200"
        using y yearOf_bounds(2) [of "t div 86400"] yearStart_mono [of "Year UTC t + 1" 2200]
        by (simp add: civil_facts(2))
      then have "t < yearStart 2200 * 86400" by (simp add: div_less_iff)
      then obtain r where "nextLoop c t' = Some r" "first_from c t' r"
        using less.hyps [of t'] t'(2,3) by auto
      then show ?thesis using t' first_from_quiet [OF t'(4)] by auto
    qed
  qed
qed

text \<open>C15: In UTC the search always returns, and returns the first minute after the given instant at
  which every field of the expression matches, or the zero instant when there is none up to the
  end of 2199; the jumps over years, months, days and hours skip nothing.\<close>

theorem next_least:
  assumes "clocation c = UTC"
  shows "\<exists>r. cron_next c after = Some r \<and>
    ((\<exists>u. whole u \<and> after < u * second \<and> fires c u \<and> r = u * second \<and>
         (\<forall>v. whole v \<longrightarrow> after < v * second \<longrightarrow> v < u \<longrightarrow> \<not> fires c v)) \<or>
     r = 0 \<and> (\<forall>v. whole v \<longrightarrow> after < v * second \<longrightarrow> \<not> fires c v))"
proof -
  let ?t = "after div minute * 60 + 60"
  have w: "whole ?t" by (simp add: whole_def)
  have later: "?t \<le> v \<longleftrightarrow> after < v * second" if v: "whole v" for v
  proof -
    obtain q where q: "v = q * 60" using v unfolding whole_def by (auto elim!: dvdE simp: mult.commute)
    have "after < v * second \<longleftrightarrow> after < q * minute" unfolding q minute_def by (simp only: mult.assoc)
    also have "\<dots> \<longleftrightarrow> after div minute < q"
      by (simp add: div_less_iff minute_def second_def)
    finally show ?thesis unfolding q by linarith
  qed
  obtain r where "nextLoop c ?t = Some r" and f: "first_from c ?t r"
    using nextLoop_UTC [OF assms w] by blast
  then show ?thesis
    unfolding first_from_def quiet_def cron_next_def using later by metis
qed

definition daily :: cronExpression where
  "daily = \<lparr>clocation = UTC, cminute = [0], chour = [12], cmonth = [1], cyr = [2024],
     dayOfMonth = zeroDay\<lparr>dvalues := [1]\<rparr>, dayOfWeek = zeroDay\<lparr>dany := True\<rparr>\<rparr>"

theorem next_least_witness:
  "\<exists>r. cron_next daily 0 = Some r \<and>
    ((\<exists>u. whole u \<and> 0 < u * second \<and> fires daily u \<and> r = u * second \<and>
         (\<forall>v. whole v \<longrightarrow> 0 < v * second \<longrightarrow> v < u \<longrightarrow> \<not> fires daily v)) \<or>
     r = 0 \<and> (\<forall>v. whole v \<longrightarrow> 0 < v * second \<longrightarrow> \<not> fires daily v))"
  by (rule next_least) (simp add: daily_def)

section \<open>The search where the clocks go forward\<close>

text \<open>A location that is five hours behind UTC and four from 07:00 UTC on 12 March 2023: 02:00 local
  time does not exist on that day, as in New York.\<close>

definition forward :: int where
  "forward = daysBefore 2023 3 12 * 86400 + 7 * 3600"

definition springForward :: location where
  "springForward = \<lparr>lookup = (\<lambda>s. if s < forward then (- 5 * 3600, - (2 ^ 63), forward)
                                   else (- 4 * 3600, forward, 2 ^ 63 - 1))\<rparr>"

definition noon :: cronExpression where
  "noon = \<lparr>clocation = springForward, cminute = [0], chour = [12], cmonth = [1..12], cyr = [1970..2199],
           dayOfMonth = zeroDay\<lparr>dvalues := [1..31]\<rparr>, dayOfWeek = zeroDay\<lparr>dany := True\<rparr>\<rparr>"

declare stepLoop.simps [code]

lemma noon_fields:
  "bodyOf ''cron(0 12 * * ? *)'' ''at'' = None" "bodyOf ''cron(0 12 * * ? *)'' ''rate'' = None"
  "bodyOf ''cron(0 12 * * ? *)'' ''cron'' = Some ''0 12 * * ? *''"
  "Fields (ToUpper ''0 12 * * ? *'') = [''0'', ''12'', ''*'', ''*'', ''?'', ''*'']"
  "parseIntField ''0'' 0 59 [] = Some (Inr [0])" "parseIntField ''12'' 0 23 [] = Some (Inr [12])"
  "parseDayField ''*'' False = Some (Inr (zeroDay\<lparr>dvalues := [1..31]\<rparr>))"
  "parseIntField ''*'' 1 12 months = Some (Inr [1..12])"
  "parseDayField ''?'' True = Some (Inr (zeroDay\<lparr>dany := True\<rparr>))"
  "parseIntField ''*'' 1970 2199 [] = Some (Inr [1970..2199])"
  by code_simp+

lemma noon_parsed:
  "ParseSchedule (\<lambda>_. Some springForward) ''cron(0 12 * * ? *)'' ''America/New_York'' =
     Some (Inr (zeroExpression\<lparr>ecron := Some noon\<rparr>))"
  by (simp add: ParseSchedule_def parseCron_def noon_fields bindO_def noon_def)

text \<open>At 01:00 local time the loop asks for 02:00, and \<^verbatim>\<open>time.Date\<close> answers 01:00.\<close>

lemma stuck_fields:
  "Year springForward (forward - 3600) = 2023" "Month springForward (forward - 3600) = 3"
  "Day springForward (forward - 3600) = 12" "Hour springForward (forward - 3600) = 1"
  "goDate springForward 2023 3 12 2 0 0 = forward - 3600" "matchesDay noon (forward - 3600)"
  by code_simp+

lemma noon_sel [simp]:
  "clocation noon = springForward" "cminute noon = [0]" "chour noon = [12]" "cmonth noon = [1..12]"
  "cyr noon = [1970..2199]"
  by (simp_all add: noon_def)

lemma nextLoop_stuck: "nextLoop noon (forward - 3600) = None"
proof -
  have "nextLoop c t = Some r \<Longrightarrow> \<not> (c = noon \<and> t = forward - 3600)" for c t r
  proof (rule nextLoop.raw_induct [where P = "\<lambda>c t r. \<not> (c = noon \<and> t = forward - 3600)"])
    fix f c t r
    assume IH: "\<And>c t r. f c t = Some r \<Longrightarrow> \<not> (c = noon \<and> t = forward - 3600)"
      and eq: "(if Year (clocation c) t \<le> 2199
        then if Year (clocation c) t \<notin> set (cyr c)
             then f c (goDate (clocation c) (Year (clocation c) t + 1) 1 1 0 0 0)
             else if int (Month (clocation c) t) \<notin> set (cmonth c)
             then f c (goDate (clocation c) (Year (clocation c) t) (Month (clocation c) t + 1) 1 0 0 0)
             else if \<not> matchesDay c t
             then f c (goDate (clocation c) (Year (clocation c) t) (Month (clocation c) t)
                         (int (Day (clocation c) t) + 1) 0 0 0)
             else if Hour (clocation c) t \<notin> set (chour c)
             then f c (goDate (clocation c) (Year (clocation c) t) (Month (clocation c) t)
                         (int (Day (clocation c) t)) (Hour (clocation c) t + 1) 0 0)
             else if Minute (clocation c) t \<notin> set (cminute c) then f c (t + 60)
             else Some (t * second)
        else Some 0) = Some r"
    show "\<not> (c = noon \<and> t = forward - 3600)"
    proof
      assume "c = noon \<and> t = forward - 3600"
      with eq have "f noon (forward - 3600) = Some r" by (simp add: stuck_fields)
      then show False using IH by blast
    qed
  qed
  then show ?thesis by (metis not_None_eq)
qed

lemma evening_fields:
  "Year springForward (forward - 7200) = 2023" "Month springForward (forward - 7200) = 3"
  "Day springForward (forward - 7200) = 12" "Hour springForward (forward - 7200) = 0"
  "goDate springForward 2023 3 12 1 0 0 = forward - 3600" "matchesDay noon (forward - 7200)"
  "Year springForward (forward - 9000) = 2023" "Month springForward (forward - 9000) = 3"
  "Day springForward (forward - 9000) = 11" "Hour springForward (forward - 9000) = 23"
  "goDate springForward 2023 3 11 24 0 0 = forward - 7200" "matchesDay noon (forward - 9000)"
  by code_simp+

text \<open>A daily schedule in a location that puts its clocks forward hangs on that day: for \<^verbatim>\<open>cron(0 12 * * ? *)\<close>
  in the location above, the call of \<^verbatim>\<open>After\<close> on the evening before never returns, because the
  step from the hour 1 to the missing hour 2 leads back to the hour 1.\<close>

theorem next_hangs:
  "\<exists>e. ParseSchedule (\<lambda>_. Some springForward) ''cron(0 12 * * ? *)'' ''America/New_York'' = Some (Inr e) \<and>
       After e ((forward - 9060) * second) = None"
proof -
  have "nextLoop noon (forward - 7200) = None"
    using nextLoop_stuck by (simp add: nextLoop.simps [of noon "forward - 7200"] evening_fields)
  then have "nextLoop noon (forward - 9000) = None"
    by (simp add: nextLoop.simps [of noon "forward - 9000"] evening_fields)
  moreover have "(forward - 9060) * second div minute * 60 + 60 = forward - 9000"
    by code_simp
  ultimately have "cron_next noon ((forward - 9060) * second) = None"
    by (simp only: cron_next_def)
  then show ?thesis
    unfolding noon_parsed by (simp add: After_def zeroExpression_def)
qed

section \<open>Parsing ends\<close>

text \<open>With a step that cannot overflow the loop runs upwards; with one so close to the largest \<^verbatim>\<open>int64\<close>
  that the sum wraps, two iterations go down by twice its distance from \<open>2 ^ 63\<close>.\<close>

lemma stepLoop_up:
  "- (2 ^ 31) \<le> n \<Longrightarrow> hi < 2 ^ 31 \<Longrightarrow> 1 \<le> step \<Longrightarrow> step \<le> 2 ^ 62 \<Longrightarrow> \<exists>out'. stepLoop n hi step out = Some out'"
proof (induction "nat (hi - n + 1)" arbitrary: n out rule: less_induct)
  case less
  show ?case
  proof (cases "n \<le> hi")
    case True
    then have w: "wrap64 (n + step) = n + step"
      using less.prems by (intro wrap64_id) (simp add: in_int64_def)
    have "\<exists>out'. stepLoop (n + step) hi step (out @ [n]) = Some out'"
      using less.prems True by (intro less.hyps) simp_all
    then show ?thesis using True w by (simp add: stepLoop.simps [of n])
  qed (simp add: stepLoop.simps [of n])
qed

lemma wrap64_above: "2 ^ 63 \<le> i \<Longrightarrow> i < 2 ^ 63 + 2 ^ 64 \<Longrightarrow> wrap64 i = i - 2 ^ 64"
proof -
  assume i: "2 ^ 63 \<le> i" "i < 2 ^ 63 + 2 ^ 64"
  have "(i + 2 ^ 63) mod 2 ^ 64 = (i + 2 ^ 63 - 2 ^ 64) mod 2 ^ 64"
    by (rule minus_mod_self2 [symmetric])
  also have "\<dots> = i + 2 ^ 63 - 2 ^ 64" using i by (intro mod_pos_pos_trivial) simp_all
  finally show ?thesis by (simp add: wrap64_def)
qed

lemma stepLoop_wraps:
  "- (2 ^ 31) \<le> n \<Longrightarrow> hi < 2 ^ 31 \<Longrightarrow> 2 ^ 62 < step \<Longrightarrow> step < 2 ^ 63 \<Longrightarrow> \<exists>out'. stepLoop n hi step out = Some out'"
proof (induction "nat (n + 2 ^ 31)" arbitrary: n out rule: less_induct)
  case less
  show ?case
  proof (cases "n \<le> hi")
    case True
    show ?thesis
    proof (cases "n + step < 2 ^ 63")
      case fits: True
      then have "wrap64 (n + step) = n + step"
        using less.prems by (intro wrap64_id) (simp add: in_int64_def)
      moreover have "hi < n + step" using less.prems by simp
      ultimately show ?thesis
        using True by (simp add: stepLoop.simps [of n] stepLoop.simps [of "n + step"])
    next
      case over: False
      define k where "k = 2 ^ 63 - step"
      have n': "wrap64 (n + step) = n - k - 2 ^ 63"
        using over less.prems True wrap64_above [of "n + step"] by (simp add: k_def)
      have "wrap64 (n - k - 2 ^ 63 + step) = n - 2 * k"
        using over less.prems True by (subst wrap64_id) (simp_all add: in_int64_def k_def)
      then have two: "stepLoop n hi step out = stepLoop (n - 2 * k) hi step (out @ [n] @ [n - k - 2 ^ 63])"
        using True less.prems over n'
        by (subst stepLoop.simps, simp only: n', subst stepLoop.simps) (simp add: k_def)
      have "\<exists>out'. stepLoop (n - 2 * k) hi step (out @ [n] @ [n - k - 2 ^ 63]) = Some out'"
        using less.prems over True by (intro less.hyps) (simp_all add: k_def)
      then show ?thesis using two by simp
    qed
  qed (simp add: stepLoop.simps [of n])
qed

lemma stepLoop_returns:
  assumes "- (2 ^ 31) \<le> n" "hi < 2 ^ 31" "1 \<le> step" "step < 2 ^ 63"
  shows "stepLoop n hi step out \<noteq> None"
  using stepLoop_up [OF assms(1-3)] stepLoop_wraps [OF assms(1,2)] assms(4)
  by (cases "step \<le> 2 ^ 62") (auto simp: not_le)

lemma ParseInt10_range: "ParseInt10 s = Some i \<Longrightarrow> in_int64 i"
  by (auto simp: ParseInt10_def Let_def split: option.splits if_splits prod.splits)

lemma itemStep_range: "itemStep item = Inr (base, step, b) \<Longrightarrow> 1 \<le> step \<and> step < 2 ^ 63"
  by (auto simp: itemStep_def in_int64_def split: prod.splits if_splits option.splits dest!: ParseInt10_range)

lemma parseItem_returns:
  assumes "0 \<le> mn" "mx < 2 ^ 31"
  shows "parseItem mn mx names item out \<noteq> None"
proof (cases "bindR (itemStep item) (\<lambda>(base, step, hasStep).
             bindR (itemRange base hasStep mn mx names) (\<lambda>(lo, hi). Ok (step, lo, hi)))")
  case (Inr r)
  then obtain base b step lo hi where r: "r = (step, lo, hi)" and s: "itemStep item = Inr (base, step, b)"
    by (auto simp: bindR_Ok_iff)
  show ?thesis
  proof (cases "lo < mn \<or> mx < hi \<or> (hi < lo \<and> (mn \<noteq> 0 \<or> mx \<noteq> 23))")
    case False
    have ret: "stepLoop n h step o' \<noteq> None" if "mn \<le> n" "h \<le> mx" for n h o'
      using that assms itemStep_range [OF s] by (intro stepLoop_returns) simp_all
    show ?thesis
    proof (cases "hi < lo")
      case True
      obtain out1 where o: "stepLoop lo mx step out = Some out1"
        using ret [of lo mx out] False by auto
      show ?thesis using Inr r False True o ret [of mn hi out1] by (simp add: parseItem_def)
    next
      case up: False
      show ?thesis using Inr r False up ret [of lo hi out] by (simp add: parseItem_def)
    qed
  qed (use Inr r in \<open>simp add: parseItem_def\<close>)
qed (simp add: parseItem_def)

lemma parseItems_returns:
  "0 \<le> mn \<Longrightarrow> mx < 2 ^ 31 \<Longrightarrow> parseItems mn mx names items out \<noteq> None"
proof (induction items arbitrary: out)
  case (Cons item items)
  then show ?case
    using parseItem_returns [of mn mx names item out] by (auto split: option.split sum.split)
qed simp

lemma parseIntField_returns: "0 \<le> mn \<Longrightarrow> mx < 2 ^ 31 \<Longrightarrow> parseIntField raw mn mx names \<noteq> None"
  by (simp add: parseIntField_def parseItems_returns)

lemma parseDayField_returns: "parseDayField raw wd \<noteq> None"
  using parseIntField_returns [of 1 31 raw] parseIntField_returns [of 1 7 raw]
  by (auto simp: parseDayField_def parseValues_def)

lemma bindO_returns: "p \<noteq> None \<Longrightarrow> (\<And>x. f x \<noteq> None) \<Longrightarrow> bindO p f \<noteq> None"
  by (auto simp: bindO_def split: option.splits sum.splits)

lemma parseCron_returns: "parseCron raw loc \<noteq> None"
proof -
  have "bindO (parseIntField p0 0 59 []) (\<lambda>mi. bindO (parseIntField p1 0 23 []) (\<lambda>h.
      bindO (parseDayField p2 False) (\<lambda>dom. bindO (parseIntField p3 1 12 months) (\<lambda>mo.
      bindO (parseDayField p4 True) (\<lambda>dow. bindO (parseIntField p5 1970 2199 []) (\<lambda>y.
        Some (Ok \<lparr>clocation = loc, cminute = mi, chour = h, cmonth = mo, cyr = y,
                  dayOfMonth = dom, dayOfWeek = dow\<rparr>))))))) \<noteq> None" for p0 p1 p2 p3 p4 p5
    by (intro bindO_returns parseIntField_returns parseDayField_returns) simp_all
  then show ?thesis
    unfolding parseCron_def by (simp split: list.split)
qed

text \<open>Parsing a schedule expression always ends, also when a step is so large that the loop that
  fills a field overflows.\<close>

theorem ParseSchedule_total: "ParseSchedule zones raw timezone \<noteq> None"
proof -
  have "bindO (parseCron v loc) (\<lambda>c. Some (Ok (zeroExpression\<lparr>ecron := Some c\<rparr>)) :: (sched_err, Expression) res option) \<noteq> None" for v loc
    by (rule bindO_returns [OF parseCron_returns]) simp
  then show ?thesis by (simp add: ParseSchedule_def split: option.split)
qed

text \<open>Such an overflow puts a value into the field that the expression does not name: the minutes of
  this item, which should be 10 only, are 10 and 0, besides a negative number no clock shows.\<close>

lemma step_overflows:
  "parseIntField ''10/9223372036854775803'' 0 59 [] = Some (Inr [10, - 9223372036854775803, 0])"
proof -
  have n: "ParseInt10 ''10'' = Some 10" "ParseInt10 ''9223372036854775803'' = Some 9223372036854775803"
    by (simp_all add: ParseInt10_def parse_digits_def digit_val_def is_digit_def less_eq_char_def in_int64_def)
  have "itemStep ''10/9223372036854775803'' = Inr (''10'', 9223372036854775803, True)"
    using n by (simp add: itemStep_def Cut_def)
  moreover have "itemRange ''10'' True 0 59 [] = Inr (10, 59)"
    using n by (simp add: itemRange_def Cut_def fieldNumber_def)
  moreover have "stepLoop 10 59 9223372036854775803 [] = Some [10, - 9223372036854775803, 0]"
    by (simp add: stepLoop.simps wrap64_def)
  ultimately show ?thesis by (simp add: parseIntField_def parseItem_def)
qed

end
