(* ===== verification/JobControl.thy ===== *)
theory JobControl
  imports Lifecycle
begin

text \<open>
  The CI/CD job port (\<^verbatim>\<open>internal/execution/cicd\<close>: \<^verbatim>\<open>types.go\<close>, \<^verbatim>\<open>errors.go\<close>, \<^verbatim>\<open>jobcontrol.go\<close>) and its
  in-memory backend (\<^verbatim>\<open>memory.go\<close>).

  \<^verbatim>\<open>byKey\<close> and \<^verbatim>\<open>byID\<close> hold pointers to the same jobs; here \<open>byID\<close> holds the job and \<open>byKey\<close> its
  identifier, so that a change through one map is seen through the other.  Each method runs under the
  mutex and is one step.  The sequence counter is a 64-bit word.

  \<open>ajobs\<close> is what the port promises, free of events, receipts and flags: which key names which job and
  in which of four phases each job is.  \<open>jc_refines\<close> shows that every operation of the backend answers
  and moves as this specification does.
\<close>

section \<open>The port\<close>

datatype ErrorKind =
    ErrValidation | ErrUnsupported | ErrUnavailable | ErrAbsentJob | ErrConflictJob | ErrCancelledJob
  | ErrTimeout | ErrPolicyDenied | ErrIntegrity | ErrOutcomeUnknown

fun kind_text :: "ErrorKind \<Rightarrow> string" where
  "kind_text ErrValidation = ''validation''"
| "kind_text ErrUnsupported = ''unsupported''"
| "kind_text ErrUnavailable = ''unavailable''"
| "kind_text ErrAbsentJob = ''absent''"
| "kind_text ErrConflictJob = ''conflict''"
| "kind_text ErrCancelledJob = ''cancelled''"
| "kind_text ErrTimeout = ''timeout''"
| "kind_text ErrPolicyDenied = ''policy_denied''"
| "kind_text ErrIntegrity = ''integrity''"
| "kind_text ErrOutcomeUnknown = ''outcome_unknown''"

record JobError =
  eKind :: ErrorKind
  eOp :: string
  eMessage :: string

definition error_text :: "JobError option \<Rightarrow> string" where
  "error_text e =
     (case e of
        None \<Rightarrow> []
      | Some e \<Rightarrow>
          if eMessage e \<noteq> []
          then if eOp e \<noteq> []
               then kind_text (eKind e) @ '': '' @ eOp e @ '': '' @ eMessage e
               else kind_text (eKind e) @ '': '' @ eMessage e
          else if eOp e \<noteq> [] then kind_text (eKind e) @ '': '' @ eOp e
          else kind_text (eKind e))"

record JobSpec =
  jsScope :: Scope
  jsRunID :: string
  jsAttemptID :: string
  jsGeneration :: string
  jsSubmissionKey :: string
  jsMode :: string
  jsDialect :: string
  jsProfile :: string
  jsSchedulerOwner :: string
  jsSource :: BlobRef
  jsNativeConfig :: BlobRef
  jsToolLock :: BlobRef
  jsInputManifest :: BlobRef
  jsRequirements :: "Requirement list"
  jsSecretRefs :: "string list"
  jsSemanticDueAt :: string
  jsSafetyLimitNS :: int

record JobHandle =
  hScope :: Scope
  hRunID :: string
  hAttemptID :: string
  hGeneration :: string
  hBackend :: string
  hBackendID :: string

record JobEvent =
  evHandle :: JobHandle
  EventID :: string
  Producer :: string
  Sequence :: "64 word"
  evKind :: string
  ObservedAt :: string
  evData :: BlobRef

datatype disposition = DispositionKnown | DispositionPending | DispositionOutcomeUnknown

record Observation =
  oEvents :: "JobEvent list"
  NextCursor :: string
  oMore :: bool
  oTerminal :: bool
  oReceipt :: "BlobRef option"
  oDisposition :: disposition

definition zeroBlob :: BlobRef where
  "zeroBlob = \<lparr>BKey = [], SHA256 = [], SizeBytes = 0, MediaType = []\<rparr>"

section \<open>The in-memory backend\<close>

record memJob =
  jHandle :: JobHandle
  jEvents :: "JobEvent list"
  cancelReq :: bool
  jTerminal :: bool
  jDisposition :: disposition

record jobControl =
  jcBackend :: string
  jcSeq :: "64 word"
  jcByKey :: "(string, string) gmap"
  jcByID :: "(string, memJob) gmap"
  jcReceipt :: "(string, BlobRef) gmap"

definition NewMemoryJobControl :: "string \<Rightarrow> jobControl" where
  "NewMemoryJobControl backend =
     \<lparr>jcBackend = (if backend = [] then ''memory'' else backend), jcSeq = 0, jcByKey = [], jcByID = [],
      jcReceipt = []\<rparr>"

definition Receipt :: "string \<Rightarrow> jobControl \<Rightarrow> BlobRef option" where
  "Receipt backendID m = map_of (jcReceipt m) backendID"

definition jobEvent :: "string \<Rightarrow> JobHandle \<Rightarrow> nat \<Rightarrow> string \<Rightarrow> BlobRef \<Rightarrow> JobEvent" where
  "jobEvent producer h n kind d =
     \<lparr>evHandle = h, EventID = hBackendID h @ '':'' @ kind, Producer = producer, Sequence = of_nat n,
      evKind = kind, ObservedAt = [], evData = d\<rparr>"

definition jobFail :: "ErrorKind \<Rightarrow> string \<Rightarrow> string \<Rightarrow> JobError" where
  "jobFail k opn msg = \<lparr>eKind = k, eOp = opn, eMessage = msg\<rparr>"

definition newHandle :: "JobSpec \<Rightarrow> string \<Rightarrow> string \<Rightarrow> JobHandle" where
  "newHandle spec backend i =
     \<lparr>hScope = jsScope spec, hRunID = jsRunID spec, hAttemptID = jsAttemptID spec,
      hGeneration = jsGeneration spec, hBackend = backend, hBackendID = i\<rparr>"

text \<open>In \<open>Submit\<close> a key of \<^verbatim>\<open>byKey\<close> always has its job in \<^verbatim>\<open>byID\<close>; the code reads it through the pointer.\<close>

definition Submit :: "JobSpec \<Rightarrow> jobControl \<Rightarrow> (JobError, JobHandle) res \<times> jobControl" where
  "Submit spec m =
     (if jsSubmissionKey spec = [] then (Err (jobFail ErrValidation ''Submit'' ''submission_key required''), m)
      else if jsRunID spec = [] then (Err (jobFail ErrValidation ''Submit'' ''run_id required''), m)
      else case Option.bind (map_of (jcByKey m) (jsSubmissionKey spec)) (map_of (jcByID m)) of
        Some j \<Rightarrow> (Ok (jHandle j), m)
      | None \<Rightarrow>
          (let n = jcSeq m + 1;
               i = jcBackend m @ ''-'' @ show_nat (unat n);
               h = newHandle spec (jcBackend m) i;
               j = \<lparr>jHandle = h, jEvents = [jobEvent (jcBackend m) h 1 ''accepted'' zeroBlob],
                    cancelReq = False, jTerminal = False, jDisposition = DispositionPending\<rparr>
           in (Ok h, m\<lparr>jcSeq := n, jcByKey := AList.update (jsSubmissionKey spec) i (jcByKey m),
                       jcByID := AList.update i j (jcByID m)\<rparr>)))"

definition receiptOf :: "string \<Rightarrow> BlobRef" where
  "receiptOf i = \<lparr>BKey = ''receipt/'' @ i, SHA256 = ''sha256:'' @ i, SizeBytes = 1,
                  MediaType = ''application/vnd.mirror.cicd.receipt+json''\<rparr>"

definition progressLocked :: "string \<Rightarrow> memJob \<Rightarrow> jobControl \<Rightarrow> memJob \<times> jobControl" where
  "progressLocked i j m =
     (if jTerminal j then (j, m)
      else
        let bid = hBackendID (jHandle j); n = length (jEvents j) + 1 in
        if cancelReq j
        then let j' = j\<lparr>jTerminal := True, jDisposition := DispositionKnown,
                        jEvents := jEvents j @ [jobEvent (jcBackend m) (jHandle j) n ''cancelled'' zeroBlob]\<rparr>
             in (j', m\<lparr>jcByID := AList.update i j' (jcByID m)\<rparr>)
        else let j' = j\<lparr>jTerminal := True, jDisposition := DispositionKnown,
                        jEvents := jEvents j @ [jobEvent (jcBackend m) (jHandle j) n ''completed'' (receiptOf bid)]\<rparr>
             in (j', m\<lparr>jcReceipt := AList.update bid (receiptOf bid) (jcReceipt m),
                       jcByID := AList.update i j' (jcByID m)\<rparr>))"

fun afterCursor :: "string \<Rightarrow> JobEvent list \<Rightarrow> JobEvent list option" where
  "afterCursor cursor [] = None"
| "afterCursor cursor (ev # evs) = (if EventID ev = cursor then Some evs else afterCursor cursor evs)"

definition observationLocked :: "memJob \<Rightarrow> string \<Rightarrow> jobControl \<Rightarrow> Observation" where
  "observationLocked j cursor m =
     \<lparr>oEvents = (if cursor = [] then jEvents j
                 else case afterCursor cursor (jEvents j) of Some evs \<Rightarrow> evs | None \<Rightarrow> jEvents j),
      NextCursor = (if jEvents j = [] then [] else EventID (last (jEvents j))),
      oMore = False, oTerminal = jTerminal j,
      oReceipt = (if jTerminal j then map_of (jcReceipt m) (hBackendID (jHandle j)) else None),
      oDisposition = jDisposition j\<rparr>"

definition findJob :: "JobHandle \<Rightarrow> jobControl \<Rightarrow> memJob option" where
  "findJob h m =
     (case map_of (jcByID m) (hBackendID h) of
        Some j \<Rightarrow> if hBackend (jHandle j) \<noteq> hBackend h then None else Some j
      | None \<Rightarrow> None)"

definition Observe :: "JobHandle \<Rightarrow> string \<Rightarrow> jobControl \<Rightarrow> (JobError, Observation) res \<times> jobControl" where
  "Observe h cursor m =
     (case findJob h m of
        None \<Rightarrow> (Err (jobFail ErrAbsentJob ''Observe'' ''job not found''), m)
      | Some j \<Rightarrow>
          (let (j', m') = progressLocked (hBackendID h) j m in (Ok (observationLocked j' cursor m'), m')))"

definition Cancel :: "JobHandle \<Rightarrow> jobControl \<Rightarrow> JobError option \<times> jobControl" where
  "Cancel h m =
     (case findJob h m of
        None \<Rightarrow> (Some (jobFail ErrAbsentJob ''Cancel'' ''job not found''), m)
      | Some j \<Rightarrow>
          if jTerminal j then (None, m)
          else (None, m\<lparr>jcByID := AList.update (hBackendID h) (j\<lparr>cancelReq := True\<rparr>) (jcByID m)\<rparr>))"

definition Reconcile :: "JobHandle \<Rightarrow> jobControl \<Rightarrow> (JobError, Observation) res \<times> jobControl" where
  "Reconcile h m =
     (case findJob h m of
        None \<Rightarrow> (Err (jobFail ErrAbsentJob ''Reconcile'' ''job not found''), m)
      | Some j \<Rightarrow>
          (let (j', m') = progressLocked (hBackendID h) j m in (Ok (observationLocked j' [] m'), m')))"

section \<open>What the port promises\<close>

datatype phase = Queued | Cancelling | Completed | Cancelled

record ajobs =
  abackend :: string
  acount :: nat
  akey :: "string \<Rightarrow> string option"
  ajob :: "string \<Rightarrow> (JobHandle \<times> phase) option"

datatype job_op =
    OpSubmit JobSpec
  | OpObserve JobHandle string
  | OpCancel JobHandle
  | OpReconcile JobHandle

datatype job_result =
    RHandle "(JobError, JobHandle) res"
  | RObservation "(JobError, Observation) res"
  | RCancel "JobError option"

fun history :: "string \<Rightarrow> JobHandle \<Rightarrow> phase \<Rightarrow> JobEvent list" where
  "history b h p = jobEvent b h 1 ''accepted'' zeroBlob #
     (case p of
        Completed \<Rightarrow> [jobEvent b h 2 ''completed'' (receiptOf (hBackendID h))]
      | Cancelled \<Rightarrow> [jobEvent b h 2 ''cancelled'' zeroBlob]
      | _ \<Rightarrow> [])"

definition over :: "phase \<Rightarrow> bool" where
  "over p \<longleftrightarrow> p = Completed \<or> p = Cancelled"

fun advance :: "phase \<Rightarrow> phase" where
  "advance Queued = Completed"
| "advance Cancelling = Cancelled"
| "advance p = p"

definition view :: "string \<Rightarrow> JobHandle \<Rightarrow> phase \<Rightarrow> string \<Rightarrow> Observation" where
  "view b h p cursor =
     \<lparr>oEvents = (if cursor = [] then history b h p
                 else case afterCursor cursor (history b h p) of Some evs \<Rightarrow> evs | None \<Rightarrow> history b h p),
      NextCursor = EventID (last (history b h p)), oMore = False, oTerminal = over p,
      oReceipt = (if p = Completed then Some (receiptOf (hBackendID h)) else None),
      oDisposition = (if over p then DispositionKnown else DispositionPending)\<rparr>"

definition aFind :: "JobHandle \<Rightarrow> ajobs \<Rightarrow> (JobHandle \<times> phase) option" where
  "aFind h a =
     (case ajob a (hBackendID h) of
        Some (g, p) \<Rightarrow> if hBackend g = hBackend h then Some (g, p) else None
      | None \<Rightarrow> None)"

definition aLook :: "string \<Rightarrow> JobHandle \<Rightarrow> string \<Rightarrow> ajobs \<Rightarrow> job_result \<times> ajobs" where
  "aLook opn h cursor a =
     (case aFind h a of
        None \<Rightarrow> (RObservation (Err (jobFail ErrAbsentJob opn ''job not found'')), a)
      | Some (g, p) \<Rightarrow>
          (RObservation (Ok (view (abackend a) g (advance p) cursor)),
           a\<lparr>ajob := (ajob a)(hBackendID h \<mapsto> (g, advance p))\<rparr>))"

fun a_exec :: "job_op \<Rightarrow> ajobs \<Rightarrow> job_result \<times> ajobs" where
  "a_exec (OpSubmit spec) a =
     (if jsSubmissionKey spec = [] then (RHandle (Err (jobFail ErrValidation ''Submit'' ''submission_key required'')), a)
      else if jsRunID spec = [] then (RHandle (Err (jobFail ErrValidation ''Submit'' ''run_id required'')), a)
      else case Option.bind (akey a (jsSubmissionKey spec)) (ajob a) of
        Some (h, _) \<Rightarrow> (RHandle (Ok h), a)
      | None \<Rightarrow>
          (let i = seqID (abackend a) (acount a + 1); h = newHandle spec (abackend a) i in
           (RHandle (Ok h), a\<lparr>acount := acount a + 1, akey := (akey a)(jsSubmissionKey spec \<mapsto> i),
                              ajob := (ajob a)(i \<mapsto> (h, Queued))\<rparr>)))"
| "a_exec (OpObserve h cursor) a = aLook ''Observe'' h cursor a"
| "a_exec (OpReconcile h) a = aLook ''Reconcile'' h [] a"
| "a_exec (OpCancel h) a =
     (case aFind h a of
        None \<Rightarrow> (RCancel (Some (jobFail ErrAbsentJob ''Cancel'' ''job not found'')), a)
      | Some (g, p) \<Rightarrow>
          (RCancel None, a\<lparr>ajob := (ajob a)(hBackendID h \<mapsto> (g, if over p then p else Cancelling))\<rparr>))"

fun jc_exec :: "job_op \<Rightarrow> jobControl \<Rightarrow> job_result \<times> jobControl" where
  "jc_exec (OpSubmit spec) m = (case Submit spec m of (r, m') \<Rightarrow> (RHandle r, m'))"
| "jc_exec (OpObserve h cursor) m = (case Observe h cursor m of (r, m') \<Rightarrow> (RObservation r, m'))"
| "jc_exec (OpReconcile h) m = (case Reconcile h m of (r, m') \<Rightarrow> (RObservation r, m'))"
| "jc_exec (OpCancel h) m = (case Cancel h m of (r, m') \<Rightarrow> (RCancel r, m'))"

section \<open>The representation\<close>

definition phaseOf :: "jobControl \<Rightarrow> memJob \<Rightarrow> phase" where
  "phaseOf m j =
     (if jTerminal j
      then if map_of (jcReceipt m) (hBackendID (jHandle j)) \<noteq> None then Completed else Cancelled
      else if cancelReq j then Cancelling else Queued)"

definition abs_jobs :: "jobControl \<Rightarrow> ajobs" where
  "abs_jobs m =
     \<lparr>abackend = jcBackend m, acount = unat (jcSeq m), akey = map_of (jcByKey m),
      ajob = (\<lambda>i. map_option (\<lambda>j. (jHandle j, phaseOf m j)) (map_of (jcByID m) i))\<rparr>"

definition job_ok :: "jobControl \<Rightarrow> string \<Rightarrow> memJob \<Rightarrow> bool" where
  "job_ok m i j \<longleftrightarrow>
     hBackendID (jHandle j) = i \<and> jEvents j = history (jcBackend m) (jHandle j) (phaseOf m j) \<and>
     jDisposition j = (if jTerminal j then DispositionKnown else DispositionPending) \<and>
     map_of (jcReceipt m) i = (if phaseOf m j = Completed then Some (receiptOf i) else None) \<and>
     (\<exists>n \<le> unat (jcSeq m). i = seqID (jcBackend m) n)"

definition jc_ok :: "jobControl \<Rightarrow> bool" where
  "jc_ok m \<longleftrightarrow>
     (\<forall>i j. map_of (jcByID m) i = Some j \<longrightarrow> job_ok m i j) \<and>
     (\<forall>i. map_of (jcByID m) i = None \<longrightarrow> map_of (jcReceipt m) i = None)"

definition jc_room :: "jobControl \<Rightarrow> bool" where
  "jc_room m \<longleftrightarrow> unat (jcSeq m) + 1 < 2 ^ 64"

lemma over_phaseOf [simp]: "over (phaseOf m j) \<longleftrightarrow> jTerminal j"
  by (simp add: over_def phaseOf_def)

lemma aFind_abs: "aFind h (abs_jobs m) = map_option (\<lambda>j. (jHandle j, phaseOf m j)) (findJob h m)"
  by (simp add: aFind_def abs_jobs_def findJob_def split: option.split)

lemma findJob_Some: "findJob h m = Some j \<Longrightarrow> map_of (jcByID m) (hBackendID h) = Some j"
  by (auto simp: findJob_def split: option.splits if_splits)

text \<open>Replacing one job by another of the same handle, with or without its receipt.\<close>

lemma replace_job:
  assumes ok: "jc_ok m" and j: "map_of (jcByID m) i = Some j"
    and m': "m' = m\<lparr>jcByID := AList.update i j' (jcByID m), jcReceipt := rs\<rparr>"
    and rs: "\<And>k. k \<noteq> i \<Longrightarrow> map_of rs k = map_of (jcReceipt m) k"
    and j': "jHandle j' = jHandle j" "job_ok m' i j'"
  shows "jc_ok m'" "abs_jobs m' = (abs_jobs m)\<lparr>ajob := (ajob (abs_jobs m))(i \<mapsto> (jHandle j, phaseOf m' j'))\<rparr>"
proof -
  have ids: "hBackendID (jHandle jj) = k" if "map_of (jcByID m) k = Some jj" for k jj
    using ok that by (simp add: jc_ok_def job_ok_def)
  have same: "phaseOf m' jj = phaseOf m jj" if "map_of (jcByID m) k = Some jj" "k \<noteq> i" for k jj
    using ids [OF that(1)] that(2) rs [of k] m' by (simp add: phaseOf_def)
  have keep: "job_ok m' k jj" if jj: "map_of (jcByID m) k = Some jj" "k \<noteq> i" for k jj
  proof -
    have "job_ok m k jj" using ok jj(1) by (simp add: jc_ok_def)
    then show ?thesis using same [OF jj] rs [OF jj(2)] m' by (simp add: job_ok_def)
  qed
  have "map_of (jcReceipt m') k = None" if "map_of (jcByID m') k = None" for k
  proof -
    have "k \<noteq> i" "map_of (jcByID m) k = None" using that m' by (auto split: if_splits)
    then show ?thesis using ok m' rs by (simp add: jc_ok_def)
  qed
  then show "jc_ok m'" using keep j' m' by (auto simp: jc_ok_def)
  have "(\<lambda>k. map_option (\<lambda>jj. (jHandle jj, phaseOf m' jj)) (map_of (jcByID m') k)) =
        (\<lambda>k. map_option (\<lambda>jj. (jHandle jj, phaseOf m jj)) (map_of (jcByID m) k))(i \<mapsto> (jHandle j, phaseOf m' j'))"
  proof
    fix k
    show "map_option (\<lambda>jj. (jHandle jj, phaseOf m' jj)) (map_of (jcByID m') k) =
        ((\<lambda>k. map_option (\<lambda>jj. (jHandle jj, phaseOf m jj)) (map_of (jcByID m) k))(i \<mapsto> (jHandle j, phaseOf m' j'))) k"
      using same j'(1) m' by (cases "map_of (jcByID m) k") auto
  qed
  then show "abs_jobs m' = (abs_jobs m)\<lparr>ajob := (ajob (abs_jobs m))(i \<mapsto> (jHandle j, phaseOf m' j'))\<rparr>"
    using m' by (simp add: abs_jobs_def)
qed

lemma history_not_Nil: "history b h p \<noteq> []"
  by simp

lemma observation_view:
  assumes "job_ok m i j"
  shows "observationLocked j cursor m = view (jcBackend m) (jHandle j) (phaseOf m j) cursor"
proof -
  have "jEvents j = history (jcBackend m) (jHandle j) (phaseOf m j)"
    "map_of (jcReceipt m) (hBackendID (jHandle j)) =
       (if phaseOf m j = Completed then Some (receiptOf (hBackendID (jHandle j))) else None)"
    "jDisposition j = (if over (phaseOf m j) then DispositionKnown else DispositionPending)"
    using assms by (simp_all add: job_ok_def del: history.simps)
  moreover have "phaseOf m j = Completed \<Longrightarrow> jTerminal j" by (simp add: phaseOf_def split: if_splits)
  ultimately show ?thesis
    by (cases "phaseOf m j = Completed")
       (simp_all add: observationLocked_def view_def history_not_Nil over_def [of Completed] split: option.split
         del: history.simps)
qed

lemma abs_job_triv:
  "map_of (jcByID m) i = Some j \<Longrightarrow>
     (abs_jobs m)\<lparr>ajob := (ajob (abs_jobs m))(i \<mapsto> (jHandle j, phaseOf m j))\<rparr> = abs_jobs m"
  by (simp add: abs_jobs_def fun_eq_iff)

lemma progress_refines:
  assumes ok: "jc_ok m" and j: "map_of (jcByID m) i = Some j" and p: "progressLocked i j m = (j', m')"
  shows "jc_ok m'" "job_ok m' i j'" "jHandle j' = jHandle j" "phaseOf m' j' = advance (phaseOf m j)"
    "jcBackend m' = jcBackend m" "jcSeq m' = jcSeq m"
    "abs_jobs m' = (abs_jobs m)\<lparr>ajob := (ajob (abs_jobs m))(i \<mapsto> (jHandle j, advance (phaseOf m j)))\<rparr>"
proof -
  have jo: "job_ok m i j" using ok j by (simp add: jc_ok_def)
  then have bid: "hBackendID (jHandle j) = i" by (simp add: job_ok_def)
  have "jc_ok m' \<and> job_ok m' i j' \<and> jHandle j' = jHandle j \<and> phaseOf m' j' = advance (phaseOf m j) \<and>
    jcBackend m' = jcBackend m \<and> jcSeq m' = jcSeq m \<and>
    abs_jobs m' = (abs_jobs m)\<lparr>ajob := (ajob (abs_jobs m))(i \<mapsto> (jHandle j, advance (phaseOf m j)))\<rparr>"
  proof (cases "jTerminal j")
    case True
    then have "j' = j" "m' = m" "advance (phaseOf m j) = phaseOf m j"
      using p by (auto simp: progressLocked_def phaseOf_def)
    then show ?thesis using ok jo abs_job_triv [OF j] by simp
  next
    case False
    define rs where "rs = (if cancelReq j then jcReceipt m else AList.update i (receiptOf i) (jcReceipt m))"
    have m': "m' = m\<lparr>jcByID := AList.update i j' (jcByID m), jcReceipt := rs\<rparr>"
      using p False bid by (auto simp: progressLocked_def Let_def rs_def split: if_splits)
    have none: "map_of (jcReceipt m) i = None" and ev: "jEvents j = [jobEvent (jcBackend m) (jHandle j) 1 ''accepted'' zeroBlob]"
      using jo False by (auto simp: job_ok_def phaseOf_def)
    have h: "jHandle j' = jHandle j" and ph: "phaseOf m' j' = advance (phaseOf m j)"
      using p False bid none by (auto simp: progressLocked_def Let_def phaseOf_def split: if_splits)
    have jo': "job_ok m' i j'"
      using p False bid none ev jo
      by (auto simp: progressLocked_def Let_def job_ok_def phaseOf_def numeral_2_eq_2 split: if_splits)
    have "map_of rs k = map_of (jcReceipt m) k" if "k \<noteq> i" for k using that by (simp add: rs_def)
    from replace_job [OF ok j m' this h jo'] show ?thesis using h ph jo' m' by simp
  qed
  then show "jc_ok m'" "job_ok m' i j'" "jHandle j' = jHandle j" "phaseOf m' j' = advance (phaseOf m j)"
    "jcBackend m' = jcBackend m" "jcSeq m' = jcSeq m"
    "abs_jobs m' = (abs_jobs m)\<lparr>ajob := (ajob (abs_jobs m))(i \<mapsto> (jHandle j, advance (phaseOf m j)))\<rparr>" by auto
qed

text \<open>\<open>Observe\<close> and \<open>Reconcile\<close> differ in the cursor and in the name they put into an error.\<close>

lemma look_refines:
  assumes ok: "jc_ok m" and p: "progressLocked (hBackendID h) j m = (j', m')" and j: "findJob h m = Some j"
  shows "aLook opn h cursor (abs_jobs m) = (RObservation (Ok (observationLocked j' cursor m')), abs_jobs m') \<and> jc_ok m'"
proof -
  note pr = progress_refines [OF ok findJob_Some [OF j] p]
  show ?thesis
    using pr observation_view [OF pr(2), of cursor] j
    by (simp add: aLook_def aFind_abs) (simp add: abs_jobs_def)
qed

lemma submit_refines:
  assumes ok: "jc_ok m" and room: "jc_room m" and S: "Submit spec m = (r, m')"
  shows "a_exec (OpSubmit spec) (abs_jobs m) = (RHandle r, abs_jobs m') \<and> jc_ok m' \<and>
         unat (jcSeq m') \<le> unat (jcSeq m) + 1 \<and> jcBackend m' = jcBackend m"
proof -
  let ?key = "jsSubmissionKey spec"
  consider (bad) "?key = [] \<or> jsRunID spec = []"
    | (old) j where "?key \<noteq> []" "jsRunID spec \<noteq> []" "Option.bind (map_of (jcByKey m) ?key) (map_of (jcByID m)) = Some j"
    | (new) "?key \<noteq> []" "jsRunID spec \<noteq> []" "Option.bind (map_of (jcByKey m) ?key) (map_of (jcByID m)) = None"
    by (cases "Option.bind (map_of (jcByKey m) ?key) (map_of (jcByID m))") auto
  then show ?thesis
  proof cases
    case bad
    then show ?thesis using S ok by (auto simp: Submit_def)
  next
    case old
    then show ?thesis using S ok by (auto simp: Submit_def abs_jobs_def bind_eq_Some_conv)
  next
    case new
    define n where "n = unat (jcSeq m) + 1"
    define i where "i = seqID (jcBackend m) n"
    define h where "h = newHandle spec (jcBackend m) i"
    define j where "j = \<lparr>jHandle = h, jEvents = [jobEvent (jcBackend m) h 1 ''accepted'' zeroBlob],
                    cancelReq = False, jTerminal = False, jDisposition = DispositionPending\<rparr>"
    have n: "unat (jcSeq m + 1) = n"
      using room unat_add_lem [of "jcSeq m" 1] by (simp add: n_def jc_room_def)
    have m': "m' = m\<lparr>jcSeq := jcSeq m + 1, jcByKey := AList.update ?key i (jcByKey m), jcByID := AList.update i j (jcByID m)\<rparr>"
      and r: "r = Ok h"
      using S new n by (auto simp: Submit_def Let_def i_def seqID_def h_def j_def)
    have fresh: "map_of (jcByID m) i = None"
    proof (rule ccontr)
      assume "map_of (jcByID m) i \<noteq> None"
      then have "\<exists>k \<le> unat (jcSeq m). i = seqID (jcBackend m) k"
        using ok unfolding jc_ok_def job_ok_def by blast
      then show False by (auto simp: i_def n_def)
    qed
    have ph: "phaseOf m' jj = phaseOf m jj" for jj using m' by (simp add: phaseOf_def)
    have "job_ok m' i j"
      using ok fresh m' n by (auto simp: job_ok_def jc_ok_def phaseOf_def j_def h_def newHandle_def i_def)
    moreover have "job_ok m' k jj" if "map_of (jcByID m) k = Some jj" for k jj
      using ok that ph [of jj] m' n unfolding jc_ok_def job_ok_def n_def by fastforce
    ultimately have ok': "jc_ok m'"
      using ok m' fresh by (auto simp: jc_ok_def split: if_splits)
    have "Option.bind (akey (abs_jobs m) ?key) (ajob (abs_jobs m)) = None"
      using new(3) by (cases "map_of (jcByKey m) ?key") (simp_all add: abs_jobs_def)
    moreover have "(\<lambda>k. map_option (\<lambda>jj. (jHandle jj, phaseOf m' jj)) (map_of (jcByID m') k)) =
        (\<lambda>k. map_option (\<lambda>jj. (jHandle jj, phaseOf m jj)) (map_of (jcByID m) k))(i \<mapsto> (h, Queued))"
      using m' ph by (auto simp: phaseOf_def j_def)
    ultimately show ?thesis
      using new(1,2) ok' n r m' by (simp add: abs_jobs_def Let_def n_def i_def h_def)
  qed
qed

lemma cancel_refines:
  assumes ok: "jc_ok m" and C: "Cancel h m = (r, m')"
  shows "a_exec (OpCancel h) (abs_jobs m) = (RCancel r, abs_jobs m') \<and> jc_ok m' \<and> jcSeq m' = jcSeq m"
proof (cases "findJob h m")
  case None
  then show ?thesis using C ok by (simp add: Cancel_def aFind_abs)
next
  case (Some j)
  note jm = findJob_Some [OF Some]
  have jo: "job_ok m (hBackendID h) j" using ok jm by (simp add: jc_ok_def)
  show ?thesis
  proof (cases "jTerminal j")
    case True
    then show ?thesis using C ok Some abs_job_triv [OF jm] by (auto simp: Cancel_def aFind_abs)
  next
    case False
    let ?j = "j\<lparr>cancelReq := True\<rparr>"
    have m': "m' = m\<lparr>jcByID := AList.update (hBackendID h) ?j (jcByID m), jcReceipt := jcReceipt m\<rparr>"
      using C Some False by (cases m) (auto simp: Cancel_def)
    have "job_ok m' (hBackendID h) ?j" using jo False m' by (auto simp: job_ok_def phaseOf_def)
    from replace_job [OF ok jm m' refl _ this]
    have rep: "jc_ok m'" "abs_jobs m' =
        (abs_jobs m)\<lparr>ajob := (ajob (abs_jobs m))(hBackendID h \<mapsto> (jHandle j, phaseOf m' ?j))\<rparr>" by simp_all
    have "phaseOf m' ?j = Cancelling" using False by (simp add: phaseOf_def)
    then show ?thesis using C Some False rep m' by (simp add: Cancel_def aFind_abs)
  qed
qed

lemma exec_refines:
  assumes "jc_ok m" "jc_room m"
  shows "a_exec opn (abs_jobs m) = (fst (jc_exec opn m), abs_jobs (snd (jc_exec opn m))) \<and>
         jc_ok (snd (jc_exec opn m)) \<and> unat (jcSeq (snd (jc_exec opn m))) \<le> unat (jcSeq m) + 1"
proof (cases opn)
  case (OpSubmit spec)
  obtain r m' where S: "Submit spec m = (r, m')" by force
  show ?thesis using submit_refines [OF assms S] S OpSubmit by simp
next
  case (OpCancel h)
  obtain r m' where C: "Cancel h m = (r, m')" by force
  show ?thesis using cancel_refines [OF assms(1) C] C OpCancel by simp
next
  case (OpObserve h cursor)
  show ?thesis
  proof (cases "findJob h m")
    case None
    then show ?thesis using assms OpObserve by (simp add: Observe_def aLook_def aFind_abs)
  next
    case (Some j)
    obtain j' m' where p: "progressLocked (hBackendID h) j m = (j', m')" by force
    show ?thesis
      using look_refines [OF assms(1) p Some] progress_refines(6) [OF assms(1) findJob_Some [OF Some] p]
        OpObserve p Some by (simp add: Observe_def)
  qed
next
  case (OpReconcile h)
  show ?thesis
  proof (cases "findJob h m")
    case None
    then show ?thesis using assms OpReconcile by (simp add: Reconcile_def aLook_def aFind_abs)
  next
    case (Some j)
    obtain j' m' where p: "progressLocked (hBackendID h) j m = (j', m')" by force
    show ?thesis
      using look_refines [OF assms(1) p Some] progress_refines(6) [OF assms(1) findJob_Some [OF Some] p]
        OpReconcile p Some by (simp add: Reconcile_def)
  qed
qed

text \<open>Whole histories of calls, in the order the mutex gives them.\<close>

fun jc_run :: "job_op list \<Rightarrow> jobControl \<Rightarrow> job_result list" where
  "jc_run [] m = []"
| "jc_run (opn # ops) m = fst (jc_exec opn m) # jc_run ops (snd (jc_exec opn m))"

fun a_run :: "job_op list \<Rightarrow> ajobs \<Rightarrow> job_result list" where
  "a_run [] a = []"
| "a_run (opn # ops) a = fst (a_exec opn a) # a_run ops (snd (a_exec opn a))"

lemma run_refines:
  "jc_ok m \<Longrightarrow> unat (jcSeq m) + length ops < 2 ^ 64 \<Longrightarrow> jc_run ops m = a_run ops (abs_jobs m)"
proof (induction ops arbitrary: m)
  case (Cons opn ops)
  have "jc_room m" using Cons.prems(2) by (simp add: jc_room_def)
  note e = exec_refines [OF Cons.prems(1) this, of opn]
  have "jc_run ops (snd (jc_exec opn m)) = a_run ops (abs_jobs (snd (jc_exec opn m)))"
    using e Cons.prems(2) by (intro Cons.IH) auto
  then show ?case using e by simp
qed simp

definition a_new :: "string \<Rightarrow> ajobs" where
  "a_new backend = \<lparr>abackend = (if backend = [] then ''memory'' else backend), acount = 0,
                    akey = (\<lambda>_. None), ajob = (\<lambda>_. None)\<rparr>"

text \<open>C6: The in-memory backend refines the port's specification: over every history of submissions,
  observations, cancellations and reconciliations it answers exactly as a table that knows of each
  job only its handle and whether it is queued, being cancelled, completed or cancelled.  In
  particular a submission key names one job for ever, a job ends once, and a job whose cancellation
  was accepted before anyone observed it never completes.\<close>

theorem jc_refines:
  assumes "length ops < 2 ^ 64"
  shows "jc_run ops (NewMemoryJobControl backend) = a_run ops (a_new backend)"
proof -
  have "jc_ok (NewMemoryJobControl backend)" "abs_jobs (NewMemoryJobControl backend) = a_new backend"
    by (simp_all add: jc_ok_def NewMemoryJobControl_def abs_jobs_def a_new_def)
  then show ?thesis
    using run_refines [of "NewMemoryJobControl backend" ops] assms by (simp add: NewMemoryJobControl_def)
qed

definition demo_spec :: JobSpec where
  "demo_spec =
     \<lparr>jsScope = \<lparr>Environment = [], SAccount = [], SRegion = [], Project = [], Repository = [], TrustDomain = []\<rparr>,
      jsRunID = ''r'', jsAttemptID = ''a'', jsGeneration = ''g'', jsSubmissionKey = ''k'', jsMode = [],
      jsDialect = [], jsProfile = [], jsSchedulerOwner = [], jsSource = zeroBlob, jsNativeConfig = zeroBlob,
      jsToolLock = zeroBlob, jsInputManifest = zeroBlob, jsRequirements = [], jsSecretRefs = [],
      jsSemanticDueAt = [], jsSafetyLimitNS = 0\<rparr>"

theorem jc_refines_witness:
  "jc_run [OpSubmit demo_spec, OpCancel (newHandle demo_spec ''b'' ''b-1''),
           OpObserve (newHandle demo_spec ''b'' ''b-1'') ''b-1:accepted''] (NewMemoryJobControl ''b'') =
     [RHandle (Ok (newHandle demo_spec ''b'' ''b-1'')), RCancel None,
      RObservation (Ok (view ''b'' (newHandle demo_spec ''b'' ''b-1'') Cancelled ''b-1:accepted''))]"
proof -
  have "seqID ''b'' (Suc 0) = ''b-1''" by code_simp
  then show ?thesis
    by (subst jc_refines)
       (simp_all add: a_new_def demo_spec_def Let_def aFind_def aLook_def over_def newHandle_def)
qed

end
