(* ===== verification/DdbExpr.thy ===== *)
theory DdbExpr
  imports GoVal
begin

text \<open>
  DynamoDB expressions (\<^verbatim>\<open>internal/services/aws/dynamodb/expr/expr.go\<close>): the parser of condition,
  filter and update expressions, their evaluation against an item, updates and projections.

  Attribute values are dynamic values.  \<^verbatim>\<open>eval\<close> returns a value together with an error, and several
  callers keep the value and drop the error, so \<open>eval\<close> returns the pair.  An update changes the item
  in place also when it fails later on, so \<open>ApplyUpdate\<close> returns the item in both cases.  The
  conversions between numbers and text (\<^verbatim>\<open>strconv.ParseFloat\<close>, \<^verbatim>\<open>strconv.FormatFloat\<close>,
  \<^verbatim>\<open>fmt.Sprint\<close>, \<^verbatim>\<open>fmt.Sscanf\<close>) are the record \<open>fmtlib\<close>.
\<close>

record fmtlib =
  ParseFloat :: "string \<Rightarrow> f64 \<times> bool"
  FormatFloat :: "f64 \<Rightarrow> string"
  SprintV :: "gval \<Rightarrow> string"
  ScanIndex :: "string \<Rightarrow> int option"

text \<open>Addition and subtraction of doubles, with the infinities.\<close>

fun f64_neg :: "f64 \<Rightarrow> f64" where
  "f64_neg (Fin q) = Fin (- q)"
| "f64_neg PosInf = NegInf"
| "f64_neg NegInf = PosInf"
| "f64_neg NaN = NaN"

fun f64_add :: "f64 \<Rightarrow> f64 \<Rightarrow> f64" where
  "f64_add NaN _ = NaN"
| "f64_add _ NaN = NaN"
| "f64_add (Fin a) (Fin b) = f64_of_rat (a + b)"
| "f64_add PosInf NegInf = NaN"
| "f64_add NegInf PosInf = NaN"
| "f64_add PosInf _ = PosInf"
| "f64_add NegInf _ = NegInf"
| "f64_add (Fin _) b = b"

section \<open>Scanning\<close>

definition depthStep :: "char \<Rightarrow> int \<Rightarrow> int" where
  "depthStep c d = (if c = CHR ''('' then d + 1 else if c = CHR '')'' then d - 1 else d)"

fun indexTopLoop :: "string \<Rightarrow> int \<Rightarrow> nat \<Rightarrow> string \<Rightarrow> nat option" where
  "indexTopLoop opn depth i [] = None"
| "indexTopLoop opn depth i (c # s) =
     (if length (c # s) < length opn then None
      else let d = depthStep c depth in
        if d = 0 \<and> HasPrefix (c # s) opn then Some i
        else indexTopLoop opn d (i + 1) s)"

definition indexTop :: "string \<Rightarrow> string \<Rightarrow> nat option" where
  "indexTop s opn = indexTopLoop opn 0 0 s"

text \<open>The loop of \<open>unwrapParens\<close>: \<open>None\<close> when the first parenthesis closes before the end, otherwise the
  depth reached at the end.\<close>

fun closesLate :: "int \<Rightarrow> string \<Rightarrow> int option" where
  "closesLate depth [] = Some depth"
| "closesLate depth (c # s) =
     (let d = depthStep c depth in
      if c = CHR '')'' \<and> d = 0 \<and> s \<noteq> [] then None else closesLate d s)"

definition unwrapParens :: "string \<Rightarrow> string \<times> bool" where
  "unwrapParens s0 =
     (let s = TrimSpace s0 in
      if length s < 2 \<or> hd s \<noteq> CHR ''('' \<or> last s \<noteq> CHR '')'' then (s, False)
      else if closesLate 0 s \<noteq> Some 0 then (s, False)
      else (TrimSpace (butlast (tl s)), True))"

fun splitArgsLoop :: "int \<Rightarrow> string \<Rightarrow> string \<Rightarrow> string list" where
  "splitArgsLoop depth cur [] = [TrimSpace cur]"
| "splitArgsLoop depth cur (c # s) =
     (let d = depthStep c depth in
      if c = CHR '','' \<and> d = 0 then TrimSpace cur # splitArgsLoop d [] s
      else splitArgsLoop d (cur @ [c]) s)"

definition splitArgs :: "string \<Rightarrow> string list" where
  "splitArgs s = splitArgsLoop 0 [] s"

definition clauseStart :: "string \<Rightarrow> bool" where
  "clauseStart s \<longleftrightarrow>
     HasPrefix s '' SET '' \<or> HasPrefix s '' REMOVE '' \<or> HasPrefix s '' ADD '' \<or> HasPrefix s '' DELETE ''"

fun splitTopLoop :: "int \<Rightarrow> string \<Rightarrow> string \<Rightarrow> string list" where
  "splitTopLoop depth cur [] = [cur]"
| "splitTopLoop depth cur (c # s) =
     (let d = depthStep c depth in
      if d = 0 \<and> s \<noteq> [] \<and> clauseStart (c # s) then cur # splitTopLoop d [] s
      else splitTopLoop d (cur @ [c]) s)"

definition splitTop :: "string \<Rightarrow> string list" where
  "splitTop s = splitTopLoop 0 [] s"

section \<open>Lengths\<close>

lemma TrimSpace_length: "length (TrimSpace s) \<le> length s"
proof -
  have "length (dropWhile is_space (rev (dropWhile is_space s))) \<le> length (dropWhile is_space s)"
    by (metis length_dropWhile_le length_rev)
  then show ?thesis
    unfolding TrimSpace_def using length_dropWhile_le [of is_space s] by simp
qed

lemma unwrapParens_length: "unwrapParens s = (t, True) \<Longrightarrow> length t < length s"
proof -
  assume u: "unwrapParens s = (t, True)"
  let ?s = "TrimSpace s"
  have "t = TrimSpace (butlast (tl ?s))" "2 \<le> length ?s"
    using u by (auto simp: unwrapParens_def Let_def split: if_splits)
  then have "length t < length ?s" using TrimSpace_length [of "butlast (tl ?s)"] by simp
  then show ?thesis using TrimSpace_length [of s] by simp
qed

lemma indexTopLoop_bound: "indexTopLoop opn d i s = Some k \<Longrightarrow> i \<le> k \<and> k + length opn \<le> i + length s"
proof (induction opn d i s rule: indexTopLoop.induct)
  case (2 opn d i c s)
  then show ?case by (auto simp: Let_def split: if_splits)
qed simp

lemma indexTop_bound: "indexTop s opn = Some k \<Longrightarrow> k + length opn \<le> length s"
  using indexTopLoop_bound [of opn 0 0 s k] by (simp add: indexTop_def)

lemma splitArgsLoop_length: "a \<in> set (splitArgsLoop d cur s) \<Longrightarrow> length a \<le> length cur + length s"
proof (induction d cur s rule: splitArgsLoop.induct)
  case (1 d cur)
  then show ?case using TrimSpace_length [of cur] by simp
next
  case (2 d cur c s)
  then show ?case using TrimSpace_length [of cur] by (auto simp: Let_def split: if_splits)
qed

lemma splitArgs_length: "a \<in> set (splitArgs s) \<Longrightarrow> length a \<le> length s"
  using splitArgsLoop_length [of a 0 "[]" s] by (simp add: splitArgs_def)

section \<open>Parsing\<close>

datatype node = Val string | Node string "node list"

function stripParens :: "string \<Rightarrow> string" where
  "stripParens s = (case unwrapParens s of (inner, ok) \<Rightarrow> if ok then stripParens inner else s)"
  by pat_completeness auto
termination
  by (relation "measure length") (auto dest: unwrapParens_length [OF sym])

declare stripParens.simps [simp del]

lemma stripParens_length: "length (stripParens s) \<le> length s"
proof (induction s rule: stripParens.induct)
  case (1 s)
  obtain t b where u: "unwrapParens s = (t, b)" by force
  show ?case
    using "1.IH" [of t b] u unwrapParens_length [of s t] by (cases b) (auto simp: stripParens.simps [of s])
qed

text \<open>The operators the code tries in turn, the first that occurs outside parentheses.\<close>

fun firstTop :: "string list \<Rightarrow> string \<Rightarrow> (string \<times> nat) option" where
  "firstTop [] s = None"
| "firstTop (opn # ops) s = (case indexTop s opn of Some i \<Rightarrow> Some (opn, i) | None \<Rightarrow> firstTop ops s)"

definition logicAt :: "string \<Rightarrow> (string \<times> nat) option" where
  "logicAt s = firstTop ['' OR '', '' AND ''] s"

definition compareAt :: "string \<Rightarrow> (string \<times> nat) option" where
  "compareAt s = firstTop [''<>'', ''<='', ''>='', ''='', ''<'', ''>''] s"

definition sumAt :: "string \<Rightarrow> (string \<times> nat) option" where
  "sumAt s = firstTop ['' + '', '' - ''] s"

definition betweenAt :: "string \<Rightarrow> (nat \<times> nat) option" where
  "betweenAt s =
     (case indexTop s '' BETWEEN '' of
        None \<Rightarrow> None
      | Some i \<Rightarrow> map_option (\<lambda>j. (i, j)) (indexTop (drop (i + 9) s) '' AND ''))"

definition callAt :: "string \<Rightarrow> nat option" where
  "callAt s =
     (case IndexByte s (CHR ''('') of
        Some i \<Rightarrow> if 0 < i \<and> HasSuffix s '')'' then Some i else None
      | None \<Rightarrow> None)"

lemma firstTop_bound: "firstTop ops s = Some (opn, i) \<Longrightarrow> opn \<in> set ops \<and> i + length opn \<le> length s"
  by (induction ops s rule: firstTop.induct) (auto split: option.splits dest: indexTop_bound)

lemma opAt_bound:
  "logicAt s = Some (opn, i) \<Longrightarrow> opn \<noteq> [] \<and> i + length opn \<le> length s"
  "compareAt s = Some (opn, i) \<Longrightarrow> opn \<noteq> [] \<and> i + length opn \<le> length s"
  "sumAt s = Some (opn, i) \<Longrightarrow> opn \<noteq> [] \<and> i + length opn \<le> length s"
  by (drule firstTop_bound [OF trans [OF logicAt_def [symmetric]]] firstTop_bound [OF trans [OF compareAt_def [symmetric]]]
      firstTop_bound [OF trans [OF sumAt_def [symmetric]]], auto)+

lemma callAt_bound: "callAt s = Some i \<Longrightarrow> i < length s"
  by (auto simp: callAt_def split: option.splits if_splits dest: IndexByte_Some)

lemma betweenAt_bound: "betweenAt s = Some (i, j) \<Longrightarrow> i + 9 + j + 5 \<le> length s"
  by (auto simp: betweenAt_def split: option.splits dest!: indexTop_bound)

lemma HasPrefix_length: "HasPrefix s p \<Longrightarrow> length p \<le> length s"
  by (metis HasPrefix_def length_take min.cobounded1)

lemma TrimPrefix_length: "length (TrimPrefix s p) \<le> length s"
  by (simp add: TrimPrefix_def)

lemma TrimSuffix_length: "length (TrimSuffix s p) \<le> length s"
  by (simp add: TrimSuffix_def)

definition inBody :: "string \<Rightarrow> nat \<Rightarrow> string" where
  "inBody s i = TrimSuffix (TrimPrefix (TrimSpace (drop (i + 4) s)) ''('') '')''"

lemma inBody_length: "indexTop s '' IN '' = Some i \<Longrightarrow> length (inBody s i) < length s"
proof -
  assume "indexTop s '' IN '' = Some i"
  then have "length (drop (i + 4) s) < length s" using indexTop_bound by fastforce
  then show ?thesis
    unfolding inBody_def using TrimSpace_length TrimPrefix_length TrimSuffix_length
    by (meson le_less_trans)
qed

text \<open>Every text the parser calls itself on is shorter than its own.\<close>

lemma parse_shrinks:
  assumes "s = stripParens (TrimSpace s0)"
  shows "betweenAt s = Some (i, j) \<Longrightarrow> length (take i s) < length s0"
    "betweenAt s = Some (i, j) \<Longrightarrow> length (take j (drop (i + 9) s)) < length s0"
    "betweenAt s = Some (i, j) \<Longrightarrow> length (drop (j + 5) (drop (i + 9) s)) < length s0"
    "logicAt s = Some (opn, i) \<or> compareAt s = Some (opn, i) \<or> sumAt s = Some (opn, i) \<Longrightarrow>
       length (take i s) < length s0 \<and> length (drop (i + length opn) s) < length s0"
    "HasPrefix s ''NOT '' \<Longrightarrow> length (TrimPrefix s ''NOT '') < length s0"
    "indexTop s '' IN '' = Some i \<Longrightarrow> length (take i s) < length s0"
    "indexTop s '' IN '' = Some i \<Longrightarrow> a \<in> set (splitArgs (inBody s i)) \<Longrightarrow> length a < length s0"
    "callAt s = Some i \<Longrightarrow> a \<in> set (splitArgs (butlast (drop (i + 1) s))) \<Longrightarrow> length a < length s0"
proof -
  have st: "length s \<le> length s0"
    unfolding assms using stripParens_length [of "TrimSpace s0"] TrimSpace_length [of s0] by simp
  show "length (take i s) < length s0" "length (take j (drop (i + 9) s)) < length s0"
    "length (drop (j + 5) (drop (i + 9) s)) < length s0" if "betweenAt s = Some (i, j)"
    using betweenAt_bound [OF that] st by simp_all
  show "length (take i s) < length s0 \<and> length (drop (i + length opn) s) < length s0"
    if "logicAt s = Some (opn, i) \<or> compareAt s = Some (opn, i) \<or> sumAt s = Some (opn, i)"
    using opAt_bound [of s opn i] that st by (cases opn) auto
  show "length (TrimPrefix s ''NOT '') < length s0" if "HasPrefix s ''NOT ''"
    using that HasPrefix_length [OF that] st by (simp add: TrimPrefix_def)
  show "length (take i s) < length s0" if "indexTop s '' IN '' = Some i"
    using indexTop_bound [OF that] st by simp
  show "length a < length s0" if "indexTop s '' IN '' = Some i" "a \<in> set (splitArgs (inBody s i))"
    using splitArgs_length [OF that(2)] inBody_length [OF that(1)] st by simp
  show "length a < length s0" if "callAt s = Some i" "a \<in> set (splitArgs (butlast (drop (i + 1) s)))"
    using splitArgs_length [OF that(2)] callAt_bound [OF that(1)] st by simp
qed

function parse :: "string \<Rightarrow> node" where
  "parse s0 =
     (let s = stripParens (TrimSpace s0) in
      case betweenAt s of
        Some (i, j) \<Rightarrow>
          Node ''BETWEEN'' [parse (take i s), parse (take j (drop (i + 9) s)), parse (drop (j + 5) (drop (i + 9) s))]
      | None \<Rightarrow>
      (case logicAt s of
         Some (opn, i) \<Rightarrow> Node (TrimSpace opn) [parse (take i s), parse (drop (i + length opn) s)]
       | None \<Rightarrow>
       if HasPrefix s ''NOT '' then Node ''NOT'' [parse (TrimPrefix s ''NOT '')]
       else
       (case indexTop s '' IN '' of
          Some i \<Rightarrow> Node ''IN'' (parse (take i s) # map parse (splitArgs (inBody s i)))
        | None \<Rightarrow>
        (case compareAt s of
           Some (opn, i) \<Rightarrow> Node opn [parse (take i s), parse (drop (i + length opn) s)]
         | None \<Rightarrow>
         (case sumAt s of
            Some (opn, i) \<Rightarrow> Node (TrimSpace opn) [parse (take i s), parse (drop (i + length opn) s)]
          | None \<Rightarrow>
          (case callAt s of
             Some i \<Rightarrow> Node (take i s) (map parse (splitArgs (butlast (drop (i + 1) s))))
           | None \<Rightarrow> Val (TrimSpace s)))))))"
  by pat_completeness auto
termination
  by (relation "measure length"; simp only: in_measure wf_measure) (metis parse_shrinks [OF refl])+

declare parse.simps [simp del]

section \<open>Attribute values\<close>

definition unwrap :: "fmtlib \<Rightarrow> gval \<Rightarrow> gval" where
  "unwrap lib v =
     (case v of
        VMap m \<Rightarrow>
          (case gget m ''S'' of
             VStr s \<Rightarrow> VStr s
           | _ \<Rightarrow>
             (case gget m ''N'' of
                VStr n \<Rightarrow> VFloat (fst (ParseFloat lib n))
              | _ \<Rightarrow> (case gget m ''BOOL'' of VBool b \<Rightarrow> VBool b | _ \<Rightarrow> v)))
      | _ \<Rightarrow> v)"

fun toAttr :: "fmtlib \<Rightarrow> gval \<Rightarrow> gval" where
  "toAttr lib (VStr s) = VMap [(''S'', VStr s)]"
| "toAttr lib (VFloat f) = VMap [(''N'', VStr (FormatFloat lib f))]"
| "toAttr lib (VBool b) = VMap [(''BOOL'', VBool b)]"
| "toAttr lib (VList xs) = VMap [(''L'', VList (map (toAttr lib) xs))]"
| "toAttr lib v = v"

definition asList :: "gval \<Rightarrow> gval list" where
  "asList v =
     (case v of
        VMap m \<Rightarrow>
          (case gget m ''L'' of
             VList l \<Rightarrow> l
           | _ \<Rightarrow> (case gget m ''SS'' of VList ss \<Rightarrow> ss | _ \<Rightarrow> [v]))
      | VList l \<Rightarrow> l
      | VNil \<Rightarrow> []
      | _ \<Rightarrow> [v])"

definition typeKeys :: "string list" where
  "typeKeys = [''S'', ''N'', ''B'', ''BOOL'', ''NULL'', ''M'', ''L'', ''SS'', ''NS'', ''BS'']"

definition attrType :: "gval \<Rightarrow> string" where
  "attrType v =
     (case v of
        VMap m \<Rightarrow> (case find (\<lambda>k. map_of m k \<noteq> None) typeKeys of Some k \<Rightarrow> k | None \<Rightarrow> [])
      | _ \<Rightarrow> [])"

definition toFloatV :: "fmtlib \<Rightarrow> gval \<Rightarrow> f64" where
  "toFloatV lib v =
     (case v of
        VFloat f \<Rightarrow> f
      | VInt i \<Rightarrow> f64_of_int i
      | VStr s \<Rightarrow> fst (ParseFloat lib s)
      | _ \<Rightarrow> Fin 0)"

definition compareV :: "fmtlib \<Rightarrow> gval \<Rightarrow> gval \<Rightarrow> int" where
  "compareV lib a b =
     (case (a, b) of
        (VStr s, VStr t) \<Rightarrow> (if s < t then - 1 else if s = t then 0 else 1)
      | _ \<Rightarrow>
          (let x = toFloatV lib a; y = toFloatV lib b in
           if f64_lt x y then - 1 else if f64_lt y x then 1 else 0))"

text \<open>The members of a list that were not met before, by their printed form.\<close>

fun addNew :: "fmtlib \<Rightarrow> string list \<Rightarrow> gval list \<Rightarrow> string list \<times> gval list" where
  "addNew lib exist [] = (exist, [])"
| "addNew lib exist (x # xs) =
     (let s = SprintV lib (unwrap lib x) in
      if s \<in> set exist then addNew lib exist xs
      else (case addNew lib (s # exist) xs of (e, out) \<Rightarrow> (e, x # out)))"

definition addAttr :: "fmtlib \<Rightarrow> gval \<Rightarrow> gval \<Rightarrow> gval" where
  "addAttr lib cur delta =
     (case (case delta of VMap dm \<Rightarrow> gget dm ''SS'' | _ \<Rightarrow> VNil) of
        VList ss \<Rightarrow>
          (let (exist, old) = addNew lib [] (case cur of VMap _ \<Rightarrow> asList cur | _ \<Rightarrow> [])
           in VMap [(''SS'', VList (old @ snd (addNew lib exist ss)))])
      | _ \<Rightarrow>
          VMap [(''N'', VStr (FormatFloat lib
             (f64_add (toFloatV lib (unwrap lib cur)) (toFloatV lib (unwrap lib delta)))))])"

definition deleteFromSet :: "fmtlib \<Rightarrow> gval \<Rightarrow> gval \<Rightarrow> gval" where
  "deleteFromSet lib cur delta =
     (let remove = map (\<lambda>x. SprintV lib (unwrap lib x)) (asList delta)
      in VMap [(''SS'', VList (filter (\<lambda>x. SprintV lib (unwrap lib x) \<notin> set remove) (asList cur)))])"

section \<open>Evaluation\<close>

datatype expr_err = NeedsOperands string | UnsupportedOp string | IndexPanic

fun valOf :: "node \<Rightarrow> string" where
  "valOf (Val v) = v"
| "valOf (Node _ _) = []"

definition kid :: "(gval \<times> expr_err option) list \<Rightarrow> gval \<Rightarrow> nat \<Rightarrow> gval" where
  "kid vs d i = (if i < length vs then fst (vs ! i) else d)"

definition kidVal :: "node list \<Rightarrow> nat \<Rightarrow> string" where
  "kidVal ks i = (if i < length ks then valOf (ks ! i) else [])"

definition evalVal :: "fmtlib \<Rightarrow> gobj \<Rightarrow> gobj \<Rightarrow> string \<Rightarrow> gval" where
  "evalVal lib item vals v =
     (if HasPrefix v '':'' then unwrap lib (gget vals v)
      else case map_of item v of
        Some x \<Rightarrow> unwrap lib x
      | None \<Rightarrow>
          if v = ''true'' then VBool True
          else if v = ''false'' then VBool False
          else (case ParseFloat lib v of (f, True) \<Rightarrow> VFloat f | (_, False) \<Rightarrow> VStr v))"

definition cmpOps :: "(string \<times> (int \<Rightarrow> bool)) list" where
  "cmpOps = [(''='', \<lambda>c. c = 0), (''<>'', \<lambda>c. c \<noteq> 0), (''<'', \<lambda>c. c < 0), (''>'', \<lambda>c. 0 < c),
             (''<='', \<lambda>c. c \<le> 0), (''>='', \<lambda>c. 0 \<le> c)]"

text \<open>The value of an operator from its operands' values \<open>vs\<close>, each with its error; \<open>d\<close> is the value of the
  missing operand, the empty text.\<close>

definition applyOp ::
  "fmtlib \<Rightarrow> gobj \<Rightarrow> gval \<Rightarrow> string \<Rightarrow> node list \<Rightarrow> (gval \<times> expr_err option) list \<Rightarrow> gval \<times> expr_err option" where
  "applyOp lib item d opn ks vs =
     (let a = kid vs d 0; b = kid vs d 1 in
      if opn = ''AND'' then
        (if length ks < 2 then (VBool False, Some (NeedsOperands ''AND''))
         else case snd (vs ! 0) of
           Some e \<Rightarrow> (VNil, Some e)
         | None \<Rightarrow> (case snd (vs ! 1) of
             Some e \<Rightarrow> (VNil, Some e)
           | None \<Rightarrow> (VBool (as_bool a \<and> as_bool b), None)))
      else if opn = ''OR'' then
        (if length ks < 2 then (VBool False, Some (NeedsOperands ''OR''))
         else (VBool (as_bool a \<or> as_bool b), None))
      else if opn = ''NOT'' then
        (if length ks < 1 then (VBool False, Some (NeedsOperands ''NOT''))
         else (VBool (\<not> as_bool a), None))
      else case map_of cmpOps opn of
        Some test \<Rightarrow> (VBool (test (compareV lib a b)), None)
      | None \<Rightarrow>
      if opn = ''BETWEEN'' then
        (VBool (0 \<le> compareV lib a b \<and> compareV lib a (kid vs d 2) \<le> 0), None)
      else if opn = ''attribute_exists'' then (VBool (map_of item (kidVal ks 0) \<noteq> None), None)
      else if opn = ''attribute_not_exists'' then (VBool (map_of item (kidVal ks 0) = None), None)
      else if opn = ''begins_with'' then (VBool (HasPrefix (SprintV lib a) (SprintV lib b)), None)
      else if opn = ''contains'' then (VBool (Contains (SprintV lib a) (SprintV lib b)), None)
      else if opn = ''size'' then (VFloat (f64_of_int (int (length (SprintV lib a)))), None)
      else if opn = ''IN'' then (VBool (list_ex (\<lambda>w. compareV lib a (fst w) = 0) (tl vs)), None)
      else if opn = ''attribute_type'' then
        (case map_of item (SprintV lib a) of
           Some raw \<Rightarrow> (VBool (attrType raw = SprintV lib b), None)
         | None \<Rightarrow>
             if ks = [] then (VNil, Some IndexPanic)
             else (VBool (attrType (gget item (valOf (hd ks))) = SprintV lib b), None))
      else if opn = ''+'' then (VFloat (f64_add (toFloatV lib a) (toFloatV lib b)), None)
      else if opn = ''-'' then (VFloat (f64_add (toFloatV lib a) (f64_neg (toFloatV lib b))), None)
      else if opn = ''if_not_exists'' then
        (if ks = [] then (VNil, Some IndexPanic)
         else if map_of item (valOf (hd ks)) = None
         then (if 1 < length vs then vs ! 1 else (d, None))
         else (if 0 < length vs then vs ! 0 else (d, None)))
      else if opn = ''list_append'' then (VList (asList a @ asList b), None)
      else (VNil, Some (UnsupportedOp opn)))"

fun eval :: "fmtlib \<Rightarrow> gobj \<Rightarrow> gobj \<Rightarrow> node \<Rightarrow> gval \<times> expr_err option" where
  "eval lib item vals (Val v) = (evalVal lib item vals v, None)"
| "eval lib item vals (Node opn ks) =
     applyOp lib item (evalVal lib item vals []) opn ks (map (eval lib item vals) ks)"

section \<open>The three entry points\<close>

text \<open>The range over the map of names goes in the map's order.\<close>

definition substNames :: "string \<Rightarrow> gobj \<Rightarrow> string" where
  "substNames s names =
     foldl (\<lambda>s (k, v). case v of VStr str \<Rightarrow> ReplaceAll k str s | _ \<Rightarrow> s) s names"

definition EvalBool :: "fmtlib \<Rightarrow> string \<Rightarrow> gobj \<Rightarrow> gobj \<Rightarrow> gobj \<Rightarrow> (expr_err, bool) res" where
  "EvalBool lib ex item names vals =
     (case eval lib item vals (parse (substNames ex names)) of
        (v, Some e) \<Rightarrow> Err e
      | (v, None) \<Rightarrow> Ok (as_bool v))"

type_synonym upd = "(expr_err, string list) res \<times> gobj"

definition setOne :: "fmtlib \<Rightarrow> gobj \<Rightarrow> string \<Rightarrow> string list \<Rightarrow> gobj \<Rightarrow> upd" where
  "setOne lib vals assign touched item =
     (case Cut assign ''='' of
        (l, r, ok) \<Rightarrow>
          if \<not> ok then (Ok touched, item)
          else let name = TrimSpace l in
            case eval lib item vals (parse (TrimSpace r)) of
              (v, Some e) \<Rightarrow> (Err e, item)
            | (v, None) \<Rightarrow> (Ok (touched @ [name]), AList.update name (toAttr lib v) item))"

definition removeOne :: "string \<Rightarrow> string list \<Rightarrow> gobj \<Rightarrow> upd" where
  "removeOne n touched item =
     (let name = TrimSpace n in (Ok (touched @ [name]), AList.delete name item))"

definition combineOne ::
  "(gval \<Rightarrow> gval \<Rightarrow> gval) \<Rightarrow> fmtlib \<Rightarrow> gobj \<Rightarrow> string \<Rightarrow> string list \<Rightarrow> gobj \<Rightarrow> upd" where
  "combineOne f lib vals pair touched item =
     (case Fields (TrimSpace pair) of
        name # w # ws \<Rightarrow>
          (case eval lib item vals (parse (Join (w # ws) '' '')) of
             (v, Some e) \<Rightarrow> (Err e, item)
           | (v, None) \<Rightarrow> (Ok (touched @ [name]), AList.update name (f (gget item name) v) item))
      | _ \<Rightarrow> (Ok touched, item))"

fun forEach :: "(string \<Rightarrow> string list \<Rightarrow> gobj \<Rightarrow> upd) \<Rightarrow> string list \<Rightarrow> string list \<Rightarrow> gobj \<Rightarrow> upd" where
  "forEach f [] touched item = (Ok touched, item)"
| "forEach f (x # xs) touched item =
     (case f x touched item of
        (Inl e, item') \<Rightarrow> (Inl e, item')
      | (Inr t, item') \<Rightarrow> forEach f xs t item')"

definition clause :: "fmtlib \<Rightarrow> gobj \<Rightarrow> string \<Rightarrow> string list \<Rightarrow> gobj \<Rightarrow> upd" where
  "clause lib vals part0 touched item =
     (let part = TrimSpace part0 in
      if HasPrefix part ''SET '' then forEach (setOne lib vals) (splitArgs (TrimPrefix part ''SET '')) touched item
      else if HasPrefix part ''REMOVE '' then forEach removeOne (splitArgs (TrimPrefix part ''REMOVE '')) touched item
      else if HasPrefix part ''ADD '' then
        forEach (combineOne (addAttr lib) lib vals) (splitArgs (TrimPrefix part ''ADD '')) touched item
      else if HasPrefix part ''DELETE '' then
        forEach (combineOne (deleteFromSet lib) lib vals) (splitArgs (TrimPrefix part ''DELETE '')) touched item
      else (Ok touched, item))"

definition ApplyUpdate :: "fmtlib \<Rightarrow> string \<Rightarrow> gobj \<Rightarrow> gobj \<Rightarrow> gobj \<Rightarrow> upd" where
  "ApplyUpdate lib ex item names vals =
     forEach (clause lib vals) (splitTop (substNames ex names)) [] item"

fun walkLoop :: "fmtlib \<Rightarrow> string list \<Rightarrow> gval \<Rightarrow> gval option" where
  "walkLoop lib [] cur = Some cur"
| "walkLoop lib (seg # segs) cur =
     (case cur of
        VMap m \<Rightarrow>
          (let (name, idx) = (case IndexByte seg (CHR ''['') of
                 Some i \<Rightarrow> (take i seg, case ScanIndex lib (drop i seg) of Some n \<Rightarrow> n | None \<Rightarrow> - 1)
               | None \<Rightarrow> (seg, - 1));
               found = (case map_of m name of
                 Some v \<Rightarrow> Some v
               | None \<Rightarrow> (case gget m ''M'' of VMap inner \<Rightarrow> map_of inner name | _ \<Rightarrow> None))
           in case found of
                None \<Rightarrow> None
              | Some v \<Rightarrow>
                  if 0 \<le> idx
                  then if int (length (asList v)) \<le> idx then None
                       else walkLoop lib segs (asList v ! nat idx)
                  else walkLoop lib segs v)
      | _ \<Rightarrow> None)"

definition walkPath :: "fmtlib \<Rightarrow> gobj \<Rightarrow> string \<Rightarrow> gval option" where
  "walkPath lib item path = walkLoop lib (SplitByte (CHR ''.'') path) (VMap item)"

definition setPath :: "gobj \<Rightarrow> string \<Rightarrow> gval \<Rightarrow> gobj" where
  "setPath out path v =
     (let out1 = AList.update path v out in
      if CHR ''.'' \<notin> set path \<and> CHR ''['' \<notin> set path then out1
      else AList.update (hd (SplitByte (CHR ''.'') path)) v out1)"

definition projectOne :: "fmtlib \<Rightarrow> gobj \<Rightarrow> gobj \<Rightarrow> string \<Rightarrow> gobj" where
  "projectOne lib item out part0 =
     (let part = TrimSpace part0 in
      if part = [] then out
      else case walkPath lib item part of Some v \<Rightarrow> setPath out part v | None \<Rightarrow> out)"

definition Project :: "fmtlib \<Rightarrow> string \<Rightarrow> gobj \<Rightarrow> gobj \<Rightarrow> gobj" where
  "Project lib ex item names =
     (if TrimSpace ex = [] then item
      else foldl (projectOne lib item) [] (splitArgs (substNames ex names)))"

section \<open>Balanced text\<close>

fun net :: "int \<Rightarrow> string \<Rightarrow> int" where
  "net d [] = d"
| "net d (c # s) = net (depthStep c d) s"

fun deep :: "int \<Rightarrow> string \<Rightarrow> bool" where
  "deep d [] \<longleftrightarrow> 0 < d"
| "deep d (c # s) \<longleftrightarrow> 0 < d \<and> deep (depthStep c d) s"

definition balanced :: "string \<Rightarrow> bool" where
  "balanced s \<longleftrightarrow> (\<forall>d. net d s = d \<and> (0 < d \<longrightarrow> deep d s))"

definition flat :: "string \<Rightarrow> bool" where
  "flat s \<longleftrightarrow> CHR ''('' \<notin> set s \<and> CHR '')'' \<notin> set s"

lemma net_append [simp]: "net d (s @ t) = net (net d s) t"
  by (induction s arbitrary: d) auto

lemma deep_append: "deep d s \<Longrightarrow> deep (net d s) t \<Longrightarrow> deep d (s @ t)"
  by (induction s arbitrary: d) auto

lemma balanced_append: "balanced s \<Longrightarrow> balanced t \<Longrightarrow> balanced (s @ t)"
  unfolding balanced_def using deep_append by (metis net_append)

lemma balanced_flat: "flat s \<Longrightarrow> balanced s"
proof -
  have "flat s \<Longrightarrow> net d s = d \<and> (0 < d \<longrightarrow> deep d s)" for d
    by (induction s arbitrary: d) (auto simp: flat_def depthStep_def)
  then show "flat s \<Longrightarrow> balanced s" by (simp add: balanced_def)
qed

lemma balanced_paren: "balanced s \<Longrightarrow> balanced (CHR ''('' # s @ '')'')"
proof -
  assume s: "balanced s"
  have "deep (d + 1) (s @ '')'')" if "0 < d" for d
    using s that by (intro deep_append) (simp_all add: balanced_def depthStep_def)
  then show ?thesis using s by (simp add: balanced_def depthStep_def)
qed

text \<open>A parenthesised balanced text hides what is inside it from the scan for an operator, and the first
  closing parenthesis that reaches the outside is its own.\<close>

lemma indexTop_deep:
  "deep d s \<Longrightarrow> indexTopLoop opn d i (s @ t) = indexTopLoop opn (net d s) (i + length s) t"
proof (induction s arbitrary: d i)
  case (Cons c s)
  have d: "0 < depthStep c d" "deep (depthStep c d) s"
    using Cons.prems by (auto elim: deep.elims)
  have short: "indexTopLoop opn d' i' t' = None" if "length t' < length opn" for d' i' t'
    using that by (induction t' arbitrary: d' i') auto
  show ?case
  proof (cases "length (c # s @ t) < length opn")
    case True
    then show ?thesis using short by simp
  next
    case False
    then show ?thesis using Cons.IH [OF d(2), of "Suc i"] d(1) by (simp add: Let_def)
  qed
qed simp

lemma indexTop_paren:
  assumes "balanced s" "opn \<noteq> []" "hd opn \<noteq> CHR '')''"
  shows "indexTopLoop opn 0 i (CHR ''('' # s @ CHR '')'' # t) = indexTopLoop opn 0 (i + length s + 2) t"
proof -
  have short: "indexTopLoop opn d' i' t' = None" if "length t' < length opn" for d' i' t'
    using that by (induction t' arbitrary: d' i') auto
  have s: "deep 1 s" "net 1 s = 1" using assms(1) by (simp_all add: balanced_def)
  have no: "\<not> HasPrefix (CHR '')'' # t) opn" using assms(2,3) by (cases opn) auto
  have close: "indexTopLoop opn 1 k (CHR '')'' # t) = indexTopLoop opn 0 (k + 1) t" for k
    using no short by (simp add: depthStep_def)
  have "indexTopLoop opn 1 (i + 1) (s @ CHR '')'' # t) = indexTopLoop opn 0 (i + length s + 2) t"
    using indexTop_deep [OF s(1), of opn "i + 1" "CHR '')'' # t"] close [of "i + 1 + length s"] s(2) by simp
  then show ?thesis using short by (simp add: depthStep_def)
qed

lemma closesLate_deep: "deep d s \<Longrightarrow> closesLate d (s @ t) = closesLate (net d s) t"
proof (induction s arbitrary: d)
  case (Cons c s)
  then have "0 < depthStep c d" "deep (depthStep c d) s" by (auto elim: deep.elims)
  then show ?case using Cons.IH by (simp add: Let_def)
qed simp

lemma closesLate_paren:
  "balanced s \<Longrightarrow> closesLate 0 (CHR ''('' # s @ CHR '')'' # t) = (if t = [] then Some 0 else None)"
  using closesLate_deep [of 1 s "CHR '')'' # t"] by (simp add: balanced_def depthStep_def)

text \<open>Text without parentheses is scanned like a plain search.\<close>

lemma indexTop_flat: "flat s \<Longrightarrow> opn \<noteq> [] \<Longrightarrow> indexTopLoop opn 0 i s = map_option (\<lambda>k. i + k) (Index s opn)"
proof (induction s arbitrary: i)
  case (Cons c s)
  have f: "flat s" and d: "depthStep c 0 = 0" using Cons.prems(1) by (auto simp: flat_def depthStep_def)
  show ?case
  proof (cases "length (c # s) < length opn")
    case True
    have "Index t opn = None" if "length t < length opn" for t
      using that HasPrefix_length by (induction t) (fastforce simp: not_le split: if_splits)+
    then show ?thesis using True by (simp del: Index.simps)
  next
    case False
    then show ?thesis using Cons.IH [OF f Cons.prems(2), of "Suc i"] d
      by (cases "Index s opn") (auto simp: Let_def)
  qed
qed simp

section \<open>Conditions with every operand in parentheses\<close>

datatype cond =
    CCmp string string string
  | CBetween string string string
  | CCall string "string list"
  | CAnd cond cond
  | COr cond cond
  | CNot cond

fun show_cond :: "cond \<Rightarrow> string" where
  "show_cond (CCmp x opn y) = x @ '' '' @ opn @ '' '' @ y"
| "show_cond (CBetween x l h) = x @ '' BETWEEN '' @ l @ '' AND '' @ h"
| "show_cond (CCall f args) = f @ ''('' @ Join args '', '' @ '')''"
| "show_cond (CAnd a b) = ''('' @ show_cond a @ '') AND ('' @ show_cond b @ '')''"
| "show_cond (COr a b) = ''('' @ show_cond a @ '') OR ('' @ show_cond b @ '')''"
| "show_cond (CNot a) = ''NOT ('' @ show_cond a @ '')''"

fun node_of :: "cond \<Rightarrow> node" where
  "node_of (CCmp x opn y) = Node opn [Val x, Val y]"
| "node_of (CBetween x l h) = Node ''BETWEEN'' [Val x, Val l, Val h]"
| "node_of (CCall f args) = Node f (map Val args)"
| "node_of (CAnd a b) = Node ''AND'' [node_of a, node_of b]"
| "node_of (COr a b) = Node ''OR'' [node_of a, node_of b]"
| "node_of (CNot a) = Node ''NOT'' [node_of a]"

definition token :: "string \<Rightarrow> bool" where
  "token w \<longleftrightarrow> w \<noteq> [] \<and> w \<noteq> ''NOT'' \<and>
     list_all (\<lambda>c. \<not> is_space c \<and> c \<notin> set '' ()<>=,'') w"

fun cond_ok :: "cond \<Rightarrow> bool" where
  "cond_ok (CCmp x opn y) \<longleftrightarrow> token x \<and> token y \<and> opn \<in> {''='', ''<>'', ''<'', ''>'', ''<='', ''>=''}"
| "cond_ok (CBetween x l h) \<longleftrightarrow> token x \<and> token l \<and> token h"
| "cond_ok (CCall f args) \<longleftrightarrow> token f \<and> args \<noteq> [] \<and> list_all token args"
| "cond_ok (CAnd a b) \<longleftrightarrow> cond_ok a \<and> cond_ok b"
| "cond_ok (COr a b) \<longleftrightarrow> cond_ok a \<and> cond_ok b"
| "cond_ok (CNot a) \<longleftrightarrow> cond_ok a"

lemma token_chars:
  "token w \<Longrightarrow> c \<in> set w \<Longrightarrow> \<not> is_space c \<and> c \<notin> {CHR '' '', CHR ''('', CHR '')'', CHR ''<'', CHR ''>'', CHR ''='', CHR '',''}"
  by (auto simp: token_def list_all_iff)

lemma token_flat: "token w \<Longrightarrow> flat w"
  using token_chars by (fastforce simp: flat_def)

lemma index_short: "length s < length opn \<Longrightarrow> indexTopLoop opn d i s = None"
  by (induction s arbitrary: d i) auto

lemma index_skip:
  "depthStep c 0 = 0 \<Longrightarrow> \<not> HasPrefix (c # s) opn \<Longrightarrow> indexTopLoop opn 0 i (c # s) = indexTopLoop opn 0 (Suc i) s"
  by (simp add: index_short)

lemma index_hit:
  "depthStep c 0 = 0 \<Longrightarrow> HasPrefix (c # s) opn \<Longrightarrow> indexTopLoop opn 0 i (c # s) = Some i"
  using HasPrefix_length [of "c # s" opn] by simp

lemma index_token:
  "token w \<Longrightarrow> hd opn \<in> {CHR '' '', CHR ''<'', CHR ''>'', CHR ''=''} \<Longrightarrow> opn \<noteq> [] \<Longrightarrow>
     indexTopLoop opn 0 i (w @ s) = indexTopLoop opn 0 (i + length w) s"
proof -
  assume w: "token w" and o: "hd opn \<in> {CHR '' '', CHR ''<'', CHR ''>'', CHR ''=''}" "opn \<noteq> []"
  have "(\<And>c. c \<in> set v \<Longrightarrow> c \<notin> {CHR '' '', CHR ''('', CHR '')'', CHR ''<'', CHR ''>'', CHR ''=''}) \<Longrightarrow>
      indexTopLoop opn 0 i (v @ s) = indexTopLoop opn 0 (i + length v) s" for v
  proof (induction v arbitrary: i)
    case (Cons c v)
    have c: "c \<notin> {CHR '' '', CHR ''('', CHR '')'', CHR ''<'', CHR ''>'', CHR ''=''}" using Cons.prems by simp
    have "\<not> HasPrefix (c # v @ s) opn" using c o by (cases opn) auto
    then show ?case using Cons c by (simp add: index_skip depthStep_def del: indexTopLoop.simps)
  qed simp
  then show ?thesis using token_chars [OF w] by blast
qed

lemma token_prefix: "token w \<Longrightarrow> CHR '' '' \<in> set p \<Longrightarrow> \<not> HasPrefix w p"
  using token_chars [of w "CHR '' ''"] by (metis HasPrefix_def in_set_takeD insertI1)

lemma TrimSpace_ends:
  "s \<noteq> [] \<Longrightarrow> \<not> is_space (hd s) \<Longrightarrow> \<not> is_space (last s) \<Longrightarrow> TrimSpace s = s"
proof -
  assume s: "s \<noteq> []" "\<not> is_space (hd s)" "\<not> is_space (last s)"
  have "dropWhile is_space s = s" using s(1,2) by (cases s) auto
  moreover have "dropWhile is_space (rev s) = rev s" using s(1,3) by (cases s rule: rev_cases) auto
  ultimately show ?thesis by (simp add: TrimSpace_def)
qed

lemma token_ends: "token w \<Longrightarrow> w \<noteq> [] \<and> \<not> is_space (hd w) \<and> \<not> is_space (last w) \<and> hd w \<noteq> CHR ''('' \<and> last w \<noteq> CHR '')''"
  using token_chars [of w "hd w"] token_chars [of w "last w"] by (auto simp: token_def)

lemma token_trim: "token w \<Longrightarrow> TrimSpace w = w \<and> TrimSpace (CHR '' '' # w) = w \<and> TrimSpace (w @ '' '') = w"
proof -
  assume w: "token w"
  have t: "TrimSpace w = w" using token_ends [OF w] TrimSpace_ends by blast
  have "TrimSpace (CHR '' '' # w) = TrimSpace w" by (simp add: TrimSpace_def is_space_def)
  moreover have "dropWhile is_space (w @ u) = w @ u" for u using token_ends [OF w] by (cases w) auto
  moreover have "dropWhile is_space (rev w) = rev w" using token_ends [OF w] by (cases w rule: rev_cases) auto
  ultimately show ?thesis using t by (simp add: TrimSpace_def is_space_def [of "CHR '' ''"])
qed

lemma unwrap_not_paren: "s \<noteq> [] \<Longrightarrow> hd s \<noteq> CHR ''('' \<Longrightarrow> TrimSpace s = s \<Longrightarrow> stripParens s = s"
  by (simp add: stripParens.simps [of s] unwrapParens_def Let_def)

lemma strip_paren: "balanced s \<Longrightarrow> stripParens (TrimSpace (CHR ''('' # s @ '')'')) = stripParens (TrimSpace s)"
proof -
  assume s: "balanced s"
  let ?t = "CHR ''('' # s @ '')''"
  have t: "TrimSpace ?t = ?t" by (rule TrimSpace_ends) (simp_all add: is_space_def)
  have "unwrapParens ?t = (TrimSpace s, True)"
    using closesLate_paren [OF s, of "[]"] t by (simp add: unwrapParens_def Let_def)
  then show ?thesis using t by (simp add: stripParens.simps [of ?t])
qed

lemma parse_cong: "stripParens (TrimSpace s) = stripParens (TrimSpace t) \<Longrightarrow> parse s = parse t"
  by (simp only: parse.simps [of s] parse.simps [of t])

lemma parse_paren: "balanced s \<Longrightarrow> parse (CHR ''('' # s @ '')'') = parse s"
  using strip_paren by (rule parse_cong)

text \<open>An operator that begins and ends with a space is not found across a single token.\<close>

lemma index_last:
  "token w \<Longrightarrow> CHR '' '' \<in> set p \<Longrightarrow> indexTopLoop (CHR '' '' # p) 0 i (CHR '' '' # w) = None"
  using token_prefix [of w p] index_token [of w "CHR '' '' # p" "Suc i" "[]"]
  by (simp add: index_skip depthStep_def del: indexTopLoop.simps(2))

lemmas scan = index_skip index_hit index_last index_token [of _ _ _ "[]", simplified] index_token
  indexTop_paren [where t = "[]"] indexTop_paren depthStep_def

lemma firstTop_None: "(\<And>opn. opn \<in> set ops \<Longrightarrow> indexTop s opn = None) \<Longrightarrow> firstTop ops s = None"
  by (induction ops) auto

lemma parse_token: "token w \<Longrightarrow> parse w = Val w \<and> parse (w @ '' '') = Val w \<and> parse (CHR '' '' # w) = Val w"
proof -
  assume w: "token w"
  have none: "indexTop w opn = None" if "opn \<noteq> []" "hd opn \<in> {CHR '' '', CHR ''<'', CHR ''>'', CHR ''=''}" for opn
    using index_token [OF w that(2,1), of 0 "[]"] by (simp add: indexTop_def)
  have st: "stripParens w = w" using token_ends [OF w] token_trim [OF w] by (simp add: unwrap_not_paren)
  have "IndexByte w (CHR ''('') = None" using token_chars [OF w, of "CHR ''(''"] by (auto simp: IndexByte_None)
  moreover have "\<not> HasPrefix w ''NOT ''" using token_prefix [OF w] by simp
  ultimately have "parse w = Val w"
    using token_trim [OF w] st none
    by (simp add: parse.simps [of w] betweenAt_def logicAt_def compareAt_def sumAt_def callAt_def)
  moreover have "parse (w @ '' '') = parse w" "parse (CHR '' '' # w) = parse w"
    using token_trim [OF w] by (auto intro!: parse_cong)
  ultimately show ?thesis by simp
qed

lemma balanced_cond: "cond_ok e \<Longrightarrow> balanced (show_cond e)"
proof (induction e)
  case (CCmp x opn y)
  then have "flat (show_cond (CCmp x opn y))" using token_flat [of x] token_flat [of y] by (auto simp: flat_def)
  then show ?case by (rule balanced_flat)
next
  case (CBetween x l h)
  then have "flat (show_cond (CBetween x l h))" using token_flat [of x] token_flat [of l] token_flat [of h] by (auto simp: flat_def)
  then show ?case by (rule balanced_flat)
next
  case (CCall f args)
  have "flat (Join args '', '')" if "list_all token args" for args
    using that token_flat by (induction args "'', ''" rule: Join.induct) (auto simp: flat_def)
  then show ?case using CCall balanced_append [OF balanced_flat [OF token_flat, of f]]
    balanced_paren [OF balanced_flat] by fastforce
next
  case (CAnd a b)
  then show ?case
    using balanced_append [OF balanced_paren [OF CAnd.IH(1)] balanced_append [OF balanced_flat [of "'' AND ''"] balanced_paren [OF CAnd.IH(2)]]]
    by (simp add: flat_def)
next
  case (COr a b)
  then show ?case
    using balanced_append [OF balanced_paren [OF COr.IH(1)] balanced_append [OF balanced_flat [of "'' OR ''"] balanced_paren [OF COr.IH(2)]]]
    by (simp add: flat_def)
next
  case (CNot a)
  then show ?case
    using balanced_append [OF balanced_flat [of "''NOT ''"] balanced_paren [OF CNot.IH]] by (simp add: flat_def)
qed

lemma splitArgs_Join:
  assumes "args \<noteq> []" "list_all token args"
  shows "splitArgs (Join args '', '') = args"
proof -
  have one: "splitArgsLoop 0 cur (v @ s) = splitArgsLoop 0 (cur @ v) s" if "flat v" "CHR '','' \<notin> set v" for cur v s
    using that by (induction v arbitrary: cur) (auto simp: flat_def depthStep_def)
  have "splitArgsLoop 0 cur (Join (a # as) '', '') = TrimSpace (cur @ a) # as"
    if "list_all token (a # as)" for a as cur
    using that
  proof (induction as arbitrary: a cur)
    case Nil
    then show ?case using one [of a cur "[]"] token_flat [of a] token_chars [of a "CHR '',''"] by auto
  next
    case (Cons b as)
    have "flat a" "CHR '','' \<notin> set a" using Cons.prems token_flat [of a] token_chars [of a "CHR '',''"] by auto
    then show ?case using one [of a cur] Cons.IH [of b "'' ''"] Cons.prems token_trim [of b]
      by (simp add: depthStep_def)
  qed
  then show ?thesis using assms token_trim by (cases args) (auto simp: splitArgs_def)
qed

lemma token_NOT:
  assumes "token w" "c \<in> {CHR '' '', CHR ''(''}"
  shows "\<not> HasPrefix (w @ c # s) ''NOT ''"
proof
  let ?P = "\<lambda>c. c \<noteq> CHR '' '' \<and> c \<noteq> CHR ''(''"
  assume "HasPrefix (w @ c # s) ''NOT ''"
  then obtain t where "w @ c # s = ''NOT '' @ t" by (auto simp: HasPrefix_iff_prefix prefix_def)
  then have "takeWhile ?P (w @ c # s) = takeWhile ?P (''NOT '' @ t)" by (rule arg_cong)
  moreover have "takeWhile ?P (w @ c # s) = w"
    using assms(2) token_chars [OF assms(1)] by (subst takeWhile_append2) auto
  ultimately show False using assms(1) by (simp add: token_def)
qed

lemma parse_compare:
  assumes "token x" "token y" "opn \<in> {''='', ''<>'', ''<'', ''>'', ''<='', ''>=''}"
  shows "parse (x @ '' '' @ opn @ '' '' @ y) = Node opn [Val x, Val y]"
proof -
  let ?s = "x @ '' '' @ opn @ '' '' @ y"
  have sp: "indexTop ?s (CHR '' '' # p) = None" if "p \<in> {''BETWEEN '', ''OR '', ''AND '', ''IN ''}" for p
    using assms that by (auto simp: indexTop_def scan simp del: indexTopLoop.simps(2))
  have cmp: "compareAt ?s = Some (opn, length x + 1)"
    using assms by (auto simp: compareAt_def indexTop_def scan simp del: indexTopLoop.simps(2))
  have "TrimSpace ?s = ?s" using token_ends [OF assms(1)] token_ends [OF assms(2)] by (intro TrimSpace_ends) auto
  moreover have "stripParens ?s = ?s"
    using calculation token_ends [OF assms(1)] by (intro unwrap_not_paren) auto
  moreover have "\<not> HasPrefix ?s ''NOT ''" using token_NOT [OF assms(1), of "CHR '' ''"] by simp
  ultimately show ?thesis
    using cmp sp parse_token [OF assms(1)] parse_token [OF assms(2)]
    unfolding parse.simps [of ?s] by (simp add: betweenAt_def logicAt_def)
qed

lemma parse_between:
  assumes "token x" "token l" "token h"
  shows "parse (x @ '' BETWEEN '' @ l @ '' AND '' @ h) = Node ''BETWEEN'' [Val x, Val l, Val h]"
proof -
  let ?s = "x @ '' BETWEEN '' @ l @ '' AND '' @ h"
  have b: "betweenAt ?s = Some (length x, length l)"
    using assms by (simp add: betweenAt_def indexTop_def scan del: indexTopLoop.simps(2))
  have "TrimSpace ?s = ?s" using token_ends [OF assms(1)] token_ends [OF assms(3)] by (intro TrimSpace_ends) auto
  moreover have "stripParens ?s = ?s"
    using calculation token_ends [OF assms(1)] by (intro unwrap_not_paren) auto
  moreover have d: "drop (length x + 9) ?s = l @ '' AND '' @ h" by simp
  moreover have "drop (length l + 5) (l @ '' AND '' @ h) = h" by simp
  ultimately show ?thesis using parse_token [OF assms(1)] parse_token [OF assms(2)] parse_token [OF assms(3)]
    by (simp only: parse.simps [of ?s] b Let_def option.case prod.case take_append) simp
qed

lemma parse_call:
  assumes "token f" "args \<noteq> []" "list_all token args"
  shows "parse (f @ ''('' @ Join args '', '' @ '')'') = Node f (map Val args)"
proof -
  let ?s = "f @ ''('' @ Join args '', '' @ '')''"
  have bal: "balanced (Join args '', '')"
    using assms(3) token_flat by (intro balanced_flat, induction args "'', ''" rule: Join.induct) (auto simp: flat_def)
  have none: "indexTop ?s opn = None" if "opn \<noteq> []" "hd opn \<in> {CHR '' '', CHR ''<'', CHR ''>'', CHR ''=''}" for opn
    using index_token [OF assms(1) that(2,1)] indexTop_paren [OF bal that(1), where t = "[]"] that(2)
    by (auto simp: indexTop_def simp del: indexTopLoop.simps(2))
  have nf: "CHR ''('' \<notin> set f" using token_chars [OF assms(1)] by blast
  have "callAt ?s = Some (length f)"
    using nf token_ends [OF assms(1)] IndexByte_append [OF nf, of "Join args '', '' @ '')''"]
      HasSuffix_append [of "f @ ''('' @ Join args '', ''" "'')''"] by (simp add: callAt_def del: HasSuffix_append)
  moreover have "map parse args = map Val args" using assms(3) parse_token by (auto simp: list_all_iff)
  moreover have "TrimSpace ?s = ?s" using token_ends [OF assms(1)] by (intro TrimSpace_ends) (auto simp: is_space_def)
  moreover have "stripParens ?s = ?s"
    using calculation token_ends [OF assms(1)] by (intro unwrap_not_paren) auto
  moreover have "\<not> HasPrefix ?s ''NOT ''" using token_NOT [OF assms(1), of "CHR ''(''"] by simp
  ultimately show ?thesis
    using none splitArgs_Join [OF assms(2,3)]
    unfolding parse.simps [of ?s] by (simp add: betweenAt_def logicAt_def compareAt_def sumAt_def)
qed

lemma parse_binary:
  assumes "balanced a" "balanced b" "opn \<in> {''AND'', ''OR''}"
  shows "parse (''('' @ a @ '') '' @ opn @ '' ('' @ b @ '')'') = Node opn [parse a, parse b]"
proof -
  let ?s = "''('' @ a @ '') '' @ opn @ '' ('' @ b @ '')''"
  have k: "take (length a + 2) ?s = CHR ''('' # a @ '')''"
    "drop (length a + 2 + length (CHR '' '' # opn @ '' '')) ?s = CHR ''('' # b @ '')''" using assms(3) by auto
  have "indexTop ?s '' BETWEEN '' = None"
    using assms by (auto simp: indexTop_def scan simp del: indexTopLoop.simps(2))
  moreover have "logicAt ?s = Some (CHR '' '' # opn @ '' '', length a + 2)"
    using assms by (auto simp: logicAt_def indexTop_def scan simp del: indexTopLoop.simps(2))
  moreover have "TrimSpace ?s = ?s" by (intro TrimSpace_ends) (auto simp: is_space_def)
  moreover have "stripParens ?s = ?s"
    using calculation closesLate_paren [OF assms(1), of "'' '' @ opn @ '' ('' @ b @ '')''"]
    unfolding stripParens.simps [of ?s] by (simp add: unwrapParens_def)
  moreover have "TrimSpace (CHR '' '' # opn @ '' '') = opn"
    using assms(3) by (auto simp: TrimSpace_def is_space_def)
  ultimately show ?thesis
    using parse_paren [OF assms(1)] parse_paren [OF assms(2)] k
    by (simp only: parse.simps [of ?s] Let_def betweenAt_def option.case prod.case)
qed

lemma parse_not: "balanced a \<Longrightarrow> parse (''NOT ('' @ a @ '')'') = Node ''NOT'' [parse a]"
proof -
  assume a: "balanced a"
  let ?s = "''NOT ('' @ a @ '')''"
  have "indexTop ?s p = None" if "p \<in> {'' BETWEEN '', '' OR '', '' AND ''}" for p
    using a that by (auto simp: indexTop_def scan simp del: indexTopLoop.simps(2))
  moreover have "TrimSpace ?s = ?s" by (intro TrimSpace_ends) (auto simp: is_space_def)
  moreover have "stripParens ?s = ?s" using calculation by (intro unwrap_not_paren) auto
  ultimately show ?thesis
    using parse_paren [OF a] unfolding parse.simps [of ?s] by (simp add: betweenAt_def logicAt_def TrimPrefix_def)
qed

text \<open>The parser reads back every condition written with its operands in parentheses: comparisons,
  \<^verbatim>\<open>BETWEEN\<close>, function calls, \<^verbatim>\<open>AND\<close>, \<^verbatim>\<open>OR\<close> and \<^verbatim>\<open>NOT\<close>, nested to any depth, give the
  tree they were written from.\<close>

lemma parse_show_cond: "cond_ok e \<Longrightarrow> parse (show_cond e) = node_of e"
proof (induction e)
  case (CAnd a b)
  then show ?case using parse_binary [OF balanced_cond [of a] balanced_cond [of b], of "''AND''"] by simp
next
  case (COr a b)
  then show ?case using parse_binary [OF balanced_cond [of a] balanced_cond [of b], of "''OR''"] by simp
next
  case (CNot a)
  then show ?case using parse_not [OF balanced_cond [of a]] by simp
qed (use parse_compare parse_between parse_call in simp_all)

lemma parse_show_example:
  "parse ''(NOT (a BETWEEN :l AND :h)) OR ((begins_with(b, :p)) AND (c <> :c))'' =
     Node ''OR'' [Node ''NOT'' [Node ''BETWEEN'' [Val ''a'', Val '':l'', Val '':h'']],
       Node ''AND'' [Node ''begins_with'' [Val ''b'', Val '':p''], Node ''<>'' [Val ''c'', Val '':c'']]]"
  using parse_show_cond [of "COr (CNot (CBetween ''a'' '':l'' '':h''))
      (CAnd (CCall ''begins_with'' [''b'', '':p'']) (CCmp ''c'' ''<>'' '':c''))"]
  by (simp add: token_def is_space_def)

text \<open>The same keywords without the parentheses: \<^verbatim>\<open>BETWEEN\<close> is looked for before \<^verbatim>\<open>AND\<close>, so a comparison
  joined to a range by \<^verbatim>\<open>AND\<close> becomes the range's left operand.\<close>

theorem between_takes_and:
  "parse ''a = :x AND b BETWEEN :l AND :h'' =
     Node ''BETWEEN'' [Node ''AND'' [Node ''='' [Val ''a'', Val '':x''], Val ''b''], Val '':l'', Val '':h'']"
  by code_simp

text \<open>The assignments of a \<^verbatim>\<open>SET\<close> clause read the item the earlier ones have already changed.\<close>

definition noLib :: fmtlib where
  "noLib = \<lparr>ParseFloat = (\<lambda>_. (Fin 0, False)), FormatFloat = (\<lambda>_. []), SprintV = (\<lambda>_. []), ScanIndex = (\<lambda>_. None)\<rparr>"

theorem set_reads_new:
  "ApplyUpdate noLib ''SET a = b, b = a'' [(''a'', VMap [(''S'', VStr ''x'')]), (''b'', VMap [(''S'', VStr ''y'')])] [] [] =
     (Ok [''a'', ''b''], [(''a'', VMap [(''S'', VStr ''y'')]), (''b'', VMap [(''S'', VStr ''y'')])])"
  by code_simp

text \<open>The names are replaced one after another in the order of a map, as text, so a name that begins like
  another is replaced inside it when it comes first.\<close>

theorem names_in_order:
  "substNames ''#a = #ab'' [(''#a'', VStr ''x''), (''#ab'', VStr ''y'')] = ''x = xb''"
  "substNames ''#a = #ab'' [(''#ab'', VStr ''y''), (''#a'', VStr ''x'')] = ''x = y''"
  by code_simp+

section \<open>The meaning of a condition\<close>

text \<open>What a condition says of an item, without the parser and the evaluator: a comparison compares the two
  values, and the connectives are those of logic.\<close>

fun holds :: "fmtlib \<Rightarrow> gobj \<Rightarrow> gobj \<Rightarrow> cond \<Rightarrow> bool" where
  "holds lib item vals (CCmp x opn y) =
     (case map_of cmpOps opn of
        Some test \<Rightarrow> test (compareV lib (evalVal lib item vals x) (evalVal lib item vals y))
      | None \<Rightarrow> False)"
| "holds lib item vals (CBetween x l h) =
     (0 \<le> compareV lib (evalVal lib item vals x) (evalVal lib item vals l) \<and>
      compareV lib (evalVal lib item vals x) (evalVal lib item vals h) \<le> 0)"
| "holds lib item vals (CCall f args) =
     (let txt = (\<lambda>i. SprintV lib (evalVal lib item vals (args ! i))) in
      if f = ''attribute_exists'' then args ! 0 \<in> fst ` set item
      else if f = ''attribute_not_exists'' then args ! 0 \<notin> fst ` set item
      else if f = ''begins_with'' then HasPrefix (txt 0) (txt 1)
      else Contains (txt 0) (txt 1))"
| "holds lib item vals (CAnd a b) = (holds lib item vals a \<and> holds lib item vals b)"
| "holds lib item vals (COr a b) = (holds lib item vals a \<or> holds lib item vals b)"
| "holds lib item vals (CNot a) = (\<not> holds lib item vals a)"

text \<open>The calls whose value is a truth value, with as many arguments as they take.\<close>

fun calls_ok :: "cond \<Rightarrow> bool" where
  "calls_ok (CCall f args) \<longleftrightarrow>
     (f, length args) \<in> {(''attribute_exists'', 1), (''attribute_not_exists'', 1), (''begins_with'', 2), (''contains'', 2)}"
| "calls_ok (CAnd a b) \<longleftrightarrow> calls_ok a \<and> calls_ok b"
| "calls_ok (COr a b) \<longleftrightarrow> calls_ok a \<and> calls_ok b"
| "calls_ok (CNot a) \<longleftrightarrow> calls_ok a"
| "calls_ok _ \<longleftrightarrow> True"

lemma map_of_fst: "map_of m k = None \<longleftrightarrow> k \<notin> fst ` set m"
  by (simp add: map_of_eq_None_iff)

lemma applyOp_calls:
  "applyOp lib item d ''attribute_exists'' ks vs = (VBool (kidVal ks 0 \<in> fst ` set item), None)"
  "applyOp lib item d ''attribute_not_exists'' ks vs = (VBool (kidVal ks 0 \<notin> fst ` set item), None)"
  "applyOp lib item d ''begins_with'' ks vs = (VBool (HasPrefix (SprintV lib (kid vs d 0)) (SprintV lib (kid vs d 1))), None)"
  "applyOp lib item d ''contains'' ks vs = (VBool (Contains (SprintV lib (kid vs d 0)) (SprintV lib (kid vs d 1))), None)"
  by (simp_all add: applyOp_def cmpOps_def Let_def map_of_fst del: not_None_eq)

lemma applyOp_logic:
  "applyOp lib item d ''AND'' [m, n] [(VBool a, None), (VBool b, None)] = (VBool (a \<and> b), None)"
  "applyOp lib item d ''OR'' [m, n] [(VBool a, None), (VBool b, None)] = (VBool (a \<or> b), None)"
  "applyOp lib item d ''NOT'' [m] [(VBool a, None)] = (VBool (\<not> a), None)"
  by (simp_all add: applyOp_def kid_def)

lemma applyOp_between:
  "applyOp lib item d ''BETWEEN'' ks [a, b, c] =
     (VBool (0 \<le> compareV lib (fst a) (fst b) \<and> compareV lib (fst a) (fst c) \<le> 0), None)"
  by (simp add: applyOp_def cmpOps_def kid_def Let_def)

lemma applyOp_compare:
  "opn \<in> {''='', ''<>'', ''<'', ''>'', ''<='', ''>=''} \<Longrightarrow>
     applyOp lib item d opn ks [a, b] =
       (VBool (case map_of cmpOps opn of Some test \<Rightarrow> test (compareV lib (fst a) (fst b)) | None \<Rightarrow> False), None)"
  by (auto simp: applyOp_def cmpOps_def kid_def)

lemma eval_compare:
  assumes "opn \<in> {''='', ''<>'', ''<'', ''>'', ''<='', ''>=''}"
  shows "eval lib item vals (Node opn [Val x, Val y]) = (VBool (holds lib item vals (CCmp x opn y)), None)"
  unfolding eval.simps list.map applyOp_compare [OF assms] by (cases "map_of cmpOps opn") simp_all

lemma eval_call:
  assumes "calls_ok (CCall f args)"
  shows "eval lib item vals (Node f (map Val args)) = (VBool (holds lib item vals (CCall f args)), None)"
proof -
  consider (one) a where "args = [a]" "f = ''attribute_exists'' \<or> f = ''attribute_not_exists''"
    | (two) a b where "args = [a, b]" "f = ''begins_with'' \<or> f = ''contains''"
    using assms by (auto simp: length_Suc_conv numeral_2_eq_2)
  then show ?thesis
  proof cases
    case one
    then show ?thesis by (elim disjE) (simp_all add: applyOp_calls kidVal_def)
  next
    case two
    then show ?thesis by (elim disjE) (simp_all add: applyOp_calls kid_def)
  qed
qed

lemma eval_node_of:
  "cond_ok e \<Longrightarrow> calls_ok e \<Longrightarrow> eval lib item vals (node_of e) = (VBool (holds lib item vals e), None)"
proof (induction e)
  case (CCmp x opn y)
  then show ?case using eval_compare [of opn lib item vals x y] by simp
next
  case (CCall f args)
  then show ?case using eval_call [of f args lib item vals] by simp
qed (simp_all add: applyOp_logic applyOp_between)

text \<open>C29: A condition written with its operands in parentheses evaluates, without an error, to what it says of
  the item: the text goes through the parser and the evaluator and the answer is the logical one.\<close>

theorem EvalBool_holds:
  "cond_ok e \<Longrightarrow> calls_ok e \<Longrightarrow> EvalBool lib (show_cond e) item [] vals = Ok (holds lib item vals e)"
  using eval_node_of [of e lib item vals] parse_show_cond [of e] by (simp add: EvalBool_def substNames_def)

theorem EvalBool_holds_witness:
  "EvalBool noLib ''(NOT (a = :x)) AND (attribute_exists(a))'' [(''a'', VMap [(''S'', VStr ''q'')])] []
     [('':x'', VMap [(''S'', VStr ''r'')])] = Ok True"
  using EvalBool_holds [of "CAnd (CNot (CCmp ''a'' ''='' '':x'')) (CCall ''attribute_exists'' [''a''])" noLib
      "[(''a'', VMap [(''S'', VStr ''q'')])]" "[('':x'', VMap [(''S'', VStr ''r'')])]"]
  by (simp add: token_def is_space_def cmpOps_def compareV_def evalVal_def unwrap_def gget_def)

end
