(* ===== verification/EvalReads.thy ===== *)
theory EvalReads
  imports Statechart
begin

text \<open>
  What an operation does before its effects (\<^verbatim>\<open>internal/engine/eval.go\<close>): reads in dependency order, the
  derived members of a record, derived values, and preconditions.

  The two loops that resolve by dependency carry the state explicitly, so that their termination is
  proved from what a pass returns: a pass that makes progress leaves fewer names, and one that does
  not ends the loop or gives up one name.
\<close>

section \<open>Faults\<close>

definition serverFault :: "string \<Rightarrow> fault" where
  "serverFault msg = \<lparr>FCode = ''InternalFailure'', FMessage = msg, FStatus = 500, FKind = ''server'', FFields = []\<rparr>"

definition faultOf :: "engine \<Rightarrow> string \<Rightarrow> string \<Rightarrow> fault" where
  "faultOf G ref message =
     (case map_of (SvErrors (gIR G)) ref of
        None \<Rightarrow> serverFault (''undefined error '' @ gQuote G ref)
      | Some d \<Rightarrow>
          \<lparr>FCode = EDCode d, FMessage = (if message = [] then EDMessage d else message), FStatus = EDHTTP d,
           FKind = EDFault d, FFields = []\<rparr>)"

section \<open>Keys\<close>

definition opPath :: "evals \<Rightarrow> string" where
  "opPath s = ''operations.'' @ qOperation (eReq s)"

definition carriedKey :: "string \<Rightarrow> string \<Rightarrow> evals \<Rightarrow> string" where
  "carriedKey resource keyExpr s =
     (if keyExpr \<noteq> [] then [] else case map_of (eResIDs s) resource of Some k \<Rightarrow> k | None \<Rightarrow> [])"

text \<open>The range over the resources goes in the map's order.\<close>

definition resourceNameOf :: "engine \<Rightarrow> resource \<Rightarrow> string" where
  "resourceNameOf G want =
     (case find (\<lambda>(_, r). RCollection r = RCollection want \<and> IDDerive (RID r) = IDDerive (RID want))
             (SvResources (gIR G)) of
        Some (name, _) \<Rightarrow> name
      | None \<Rightarrow> [])"

definition inputKey :: "engine \<Rightarrow> resource \<Rightarrow> evals \<Rightarrow> string option" where
  "inputKey G res s =
     (let named = (\<lambda>m. case map_of (qInput (eReq s)) m of
            Some v \<Rightarrow> if Sprint G v \<noteq> [] \<and> Sprint G v \<noteq> ''<nil>'' then Some (Sprint G v) else None
          | None \<Rightarrow> None)
      in case find (\<lambda>m. named m \<noteq> None) (IDInputMembers (RID res)) of
           Some m \<Rightarrow> named m
         | None \<Rightarrow> None)"

definition resourceKey :: "engine \<Rightarrow> resource \<Rightarrow> string \<Rightarrow> string \<Rightarrow> string ev" where
  "resourceKey G res keyExpr keyPath =
     (if keyExpr \<noteq> [] then andThen (evalP G keyPath) (\<lambda>v. ret (Sprint G v))
      else if RSingleton res \<noteq> [] then ret (RSingleton res)
      else andThen (gets (inputKey G res)) (\<lambda>k.
        case k of
          Some key \<Rightarrow> ret key
        | None \<Rightarrow>
            if IDDerive (RID res) \<noteq> []
            then andThen (evalP G (''resources.'' @ resourceNameOf G res @ ''.id.derive'')) (\<lambda>v. ret (Sprint G v))
            else ret []))"

section \<open>Views\<close>

fun viewMembers :: "engine \<Rightarrow> string \<Rightarrow> string list \<Rightarrow> gobj \<Rightarrow> gobj ev" where
  "viewMembers G resource [] rc = ret rc"
| "viewMembers G resource (n # ns) rc =
     andThen (evalP G (''resources.'' @ resource @ ''.views.'' @ n)) (\<lambda>v.
     let rc' = AList.update n v rc in
     andThen (bindV ''rec'' (VMap rc')) (\<lambda>_. viewMembers G resource ns rc'))"

definition applyViews :: "engine \<Rightarrow> string \<Rightarrow> resource \<Rightarrow> gobj \<Rightarrow> gobj ev" where
  "applyViews G resource res rc =
     (if RViews res = [] then ret rc
      else scoped ''rec'' (andThen (bindV ''rec'' (VMap rc)) (\<lambda>_.
             viewMembers G resource (sort (gkeys (RViews res))) rc)))"

section \<open>Reads\<close>

definition resolveRead :: "engine \<Rightarrow> string \<Rightarrow> read \<Rightarrow> unit ev" where
  "resolveRead G name rd =
     andThen (resourceOf G (RdResource rd)) (\<lambda>res.
     andThen (gets opPath) (\<lambda>op.
     andThen (resourceKey G res (RdKey rd) (op @ ''.reads.'' @ name @ ''.key'')) (\<lambda>key.
     andThen (upd (\<lambda>s. s\<lparr>eID := key, eResIDs := AList.update (RdResource rd) key (eResIDs s)\<rparr>)) (\<lambda>_.
     andThen (collection G res) (\<lambda>c.
     andThen (loadRecord G c key res) (\<lambda>found.
     andThen
       (case found of
          None \<Rightarrow> ret []
        | Some (rc, changed) \<Rightarrow>
            andThen (if changed then settleWrite G c key res rc True False else ret ()) (\<lambda>_.
            let rc' = (if map_of (RRecord res) ''name'' \<noteq> None \<and> map_of rc ''name'' = None \<and> key \<noteq> []
                       then AList.update ''name'' (VStr key) rc else rc) in
            applyViews G (RdResource rd) res rc')) (\<lambda>rc.
     andThen (bindV name (VMap rc)) (\<lambda>_.
     bindV (name @ ''_found'') (VBool (found \<noteq> None))))))))))"

definition readIsReady :: "engine \<Rightarrow> read \<Rightarrow> bool ev" where
  "readIsReady G rd =
     andThen (resourceOf G (RdResource rd)) (\<lambda>res.
     gets (\<lambda>s. list_all (\<lambda>ref. case Cut ref ''.'' of
         (head, rest, _) \<Rightarrow>
           rest \<noteq> ''id'' \<or> head = RdResource rd \<or> map_of (SvResources (gIR G)) head = None \<or>
           map_of (eResIDs s) head \<noteq> None) (templateRefs (RCollection res))))"

definition readOf :: "operation \<Rightarrow> string \<Rightarrow> read" where
  "readOf op n = (case map_of (OReads op) n of Some rd \<Rightarrow> rd | None \<Rightarrow> \<lparr>RdResource = [], RdKey = []\<rparr>)"

text \<open>One pass over the pending reads: the blocked ones, and whether any was resolved.\<close>

fun readPass :: "engine \<Rightarrow> operation \<Rightarrow> bool \<Rightarrow> string list \<Rightarrow> (string list \<times> bool) ev" where
  "readPass G op many [] = ret ([], False)"
| "readPass G op many (n # ns) =
     andThen (readIsReady G (readOf op n)) (\<lambda>ready.
     if \<not> ready \<and> many
     then andThen (readPass G op many ns) (\<lambda>(blocked, progress). ret (n # blocked, progress))
     else andThen (resolveRead G n (readOf op n)) (\<lambda>_.
          andThen (readPass G op many ns) (\<lambda>(blocked, _). ret (blocked, True))))"

lemma readPass_length:
  "readPass G op many ns s = (Inr (blocked, progress), t) \<Longrightarrow>
     length blocked \<le> length ns \<and> (progress \<longrightarrow> length blocked < length ns) \<and> (\<not> progress \<longrightarrow> blocked = ns)"
proof (induction ns arbitrary: s blocked progress t)
  case (Cons n ns)
  from Cons.prems show ?case
    by (auto simp: andThen_def ret_def simp del: readPass.simps simp: readPass.simps(2)
        split: prod.splits sum.splits if_splits)
      (use Cons.IH in \<open>fastforce+\<close>)
qed (simp add: ret_def)

function readLoop :: "engine \<Rightarrow> operation \<Rightarrow> string list \<Rightarrow> evals \<Rightarrow> (eerr, unit) res \<times> evals" where
  "readLoop G op pending s =
     (if pending = [] then (Inr (), s)
      else case readPass G op (1 < length pending) pending s of
        (Inl e, t) \<Rightarrow> (Inl e, t)
      | (Inr (blocked, progress), t) \<Rightarrow>
          if progress then readLoop G op blocked t
          else (case resolveRead G (hd blocked) (readOf op (hd blocked)) t of
                  (Inl e, u) \<Rightarrow> (Inl e, u)
                | (Inr _, u) \<Rightarrow> readLoop G op (tl blocked) u))"
  by pat_completeness auto
termination
  by (relation "measure (\<lambda>(G, op, pending, s). length pending)") (auto dest: readPass_length [OF sym] readPass_length)

declare readLoop.simps [simp del]

definition resolveReads :: "engine \<Rightarrow> operation \<Rightarrow> unit ev" where
  "resolveReads G op = readLoop G op (sort (gkeys (OReads op)))"

section \<open>Derived values\<close>

definition identByte :: "char \<Rightarrow> bool" where
  "identByte b \<longleftrightarrow> b = CHR ''_'' \<or> is_digit b \<or> is_lower b \<or> is_upper b"

lemma Index_advances:
  "Index (drop i src) name = Some j \<Longrightarrow> name \<noteq> [] \<Longrightarrow> length src - (i + j + length name) < length src - i"
  using Index_bound [of "drop i src" name j] by (cases name) auto

text \<open>\<^verbatim>\<open>mentions\<close>, from a position on.  The name is not empty: the loop does not advance over an empty one,
  and the callers pass names of bindings.\<close>

function mentionsAt :: "string \<Rightarrow> string \<Rightarrow> nat \<Rightarrow> bool" where
  "mentionsAt src name i =
     (if name = [] then False
      else case Index (drop i src) name of
        None \<Rightarrow> False
      | Some j \<Rightarrow>
          (let start = i + j; stop = start + length name;
               before = (start = 0 \<or> \<not> identByte (src ! (start - 1)) \<and> src ! (start - 1) \<noteq> CHR ''.'');
               after = (stop = length src \<or> \<not> identByte (src ! stop))
           in before \<and> after \<or> mentionsAt src name stop))"
  by pat_completeness auto
termination
  by (relation "measure (\<lambda>(src, name, i). length src - i)") (auto dest: Index_advances)

declare mentionsAt.simps [simp del]

definition mentions :: "string \<Rightarrow> string \<Rightarrow> bool" where
  "mentions src name = mentionsAt src name 0"

fun waitPass :: "(string, string) gmap \<Rightarrow> string list \<Rightarrow> string list \<Rightarrow> string list \<times> string list" where
  "waitPass [] names waiting = (names, waiting)"
| "waitPass ((n, src) # ls) names waiting =
     (if n \<notin> set waiting \<and> list_ex (\<lambda>name. name \<noteq> [] \<and> mentions src name) names
      then waitPass ls (names @ [n]) (waiting @ [n])
      else waitPass ls names waiting)"

lemma waitPass_waiting:
  "waitPass ls names waiting = (names', waiting') \<Longrightarrow>
     \<exists>more. waiting' = waiting @ more \<and> set more \<subseteq> fst ` set ls \<and> distinct more \<and> set more \<inter> set waiting = {}"
proof (induction ls names waiting arbitrary: names' waiting' rule: waitPass.induct)
  case (2 n src ls names waiting)
  then show ?case by (fastforce split: if_splits)
qed simp

lemma waitPass_shrinks:
  assumes "waitPass lets names waiting = (names', waiting')" "length waiting' \<noteq> length waiting"
  shows "card (fst ` set lets - set waiting') < card (fst ` set lets - set waiting)"
proof -
  obtain more where m: "waiting' = waiting @ more" "set more \<subseteq> fst ` set lets" "set more \<inter> set waiting = {}"
    using waitPass_waiting [OF assms(1)] by auto
  have "more \<noteq> []" using assms(2) m(1) by auto
  then have "fst ` set lets - set waiting' \<subset> fst ` set lets - set waiting" using m by (cases more) auto
  then show ?thesis by (simp add: psubset_card_mono)
qed

function waitLoop :: "(string, string) gmap \<Rightarrow> string list \<Rightarrow> string list \<Rightarrow> string list" where
  "waitLoop lets names waiting =
     (case waitPass lets names waiting of
        (names', waiting') \<Rightarrow> if length waiting' = length waiting then waiting else waitLoop lets names' waiting')"
  by pat_completeness auto
termination
  by (relation "measure (\<lambda>(lets, names, waiting). card (fst ` set lets - set waiting))")
    (auto split: prod.splits dest: waitPass_shrinks)

declare waitLoop.simps [simp del]

definition waitsOnSelect :: "operation \<Rightarrow> string list" where
  "waitsOnSelect op =
     (case OSelect op of
        None \<Rightarrow> []
      | Some sel \<Rightarrow> waitLoop (OLet op) [SelBinding sel, SelCount sel] [])"

text \<open>One pass over the pending names: those that were bound, and those that failed with their errors.\<close>

fun letPass :: "engine \<Rightarrow> string \<Rightarrow> string list \<Rightarrow> (string list \<times> (string \<times> eerr) list) ev" where
  "letPass G base [] = ret ([], [])"
| "letPass G base (n # ns) =
     andThen (attempt (evalP G (base @ n))) (\<lambda>r.
     case r of
       Inl e \<Rightarrow> andThen (letPass G base ns) (\<lambda>(bound, stuck). ret (bound, (n, e) # stuck))
     | Inr v \<Rightarrow>
         andThen (bindV n v) (\<lambda>_.
         andThen (letPass G base ns) (\<lambda>(bound, stuck). ret (n # bound, stuck))))"

lemma letPass_length:
  "letPass G base ns s = (Inr (bound, stuck), t) \<Longrightarrow> length bound + length stuck = length ns"
proof (induction ns arbitrary: s bound stuck t)
  case (Cons n ns)
  from Cons.prems show ?case
    by (auto simp: andThen_def ret_def attempt_def bindV_def upd_def split: prod.splits sum.splits dest: Cons.IH)
qed (simp add: ret_def)

function letLoop :: "engine \<Rightarrow> string \<Rightarrow> string list \<Rightarrow> evals \<Rightarrow> (eerr, string list) res \<times> evals" where
  "letLoop G base pending s =
     (if pending = [] then (Inr [], s)
      else case letPass G base pending s of
        (Inl e, t) \<Rightarrow> (Inl e, t)
      | (Inr (bound, stuck), t) \<Rightarrow>
          if bound = [] then (Inl (Wrapped (base @ fst (hd stuck)) (snd (hd stuck))), t)
          else (case letLoop G base (map fst stuck) t of
                  (Inl e, u) \<Rightarrow> (Inl e, u)
                | (Inr later, u) \<Rightarrow> (Inr (bound @ later), u)))"
  by pat_completeness auto
termination
  by (relation "measure (\<lambda>(G, base, pending, s). length pending)")
    (auto dest!: letPass_length [OF sym] simp: neq_Nil_conv)

declare letLoop.simps [simp del]

definition resolveLets :: "engine \<Rightarrow> (string, string) gmap \<Rightarrow> string \<Rightarrow> string list ev" where
  "resolveLets G lets base = letLoop G base (sort (gkeys lets))"

definition evalLets :: "engine \<Rightarrow> operation \<Rightarrow> unit ev" where
  "evalLets G op =
     andThen (gets opPath) (\<lambda>p.
     andThen (resolveLets G (filter (\<lambda>(n, _). n \<notin> set (waitsOnSelect op)) (OLet op)) (p @ ''.let.'')) (\<lambda>_. ret ()))"

definition evalSelectLets :: "engine \<Rightarrow> operation \<Rightarrow> unit ev" where
  "evalSelectLets G op =
     andThen (gets opPath) (\<lambda>p.
     andThen (resolveLets G (filter (\<lambda>(n, _). n \<in> set (waitsOnSelect op)) (OLet op)) (p @ ''.let.'')) (\<lambda>_. ret ()))"

section \<open>Preconditions\<close>

definition readsSelectLet :: "operation \<Rightarrow> string \<Rightarrow> bool" where
  "readsSelectLet op cond \<longleftrightarrow> list_ex (\<lambda>n. mentions cond n) (waitsOnSelect op)"

definition asksSelection :: "operation \<Rightarrow> require \<Rightarrow> bool" where
  "asksSelection op rq =
     (case OSelect op of
        None \<Rightarrow> False
      | Some sel \<Rightarrow>
          SelBinding sel \<noteq> [] \<and> (Contains (RqCond rq) (SelBinding sel) \<or> readsSelectLet op (RqCond rq)))"

text \<open>The fault of a failed rule, with its computed message and fields.\<close>

definition requireFault :: "engine \<Rightarrow> string \<Rightarrow> require \<Rightarrow> fault ev" where
  "requireFault G base rq =
     andThen (if RqMessageExpr rq \<noteq> []
              then andThen (evalP G (base @ ''.message_expr'')) (\<lambda>m. ret ((faultOf G (RqError rq) (RqMessage rq))\<lparr>FMessage := Sprint G m\<rparr>))
              else ret (faultOf G (RqError rq) (RqMessage rq))) (\<lambda>f.
     if RqFields rq = [] then ret f
     else andThen (mapE (\<lambda>k. andThen (evalP G (base @ ''.fields.'' @ k)) (\<lambda>v. ret (k, v))) (sort (gkeys (RqFields rq)))) (\<lambda>fs.
          ret (f\<lparr>FFields := fs\<rparr>)))"

definition requireOne :: "engine \<Rightarrow> string \<Rightarrow> require \<Rightarrow> fault option ev" where
  "requireOne G base rq =
     andThen (attempt (andThen (evalBool G (base @ ''.cond'')) (\<lambda>holds.
       if holds then ret None else andThen (requireFault G base rq) (\<lambda>f. ret (Some f))))) (\<lambda>r.
     case r of Inl e \<Rightarrow> ret (Some (serverFault (gErrText G e))) | Inr f \<Rightarrow> ret f)"

fun requireLoop :: "engine \<Rightarrow> operation \<Rightarrow> bool \<Rightarrow> string \<Rightarrow> nat \<Rightarrow> require list \<Rightarrow> fault option ev" where
  "requireLoop G op late p i [] = ret None"
| "requireLoop G op late p i (rq # rqs) =
     (if asksSelection op rq \<noteq> late then requireLoop G op late p (Suc i) rqs
      else andThen (requireOne G (p @ ''.require['' @ show_nat i @ '']'') rq) (\<lambda>f.
           case f of Some x \<Rightarrow> ret (Some x) | None \<Rightarrow> requireLoop G op late p (Suc i) rqs))"

definition checkRequires :: "engine \<Rightarrow> operation \<Rightarrow> bool \<Rightarrow> fault option ev" where
  "checkRequires G op late = andThen (gets opPath) (\<lambda>p. requireLoop G op late p 0 (ORequire op))"

section \<open>Derived values in dependency order\<close>

text \<open>The bindings of \<open>s\<close> with those of the names in \<open>B\<close> added.\<close>

definition extends :: "evals \<Rightarrow> (string \<Rightarrow> gval) \<Rightarrow> string set \<Rightarrow> evals \<Rightarrow> bool" where
  "extends s val B t \<longleftrightarrow> t = s\<lparr>eBinds := eBinds t\<rparr> \<and>
     (\<forall>m. map_of (eBinds t) m = (if m \<in> B then Some (val m) else map_of (eBinds s) m))"

lemma extends_bind:
  "extends s val B t \<Longrightarrow> extends s val (insert n B) (t\<lparr>eBinds := AList.update n (val n) (eBinds t)\<rparr>)"
  unfolding extends_def by (auto simp: update_conv') (metis evals.update_convs(3) evals.surjective)

text \<open>The dependency structure of a set of derived values: an expression has its value once the names it
  reads are bound, and fails before; no name depends on itself through others.\<close>

definition ordered_lets ::
  "engine \<Rightarrow> string \<Rightarrow> evals \<Rightarrow> string set \<Rightarrow> (string \<Rightarrow> gval) \<Rightarrow> (string \<Rightarrow> string set) \<Rightarrow> (string \<Rightarrow> nat) \<Rightarrow> bool" where
  "ordered_lets G base s N val deps rank \<longleftrightarrow>
     (\<forall>n\<in>N. deps n \<subseteq> N \<and> (\<forall>m\<in>deps n. rank m < rank n)) \<and>
     (\<forall>n\<in>N. \<forall>B t. B \<subseteq> N \<longrightarrow> extends s val B t \<longrightarrow>
        (if deps n \<subseteq> B then fst (evalP G (base @ n) t) = Ok (val n) else (\<exists>e. fst (evalP G (base @ n) t) = Err e)))"

lemma snd_evalP [simp]: "snd (evalP G p t) = t"
  by (simp add: evalP_def ask_def)

lemma run_evalP: "evalP G p t = (fst (evalP G p t), t)"
  by (simp add: prod_eq_iff)

text \<open>Steps that leave the state alone.\<close>

interpretation still: preorder_rel "\<lambda>s t. t = s"
  by unfold_locales auto

lemma still_evalP: "keeps (\<lambda>s t. t = s) (evalP G p)"
  by (simp add: keeps_def)

lemma still_evalBool: "keeps (\<lambda>s t. t = s) (evalBool G p)"
  unfolding evalBool_def by (intro still.keeps_andThen still_evalP) (auto intro: still.keeps_basic split: gval.split)

lemma still_run: "keeps (\<lambda>s t. t = s) m \<Longrightarrow> m s = (fst (m s), s)"
  by (simp add: keeps_def prod_eq_iff)

lemma snd_evalBool [simp]: "snd (evalBool G p s) = s"
  using still_evalBool by (simp add: keeps_def)

lemma letPass_ordered:
  assumes "ordered_lets G base s N val deps rank" "set ns \<subseteq> N" "B \<subseteq> N" "extends s val B t"
  shows "\<exists>bound stuck u. letPass G base ns t = (Ok (bound, stuck), u) \<and> extends s val (B \<union> set bound) u \<and>
    set ns = set bound \<union> fst ` set stuck \<and> (distinct ns \<longrightarrow> distinct (bound @ map fst stuck)) \<and>
    (\<forall>n\<in>set ns. deps n \<subseteq> B \<longrightarrow> n \<in> set bound)"
  using assms(2-)
proof (induction ns arbitrary: B t)
  case Nil
  then show ?case by (simp add: ret_def)
next
  case (Cons n ns)
  have eval: "if deps n \<subseteq> B then fst (evalP G (base @ n) t) = Ok (val n) else (\<exists>e. fst (evalP G (base @ n) t) = Err e)"
    using assms(1) Cons.prems unfolding ordered_lets_def by simp
  show ?case
  proof (cases "deps n \<subseteq> B")
    case True
    define t' where "t' = t\<lparr>eBinds := AList.update n (val n) (eBinds t)\<rparr>"
    have "extends s val (insert n B) t'" unfolding t'_def using Cons.prems(3) by (rule extends_bind)
    then obtain bound stuck u where ih: "letPass G base ns t' = (Ok (bound, stuck), u)" "extends s val (insert n B \<union> set bound) u"
      "set ns = set bound \<union> fst ` set stuck" "distinct ns \<longrightarrow> distinct (bound @ map fst stuck)"
      "\<forall>m\<in>set ns. deps m \<subseteq> insert n B \<longrightarrow> m \<in> set bound"
      using Cons.IH [of "insert n B" t'] Cons.prems by auto
    have "letPass G base (n # ns) t = (Ok (n # bound, stuck), u)"
      using True eval ih(1) run_evalP [of G "base @ n" t] by (simp add: attempt_def andThen_def bindV_def upd_def ret_def t'_def)
    then show ?thesis using ih by auto
  next
    case False
    then obtain e where e: "evalP G (base @ n) t = (Err e, t)" using eval run_evalP [of G "base @ n" t] by auto
    obtain bound stuck u where ih: "letPass G base ns t = (Ok (bound, stuck), u)" "extends s val (B \<union> set bound) u"
      "set ns = set bound \<union> fst ` set stuck" "distinct ns \<longrightarrow> distinct (bound @ map fst stuck)"
      "\<forall>m\<in>set ns. deps m \<subseteq> B \<longrightarrow> m \<in> set bound"
      using Cons.IH [of B t] Cons.prems by auto
    have "letPass G base (n # ns) t = (Ok (bound, (n, e) # stuck), u)"
      using e ih(1) by (simp add: attempt_def andThen_def ret_def)
    then show ?thesis using ih False by auto
  qed
qed

lemma letLoop_ordered:
  assumes "ordered_lets G base s N val deps rank" "distinct pending" "set pending \<subseteq> N" "extends s val (N - set pending) t"
  shows "\<exists>bound u. letLoop G base pending t = (Ok bound, u) \<and> extends s val N u \<and> distinct bound \<and> set bound = set pending"
  using assms(2-)
proof (induction "length pending" arbitrary: pending t rule: less_induct)
  case less
  show ?case
  proof (cases "pending = []")
    case True
    then show ?thesis using less.prems by (simp add: letLoop.simps)
  next
    case False
    obtain bound stuck u where pass: "letPass G base pending t = (Ok (bound, stuck), u)"
      "extends s val (N - set pending \<union> set bound) u" "set pending = set bound \<union> fst ` set stuck"
      "distinct (bound @ map fst stuck)" "\<forall>n\<in>set pending. deps n \<subseteq> N - set pending \<longrightarrow> n \<in> set bound"
      using letPass_ordered [OF assms(1), of pending "N - set pending" t] less.prems by auto
    obtain n where n: "n \<in> set pending" "\<And>m. m \<in> set pending \<Longrightarrow> rank n \<le> rank m"
      using False ex_has_least_nat [of "\<lambda>n. n \<in> set pending" _ rank] by (metis list.set_intros(1) neq_Nil_conv)
    then have "deps n \<subseteq> N - set pending" using assms(1) less.prems(2) unfolding ordered_lets_def
      by (metis DiffI leD subset_iff)
    then have some: "bound \<noteq> []" using pass(5) n(1) by force
    have "N - set pending \<union> set bound = N - set (map fst stuck)" using pass(3,4) less.prems(2) by auto
    then have "extends s val (N - set (map fst stuck)) u" using pass(2) by simp
    moreover have "length (map fst stuck) < length pending" using letPass_length [OF pass(1)] some by (cases bound) auto
    ultimately obtain later v where "letLoop G base (map fst stuck) u = (Ok later, v)" "extends s val N v" "distinct later"
      "set later = fst ` set stuck"
      using less.hyps [of "map fst stuck" u] pass(3,4) less.prems(2) by auto
    then show ?thesis using False some pass by (auto simp: letLoop.simps [of G base pending])
  qed
qed

text \<open>C36: derived values are found in dependency order.  When every expression has its value as soon as the
  names it reads are bound and fails before, and the dependencies have no cycle, resolving the
  derived values succeeds whatever their names, binds each name once to its value, and changes nothing
  else.\<close>

theorem resolveLets_ordered:
  assumes "gmap_ok lets" "ordered_lets G base s (set (gkeys lets)) val deps rank"
  shows "\<exists>bound t. resolveLets G lets base s = (Ok bound, t) \<and> distinct bound \<and> set bound = set (gkeys lets) \<and>
    extends s val (set (gkeys lets)) t"
proof -
  have "extends s val (set (gkeys lets) - set (sort (gkeys lets))) s" by (simp add: extends_def)
  then show ?thesis
    using letLoop_ordered [OF assms(2), of "sort (gkeys lets)" s] assms(1) by (auto simp: resolveLets_def gmap_ok_def)
qed

text \<open>Two derived values, the first of which in the order of names reads the second.\<close>

definition demo_lets :: "(string, string) gmap" where
  "demo_lets = [(''a'', ''b + 1''), (''b'', ''1'')]"

definition let_engine :: engine where
  "let_engine = demo_engine\<lparr>gPrograms := (\<lambda>path.
     if path = ''let.a'' then Some (\<lambda>act. if map_of act ''b'' = Some (AVal (VInt 1)) then Ok (VInt 2) else Err ''no such attribute'')
     else if path = ''let.b'' then Some (\<lambda>act. Ok (VInt 1))
     else None)\<rparr>"

lemma map_of_binds:
  "map_of (map (\<lambda>(k, v). (k, AVal v)) b) k = map_option AVal (map_of b k)"
  by (induction b) auto

lemma map_of_filtered: "k \<notin> fst ` set base \<Longrightarrow> map_of (filter P base) k = None"
  by (auto simp: map_of_eq_None_iff)

lemma map_of_activation_b: "map_of (activation G s) ''b'' = map_option AVal (map_of (eBinds s) ''b'')"
proof -
  have "\<exists>P base. activation G s = map (\<lambda>(k, v). (k, AVal v)) (eBinds s) @ filter P base \<and> ''b'' \<notin> fst ` set base"
    unfolding activation_def Let_def by (intro exI conjI, rule HOL.refl) simp
  then show ?thesis by (auto simp: map_add_def map_of_binds map_of_filtered split: option.split)
qed

lemma demo_lets_ordered:
  "ordered_lets let_engine ''let.'' demo_evals {''a'', ''b''} (\<lambda>n. if n = ''a'' then VInt 2 else VInt 1)
     (\<lambda>n. if n = ''a'' then {''b''} else {}) (\<lambda>n. if n = ''a'' then 1 else 0)"
  unfolding ordered_lets_def extends_def
  by (auto simp: evalP_def ask_def let_engine_def map_of_activation_b demo_evals_def)

theorem resolveLets_ordered_witness:
  "\<exists>bound t. resolveLets let_engine demo_lets ''let.'' demo_evals = (Ok bound, t) \<and> distinct bound \<and> set bound = {''a'', ''b''} \<and>
     extends demo_evals (\<lambda>n. if n = ''a'' then VInt 2 else VInt 1) {''a'', ''b''} t"
proof -
  have keys: "gmap_ok demo_lets" "set (gkeys demo_lets) = {''a'', ''b''}" by (simp_all add: demo_lets_def gmap_ok_def)
  show ?thesis using resolveLets_ordered [OF keys(1), unfolded keys(2), OF demo_lets_ordered] .
qed

end
