(* ===== verification/EvalSelect.thy ===== *)
theory EvalSelect
  imports EvalReads "HOL-Library.Multiset" "HOL-Library.Sublist"
begin

text \<open>
  Selecting the records an operation acts on, and waiting for some (\<^verbatim>\<open>internal/engine/select.go\<close>):
  every candidate is settled against the clock and written back, then filtered, ordered and taken, one
  per group or group by group.

  \<^verbatim>\<open>sort.SliceStable\<close> is its insertion sort, which is the whole algorithm up to twenty elements and
  agrees with it beyond for every order that is transitive.
\<close>

section \<open>Sorting\<close>

fun insertBack :: "('a \<Rightarrow> 'a \<Rightarrow> bool) \<Rightarrow> 'a \<Rightarrow> 'a list \<Rightarrow> 'a list" where
  "insertBack lt x [] = [x]"
| "insertBack lt x (y # ys) = (if lt x y then y # insertBack lt x ys else x # y # ys)"

text \<open>The sorted part is kept in reverse, so the new element walks from its end.\<close>

definition SliceStable :: "('a \<Rightarrow> 'a \<Rightarrow> bool) \<Rightarrow> 'a list \<Rightarrow> 'a list" where
  "SliceStable lt xs = rev (foldl (\<lambda>acc x. insertBack lt x acc) [] xs)"

definition itemEval :: "gobj \<Rightarrow> 'a ev \<Rightarrow> 'a ev" where
  "itemEval rc m =
     andThen (bindV ''item'' (VMap rc)) (\<lambda>_.
     andThen (attempt m) (\<lambda>r.
     andThen (unbind ''item'') (\<lambda>_.
     case r of Inl e \<Rightarrow> fail e | Inr x \<Rightarrow> ret x)))"

definition sortSelected :: "engine \<Rightarrow> selected list \<Rightarrow> selected list ev" where
  "sortSelected G items =
     andThen (gets opPath) (\<lambda>p.
     andThen (mapE (\<lambda>it. andThen (itemEval (sRec it) (evalP G (p @ ''.select.order_by''))) (\<lambda>v. ret (v, it))) items) (\<lambda>keyed.
     let numeric = list_all (\<lambda>(v, _). toFloat v \<noteq> None) keyed;
         num = (\<lambda>v. case toFloat v of Some f \<Rightarrow> f | None \<Rightarrow> Fin 0);
         lt = (\<lambda>(a, _) (b, _). if numeric then f64_lt (num a) (num b) else Sprint G a < Sprint G b)
     in ret (map snd (SliceStable lt keyed))))"

section \<open>Selecting\<close>

definition setSelection :: "string \<Rightarrow> selected list \<Rightarrow> unit ev" where
  "setSelection binding taken =
     andThen (bindV binding (VList (map (\<lambda>s. VMap (sRec s)) taken))) (\<lambda>_.
     upd (\<lambda>s. s\<lparr>eSelection := taken, eBound := map sKey taken\<rparr>))"

text \<open>What the first pass gathers: the candidates, the groups closed by a record in flight, and every
  record of a group with the order in which the groups were met.\<close>

record gathered =
  gCands :: "selected list"
  gBlocked :: "string list"
  gGroups :: "(string, selected list) gmap"
  gOrder :: "string list"

definition groupText :: "engine \<Rightarrow> group \<Rightarrow> gobj \<Rightarrow> string" where
  "groupText G gr rc = Sprint G (gget rc (GrBy gr))"

definition groupOr :: "string \<Rightarrow> string \<Rightarrow> string" where
  "groupOr key g = (if g = [] \<or> g = ''<nil>'' then key else g)"

definition addGroup :: "string \<Rightarrow> selected \<Rightarrow> gathered \<Rightarrow> gathered" where
  "addGroup g it acc =
     acc\<lparr>gOrder := (if map_of (gGroups acc) g = None then gOrder acc @ [g] else gOrder acc),
         gGroups := AList.update g ((case map_of (gGroups acc) g of Some xs \<Rightarrow> xs | None \<Rightarrow> []) @ [it]) (gGroups acc)\<rparr>"

definition stateText :: "resource \<Rightarrow> gobj \<Rightarrow> string" where
  "stateText res rc = (case RChart res of None \<Rightarrow> [] | Some ch \<Rightarrow> stateOf rc ch)"

definition noteGroup :: "engine \<Rightarrow> group option \<Rightarrow> bool \<Rightarrow> string \<Rightarrow> selected \<Rightarrow> gathered \<Rightarrow> gathered" where
  "noteGroup G gr grouping st it acc =
     (case gr of
        None \<Rightarrow> acc
      | Some g \<Rightarrow>
          if \<not> grouping then acc
          else
            let acc1 = (if GrExclusive g \<noteq> [] \<and> st = GrExclusive g
                        then acc\<lparr>gBlocked := groupText G g (sRec it) # gBlocked acc\<rparr> else acc)
            in if GrDrain g then addGroup (groupOr (sKey it) (groupText G g (sRec it))) it acc1 else acc1)"

definition selectEntry :: "engine \<Rightarrow> resource \<Rightarrow> select \<Rightarrow> bool \<Rightarrow> string \<Rightarrow> col \<Rightarrow> gathered \<Rightarrow> KV \<Rightarrow> gathered ev" where
  "selectEntry G res sel grouping base c acc kv =
     andThen (unmarshalE G (Value kv)) (\<lambda>raw.
     andThen (settleE [] (RChart res) raw) (\<lambda>(rc, changed).
     andThen (if changed then putRecord G c (Key kv) rc else ret ()) (\<lambda>_.
     let st = stateText res rc;
         it = \<lparr>sKey = Key kv, sRec = rc\<rparr>;
         acc1 = noteGroup G (SelGroup sel) grouping st it acc
     in if SelState sel \<noteq> [] \<and> st \<noteq> SelState sel then ret acc1
        else andThen (if SelFilter sel = [] then ret True else itemEval rc (evalBool G (base @ ''filter''))) (\<lambda>keep.
             ret (if keep then acc1\<lparr>gCands := gCands acc1 @ [it]\<rparr> else acc1)))))"

text \<open>The second pass: in order, at most one record of each named group, none of a closed group.\<close>

fun takeOne :: "(selected \<Rightarrow> string option) \<Rightarrow> string list \<Rightarrow> int \<Rightarrow> nat \<Rightarrow> string list \<Rightarrow> selected list \<Rightarrow> selected list" where
  "takeOne grp blocked limit n seen [] = []"
| "takeOne grp blocked limit n seen (c # cs) =
     (let rest = (\<lambda>seen'. c # (if 0 < limit \<and> limit \<le> int (Suc n) then [] else takeOne grp blocked limit (Suc n) seen' cs)) in
      case grp c of
        Some g \<Rightarrow> if g \<in> set blocked \<or> g \<in> set seen then takeOne grp blocked limit n seen cs else rest (g # seen)
      | None \<Rightarrow> rest seen)"

definition groupName :: "engine \<Rightarrow> group option \<Rightarrow> bool \<Rightarrow> selected \<Rightarrow> string option" where
  "groupName G gr grouping c =
     (case gr of
        Some g \<Rightarrow>
          if grouping \<and> groupText G g (sRec c) \<noteq> [] \<and> groupText G g (sRec c) \<noteq> ''<nil>''
          then Some (groupText G g (sRec c)) else None
      | None \<Rightarrow> None)"

section \<open>Draining groups\<close>

definition members :: "(string, selected list) gmap \<Rightarrow> string \<Rightarrow> selected list" where
  "members groups g = (case map_of groups g of Some xs \<Rightarrow> xs | None \<Rightarrow> [])"

definition leading :: "string list \<Rightarrow> selected list \<Rightarrow> selected list" where
  "leading selectable ms = takeWhile (\<lambda>m. sKey m \<in> set selectable) ms"

definition partialGroup :: "string list \<Rightarrow> selected list \<Rightarrow> bool" where
  "partialGroup selectable ms \<longleftrightarrow> leading selectable ms \<noteq> [] \<and> length (leading selectable ms) < length ms"

definition receivedGroup :: "selected list \<Rightarrow> bool" where
  "receivedGroup ms \<longleftrightarrow>
     list_ex (\<lambda>m. case toFloat (gget (sRec m) ''receiveCount'') of Some n \<Rightarrow> f64_lt (Fin 0) n | None \<Rightarrow> False) ms"

definition rankOf :: "string list \<Rightarrow> string \<Rightarrow> nat" where
  "rankOf order g = length (takeWhile (\<lambda>h. h \<noteq> g) order)"

definition posOf :: "string list \<Rightarrow> string \<Rightarrow> nat option" where
  "posOf groups g = (if g \<in> set groups then Some (rankOf groups g) else None)"

definition byRank :: "(string \<Rightarrow> bool) \<Rightarrow> (string \<Rightarrow> bool) \<Rightarrow> (string \<Rightarrow> string \<Rightarrow> bool) \<Rightarrow> string \<Rightarrow> string \<Rightarrow> bool" where
  "byRank part recv tie a b =
     (if part a \<noteq> part b then \<not> part a
      else if recv a \<noteq> recv b then \<not> recv a
      else tie a b)"

text \<open>The nested loop over groups and their leading members: it returns after the append that reaches the
  limit.\<close>

fun takeUpto :: "int \<Rightarrow> nat \<Rightarrow> selected list \<Rightarrow> selected list" where
  "takeUpto limit n [] = []"
| "takeUpto limit n (m # ms) =
     m # (if 0 < limit \<and> limit \<le> int (Suc n) then [] else takeUpto limit (Suc n) ms)"

definition drainGroups ::
  "engine \<Rightarrow> group \<Rightarrow> string list \<Rightarrow> (string, selected list) gmap \<Rightarrow> selected list \<Rightarrow> int \<Rightarrow> selected list" where
  "drainGroups G gr order groups cands limit =
     (let selectable = map sKey cands;
          part = (\<lambda>g. partialGroup selectable (members groups g));
          recv = (\<lambda>g. receivedGroup (members groups g));
          rank = rankOf order;
          order1 = SliceStable (byRank part recv (\<lambda>a b. rank a < rank b)) order;
          pos = posOf (map (\<lambda>c. groupOr (sKey c) (groupText G gr (sRec c))) cands);
          tie = (\<lambda>a b. case (pos a, pos b) of
              (Some pa, Some pb) \<Rightarrow> if pa \<noteq> pb then pa < pb else rank a < rank b
            | _ \<Rightarrow> rank a < rank b);
          order2 = SliceStable (byRank part recv tie) order1
      in takeUpto limit 0 (concat (map (\<lambda>g. leading selectable (members groups g)) order2)))"

definition runSelect :: "engine \<Rightarrow> operation \<Rightarrow> unit ev" where
  "runSelect G op =
     (case OSelect op of
        None \<Rightarrow> ret ()
      | Some sel \<Rightarrow>
          andThen (resourceOf G (SelResource sel)) (\<lambda>res.
          andThen (collection G res) (\<lambda>c.
          andThen (colList c [] [] 0) (\<lambda>(entries, _).
          andThen (gets (\<lambda>s. opPath s @ ''.select.'')) (\<lambda>base.
          andThen (case SelGroup sel of
              None \<Rightarrow> ret False
            | Some g \<Rightarrow>
                if GrBy g = [] then ret False
                else if GrWhen g \<noteq> [] then evalBool G (base @ ''group.when'') else ret True) (\<lambda>grouping.
          andThen (foldE (selectEntry G res sel grouping base c)
                     \<lparr>gCands = [], gBlocked = [], gGroups = [], gOrder = []\<rparr> entries) (\<lambda>acc.
          andThen (if SelOrderBy sel \<noteq> [] then sortSelected G (gCands acc) else ret (gCands acc)) (\<lambda>cands.
          andThen (if SelOrderBy sel \<noteq> []
                   then mapE (\<lambda>(g, ms). andThen (sortSelected G ms) (\<lambda>ms'. ret (g, ms'))) (gGroups acc)
                   else ret (gGroups acc)) (\<lambda>groups.
          andThen (if SelCount sel \<noteq> [] then bindV (SelCount sel) (VInt (int (length cands))) else ret ()) (\<lambda>_.
          andThen (if SelLimit sel = [] then ret 0
                   else andThen (evalP G (base @ ''limit'')) (\<lambda>v.
                        ret (case toFloat v of Some n \<Rightarrow> f64_to_int64 n | None \<Rightarrow> 0))) (\<lambda>limit.
          setSelection (SelBinding sel)
            (case SelGroup sel of
               Some g \<Rightarrow>
                 if grouping \<and> GrDrain g then drainGroups G g (gOrder acc) groups cands limit
                 else takeOne (groupName G (Some g) grouping) (gBlocked acc) limit 0 [] cands
             | None \<Rightarrow> takeOne (\<lambda>_. None) (gBlocked acc) limit 0 [] cands))))))))))))"

section \<open>Waiting\<close>

definition earlier :: "int \<Rightarrow> int option \<Rightarrow> int \<Rightarrow> int option" where
  "earlier now nx wh =
     (if now < wh \<and> (case nx of None \<Rightarrow> True | Some n \<Rightarrow> wh < n) then Some wh else nx)"

text \<open>An error on the way, or a record that does not parse, is no deadline.\<close>

definition nextDeadline :: "engine \<Rightarrow> operation \<Rightarrow> int option ev" where
  "nextDeadline G op =
     (case OSelect op of
        None \<Rightarrow> ret None
      | Some sel \<Rightarrow>
          (case map_of (SvResources (gIR G)) (SelResource sel) of
             None \<Rightarrow> ret None
           | Some res \<Rightarrow>
               if RChart res = None then ret None
               else andThen (attempt (collection G res)) (\<lambda>r.
                 case r of
                   Inl _ \<Rightarrow> ret None
                 | Inr c \<Rightarrow>
                     andThen (colList c [] [] 0) (\<lambda>(entries, _).
                     andThen (gets eNow) (\<lambda>now.
                     ret (foldl (\<lambda>nx kv. case gUnmarshal G (Value kv) of
                         None \<Rightarrow> nx
                       | Some rc \<Rightarrow> foldl (earlier now) nx (map snd (deadlinesOf rc))) None entries))))))"

text \<open>One look at the deadline: whether the request parks, and until when.\<close>

definition parks :: "engine \<Rightarrow> operation \<Rightarrow> int \<Rightarrow> bool ev" where
  "parks G op deadline =
     andThen (gets eNow) (\<lambda>now.
     if \<not> now < deadline then ret False
     else andThen (nextDeadline G op) (\<lambda>armed.
          let park = (case armed of Some t \<Rightarrow> if now < t \<and> t < deadline then t else deadline | None \<Rightarrow> deadline) in
          andThen (upd (\<lambda>s. s\<lparr>eParked := eParked s @ [park]\<rparr>)) (\<lambda>_. ret True)))"

fun parkLoop :: "engine \<Rightarrow> operation \<Rightarrow> string \<Rightarrow> int \<Rightarrow> wake list \<Rightarrow> unit ev" where
  "parkLoop G op base deadline [] =
     andThen (parks G op deadline) (\<lambda>p. if p then fail Parked else ret ())"
| "parkLoop G op base deadline (w # ws) =
     andThen (parks G op deadline) (\<lambda>p.
     if \<not> p then ret ()
     else case w of
       CtxDone \<Rightarrow> upd (\<lambda>s. s\<lparr>eScript := ws\<rparr>)
     | WakeAt t m \<Rightarrow>
         andThen (upd (\<lambda>s. s\<lparr>eScript := ws, eNow := t, eMem := m\<rparr>)) (\<lambda>_.
         andThen (runSelect G op) (\<lambda>_.
         andThen (evalBool G (base @ ''until'')) (\<lambda>ok.
         if ok then ret () else parkLoop G op base deadline ws))))"

definition runWait :: "engine \<Rightarrow> operation \<Rightarrow> unit ev" where
  "runWait G op =
     (if OWait op = None then ret ()
      else andThen (gets (\<lambda>s. opPath s @ ''.wait.'')) (\<lambda>base.
           andThen (evalBool G (base @ ''until'')) (\<lambda>ok.
           if ok then ret ()
           else andThen (evalP G (base @ ''timeout'')) (\<lambda>v.
                case asDuration v of
                  None \<Rightarrow> fail (NotADuration base v)
                | Some timeout \<Rightarrow>
                    if timeout \<le> 0 then ret ()
                    else andThen (gets (\<lambda>s. (eNow s, eScript s))) (\<lambda>(now, script).
                         parkLoop G op base (now + timeout) script)))))"

section \<open>What is taken\<close>

definition groupsOf :: "(selected \<Rightarrow> string option) \<Rightarrow> selected list \<Rightarrow> string list" where
  "groupsOf grp xs = concat (map (\<lambda>c. case grp c of Some g \<Rightarrow> [g] | None \<Rightarrow> []) xs)"

lemma groupsOf_simps [simp]:
  "groupsOf grp1 [] = []" "groupsOf grp2 (c # cs) = (case grp2 c of Some g \<Rightarrow> [g] | None \<Rightarrow> []) @ groupsOf grp2 cs"
  by (simp_all add: groupsOf_def)

definition skipped :: "(selected \<Rightarrow> string option) \<Rightarrow> string list \<Rightarrow> string list \<Rightarrow> selected \<Rightarrow> bool" where
  "skipped grp blocked seen c = (case grp c of Some g \<Rightarrow> g \<in> set blocked \<or> g \<in> set seen | None \<Rightarrow> False)"

definition mark :: "(selected \<Rightarrow> string option) \<Rightarrow> selected \<Rightarrow> string list \<Rightarrow> string list" where
  "mark grp c seen = (case grp c of Some g \<Rightarrow> g # seen | None \<Rightarrow> seen)"

lemma takeOne_Cons:
  "takeOne grp blocked limit n seen (c # cs) =
     (if skipped grp blocked seen c then takeOne grp blocked limit n seen cs
      else c # (if 0 < limit \<and> limit \<le> int (Suc n) then [] else takeOne grp blocked limit (Suc n) (mark grp c seen) cs))"
  by (auto simp: Let_def skipped_def mark_def split: option.split)

declare takeOne.simps(2) [simp del]

lemma takeOne_subseq: "subseq (takeOne grp blocked limit n seen cs) cs"
  by (induction cs arbitrary: n seen) (auto simp: takeOne_Cons)

lemma takeOne_limit: "0 < limit \<Longrightarrow> int n < limit \<Longrightarrow> int n + int (length (takeOne grp blocked limit n seen cs)) \<le> limit"
proof (induction cs arbitrary: n seen)
  case (Cons c cs)
  then show ?case using Cons.IH [of "Suc n" "mark grp c seen"] by (auto simp: takeOne_Cons)
qed simp

lemma takeOne_groups:
  "distinct (groupsOf grp (takeOne grp blocked limit n seen cs)) \<and>
   set (groupsOf grp (takeOne grp blocked limit n seen cs)) \<inter> (set blocked \<union> set seen) = {}"
proof (induction cs arbitrary: n seen)
  case (Cons c cs)
  show ?case using Cons.IH [of n seen] Cons.IH [of "Suc n" "mark grp c seen"]
    by (auto simp: takeOne_Cons skipped_def mark_def split: option.splits)
qed simp

text \<open>A candidate is passed over only for its group, as long as the limit is not reached.\<close>

lemma takeOne_maximal:
  assumes "c \<in> set cs" "c \<notin> set (takeOne grp blocked limit n seen cs)"
    and "limit \<le> 0 \<or> int n + int (length (takeOne grp blocked limit n seen cs)) < limit"
  shows "\<exists>g. grp c = Some g \<and> (g \<in> set blocked \<or> g \<in> set seen \<or> g \<in> set (groupsOf grp (takeOne grp blocked limit n seen cs)))"
  using assms
proof (induction cs arbitrary: n seen)
  case (Cons c' cs)
  show ?case
  proof (cases "skipped grp blocked seen c'")
    case True
    then show ?thesis using Cons by (auto simp: takeOne_Cons skipped_def split: option.splits)
  next
    case False
    then have go: "\<not> (0 < limit \<and> limit \<le> int (Suc n))" using Cons.prems(3) by (auto simp: takeOne_Cons)
    with False Cons.prems have "c \<in> set cs" "c \<notin> set (takeOne grp blocked limit (Suc n) (mark grp c' seen) cs)"
      "limit \<le> 0 \<or> int (Suc n) + int (length (takeOne grp blocked limit (Suc n) (mark grp c' seen) cs)) < limit"
      by (auto simp: takeOne_Cons)
    from Cons.IH [OF this] show ?thesis using False go by (auto simp: takeOne_Cons mark_def split: option.splits)
  qed
qed simp

text \<open>C38: what a selection takes.  In the order of the candidates, never more than a positive limit, at
  most one record of a group and none of a group with a record in flight; and it leaves a candidate
  out only when the limit is reached or the candidate's group is closed or already served.\<close>

theorem takeOne_spec:
  "subseq (takeOne grp blocked limit 0 [] cands) cands \<and>
   (0 < limit \<longrightarrow> int (length (takeOne grp blocked limit 0 [] cands)) \<le> limit) \<and>
   distinct (groupsOf grp (takeOne grp blocked limit 0 [] cands)) \<and>
   set (groupsOf grp (takeOne grp blocked limit 0 [] cands)) \<inter> set blocked = {} \<and>
   (\<forall>c\<in>set cands. c \<in> set (takeOne grp blocked limit 0 [] cands) \<or>
      0 < limit \<and> int (length (takeOne grp blocked limit 0 [] cands)) = limit \<or>
      (\<exists>g. grp c = Some g \<and> (g \<in> set blocked \<or> g \<in> set (groupsOf grp (takeOne grp blocked limit 0 [] cands)))))"
  (is "?sub \<and> ?lim \<and> ?dist \<and> ?open \<and> ?all")
proof (intro conjI)
  show ?sub by (rule takeOne_subseq)
  show lim: ?lim using takeOne_limit [of limit 0] by simp
  show ?dist ?open using takeOne_groups [of grp blocked limit 0 "[]"] by auto
  show ?all
  proof
    fix c assume c: "c \<in> set cands"
    show "c \<in> set (takeOne grp blocked limit 0 [] cands) \<or>
      0 < limit \<and> int (length (takeOne grp blocked limit 0 [] cands)) = limit \<or>
      (\<exists>g. grp c = Some g \<and> (g \<in> set blocked \<or> g \<in> set (groupsOf grp (takeOne grp blocked limit 0 [] cands))))"
      using takeOne_maximal [OF c, of grp blocked limit 0 "[]"] lim by force
  qed
qed

definition demo_cands :: "selected list" where
  "demo_cands = [\<lparr>sKey = ''1'', sRec = [(''g'', VStr ''x'')]\<rparr>, \<lparr>sKey = ''2'', sRec = [(''g'', VStr ''x'')]\<rparr>,
     \<lparr>sKey = ''3'', sRec = [(''g'', VStr ''y'')]\<rparr>, \<lparr>sKey = ''4'', sRec = []\<rparr>]"

definition demo_group :: "selected \<Rightarrow> string option" where
  "demo_group = groupName demo_engine (Some \<lparr>GrWhen = [], GrBy = ''g'', GrExclusive = [], GrDrain = False\<rparr>) True"

lemma demo_taken: "map sKey (takeOne demo_group [''y''] 2 0 [] demo_cands) = [''1'', ''4'']"
  by code_simp

theorem takeOne_spec_witness:
  "int (length (takeOne demo_group [''y''] 2 0 [] demo_cands)) \<le> 2 \<and>
   distinct (groupsOf demo_group (takeOne demo_group [''y''] 2 0 [] demo_cands)) \<and>
   map sKey (takeOne demo_group [''y''] 2 0 [] demo_cands) = [''1'', ''4'']"
  using takeOne_spec [of demo_group "[''y'']" 2 demo_cands] demo_taken by simp

section \<open>Groups are drained in order\<close>

lemma mset_insertBack [simp]: "mset (insertBack lt x ys) = add_mset x (mset ys)"
  by (induction ys) auto

lemma mset_SliceStable [simp]: "mset (SliceStable lt xs) = mset xs"
proof -
  have "mset (foldl (\<lambda>acc x. insertBack lt x acc) ys xs) = mset ys + mset xs" for ys
    by (induction xs arbitrary: ys) auto
  then show ?thesis by (simp add: SliceStable_def)
qed

lemma takeUpto_prefix: "prefix (takeUpto limit n ms) ms"
  by (induction ms arbitrary: n) auto

lemma takeUpto_length: "0 < limit \<Longrightarrow> int n < limit \<Longrightarrow> int n + int (length (takeUpto limit n ms)) \<le> limit"
proof (induction ms arbitrary: n)
  case (Cons m ms)
  then show ?case using Cons.IH [of "Suc n"] by auto
qed simp

lemma prefix_filter: "prefix xs ys \<Longrightarrow> prefix (filter P xs) (filter P ys)"
  by (auto simp: prefix_def)

lemma filter_concat_disjoint:
  assumes "distinct gs" "g \<in> set gs" "\<And>h. h \<in> set gs \<Longrightarrow> set (f h) \<subseteq> set (m h)"
    and "\<And>h. h \<in> set gs \<Longrightarrow> h \<noteq> g \<Longrightarrow> set (m h) \<inter> set (m g) = {}"
  shows "filter (\<lambda>x. x \<in> set (m g)) (concat (map f gs)) = f g"
  using assms
proof (induction gs)
  case (Cons h gs)
  have other: "filter (\<lambda>x. x \<in> set (m g)) (concat (map f gs)) = []" if "g \<notin> set gs"
    using that Cons.prems(3,4) by (fastforce simp: filter_empty_conv)
  show ?case
  proof (cases "h = g")
    case True
    have "filter (\<lambda>x. x \<in> set (m g)) (f g) = f g" using Cons.prems(3) True by (auto simp: filter_id_conv)
    then show ?thesis using other Cons.prems(1) True by simp
  next
    case False
    have "filter (\<lambda>x. x \<in> set (m g)) (f h) = []" using Cons.prems(3,4) False by (fastforce simp: filter_empty_conv)
    then show ?thesis using Cons False by simp
  qed
qed simp

lemma drainGroups_order:
  "\<exists>order2. mset order2 = mset order \<and> drainGroups G gr order groups cands limit =
     takeUpto limit 0 (concat (map (\<lambda>g. leading (map sKey cands) (members groups g)) order2))"
  unfolding drainGroups_def Let_def by (rule exI, rule conjI [rotated], rule HOL.refl) simp

lemma drain_group_prefix:
  assumes "distinct order" "g \<in> set order"
    and "\<And>h. h \<in> set order \<Longrightarrow> h \<noteq> g \<Longrightarrow> set (members groups h) \<inter> set (members groups g) = {}"
  shows "prefix (filter (\<lambda>x. x \<in> set (members groups g)) (drainGroups G gr order groups cands limit))
    (leading (map sKey cands) (members groups g))"
proof -
  define lead where "lead g = leading (map sKey cands) (members groups g)" for g
  obtain order2 where o: "mset order2 = mset order"
    "drainGroups G gr order groups cands limit = takeUpto limit 0 (concat (map lead order2))"
    using drainGroups_order unfolding lead_def by blast
  have d: "distinct order2" "set order2 = set order" using o(1) assms(1) mset_eq_imp_distinct_iff mset_eq_setD by blast+
  have sub: "set (lead h) \<subseteq> set (members groups h)" for h
    by (auto simp: lead_def leading_def dest: set_takeWhileD)
  have "filter (\<lambda>x. x \<in> set (members groups g)) (concat (map lead order2)) = lead g"
    using d assms(2,3) sub by (intro filter_concat_disjoint) auto
  then show ?thesis using prefix_filter [OF takeUpto_prefix] o(2) unfolding lead_def by metis
qed

lemma drain_selectable: "x \<in> set (drainGroups G gr order groups cands limit) \<Longrightarrow> sKey x \<in> sKey ` set cands"
proof -
  assume x: "x \<in> set (drainGroups G gr order groups cands limit)"
  obtain order2 where "drainGroups G gr order groups cands limit =
      takeUpto limit 0 (concat (map (\<lambda>g. leading (map sKey cands) (members groups g)) order2))"
    using drainGroups_order by blast
  then have "x \<in> set (concat (map (\<lambda>g. leading (map sKey cands) (members groups g)) order2))"
    using x takeUpto_prefix set_mono_prefix by (metis subsetD)
  then show ?thesis by (auto simp: leading_def dest: set_takeWhileD)
qed

lemma drain_limit: "0 < limit \<Longrightarrow> int (length (drainGroups G gr order groups cands limit)) \<le> limit"
  using takeUpto_length [of limit 0] drainGroups_order [of order G gr groups cands limit] by auto

text \<open>C22: a group is delivered in order.  What a draining selection takes of any group is the group's first
  records, without a gap and in their order, every one of them selectable; and it never takes more than
  a positive limit.\<close>

theorem drain_in_order:
  assumes "distinct order" "g \<in> set order"
    and "\<And>h. h \<in> set order \<Longrightarrow> h \<noteq> g \<Longrightarrow> set (members groups h) \<inter> set (members groups g) = {}"
  shows "prefix (filter (\<lambda>x. x \<in> set (members groups g)) (drainGroups G gr order groups cands limit)) (members groups g) \<and>
    list_all (\<lambda>x. sKey x \<in> sKey ` set cands) (drainGroups G gr order groups cands limit) \<and>
    (0 < limit \<longrightarrow> int (length (drainGroups G gr order groups cands limit)) \<le> limit)"
proof (intro conjI impI)
  have "prefix (leading (map sKey cands) (members groups g)) (members groups g)"
    unfolding leading_def by (rule takeWhile_is_prefix)
  then show "prefix (filter (\<lambda>x. x \<in> set (members groups g)) (drainGroups G gr order groups cands limit)) (members groups g)"
    using drain_group_prefix [OF assms] prefix_order.trans by blast
qed (simp_all add: list_all_iff drain_selectable drain_limit)

definition demo_fifo :: "(string, selected list) gmap" where
  "demo_fifo = [(''x'', [\<lparr>sKey = ''1'', sRec = []\<rparr>, \<lparr>sKey = ''2'', sRec = []\<rparr>]), (''y'', [\<lparr>sKey = ''3'', sRec = []\<rparr>])]"

theorem drain_in_order_witness:
  "prefix (filter (\<lambda>x. x \<in> set (members demo_fifo ''x''))
      (drainGroups demo_engine \<lparr>GrWhen = [], GrBy = ''g'', GrExclusive = [], GrDrain = True\<rparr> [''x'', ''y''] demo_fifo demo_cands 2))
     (members demo_fifo ''x'')"
  using drain_in_order [of "[''x'', ''y'']" "''x''" demo_fifo demo_engine
      "\<lparr>GrWhen = [], GrBy = ''g'', GrExclusive = [], GrDrain = True\<rparr>" demo_cands 2]
  by (auto simp: demo_fifo_def members_def)

section \<open>The order of the groups\<close>

definition grouped :: "string \<Rightarrow> string \<Rightarrow> selected" where
  "grouped k g = \<lparr>sKey = k, sRec = [(''g'', VStr g)]\<rparr>"

definition byG :: group where
  "byG = \<lparr>GrWhen = [], GrBy = ''g'', GrExclusive = [], GrDrain = True\<rparr>"

text \<open>The comparison that puts the groups in order is not transitive when a group has nothing to select:
  the record of \<open>c\<close> comes before that of \<open>a\<close> among the candidates, and is delivered first when there are
  only these two groups, but a third group that was met between them and has nothing to select turns the
  two around.\<close>

theorem drain_order_disturbed:
  "map sKey (drainGroups demo_engine byG [''a'', ''c'']
      [(''a'', [grouped ''1'' ''a'']), (''c'', [grouped ''3'' ''c''])] [grouped ''3'' ''c'', grouped ''1'' ''a''] 1) = [''3''] \<and>
   map sKey (drainGroups demo_engine byG [''a'', ''b'', ''c'']
      [(''a'', [grouped ''1'' ''a'']), (''b'', [grouped ''2'' ''b'']), (''c'', [grouped ''3'' ''c''])]
      [grouped ''3'' ''c'', grouped ''1'' ''a''] 1) = [''1'']"
  by code_simp

end
