(* ===== verification/EvalEffects.thy ===== *)
theory EvalEffects
  imports EvalSelect
begin

text \<open>
  What an operation does to the store (\<^verbatim>\<open>internal/engine/eval.go\<close> and \<^verbatim>\<open>effects.go\<close>): creates, puts and
  patches, once, per element or per stored record; deletes; deduplication; events over a selection;
  executions; and the listing and projection that answer the request.

  The loop that refills a selection while its records are redriven has no bound in the code:
  \<open>eventLoop\<close> is a partial function and \<open>NeverReturns\<close> is the answer of a run that does not end.
\<close>

section \<open>Filling a record\<close>

text \<open>\<^verbatim>\<open>spread\<close>: nothing for a member the request did not carry, at any depth.\<close>

fun spreadWalk :: "string \<Rightarrow> gval \<Rightarrow> string list \<Rightarrow> (eerr, gobj) res" where
  "spreadWalk from cur [] =
     (case cur of VNil \<Rightarrow> Ok [] | VMap m \<Rightarrow> Ok m | _ \<Rightarrow> Err (SpreadFailed from))"
| "spreadWalk from cur (name # names) =
     (case cur of VNil \<Rightarrow> Ok [] | VMap m \<Rightarrow> spreadWalk from (gget m name) names | _ \<Rightarrow> Err (SpreadFailed from))"

definition spread :: "string \<Rightarrow> evals \<Rightarrow> (eerr, gobj) res" where
  "spread from s =
     (if from = ''item'' then (case map_of (eBinds s) ''item'' of Some (VMap m) \<Rightarrow> Ok m | _ \<Rightarrow> Err (SpreadFailed from))
      else case SplitByte (CHR ''.'') from of
        part # parts \<Rightarrow> if part \<noteq> ''input'' then Err (SpreadFailed from) else spreadWalk from (VMap (qInput (eReq s))) parts
      | [] \<Rightarrow> Err (SpreadFailed from))"

definition overlay :: "gobj \<Rightarrow> gobj \<Rightarrow> gobj" where
  "overlay src rc = foldl (\<lambda>m (k, v). AList.update k v m) rc src"

definition spreadInto :: "string \<Rightarrow> string \<Rightarrow> gobj \<Rightarrow> gobj ev" where
  "spreadInto path from rc =
     (if from = [] then ret rc
      else andThen (wrapE path (ask (spread from))) (\<lambda>src. ret (overlay src rc)))"

text \<open>Members in the order of their names; \<open>shown\<close> is what makes each assignment visible to the next.\<close>

fun fillMembers :: "engine \<Rightarrow> string \<Rightarrow> (gobj \<Rightarrow> unit ev) \<Rightarrow> gobj \<Rightarrow> string list \<Rightarrow> gobj \<Rightarrow> gobj ev" where
  "fillMembers G pre shown spec [] rc = ret rc"
| "fillMembers G pre shown spec (k # ks) rc =
     andThen (recordValue G (pre @ k) (gget spec k)) (\<lambda>v.
     let rc' = AList.update k v rc in
     andThen (shown rc') (\<lambda>_. fillMembers G pre shown spec ks rc'))"

definition fillRecord :: "engine \<Rightarrow> string \<Rightarrow> write_effect \<Rightarrow> resource \<Rightarrow> bool \<Rightarrow> (gobj \<Rightarrow> unit ev) \<Rightarrow> gobj \<Rightarrow> gobj ev" where
  "fillRecord G path w res schema shown rc =
     andThen (if schema
              then fillMembers G (''resources.'' @ WResource w @ ''.record.'') shown (RRecord res) (sort (gkeys (RRecord res))) rc
              else ret rc) (\<lambda>rc1.
     fillMembers G (path @ ''.record.'') shown (WRecord w) (sort (gkeys (WRecord w))) rc1)"

definition keyMember :: "engine \<Rightarrow> string \<Rightarrow> resource \<Rightarrow> gobj \<Rightarrow> (eerr, string) res" where
  "keyMember G path res rc =
     (case map_of rc (RKey res) of None \<Rightarrow> Err (NoKeyMember path (RKey res)) | Some v \<Rightarrow> Ok (Sprint G v))"

section \<open>Writing one record\<close>

text \<open>The state and the deadline a record with a lifecycle is born with.\<close>

definition bornState :: "engine \<Rightarrow> string \<Rightarrow> write_effect \<Rightarrow> chart \<Rightarrow> gobj \<Rightarrow> gobj ev" where
  "bornState G path w ch rc =
     (if WState w = [] then ret rc
      else andThen (evalAt G (path @ ''.state'') (WState w)) (\<lambda>st.
           if map_of (States ch) (Sprint G st) = None then fail (BadState path (Sprint G st))
           else ret (AList.update stateMember (VStr (Sprint G st)) rc)))"

definition bornDeadline :: "engine \<Rightarrow> string \<Rightarrow> write_effect \<Rightarrow> gobj \<Rightarrow> gobj ev" where
  "bornDeadline G path w rc =
     (case WDeadline w of
        None \<Rightarrow> ret rc
      | Some d \<Rightarrow>
          andThen (if WDWhen d = [] then ret True else evalBool G (path @ ''.deadline.when'')) (\<lambda>arm.
          if \<not> arm then ret rc
          else andThen (evalP G (path @ ''.deadline.after'')) (\<lambda>v.
               case asDuration v of
                 None \<Rightarrow> fail (NotADuration path v)
               | Some dur \<Rightarrow> andThen (gets eNow) (\<lambda>now. ret (setDeadline rc (WDName d) (wrap64 (now + dur)))))))"

definition lastSegment :: "string \<Rightarrow> string" where
  "lastSegment path =
     TrimPrefix (case LastIndexByte path (CHR ''.'') of Some i \<Rightarrow> drop (Suc i) path | None \<Rightarrow> path) ''.''"

definition writeKey :: "engine \<Rightarrow> string \<Rightarrow> write_effect \<Rightarrow> resource \<Rightarrow> bool \<Rightarrow> string ev" where
  "writeKey G path w res create =
     andThen (case (if create then IDGenerate (RID res) else None) of
         Some g \<Rightarrow> generateID g
       | None \<Rightarrow> gets (carriedKey (WResource w) (WKey w))) (\<lambda>key.
     if key = [] then resourceKey G res (WKey w) (path @ ''.key'') else ret key)"

definition bindARN :: "engine \<Rightarrow> string \<Rightarrow> resource \<Rightarrow> unit ev" where
  "bindARN G path res =
     (if RARN res = [] then ret ()
      else andThen (wrapE path (interpolate G (RARN res))) (\<lambda>arn. bindV ''arn'' (VStr arn)))"

text \<open>The record an update starts from, under the key the caller named: \<open>None\<close> is an update that is
  skipped because nothing is there.\<close>

definition existing :: "engine \<Rightarrow> string \<Rightarrow> write_effect \<Rightarrow> resource \<Rightarrow> col \<Rightarrow> string \<Rightarrow> (string \<times> gobj \<times> bool) option ev" where
  "existing G path w res c key0 =
     andThen (if RKey res = [] then ret key0
              else andThen (resourceKey G res (WKey w) (path @ ''.key'')) (\<lambda>k. ret (if k \<noteq> [] then k else key0))) (\<lambda>key.
     andThen (colGet c key) (\<lambda>raw.
     case raw of
       None \<Rightarrow> ret (if WMissing w = ''ignore'' then None else Some (key, [], False))
     | Some b \<Rightarrow> andThen (unmarshalE G b) (\<lambda>rc. ret (Some (key, rc, True)))))"

definition storeOne :: "engine \<Rightarrow> string \<Rightarrow> write_effect \<Rightarrow> resource \<Rightarrow> bool \<Rightarrow> col \<Rightarrow> string \<Rightarrow> gobj \<Rightarrow> bool \<Rightarrow> unit ev" where
  "storeOne G path w res patch c key0 rc0 found =
     andThen (spreadInto path (WSpread w) rc0) (\<lambda>rc1.
     andThen (fillRecord G path w res (\<not> patch \<or> \<not> found) (\<lambda>_. ret ()) rc1) (\<lambda>rc2.
     andThen (if RKey res = [] then ret key0
              else andThen (ask (\<lambda>_. keyMember G path res rc2)) (\<lambda>k.
                   andThen (upd (\<lambda>s. s\<lparr>eID := k\<rparr>)) (\<lambda>_. ret k))) (\<lambda>key.
     andThen (case RChart res of
         None \<Rightarrow> ret rc2
       | Some ch \<Rightarrow> andThen (bornState G path w ch rc2) (bornDeadline G path w)) (\<lambda>rc.
     andThen (putRecord G c key rc) (\<lambda>_.
     andThen (upd (\<lambda>s. s\<lparr>eResIDs := AList.update (WResource w) key (eResIDs s),
                          eFx := AList.update (lastSegment path) (VMap rc) (eFx s)\<rparr>)) (\<lambda>_.
     bindV ''rec'' (VMap rc)))))))"

definition writeOne :: "engine \<Rightarrow> string \<Rightarrow> write_effect \<Rightarrow> bool \<Rightarrow> bool \<Rightarrow> unit ev" where
  "writeOne G path w create patch =
     andThen (resourceOf G (WResource w)) (\<lambda>res.
     andThen (writeKey G path w res create) (\<lambda>key.
     andThen (upd (\<lambda>s. s\<lparr>eID := key\<rparr>)) (\<lambda>_.
     andThen (bindARN G path res) (\<lambda>_.
     andThen (collection G res) (\<lambda>c.
     andThen (if create then ret (Some (key, [], False)) else existing G path w res c key) (\<lambda>start.
     case start of
       None \<Rightarrow> ret ()
     | Some (k, rc, found) \<Rightarrow> storeOne G path w res patch c k rc found))))))"

section \<open>Writing many records\<close>

definition guarded :: "engine \<Rightarrow> string \<Rightarrow> string \<Rightarrow> unit ev \<Rightarrow> unit ev" where
  "guarded G expr path m =
     (if expr = [] then m
      else andThen (evalBool G path) (\<lambda>on. if on then m else ret ()))"

definition writeElem :: "engine \<Rightarrow> string \<Rightarrow> write_effect \<Rightarrow> bool \<Rightarrow> bool \<Rightarrow> gval list \<Rightarrow> gval \<Rightarrow> gval list ev" where
  "writeElem G path w create patch written e =
     andThen (bindV ''item'' e) (\<lambda>_.
     andThen (if WWhen w = [] then ret True else evalBool G (path @ ''.when'')) (\<lambda>on.
     if \<not> on then ret written
     else andThen (writeOne G path w create patch) (\<lambda>_.
          gets (\<lambda>s. case map_of (eBinds s) ''rec'' of Some (VMap rc) \<Rightarrow> written @ [VMap rc] | _ \<Rightarrow> written))))"

definition writeEach :: "engine \<Rightarrow> string \<Rightarrow> write_effect \<Rightarrow> bool \<Rightarrow> bool \<Rightarrow> unit ev" where
  "writeEach G path w create patch =
     andThen (evalP G (path @ ''.for_each'')) (\<lambda>elems.
     case elems of
       VNil \<Rightarrow> ret ()
     | VList xs \<Rightarrow>
         andThen (scoped ''item'' (foldE (writeElem G path w create patch) [] xs)) (\<lambda>written.
         bindV ''items'' (VList written))
     | _ \<Rightarrow> fail (NotAList path elems))"

text \<open>\<^verbatim>\<open>item\<close> is the record that is being changed, so each change shows through it.\<close>

definition showItem :: "gobj \<Rightarrow> unit ev" where
  "showItem rc = bindV ''item'' (VMap rc)"

definition writeFound :: "engine \<Rightarrow> string \<Rightarrow> write_effect \<Rightarrow> resource \<Rightarrow> bool \<Rightarrow> col \<Rightarrow> string \<Rightarrow> gobj \<Rightarrow> unit ev" where
  "writeFound G path w res patch c found rc0 =
     andThen (upd (\<lambda>s. s\<lparr>eID := found\<rparr>)) (\<lambda>_.
     andThen (spreadInto path (WSpread w) rc0) (\<lambda>rc1.
     andThen (showItem rc1) (\<lambda>_.
     andThen (fillRecord G path w res (\<not> patch) showItem rc1) (\<lambda>rc.
     andThen (if RKey res = [] then ret found else ask (\<lambda>_. keyMember G path res rc)) (\<lambda>key.
     andThen (if key \<noteq> found then colDelete c found else ret ()) (\<lambda>_.
     putRecord G c key rc))))))"

definition writeEntry :: "engine \<Rightarrow> string \<Rightarrow> write_effect \<Rightarrow> resource \<Rightarrow> bool \<Rightarrow> col \<Rightarrow> KV \<Rightarrow> unit ev" where
  "writeEntry G path w res patch c kv =
     andThen (unmarshalE G (Value kv)) (\<lambda>rc.
     andThen (showItem rc) (\<lambda>_.
     andThen (evalBool G (path @ ''.where'')) (\<lambda>keep.
     if \<not> keep then ret ()
     else guarded G (WWhen w) (path @ ''.when'') (writeFound G path w res patch c (Key kv) rc))))"

definition writeWhere :: "engine \<Rightarrow> string \<Rightarrow> write_effect \<Rightarrow> bool \<Rightarrow> unit ev" where
  "writeWhere G path w patch =
     andThen (resourceOf G (WResource w)) (\<lambda>res.
     andThen (collection G res) (\<lambda>c.
     andThen (colList c [] [] 0) (\<lambda>(kvs, _).
     scoped ''item'' (forM (writeEntry G path w res patch c) kvs))))"

definition writeRecords :: "engine \<Rightarrow> string \<Rightarrow> write_effect \<Rightarrow> bool \<Rightarrow> bool \<Rightarrow> unit ev" where
  "writeRecords G path w create patch =
     andThen (resourceOf G (WResource w)) (\<lambda>_.
     guarded G (if WForEach w = [] then WWhen w else []) (path @ ''.when'')
       (if WForEach w = [] \<and> WWhere w = [] then writeOne G path w create patch
        else if WWhere w \<noteq> [] then writeWhere G path w patch
        else writeEach G path w create patch))"

section \<open>Deleting\<close>

definition doomedKey :: "engine \<Rightarrow> string \<Rightarrow> string list \<Rightarrow> KV \<Rightarrow> string list ev" where
  "doomedKey G path doomed kv =
     andThen (unmarshalE G (Value kv)) (\<lambda>rc.
     andThen (itemEval rc (evalBool G (path @ ''.where''))) (\<lambda>keep.
     ret (if keep then doomed @ [Key kv] else doomed)))"

definition removeWhere :: "engine \<Rightarrow> string \<Rightarrow> col \<Rightarrow> unit ev" where
  "removeWhere G path c =
     andThen (colList c [] [] 0) (\<lambda>(entries, _).
     andThen (foldE (doomedKey G path) [] entries) (\<lambda>doomed.
     andThen (forM (colDelete c) doomed) (\<lambda>_.
     bindV ''deleted_count'' (VFloat (f64_of_int (int (length doomed)))))))"

definition removeRecord :: "engine \<Rightarrow> string \<Rightarrow> delete_effect \<Rightarrow> unit ev" where
  "removeRecord G path d =
     andThen (resourceOf G (DResource d)) (\<lambda>res.
     guarded G (DWhen d) (path @ ''.when'')
       (andThen (collection G res) (\<lambda>c.
        if DWhere d \<noteq> [] then removeWhere G path c
        else andThen (gets (carriedKey (DResource d) (DKey d))) (\<lambda>key0.
             andThen (if key0 = [] then resourceKey G res (DKey d) (path @ ''.key'') else ret key0) (\<lambda>key.
             colDelete c key)))))"

section \<open>Deduplication\<close>

definition normalizeTTL :: "string \<Rightarrow> string" where
  "normalizeTTL s = (if s = [] then ''0s'' else if is_digit (List.last s) then s @ ''s'' else s)"

definition projectMap :: "engine \<Rightarrow> string \<Rightarrow> gval \<Rightarrow> gobj ev" where
  "projectMap G path raw =
     (case raw of
        VMap m \<Rightarrow>
          mapE (\<lambda>k. andThen (evalAt G (path @ ''.'' @ k) (Sprint G (gget m k))) (\<lambda>v. ret (k, v))) (sort (gkeys m))
      | _ \<Rightarrow> fail (BadOutputMap path))"

text \<open>A hit inside the window: the recorded answer is bound, and the answer of the request is projected from it.\<close>

definition dedupHit :: "engine \<Rightarrow> string \<Rightarrow> dedup_effect \<Rightarrow> gobj \<Rightarrow> bool ev" where
  "dedupHit G path d rc =
     andThen (bindV ''hit'' (VMap rc)) (\<lambda>_.
     if DDOnHit d = [] then ret True
     else andThen (projectMap G (path @ ''.on_hit.output'') (gget (DDOnHit d) ''output'')) (\<lambda>out.
          andThen (upd (\<lambda>s. s\<lparr>eShort := Some out\<rparr>)) (\<lambda>_. ret True)))"

definition dedupBlob :: "engine \<Rightarrow> int \<Rightarrow> gobj \<Rightarrow> bytes ev" where
  "dedupBlob G until rc = marshalE G [(''until'', VInt64 (wrap64 until)), (''record'', VMap rc)]"

definition dedupMiss :: "engine \<Rightarrow> string \<Rightarrow> dedup_effect \<Rightarrow> string \<Rightarrow> string \<Rightarrow> bool ev" where
  "dedupMiss G path d table key =
     (case gParseDuration G (normalizeTTL (DDTTL d)) of
        None \<Rightarrow> fail (BadTTL path)
      | Some ttl \<Rightarrow>
          andThen (mapE (\<lambda>k. andThen (evalP G (path @ ''.record.'' @ k)) (\<lambda>v. ret (k, v))) (sort (gkeys (DDRecord d)))) (\<lambda>rc.
          andThen (gets eNow) (\<lambda>now.
          andThen (dedupBlob G (now + ttl) rc) (\<lambda>blob.
          andThen (colPut (False, table) key blob) (\<lambda>_.
          andThen (upd (\<lambda>s. s\<lparr>eDedup := Some \<lparr>pdCol = table, pdKey = key, pdUntil = now + ttl\<rparr>\<rparr>)) (\<lambda>_.
          ret False))))))"

definition dedupLookup :: "engine \<Rightarrow> string \<Rightarrow> dedup_effect \<Rightarrow> string \<Rightarrow> string \<Rightarrow> bool ev" where
  "dedupLookup G path d table key =
     andThen (colGet (False, table) key) (\<lambda>raw.
     case raw of
       None \<Rightarrow> dedupMiss G path d table key
     | Some b \<Rightarrow>
         (case gUnmarshalDedup G b of
            None \<Rightarrow> fail JSONFailed
          | Some (until, rc) \<Rightarrow>
              andThen (gets eNow) (\<lambda>now.
              if wrap64 now < until then dedupHit G path d rc else dedupMiss G path d table key)))"

definition runDedup :: "engine \<Rightarrow> string \<Rightarrow> dedup_effect \<Rightarrow> bool ev" where
  "runDedup G path d =
     andThen (if DDWhen d = [] then ret True else evalBool G (path @ ''.when'')) (\<lambda>on.
     if \<not> on then ret False
     else andThen (interpolate G (DDTable d)) (\<lambda>table.
          andThen (evalP G (path @ ''.key'')) (\<lambda>keyVal.
          let key = Sprint G keyVal in
          if key = [] \<or> key = ''<nil>'' then ret False else dedupLookup G path d table key)))"

definition completeDedup :: "engine \<Rightarrow> gobj \<Rightarrow> unit ev" where
  "completeDedup G out =
     andThen (gets eDedup) (\<lambda>pd.
     case pd of
       None \<Rightarrow> ret ()
     | Some p \<Rightarrow> andThen (dedupBlob G (pdUntil p) out) (\<lambda>blob. colPut (False, pdCol p) (pdKey p) blob))"

section \<open>Events\<close>

text \<open>One selected record: the record to keep, or \<open>None\<close> when it was redriven.\<close>

definition eventOne :: "engine \<Rightarrow> send_event \<Rightarrow> select \<Rightarrow> resource \<Rightarrow> col \<Rightarrow> gobj \<Rightarrow> selected \<Rightarrow> selected option ev" where
  "eventOne G se sel res c evt s =
     andThen (upd (\<lambda>st. st\<lparr>eCur := map_option (Pair (SelBinding sel)) (posOf (eBound st) (sKey s))\<rparr>)) (\<lambda>_.
     andThen (sendEvent G (SelResource sel) res (sRec s) (SEEvent se) evt) (\<lambda>(rc, changed, moved).
     andThen (upd (\<lambda>st. st\<lparr>eCur := None\<rparr>)) (\<lambda>_.
     andThen (settleWrite G c (sKey s) res rc changed moved) (\<lambda>_.
     if RChart res \<noteq> None \<and> stateText res rc = ''redriven'' then ret None
     else andThen (gets (recordKey G res rc)) (\<lambda>newKey.
          ret (Some \<lparr>sKey = (if newKey = [] then sKey s else newKey), sRec = rc\<rparr>))))))"

fun eventBatch ::
  "engine \<Rightarrow> send_event \<Rightarrow> select \<Rightarrow> resource \<Rightarrow> col \<Rightarrow> gobj \<Rightarrow> nat \<Rightarrow> selected list \<Rightarrow> string list \<Rightarrow> selected list \<Rightarrow>
   (string list \<times> selected list) ev" where
  "eventBatch G se sel res c evt want [] seen kept = ret (seen, kept)"
| "eventBatch G se sel res c evt want (s # ss) seen kept =
     (if sKey s \<in> set seen then eventBatch G se sel res c evt want ss seen kept
      else andThen (eventOne G se sel res c evt s) (\<lambda>r.
           case r of
             None \<Rightarrow> eventBatch G se sel res c evt want ss (sKey s # seen) kept
           | Some it \<Rightarrow>
               if want \<le> length kept + 1 then ret (sKey s # seen, kept @ [it])
               else eventBatch G se sel res c evt want ss (sKey s # seen) (kept @ [it])))"

definition refill :: "engine \<Rightarrow> nat \<Rightarrow> string list \<Rightarrow> selected list ev" where
  "refill G need seen =
     andThen (gets eSelection) (\<lambda>current.
     if current \<noteq> [] then ret current
     else andThen (gets eOp) (\<lambda>op.
          andThen (runSelect G op) (\<lambda>_.
          gets (\<lambda>s. take need (filter (\<lambda>it. sKey it \<notin> set seen) (eSelection s))))))"

partial_function (option) eventLoop ::
  "engine \<Rightarrow> send_event \<Rightarrow> select \<Rightarrow> resource \<Rightarrow> col \<Rightarrow> gobj \<Rightarrow> nat \<Rightarrow> string list \<Rightarrow> selected list \<Rightarrow> evals \<Rightarrow>
   ((eerr, selected list) res \<times> evals) option" where
  "eventLoop G se sel res c evt want seen kept s =
     (if want \<le> length kept then Some (Inr kept, s)
      else case refill G (want - length kept) seen s of
        (Inl e, t) \<Rightarrow> Some (Inl e, t)
      | (Inr batch, t) \<Rightarrow>
          if batch = [] then Some (Inr kept, t)
          else (case eventBatch G se sel res c evt want batch seen kept (t\<lparr>eSelection := []\<rparr>) of
                  (Inl e, u) \<Rightarrow> Some (Inl e, u)
                | (Inr r, u) \<Rightarrow> eventLoop G se sel res c evt want (fst r) (snd r) u))"

declare eventLoop.simps [code]

definition runEvents :: "engine \<Rightarrow> send_event \<Rightarrow> select \<Rightarrow> resource \<Rightarrow> col \<Rightarrow> gobj \<Rightarrow> nat \<Rightarrow> selected list ev" where
  "runEvents G se sel res c evt want s =
     (case eventLoop G se sel res c evt want [] [] s of Some r \<Rightarrow> r | None \<Rightarrow> (Inl NeverReturns, s))"

definition sendForEach :: "engine \<Rightarrow> string \<Rightarrow> send_event \<Rightarrow> gobj \<Rightarrow> unit ev" where
  "sendForEach G path se evt =
     andThen (gets (\<lambda>s. OSelect (eOp s))) (\<lambda>osel.
     case osel of
       None \<Rightarrow> fail (NotTheSelection path)
     | Some sel \<Rightarrow>
         if SelBinding sel \<noteq> SEForEach se then fail (NotTheSelection path)
         else andThen (resourceOf G (SelResource sel)) (\<lambda>res.
              andThen (collection G res) (\<lambda>c.
              andThen (gets (\<lambda>s. length (eSelection s))) (\<lambda>want.
              andThen (runEvents G se sel res c evt want) (setSelection (SEForEach se))))))"

definition sendAddressed :: "engine \<Rightarrow> string \<Rightarrow> send_event \<Rightarrow> gobj \<Rightarrow> unit ev" where
  "sendAddressed G path se evt =
     (if SEResource se = [] then fail (NeedsResource path)
      else andThen (resourceOf G (SEResource se)) (\<lambda>res.
           andThen (collection G res) (\<lambda>c.
           andThen (if SEKey se = [] then gets eID else andThen (evalP G (path @ ''.key'')) (\<lambda>v. ret (Sprint G v))) (\<lambda>key.
           andThen (loadRecord G c key res) (\<lambda>found.
           case found of
             None \<Rightarrow>
               if SEMissing se = ''ignore'' \<or> SEMissing se = [] then ret () else fail (AFault (faultOf G (SEMissing se) []))
           | Some (rc, _) \<Rightarrow>
               andThen (sendEvent G (SEResource se) res rc (SEEvent se) evt) (\<lambda>(rc', changed, moved).
               settleWrite G c key res rc' changed moved))))))"

definition runSendEvent :: "engine \<Rightarrow> string \<Rightarrow> send_event \<Rightarrow> unit ev" where
  "runSendEvent G path se =
     andThen (mapE (\<lambda>k. andThen (evalP G (path @ ''.context.'' @ k)) (\<lambda>v. ret (k, v))) (sort (gkeys (SEContext se)))) (\<lambda>evt.
     if SEForEach se \<noteq> [] then sendForEach G path se evt else sendAddressed G path se evt)"

section \<open>Executions\<close>

definition executeCall :: "(call list \<Rightarrow> call \<Rightarrow> (exec_err, gobj) res) \<Rightarrow> call \<Rightarrow> (exec_err, gobj) res ev" where
  "executeCall ex cl = (\<lambda>s. (Ok (ex (eCalls s) cl), s\<lparr>eCalls := eCalls s @ [cl]\<rparr>))"

definition runExecute :: "engine \<Rightarrow> string \<Rightarrow> execute_effect \<Rightarrow> unit ev" where
  "runExecute G path x =
     guarded G (XWhen x) (path @ ''.when'')
       (case gExecutor G of
          None \<Rightarrow> fail (AFault (serverFault ''execute effect: no executor configured''))
        | Some ex \<Rightarrow>
            andThen (mapE (\<lambda>k. andThen (evalP G (path @ ''.args.'' @ k)) (\<lambda>v. ret (k, v))) (sort (gkeys (XArgs x)))) (\<lambda>args.
            andThen (gets eReq) (\<lambda>q.
            andThen (executeCall ex \<lparr>cAccount = qAccount q, cRegion = qRegion q, cAction = XAction x, cArgs = args\<rparr>) (\<lambda>r.
            case r of
              Inl e \<Rightarrow>
                fail (case e of
                    ExecAbsent text \<Rightarrow>
                      if XAbsentError x \<noteq> []
                      then AFault (faultOf G (XAbsentError x) (if XAbsentMessage x = [] then XAbsentError x else XAbsentMessage x))
                      else AFault (serverFault text)
                  | ExecFailure text \<Rightarrow> AFault (serverFault text)
                  | ExecOther text \<Rightarrow> ExecFailed text)
            | Inr out \<Rightarrow>
                if XBind x = [] then ret ()
                else upd (\<lambda>s. s\<lparr>eFx := AList.update (XBind x) (VMap out) (eFx s)\<rparr>)))))"

section \<open>The effects of an operation\<close>

definition setFx :: "string \<Rightarrow> gval \<Rightarrow> unit ev" where
  "setFx k v = upd (\<lambda>s. s\<lparr>eFx := AList.update k v (eFx s)\<rparr>)"

definition runEffect :: "engine \<Rightarrow> string \<Rightarrow> effect \<Rightarrow> unit ev" where
  "runEffect G path eff =
     (case eff of
        Create w \<Rightarrow> writeRecords G (path @ ''.create'') w True False
      | Put w \<Rightarrow> writeRecords G (path @ ''.put'') w False False
      | Patch w \<Rightarrow> writeRecords G (path @ ''.patch'') w False True
      | Delete d \<Rightarrow> removeRecord G (path @ ''.delete'') d
      | Counter name \<Rightarrow>
          andThen (interpolate G name) (\<lambda>n. andThen (nextCounter G n) (\<lambda>v. setFx ''counter'' (VInt64 v)))
      | Dedup d \<Rightarrow> andThen (runDedup G (path @ ''.dedup'') d) (\<lambda>short. if short then fail ShortCircuit else ret ())
      | Generate g \<Rightarrow>
          guarded G (GEWhen g) (path @ ''.generate.when'')
            (andThen (generateID (GEGenerate g)) (\<lambda>x. setFx (GEBind g) (VStr x)))
      | SendEvent se \<Rightarrow> runSendEvent G (path @ ''.send_event'') se
      | Execute x \<Rightarrow> runExecute G (path @ ''.execute'') x
      | OtherEffect \<Rightarrow> fail (Unsupported path))"

fun effectLoop :: "engine \<Rightarrow> string \<Rightarrow> nat \<Rightarrow> effect list \<Rightarrow> unit ev" where
  "effectLoop G p i [] = ret ()"
| "effectLoop G p i (eff # effs) =
     andThen (runEffect G (p @ ''.effects['' @ show_nat i @ '']'') eff) (\<lambda>_. effectLoop G p (Suc i) effs)"

definition runEffects :: "engine \<Rightarrow> operation \<Rightarrow> unit ev" where
  "runEffects G op = andThen (gets opPath) (\<lambda>p. effectLoop G p 0 (OEffects op))"

section \<open>Listing\<close>

definition listRead :: "engine \<Rightarrow> string \<Rightarrow> string \<times> read \<Rightarrow> string ev" where
  "listRead G base nr =
     (case nr of
        (name, rd) \<Rightarrow>
          andThen (resourceOf G (RdResource rd)) (\<lambda>res.
          andThen (evalP G (base @ ''reads.'' @ name @ ''.key'')) (\<lambda>key.
          andThen (collection G res) (\<lambda>c.
          andThen (colGet c (Sprint G key)) (\<lambda>raw.
          andThen (case raw of
              None \<Rightarrow> ret []
            | Some b \<Rightarrow> andThen (unmarshalE G b) (applyViews G (RdResource rd) res)) (\<lambda>rc.
          andThen (bindV name (VMap rc)) (\<lambda>_.
          andThen (bindV (name @ ''_found'') (VBool (raw \<noteq> None))) (\<lambda>_. ret name))))))))"

definition readNamed :: "(string, read) gmap \<Rightarrow> string \<Rightarrow> read" where
  "readNamed rds n = (case map_of rds n of Some rd \<Rightarrow> rd | None \<Rightarrow> \<lparr>RdResource = [], RdKey = []\<rparr>)"

definition resolveListReads :: "engine \<Rightarrow> listspec \<Rightarrow> string \<Rightarrow> string list ev" where
  "resolveListReads G l base =
     mapE (\<lambda>n. listRead G base (n, readNamed (LReads l) n)) (sort (gkeys (LReads l)))"

text \<open>The filter of a listing with its joins and derived values, which are unbound afterwards.\<close>

definition listKeep :: "engine \<Rightarrow> listspec \<Rightarrow> string \<Rightarrow> gobj \<Rightarrow> bool ev" where
  "listKeep G l base rc =
     (if LFilter l = [] then ret True
      else andThen (bindV ''item'' (VMap rc)) (\<lambda>_.
           andThen (resolveListReads G l base) (\<lambda>joined.
           andThen (resolveLets G (LLet l) (base @ ''let.'')) (\<lambda>derived.
           andThen (evalBool G (base @ ''filter'')) (\<lambda>keep.
           andThen (unbind ''item'') (\<lambda>_.
           andThen (forM unbind derived) (\<lambda>_.
           andThen (forM (\<lambda>n. andThen (unbind n) (\<lambda>_. unbind (n @ ''_found''))) joined) (\<lambda>_.
           ret keep))))))))"

definition listEntry :: "engine \<Rightarrow> listspec \<Rightarrow> resource \<Rightarrow> string \<Rightarrow> col \<Rightarrow> gval list \<times> string \<Rightarrow> KV \<Rightarrow> (gval list \<times> string) ev" where
  "listEntry G l res base c acc kv =
     andThen (unmarshalE G (Value kv)) (\<lambda>raw.
     andThen (settleE [] (RChart res) raw) (\<lambda>(rc, changed).
     andThen (if changed then putRecord G c (Key kv) rc else ret ()) (\<lambda>_.
     andThen (listKeep G l base rc) (\<lambda>keep.
     if \<not> keep then ret acc
     else andThen (applyViews G (LResource l) res rc) (\<lambda>rc'.
          andThen (if LToken l = [] then ret (Key kv)
                   else andThen (itemEval rc' (evalP G (base @ ''token''))) (\<lambda>tok. ret (Sprint G tok))) (\<lambda>lst.
          ret (fst acc @ [VMap rc'], lst)))))))"

definition listAfter :: "engine \<Rightarrow> listspec \<Rightarrow> string \<Rightarrow> pagination option \<Rightarrow> (string \<times> int) ev" where
  "listAfter G l base pg =
     (case pg of
        None \<Rightarrow> ret ([], 0)
      | Some p \<Rightarrow>
          andThen (gets (\<lambda>s. qInput (eReq s))) (\<lambda>inp.
          andThen (case map_of inp (PInputToken p) of
              None \<Rightarrow> ret []
            | Some v \<Rightarrow>
                if Sprint G v = [] then ret []
                else if LAfter l \<noteq> [] then andThen (evalP G (base @ ''after'')) (\<lambda>d. ret (Sprint G d))
                else ret (Sprint G v)) (\<lambda>after.
          ret (after, case map_of inp (PPageSize p) of
              None \<Rightarrow> 0
            | Some v \<Rightarrow> (case toFloat v of Some n \<Rightarrow> f64_to_int64 n | None \<Rightarrow> 0)))))"

definition listEntries :: "engine \<Rightarrow> listspec \<Rightarrow> string \<Rightarrow> col \<Rightarrow> pagination option \<Rightarrow> (KV list \<times> bool) ev" where
  "listEntries G l base c pg =
     andThen (if LKey l = [] then ret [] else andThen (evalP G (base @ ''key'')) (\<lambda>v. ret (as_str v))) (\<lambda>key.
     if key \<noteq> [] then andThen (colGet c key) (\<lambda>raw.
        ret (case raw of Some b \<Rightarrow> [\<lparr>Key = key, Value = b\<rparr>] | None \<Rightarrow> [], False))
     else andThen (if LPrefix l = [] then ret [] else andThen (evalP G (base @ ''prefix'')) (\<lambda>v. ret (Sprint G v))) (\<lambda>pre.
          andThen (listAfter G l base pg) (\<lambda>(after, limit).
          colList c pre after limit)))"

definition runList :: "engine \<Rightarrow> operation \<Rightarrow> model_operation \<Rightarrow> unit ev" where
  "runList G op mop =
     (case OList op of
        None \<Rightarrow> ret ()
      | Some l \<Rightarrow>
          andThen (resourceOf G (LResource l)) (\<lambda>res.
          andThen (collection G res) (\<lambda>c.
          andThen (gets (\<lambda>s. opPath s @ ''.list.'')) (\<lambda>base.
          andThen (listEntries G l base c (MoPagination mop)) (\<lambda>(entries, rest).
          andThen (foldE (listEntry G l res base c) ([], []) entries) (\<lambda>(items, lst).
          andThen (bindV ''__list'' (VList items)) (\<lambda>_.
          andThen (bindV ''__list_more'' (VBool rest)) (\<lambda>_.
          andThen (bindV ''__list_last'' (VStr lst)) (\<lambda>_.
          bindV ''items'' (VList items))))))))))"

section \<open>The answer\<close>

definition listOutput :: "operation \<Rightarrow> model_operation \<Rightarrow> evals \<Rightarrow> gobj" where
  "listOutput op mop s =
     (case OList op of
        None \<Rightarrow> []
      | Some l \<Rightarrow>
          let out = [(LMember l, gget (eBinds s) ''__list'')] in
          case MoPagination mop of
            None \<Rightarrow> out
          | Some p \<Rightarrow>
              if POutputToken p \<noteq> [] \<and> as_bool (gget (eBinds s) ''__list_more'')
              then AList.update (POutputToken p) (gget (eBinds s) ''__list_last'') out else out)"

definition projectMember :: "engine \<Rightarrow> operation \<Rightarrow> string \<Rightarrow> gobj \<Rightarrow> string \<Rightarrow> gobj ev" where
  "projectMember G op p out member =
     andThen (evalP G (p @ ''.output.'' @ member)) (\<lambda>v.
     ret (if v = VNil \<and> member \<in> set (OOmitNull op) then AList.delete member out else AList.update member v out))"

definition project :: "engine \<Rightarrow> operation \<Rightarrow> model_operation \<Rightarrow> gobj ev" where
  "project G op mop =
     andThen (gets opPath) (\<lambda>p.
     andThen (gets (listOutput op mop)) (\<lambda>out0.
     foldE (projectMember G op p) out0 (sort (gkeys (OOutput op)))))"

section \<open>A delete by predicate is exact\<close>

definition stored :: "col \<Rightarrow> evals \<Rightarrow> string \<Rightarrow> bytes option" where
  "stored c s key = coll_Get (fst (scopeOf (fst c) s)) (snd (scopeOf (fst c) s)) (snd c) (eMem s) key"

text \<open>What the predicate says of a stored record, with the record bound as \<^verbatim>\<open>item\<close>.\<close>

definition whereHolds :: "engine \<Rightarrow> string \<Rightarrow> evals \<Rightarrow> bytes \<Rightarrow> bool" where
  "whereHolds G path s b =
     (case gUnmarshal G b of
        Some rc \<Rightarrow> fst (evalBool G (path @ ''.where'') (s\<lparr>eBinds := AList.update ''item'' (VMap rc) (eBinds s)\<rparr>)) = Ok True
      | None \<Rightarrow> False)"

lemma delete_update: "map_of b k = None \<Longrightarrow> AList.delete k (AList.update k v b) = b"
  by (induction b) (auto simp: AList.delete_eq split: if_splits)

lemma itemEval_run:
  assumes "map_of (eBinds s) ''item'' = None" "\<And>t. snd (m t) = t"
  shows "itemEval rc m s = (fst (m (s\<lparr>eBinds := AList.update ''item'' (VMap rc) (eBinds s)\<rparr>)), s)"
proof -
  define t where "t = s\<lparr>eBinds := AList.update ''item'' (VMap rc) (eBinds s)\<rparr>"
  have undo: "unbind ''item'' t = (Ok (), s)" using assms(1) by (simp add: t_def unbind_def upd_def delete_update)
  have "attempt m t = (Ok (fst (m t)), t)" using assms(2) [of t] by (simp add: attempt_def case_prod_beta)
  moreover have "bindV ''item'' (VMap rc) s = (Ok (), t)" by (simp add: bindV_def upd_def t_def)
  ultimately have "itemEval rc m s = (case fst (m t) of Inl e \<Rightarrow> fail e | Inr x \<Rightarrow> ret x) s"
    using undo by (simp add: itemEval_def andThen_run)
  then show ?thesis by (cases "fst (m t)") (simp_all add: fail_def ret_def t_def)
qed

lemma doomed_fold:
  assumes "foldE (doomedKey G path) acc kvs s = (Ok doomed, t)" "map_of (eBinds s) ''item'' = None"
  shows "t = s \<and> doomed = acc @ map Key (filter (\<lambda>kv. whereHolds G path s (Value kv)) kvs)"
  using assms(1)
proof (induction kvs arbitrary: acc)
  case Nil
  then show ?case by (simp add: ret_def)
next
  case (Cons kv kvs)
  obtain rc where rc: "gUnmarshal G (Value kv) = Some rc"
    using Cons.prems by (auto simp: doomedKey_def unmarshalE_def andThen_def fail_def split: option.splits)
  define holds where "holds = fst (evalBool G (path @ ''.where'') (s\<lparr>eBinds := AList.update ''item'' (VMap rc) (eBinds s)\<rparr>))"
  have item: "itemEval rc (evalBool G (path @ ''.where'')) s = (holds, s)"
    unfolding holds_def using assms(2) by (rule itemEval_run) simp
  obtain keep where keep: "holds = Ok keep"
    using Cons.prems item rc by (cases holds) (auto simp: doomedKey_def unmarshalE_def andThen_def ret_def)
  have "doomedKey G path acc kv s = (Ok (if keep then acc @ [Key kv] else acc), s)"
    using item rc keep by (simp add: doomedKey_def unmarshalE_def andThen_run ret_def)
  then have "foldE (doomedKey G path) (if keep then acc @ [Key kv] else acc) kvs s = (Ok doomed, t)"
    using Cons.prems by (simp add: andThen_run)
  from Cons.IH [OF this] show ?case using rc keep by (simp add: whereHolds_def holds_def [symmetric])
qed

lemma delete_fold:
  "forM (colDelete c) ks s = (Ok (), t) \<Longrightarrow> eReq t = eReq s \<and> eBinds t = eBinds s \<and>
     (\<forall>key. stored c t key = (if key \<in> set ks then None else stored c s key))"
proof (induction ks arbitrary: s)
  case (Cons k ks)
  define u where "u = snd (colDelete c k s)"
  have "colDelete c k s = (Ok (), u)" by (simp add: u_def colDelete_def upd_def)
  then have "forM (colDelete c) ks u = (Ok (), t)" using Cons.prems by (simp add: andThen_run)
  moreover have "eReq u = eReq s" "eBinds u = eBinds s" "\<And>key. stored c u key = (if key = k then None else stored c s key)"
    by (auto simp: u_def stored_def colDelete_def upd_def scopeOf_def coll_Get_Delete)
  ultimately show ?case using Cons.IH [of u] by auto
qed (simp add: ret_def)

lemma list_all_stored:
  assumes "fst (colList c [] [] 0 s) = Ok (entries, rest)"
  shows "set (map Key entries) = {k. stored c s k \<noteq> None}" "\<And>kv. kv \<in> set entries \<Longrightarrow> stored c s (Key kv) = Some (Value kv)"
    "mem_ok (eMem s) \<Longrightarrow> distinct (map Key entries)"
proof -
  let ?a = "fst (scopeOf (fst c) s)" and ?r = "snd (scopeOf (fst c) s)"
  have e: "entries = map (entry_of (stored c s)) (sortedKeys (scopeData (eMem s) (scopeKey ?a ?r)) (snd c) [] [])"
    using assms by (simp add: colList_def gets_def listLocked_eq Let_def stored_def [abs_def] split: prod.splits)
  have k: "set (sortedKeys (scopeData (eMem s) (scopeKey ?a ?r)) (snd c) [] []) = {k. stored c s k \<noteq> None}"
    by (auto simp: set_sortedKeys listed_def stored_def coll_Get_def HasPrefix_def)
  show "set (map Key entries) = {k. stored c s k \<noteq> None}" using k unfolding e by (simp only: map_Key_entry_of)
  show "stored c s (Key kv) = Some (Value kv)" if "kv \<in> set entries" for kv
    using that k unfolding e by (auto simp: entry_of_def)
  show "distinct (map Key entries)" if "mem_ok (eMem s)"
    using distinct_listKeys [OF mem_ok_scopeData [OF that]] unfolding e by (simp only: map_Key_entry_of sortedKeys_def distinct_sort)
qed

lemma andThen_OkE:
  assumes "andThen m f s = (Ok y, t)"
  obtains x u where "m s = (Ok x, u)" "f x u = (Ok y, t)"
  using assms by (auto simp: andThen_def split: prod.splits sum.splits)

lemma removeWhere_steps:
  assumes "removeWhere G path c s = (Ok (), t)" "colList c [] [] 0 s = (Ok (entries, rest), s)"
  obtains doomed s1 u where "foldE (doomedKey G path) [] entries s = (Ok doomed, s1)" "forM (colDelete c) doomed s1 = (Ok (), u)"
    "t = u\<lparr>eBinds := AList.update ''deleted_count'' (VFloat (f64_of_int (int (length doomed)))) (eBinds u)\<rparr>"
proof -
  have "andThen (foldE (doomedKey G path) [] entries) (\<lambda>doomed.
      andThen (forM (colDelete c) doomed) (\<lambda>_.
      bindV ''deleted_count'' (VFloat (f64_of_int (int (length doomed)))))) s = (Ok (), t)"
    using assms by (simp add: removeWhere_def andThen_run)
  then obtain doomed s1 where f: "foldE (doomedKey G path) [] entries s = (Ok doomed, s1)"
    "andThen (forM (colDelete c) doomed) (\<lambda>_. bindV ''deleted_count'' (VFloat (f64_of_int (int (length doomed))))) s1 = (Ok (), t)"
    by (rule andThen_OkE)
  then obtain u where "forM (colDelete c) doomed s1 = (Ok (), u)"
    "bindV ''deleted_count'' (VFloat (f64_of_int (int (length doomed)))) u = (Ok (), t)" by (auto elim: andThen_OkE)
  then show ?thesis using f(1) that by (simp add: bindV_def upd_def)
qed

text \<open>C37: a delete by predicate is exact.  When it succeeds, the records the predicate accepts are gone
  and every other record of the collection is as it was, and the count it binds is their number.\<close>

theorem removeWhere_exact:
  assumes "removeWhere G path c s = (Ok (), t)" "map_of (eBinds s) ''item'' = None" "mem_ok (eMem s)"
  shows "(\<forall>key. stored c t key =
      (case stored c s key of None \<Rightarrow> None | Some b \<Rightarrow> if whereHolds G path s b then None else Some b)) \<and>
    gget (eBinds t) ''deleted_count'' =
      VFloat (f64_of_int (int (card {key. \<exists>b. stored c s key = Some b \<and> whereHolds G path s b})))"
proof -
  obtain entries rest where all: "colList c [] [] 0 s = (Ok (entries, rest), s)"
    by (cases "listLocked (fst (scopeOf (fst c) s)) (snd (scopeOf (fst c) s)) (snd c) (eMem s) [] [] 0") (simp add: colList_def gets_def)
  then have l: "fst (colList c [] [] 0 s) = Ok (entries, rest)" by simp
  obtain doomed s1 u where f: "foldE (doomedKey G path) [] entries s = (Ok doomed, s1)"
    and d: "forM (colDelete c) doomed s1 = (Ok (), u)"
    and t: "t = u\<lparr>eBinds := AList.update ''deleted_count'' (VFloat (f64_of_int (int (length doomed)))) (eBinds u)\<rparr>"
    using removeWhere_steps [OF assms(1) all] .
  have doomed: "s1 = s" "doomed = map Key (filter (\<lambda>kv. whereHolds G path s (Value kv)) entries)"
    using doomed_fold [OF f assms(2)] by simp_all
  have gone: "set doomed = {key. \<exists>b. stored c s key = Some b \<and> whereHolds G path s b}"
  proof -
    have "key \<in> set doomed \<longleftrightarrow> (\<exists>kv\<in>set entries. key = Key kv \<and> whereHolds G path s (Value kv))" for key
      unfolding doomed(2) by auto
    moreover have "(\<exists>kv\<in>set entries. key = Key kv \<and> whereHolds G path s (Value kv)) \<longleftrightarrow>
        (\<exists>b. stored c s key = Some b \<and> whereHolds G path s b)" for key
    proof -
      have "key \<in> Key ` set entries \<longleftrightarrow> stored c s key \<noteq> None" using list_all_stored(1) [OF l] by auto
      then show ?thesis using list_all_stored(2) [OF l] by (metis (no_types, lifting) imageE option.distinct(1) option.sel)
    qed
    ultimately show ?thesis by blast
  qed
  have "distinct doomed" using list_all_stored(3) [OF l assms(3)] unfolding doomed(2) by (rule distinct_map_filter)
  then have "length doomed = card {key. \<exists>b. stored c s key = Some b \<and> whereHolds G path s b}"
    using gone distinct_card by metis
  moreover have "stored c t key = stored c u key" for key by (simp add: t stored_def scopeOf_def)
  ultimately show ?thesis
    using delete_fold [OF d] gone by (auto simp: t doomed(1) split: option.splits)
qed

text \<open>Records of text members, one \<^verbatim>\<open>name=text;\<close> after the other, for the examples.\<close>

definition textCodec :: "engine \<Rightarrow> engine" where
  "textCodec G = G\<lparr>
     gMarshal := (\<lambda>m. Some (concat (map (\<lambda>(k, v). k @ ''='' @ as_str v @ '';'') m))),
     gUnmarshal := (\<lambda>b. Some (map (\<lambda>p. case Cut p ''='' of (k, v, _) \<Rightarrow> (k, VStr v))
       (filter (\<lambda>p. p \<noteq> []) (SplitByte (CHR '';'') b))))\<rparr>"

definition sweep_engine :: engine where
  "sweep_engine = (textCodec demo_engine)\<lparr>gPrograms := (\<lambda>path.
     if path = ''sweep.where''
     then Some (\<lambda>act. case map_of act ''item'' of Some (AVal (VMap m)) \<Rightarrow> Ok (VBool (gget m ''v'' = VStr ''old'')) | _ \<Rightarrow> Err ''no item'')
     else None)\<rparr>"

definition sweep_state :: evals where
  "sweep_state = demo_evals\<lparr>eMem :=
     coll_Put ''1'' ''us'' ''rows'' (coll_Put ''1'' ''us'' ''rows'' (NewMemory []) ''a'' ''v=old;'') ''b'' ''v=new;''\<rparr>"

lemma removeWhere_returns:
  assumes "fst (colList c [] [] 0 s) = Ok (es, rest)" "fst (foldE (doomedKey G path) [] es s) = Ok d"
  shows "fst (removeWhere G path c s) = Ok ()"
proof -
  have del: "fst (forM (colDelete c) ks t) = Ok ()" for ks t
    by (induction ks arbitrary: t) (simp_all add: ret_def colDelete_def)
  have "colList c [] [] 0 s = (Ok (es, rest), s)" using assms(1) by (simp add: colList_def gets_def)
  moreover obtain t where "foldE (doomedKey G path) [] es s = (Ok d, t)" using assms(2) by (metis prod.collapse)
  moreover obtain u where "forM (colDelete c) d t = (Ok (), u)" using del by (metis prod.collapse)
  ultimately show ?thesis by (simp add: removeWhere_def andThen_run bindV_def upd_def)
qed

lemma sweep_entries:
  "fst (colList (False, ''rows'') [] [] 0 sweep_state) =
     Ok ([\<lparr>Key = ''a'', Value = ''v=old;''\<rparr>, \<lparr>Key = ''b'', Value = ''v=new;''\<rparr>], False)"
  by code_simp

lemma sweep_doomed:
  "fst (foldE (doomedKey sweep_engine ''sweep'') [] [\<lparr>Key = ''a'', Value = ''v=old;''\<rparr>, \<lparr>Key = ''b'', Value = ''v=new;''\<rparr>] sweep_state) =
     Ok [''a'']"
  by code_simp

lemma sweep_runs:
  "fst (removeWhere sweep_engine ''sweep'' (False, ''rows'') sweep_state) = Ok ()"
  using removeWhere_returns [OF sweep_entries sweep_doomed] .

lemma sweep_where:
  "whereHolds sweep_engine ''sweep'' sweep_state ''v=old;'' \<and> \<not> whereHolds sweep_engine ''sweep'' sweep_state ''v=new;''"
  by code_simp

theorem removeWhere_exact_witness:
  "stored (False, ''rows'') (snd (removeWhere sweep_engine ''sweep'' (False, ''rows'') sweep_state)) ''a'' = None \<and>
   stored (False, ''rows'') (snd (removeWhere sweep_engine ''sweep'' (False, ''rows'') sweep_state)) ''b'' = Some ''v=new;''"
proof -
  have "map_of (eBinds sweep_state) ''item'' = None" "mem_ok (eMem sweep_state)" by (simp_all add: sweep_state_def demo_evals_def)
  moreover have "removeWhere sweep_engine ''sweep'' (False, ''rows'') sweep_state =
      (Ok (), snd (removeWhere sweep_engine ''sweep'' (False, ''rows'') sweep_state))"
    using sweep_runs by (simp add: prod_eq_iff)
  moreover have "stored (False, ''rows'') sweep_state ''a'' = Some ''v=old;''" "stored (False, ''rows'') sweep_state ''b'' = Some ''v=new;''"
    by (simp_all add: sweep_state_def stored_def scopeOf_def demo_evals_def demo_request_def coll_Get_Put)
  ultimately show ?thesis using removeWhere_exact [of sweep_engine "''sweep''" "(False, ''rows'')" sweep_state] sweep_where by simp
qed

section \<open>A duplicate is answered with the first answer\<close>

text \<open>JSON brings a recorded answer back, with the end of its window.\<close>

definition dedup_json :: "engine \<Rightarrow> bool" where
  "dedup_json G \<longleftrightarrow>
     (\<forall>until out b. gMarshal G [(''until'', VInt64 until), (''record'', VMap out)] = Some b \<longrightarrow> gUnmarshalDedup G b = Some (until, out))"

lemma completeDedup_stored:
  assumes "completeDedup G out s = (Ok (), t)" "eDedup s = Some p" "dedup_json G"
  shows "\<exists>b. stored (False, pdCol p) t (pdKey p) = Some b \<and> gUnmarshalDedup G b = Some (wrap64 (pdUntil p), out) \<and> eReq t = eReq s"
proof -
  have "andThen (marshalE G [(''until'', VInt64 (wrap64 (pdUntil p))), (''record'', VMap out)])
      (\<lambda>blob. colPut (False, pdCol p) (pdKey p) blob) s = (Ok (), t)"
    using assms(1,2) by (simp add: completeDedup_def dedupBlob_def)
  then obtain b where b: "gMarshal G [(''until'', VInt64 (wrap64 (pdUntil p))), (''record'', VMap out)] = Some b"
    "colPut (False, pdCol p) (pdKey p) b s = (Ok (), t)"
    by (auto simp: marshalE_def andThen_def ret_def fail_def split: option.splits)
  then have "stored (False, pdCol p) t (pdKey p) = Some b" "eReq t = eReq s"
    by (auto simp: colPut_def upd_def stored_def scopeOf_def coll_Get_Put)
  then show ?thesis using b(1) assms(3) unfolding dedup_json_def by blast
qed

lemma dedupMiss_pending:
  assumes "dedupMiss G path d table key s = (Ok r, t)" "gParseDuration G (normalizeTTL (DDTTL d)) = Some ttl"
  shows "eDedup t = Some \<lparr>pdCol = table, pdKey = key, pdUntil = eNow s + ttl\<rparr>"
proof -
  define recs where "recs = mapE (\<lambda>k. andThen (evalP G (path @ ''.record.'' @ k)) (\<lambda>v. ret (k, v))) (sort (gkeys (DDRecord d)))"
  have run: "recs s = (fst (recs s), s)"
    unfolding recs_def by (intro still_run still.keeps_mapE still.keeps_andThen still_evalP still.keeps_ret)
  have step: "andThen recs (\<lambda>rc. andThen (gets eNow) (\<lambda>now. andThen (dedupBlob G (now + ttl) rc) (\<lambda>blob.
      andThen (colPut (False, table) key blob) (\<lambda>_.
      andThen (upd (\<lambda>s. s\<lparr>eDedup := Some \<lparr>pdCol = table, pdKey = key, pdUntil = now + ttl\<rparr>\<rparr>)) (\<lambda>_. ret False))))) s = (Ok r, t)"
    using assms by (simp add: dedupMiss_def recs_def)
  then obtain rc where "fst (recs s) = Ok rc" using run by (auto elim!: andThen_OkE)
  from step this run show ?thesis by (auto simp: ret_def andThen_run elim!: andThen_OkE)
qed


definition once :: dedup_effect where
  "once = \<lparr>DDTable = ''sent'', DDKey = ''input.id'', DDTTL = ''100'', DDWhen = [], DDOnHit = [], DDRecord = []\<rparr>"

definition once_out :: gobj where
  "once_out = [(''MessageId'', VStr ''m1'')]"

definition once_engine :: engine where
  "once_engine = demo_engine\<lparr>
     gMarshal := (\<lambda>m. if m = [(''until'', VInt64 101), (''record'', VMap once_out)] then Some ''done''
                  else if m = [(''until'', VInt64 101), (''record'', VMap [])] then Some ''pending'' else None),
     gUnmarshalDedup := (\<lambda>b. if b = ''done'' then Some (101, once_out) else if b = ''pending'' then Some (101, []) else None),
     gParseDuration := (\<lambda>t. if t = ''100s'' then Some 100 else None),
     gPrograms := (\<lambda>path. if path = ''d.key'' then Some (\<lambda>_. Ok (VStr ''k'')) else None)\<rparr>"

definition once_first :: evals where
  "once_first = snd (dedupMiss once_engine ''d'' once ''sent'' ''k'' demo_evals)"

definition once_done :: evals where
  "once_done = snd (completeDedup once_engine once_out once_first)"

lemma once_json: "dedup_json once_engine"
  by (auto simp: dedup_json_def once_engine_def once_out_def split: if_splits)

lemma once_wrap [simp]: "wrap64 101 = 101" "wrap64 50 = 50"
  by (simp_all add: wrap64_def)

lemma once_first_runs: "dedupMiss once_engine ''d'' once ''sent'' ''k'' demo_evals = (Ok False, once_first)"
  by (simp add: once_first_def dedupMiss_def once_def once_engine_def normalizeTTL_def is_digit_def dedupBlob_def marshalE_def
      demo_evals_def once_out_def colPut_def andThen_def ret_def upd_def gets_def)

lemma once_done_runs: "completeDedup once_engine once_out once_first = (Ok (), once_done)"
proof -
  have "eDedup once_first = Some \<lparr>pdCol = ''sent'', pdKey = ''k'', pdUntil = 101\<rparr>"
    using dedupMiss_pending [OF once_first_runs, of 100]
    by (simp add: once_def once_engine_def normalizeTTL_def is_digit_def demo_evals_def)
  then show ?thesis
    by (simp add: once_done_def completeDedup_def dedupBlob_def marshalE_def once_engine_def colPut_def upd_def)
qed


section \<open>Where the effects fall short\<close>

definition aliased_chart :: chart where
  "aliased_chart = \<lparr>Initial = ''inflight'', States =
     [(''inflight'', \<lparr>Final = False, On = [(''delete'', [\<lparr>Guard = [], Target = ''deleted'', Actions = []\<rparr>])], Timers = []\<rparr>),
      (''deleted'', \<lparr>Final = True, On = [], Timers = []\<rparr>)]\<rparr>"

definition aliased_res :: resource where
  "aliased_res = demo_res\<lparr>RKeyAliases := ''aliases'', RChart := Some aliased_chart\<rparr>"

definition aliased_engine :: engine where
  "aliased_engine = (textCodec demo_engine)\<lparr>
     gIR := (gIR demo_engine)\<lparr>SvResources := [(''message'', aliased_res)]\<rparr>,
     gPrograms := (\<lambda>path. if path = ''e.key'' then Some (\<lambda>act. case map_of act ''input'' of
         Some (AVal (VMap m)) \<Rightarrow> Ok (gget m ''handle'') | _ \<Rightarrow> Err ''no input'') else None)\<rparr>"

definition delete_event :: send_event where
  "delete_event = \<lparr>SEResource = ''message'', SEKey = ''input.handle'', SEForEach = [], SEEvent = ''delete'', SEContext = [],
     SEMissing = []\<rparr>"

definition aliased_state :: "string \<Rightarrow> evals" where
  "aliased_state handle = demo_evals\<lparr>
     eReq := demo_request\<lparr>qInput := [(''handle'', VStr handle)]\<rparr>,
     eMem := coll_Put ''1'' ''us'' ''aliases'' (coll_Put ''1'' ''us'' ''msgs'' (NewMemory []) ''new'' ''body=hi;'') ''old'' ''new''\<rparr>"

text \<open>An event addressed by a former key finds the record through the key's alias, takes the transition to
  the final state and deletes the former key: the record stays.  The same event addressed by the
  current key deletes it.\<close>

theorem aliased_delete_keeps_record:
  "fst (runSendEvent aliased_engine ''e'' delete_event (aliased_state ''old'')) = Ok () \<and>
   stored (False, ''msgs'') (snd (runSendEvent aliased_engine ''e'' delete_event (aliased_state ''old''))) ''new'' = Some ''body=hi;'' \<and>
   stored (False, ''msgs'') (snd (runSendEvent aliased_engine ''e'' delete_event (aliased_state ''new''))) ''new'' = None"
  by code_simp

definition touch_all :: write_effect where
  "touch_all = \<lparr>WResource = ''row'', WKey = ''item'', WRecord = [], WWhen = [], WSpread = [], WForEach = ''input.ids'',
     WWhere = [], WMissing = ''ignore'', WState = [], WDeadline = None\<rparr>"

definition touch_engine :: engine where
  "touch_engine = (textCodec demo_engine)\<lparr>
     gIR := (gIR demo_engine)\<lparr>SvResources := [(''row'', demo_res\<lparr>RCollection := ''rows'', RChart := None\<rparr>)]\<rparr>,
     gPrograms := (\<lambda>path.
       if path = ''w.for_each'' then Some (\<lambda>act. case map_of act ''input'' of
         Some (AVal (VMap m)) \<Rightarrow> Ok (gget m ''ids'') | _ \<Rightarrow> Err ''no input'')
       else if path = ''w.key'' then Some (\<lambda>act. case map_of act ''item'' of Some (AVal v) \<Rightarrow> Ok v | _ \<Rightarrow> Err ''no item'')
       else None)\<rparr>"

definition touch_state :: evals where
  "touch_state = demo_evals\<lparr>
     eReq := demo_request\<lparr>qInput := [(''ids'', VList [VStr ''a'', VStr ''gone''])]\<rparr>,
     eMem := coll_Put ''1'' ''us'' ''rows'' (NewMemory []) ''a'' ''v=1;''\<rparr>"

text \<open>A batch update that ignores missing records answers with the record of the element before in the place
  of each missing one: two ids, one of them absent, and the answer carries the one record twice.\<close>

theorem missing_element_repeats:
  "gget (eBinds (snd (writeRecords touch_engine ''w'' touch_all False True touch_state))) ''items'' =
     VList [VMap [(''v'', VStr ''1'')], VMap [(''v'', VStr ''1'')]]"
  by code_simp

definition page_list :: listspec where
  "page_list = \<lparr>LResource = ''row'', LMember = ''Rows'', LKey = [], LFilter = ''item.v == new'', LPrefix = [], LAfter = [],
     LToken = [], LReads = [], LLet = []\<rparr>"

definition page_op :: operation where
  "page_op = demo_op\<lparr>OList := Some page_list\<rparr>"

definition page_model :: model_operation where
  "page_model = \<lparr>MoCode = 200, MoInput = [], MoPagination = Some \<lparr>PInputToken = ''NextToken'', POutputToken = ''NextToken'',
     PPageSize = ''MaxResults''\<rparr>\<rparr>"

definition page_engine :: engine where
  "page_engine = touch_engine\<lparr>gPrograms := (\<lambda>path. if path = ''operations.Op.list.filter''
     then Some (\<lambda>act. case map_of act ''item'' of Some (AVal (VMap m)) \<Rightarrow> Ok (VBool (gget m ''v'' = VStr ''new'')) | _ \<Rightarrow> Err ''no item'')
     else None)\<rparr>"

definition page_state :: "(string \<times> gval) list \<Rightarrow> evals" where
  "page_state inp = sweep_state\<lparr>eReq := demo_request\<lparr>qInput := inp\<rparr>\<rparr>"

definition page_answer :: "(string \<times> gval) list \<Rightarrow> (eerr, gobj) res" where
  "page_answer inp = fst (andThen (runList page_engine page_op page_model) (\<lambda>_. project page_engine page_op page_model) (page_state inp))"

text \<open>A page whose rows are all filtered out says that there are more and names no place to go on from: its
  token is the empty text, which a client takes for the end, and which asks for the same page again.\<close>

theorem filtered_page_has_no_token:
  "page_answer [(''MaxResults'', VFloat (Fin 1))] = Ok [(''Rows'', VList []), (''NextToken'', VStr '''')] \<and>
   page_answer [(''MaxResults'', VFloat (Fin 1)), (''NextToken'', VStr '''')] = Ok [(''Rows'', VList []), (''NextToken'', VStr '''')] \<and>
   page_answer [] = Ok [(''Rows'', VList [VMap [(''v'', VStr ''new'')]])]"
  by code_simp

section \<open>Events over a selection return\<close>

lemma eventOne_kept:
  assumes "RChart res = Some ch" "map_of (States ch) [] = None" "map_of (States ch) ''redriven'' = None"
    and "fst (eventOne G se sel res c evt x s) = Ok r"
  shows "r \<noteq> None"
proof -
  define s1 where "s1 = s\<lparr>eCur := map_option (Pair (SelBinding sel)) (posOf (eBound s) (sKey x))\<rparr>"
  obtain rc changed moved t where run: "fst (sendEvent G (SelResource sel) res (sRec x) (SEEvent se) evt s1) = Ok (rc, changed, moved)"
    and rest: "fst ((if RChart res \<noteq> None \<and> stateText res rc = ''redriven'' then ret None
      else andThen (gets (recordKey G res rc)) (\<lambda>newKey.
          ret (Some \<lparr>sKey = (if newKey = [] then sKey x else newKey), sRec = rc\<rparr>))) t) = Ok r"
    using assms(4) unfolding eventOne_def by (auto simp: andThen_Ok s1_def)
  have "stateText res rc \<noteq> ''redriven''"
    using sendEvent_in_chart [OF assms(1,2) run] assms(1,3) by (auto simp: stateText_def)
  then show ?thesis using rest by (auto simp: ret_def)
qed

lemma eventBatch_fills:
  assumes "\<And>x s r. fst (eventOne G se sel res c evt x s) = Ok r \<Longrightarrow> r \<noteq> None"
    and "distinct (map sKey ss)" "sKey ` set ss \<inter> set seen = {}" "want = length kept + length ss"
    and "eventBatch G se sel res c evt want ss seen kept s = (Ok (seen', kept'), t)"
  shows "want \<le> length kept'"
  using assms(2-)
proof (induction ss arbitrary: seen kept s)
  case Nil
  then show ?case by (simp add: ret_def)
next
  case (Cons x ss)
  then have "andThen (eventOne G se sel res c evt x) (\<lambda>r. case r of
        None \<Rightarrow> eventBatch G se sel res c evt want ss (sKey x # seen) kept
      | Some it \<Rightarrow> if want \<le> length kept + 1 then ret (sKey x # seen, kept @ [it])
          else eventBatch G se sel res c evt want ss (sKey x # seen) (kept @ [it])) s = (Ok (seen', kept'), t)"
    by auto
  then obtain r u where one: "eventOne G se sel res c evt x s = (Ok r, u)" and
    rest: "(case r of None \<Rightarrow> eventBatch G se sel res c evt want ss (sKey x # seen) kept
      | Some it \<Rightarrow> if want \<le> length kept + 1 then ret (sKey x # seen, kept @ [it])
          else eventBatch G se sel res c evt want ss (sKey x # seen) (kept @ [it])) u = (Ok (seen', kept'), t)"
    by (rule andThen_OkE)
  obtain it where r: "r = Some it" using assms(1) [of x s r] one by auto
  show ?case
  proof (cases "want \<le> length kept + 1")
    case True
    then show ?thesis using rest r by (auto simp: ret_def)
  next
    case False
    then have "eventBatch G se sel res c evt want ss (sKey x # seen) (kept @ [it]) u = (Ok (seen', kept'), t)"
      using rest r by simp
    then show ?thesis using Cons.IH [of "sKey x # seen" "kept @ [it]" u] Cons.prems by auto
  qed
qed


definition shown_select :: select where
  "shown_select = \<lparr>SelBinding = ''messages'', SelResource = ''message'', SelState = [], SelOrderBy = [], SelLimit = [], SelGroup = None,
     SelFilter = [], SelCount = []\<rparr>"

definition shown_state :: evals where
  "shown_state = demo_evals\<lparr>eSelection := [\<lparr>sKey = ''1'', sRec = demo_rec\<rparr>, \<lparr>sKey = ''2'', sRec = []\<rparr>]\<rparr>"


end
