(* ===== verification/Runes.thy ===== *)
theory Runes
  imports Prelude
begin

text \<open>
  UTF-8 as the language decodes it in a range over a string: \<open>decodeRune\<close> is \<^verbatim>\<open>utf8.DecodeRuneInString\<close>, with one
  replacement rune for a byte that does not decode, \<open>runes\<close> the runes of a string and \<open>encodeRune\<close>
  \<^verbatim>\<open>utf8.AppendRune\<close>.
\<close>

section \<open>Decoding\<close>

definition code :: "char \<Rightarrow> nat" where
  "code c = of_char c"

text \<open>The length a lead byte announces and the range its second byte lies in.\<close>

definition lead :: "nat \<Rightarrow> (nat \<times> nat \<times> nat) option" where
  "lead b =
     (if 194 \<le> b \<and> b \<le> 223 then Some (2, 128, 191)
      else if b = 224 then Some (3, 160, 191)
      else if b = 237 then Some (3, 128, 159)
      else if 225 \<le> b \<and> b \<le> 239 then Some (3, 128, 191)
      else if b = 240 then Some (4, 144, 191)
      else if 241 \<le> b \<and> b \<le> 243 then Some (4, 128, 191)
      else if b = 244 then Some (4, 128, 143)
      else None)"

definition cont :: "nat \<Rightarrow> bool" where
  "cont b \<longleftrightarrow> 128 \<le> b \<and> b \<le> 191"

definition decodeRune :: "char \<Rightarrow> string \<Rightarrow> nat \<times> string" where
  "decodeRune c s =
     (if code c < 128 then (code c, s)
      else case lead (code c) of
        None \<Rightarrow> (65533, s)
      | Some (n, lo, hi) \<Rightarrow>
          let bs = map code (take (n - 1) s) in
          if length bs = n - 1 \<and> lo \<le> hd bs \<and> hd bs \<le> hi \<and> list_all cont (tl bs)
          then (foldl (\<lambda>r b. r * 64 + (b - 128)) (code c mod 2 ^ (7 - n)) bs, drop (n - 1) s)
          else (65533, s))"

lemma decodeRune_shorter: "length (snd (decodeRune c s)) \<le> length s"
  by (auto simp: decodeRune_def Let_def split: option.splits)

function runes :: "string \<Rightarrow> nat list" where
  "runes [] = []"
| "runes (c # s) = fst (decodeRune c s) # runes (snd (decodeRune c s))"
  by pat_completeness auto
termination
  by (relation "measure length") (auto simp: less_Suc_eq_le decodeRune_shorter)

section \<open>Encoding\<close>

text \<open>A surrogate and a number beyond the last rune are written as the replacement rune.\<close>

definition encodeRune :: "nat \<Rightarrow> string" where
  "encodeRune r =
     (let r' = (if 1114111 < r \<or> 55296 \<le> r \<and> r \<le> 57343 then 65533 else r) in
      if r' < 128 then [char_of r']
      else if r' < 2048 then [char_of (192 + r' div 64), char_of (128 + r' mod 64)]
      else if r' < 65536 then
        [char_of (224 + r' div 4096), char_of (128 + r' div 64 mod 64), char_of (128 + r' mod 64)]
      else
        [char_of (240 + r' div 262144), char_of (128 + r' div 4096 mod 64), char_of (128 + r' div 64 mod 64),
         char_of (128 + r' mod 64)])"

text \<open>The bytes of the first rune of a string, and whether they decode.\<close>

definition runeSize :: "char \<Rightarrow> string \<Rightarrow> nat" where
  "runeSize c s = Suc (length s) - length (snd (decodeRune c s))"

definition badRune :: "char \<Rightarrow> string \<Rightarrow> bool" where
  "badRune c s \<longleftrightarrow> fst (decodeRune c s) = 65533 \<and> runeSize c s = 1"

section \<open>UTF-8\<close>

text \<open>A rune that decodes takes the bytes it announces, whatever follows them, and writing it gives them back.\<close>

lemma lead_cases:
  "lead b = Some (n, lo, hi) \<Longrightarrow>
     n = 2 \<and> 194 \<le> b \<and> b \<le> 223 \<and> lo = 128 \<and> hi = 191 \<or>
     n = 3 \<and> 224 \<le> b \<and> b \<le> 239 \<and> (b = 224 \<longrightarrow> 160 \<le> lo) \<and> (b = 237 \<longrightarrow> hi \<le> 159) \<and> 128 \<le> lo \<and> hi \<le> 191 \<or>
     n = 4 \<and> 240 \<le> b \<and> b \<le> 244 \<and> (b = 240 \<longrightarrow> 144 \<le> lo) \<and> (b = 244 \<longrightarrow> hi \<le> 143) \<and> 128 \<le> lo \<and> hi \<le> 191"
  by (auto simp: lead_def split: if_splits)

lemma decodes:
  assumes "128 \<le> code c" "\<not> badRune c s"
  obtains n lo hi where "lead (code c) = Some (Suc n, lo, hi)" "0 < n" "n \<le> length s"
    "lo \<le> code (hd s)" "code (hd s) \<le> hi" "list_all cont (tl (map code (take n s)))"
    "decodeRune c s = (foldl (\<lambda>r b. r * 64 + (b - 128)) (code c mod 2 ^ (6 - n)) (map code (take n s)), drop n s)"
    "\<And>t. decodeRune c (take n s @ t) = (fst (decodeRune c s), t)"
proof (cases "lead (code c)")
  case None
  then show ?thesis using assms by (simp add: badRune_def runeSize_def decodeRune_def)
next
  case (Some x)
  obtain m lo hi where x: "x = (m, lo, hi)" by (cases x)
  then have "m = 2 \<or> m = 3 \<or> m = 4" using lead_cases Some by blast
  then obtain n where n: "m = Suc n" "0 < n" by (cases m) auto
  have *: "length (map code (take n s)) = n \<and> lo \<le> hd (map code (take n s)) \<and> hd (map code (take n s)) \<le> hi \<and>
      list_all cont (tl (map code (take n s)))"
    using assms Some x n by (auto simp: badRune_def runeSize_def decodeRune_def Let_def split: if_splits)
  then have l: "n \<le> length s" by (simp add: min_def split: if_splits)
  then have h: "hd (map code (take n s)) = code (hd s)" using n by (cases s; cases n) auto
  have d: "decodeRune c s = (foldl (\<lambda>r b. r * 64 + (b - 128)) (code c mod 2 ^ (6 - n)) (map code (take n s)), drop n s)"
    using assms(1) Some x n * by (simp add: decodeRune_def Let_def)
  have "decodeRune c (take n s @ t) = (fst (decodeRune c s), t)" for t
    using assms(1) Some x n * l unfolding d by (simp add: decodeRune_def Let_def min_def)
  then show ?thesis using that [of n lo hi] Some x n * l h d by simp
qed

lemma char_of_code [simp]: "char_of (code c) = c"
  by (simp add: code_def)

lemma code_less [simp]: "code c < 256"
  by (simp add: code_def)

lemma char_of_eq: "n < 256 \<Longrightarrow> char_of n = c \<longleftrightarrow> n = code c"
  by (metis char_of_code code_def of_char_of mod_less)

text \<open>The digits of a rune in base 64.\<close>

lemma lead_digit: "b < 32 \<Longrightarrow> (192 + b) mod 32 = (b::nat)" "b < 16 \<Longrightarrow> (224 + b) mod 16 = (b::nat)" "b < 8 \<Longrightarrow> (240 + b) mod 8 = (b::nat)"
  using mod_mult_self4 [of 32 6 b] mod_mult_self4 [of 16 14 b] mod_mult_self4 [of 8 30 b] by simp_all

lemma base64_digits:
  fixes b x y z :: nat
  assumes "x < 64" "y < 64" "z < 64"
  shows "(b * 64 + x) div 64 = b" "(b * 64 + x) mod 64 = x"
    "((b * 64 + x) * 64 + y) div 4096 = b" "((b * 64 + x) * 64 + y) div 64 mod 64 = x" "((b * 64 + x) * 64 + y) mod 64 = y"
    "(((b * 64 + x) * 64 + y) * 64 + z) div 262144 = b" "(((b * 64 + x) * 64 + y) * 64 + z) div 4096 mod 64 = x"
    "(((b * 64 + x) * 64 + y) * 64 + z) div 64 mod 64 = y" "(((b * 64 + x) * 64 + y) * 64 + z) mod 64 = z"
proof -
  have d: "(q * 64 + x) div 64 = q" "(q * 64 + y) div 64 = q" "(q * 64 + z) div 64 = q" for q :: nat using assms by simp_all
  have m: "(q * 64 + x) mod 64 = x" "(q * 64 + y) mod 64 = y" "(q * 64 + z) mod 64 = z" for q :: nat using assms by simp_all
  have e: "n div 4096 = n div 64 div 64" "n div 262144 = n div 64 div 64 div 64" for n :: nat by (simp_all flip: div_mult2_eq)
  show "(b * 64 + x) div 64 = b" "(b * 64 + x) mod 64 = x"
    "((b * 64 + x) * 64 + y) div 4096 = b" "((b * 64 + x) * 64 + y) div 64 mod 64 = x" "((b * 64 + x) * 64 + y) mod 64 = y"
    "(((b * 64 + x) * 64 + y) * 64 + z) div 262144 = b" "(((b * 64 + x) * 64 + y) * 64 + z) div 4096 mod 64 = x"
    "(((b * 64 + x) * 64 + y) * 64 + z) div 64 mod 64 = y" "(((b * 64 + x) * 64 + y) * 64 + z) mod 64 = z"
    unfolding e d m by (rule HOL.refl)+
qed

lemma cont_digit: "cont b \<Longrightarrow> \<exists>x < 64. b = 128 + x"
  by (intro exI [of _ "b - 128"]) (auto simp: cont_def)

lemma encodeRune_sizes:
  "128 \<le> r \<Longrightarrow> r < 2048 \<Longrightarrow> encodeRune r = [char_of (192 + r div 64), char_of (128 + r mod 64)]"
  "2048 \<le> r \<Longrightarrow> r < 65536 \<Longrightarrow> \<not> (55296 \<le> r \<and> r \<le> 57343) \<Longrightarrow>
     encodeRune r = [char_of (224 + r div 4096), char_of (128 + r div 64 mod 64), char_of (128 + r mod 64)]"
  "65536 \<le> r \<Longrightarrow> r \<le> 1114111 \<Longrightarrow> encodeRune r =
     [char_of (240 + r div 262144), char_of (128 + r div 4096 mod 64), char_of (128 + r div 64 mod 64), char_of (128 + r mod 64)]"
  unfolding encodeRune_def Let_def by (simp_all, blast)

lemma encode_two:
  fixes b x :: nat
  assumes "2 \<le> b" "b < 32" "x < 64"
  shows "encodeRune (b * 64 + x) = [char_of (192 + b), char_of (128 + x)]"
proof -
  have "128 \<le> b * 64 + x" "b * 64 + x < 2048" using assms by linarith+
  note encodeRune_sizes(1) [OF this]
  then show ?thesis by (simp only: base64_digits(1,2) [OF assms(3,3,3)])
qed

lemma encode_three:
  fixes b x y :: nat
  assumes "b < 16" "x < 64" "y < 64" "b = 0 \<longrightarrow> 32 \<le> x" "b = 13 \<longrightarrow> x < 32"
  shows "encodeRune ((b * 64 + x) * 64 + y) = [char_of (224 + b), char_of (128 + x), char_of (128 + y)]"
proof -
  have "2048 \<le> (b * 64 + x) * 64 + y" using assms by (cases "b = 0") auto
  moreover have "(b * 64 + x) * 64 + y < 65536" using assms(1-3) by auto
  moreover have "\<not> (55296 \<le> (b * 64 + x) * 64 + y \<and> (b * 64 + x) * 64 + y \<le> 57343)"
  proof (cases "b = 13")
    case False
    then consider "b \<le> 12" | "14 \<le> b" by linarith
    then show ?thesis using assms(2,3) by cases auto
  qed (use assms in auto)
  ultimately show ?thesis using encodeRune_sizes(2) by (simp only: base64_digits(3-5) [OF assms(2,3,3)] simp_thms)
qed

lemma encode_four:
  fixes b x y z :: nat
  assumes "b < 5" "x < 64" "y < 64" "z < 64" "b = 0 \<longrightarrow> 16 \<le> x" "b = 4 \<longrightarrow> x < 16"
  shows "encodeRune (((b * 64 + x) * 64 + y) * 64 + z) = [char_of (240 + b), char_of (128 + x), char_of (128 + y), char_of (128 + z)]"
proof -
  have "65536 \<le> ((b * 64 + x) * 64 + y) * 64 + z" using assms by (cases "b = 0") auto
  moreover have "((b * 64 + x) * 64 + y) * 64 + z \<le> 1114111" using assms by (cases "b = 4") auto
  ultimately show ?thesis using encodeRune_sizes(3) by (simp only: base64_digits(6-9) [OF assms(2-4)])
qed

lemma code_add: "code c = n \<Longrightarrow> char_of n = c"
  by auto

lemma encode_decode:
  assumes "128 \<le> code c" "\<not> badRune c s" "decodeRune c s = (r, rest)"
  shows "encodeRune r = take (runeSize c s) (c # s)"
  using assms(1,2)
proof (cases rule: decodes)
  case (1 n lo hi)
  then have rest: "rest = drop n s" and r: "r = foldl (\<lambda>r b. r * 64 + (b - 128)) (code c mod 2 ^ (6 - n)) (map code (take n s))"
    using assms(3) by auto
  have size: "runeSize c s = Suc n" using 1 by (simp add: runeSize_def)
  have h: "cont (code (hd s))" using lead_cases [OF 1(1)] 1(4,5) by (auto simp: cont_def)
  consider "n = 1" | "n = 2" | "n = 3" using lead_cases [OF 1(1)] by auto
  then show ?thesis
  proof cases
    case 1
    obtain a t where s: "s = a # t" using \<open>n \<le> length s\<close> 1 by (cases s) auto
    obtain b where b: "code c = 192 + b" "2 \<le> b" "b < 32" using lead_cases [OF \<open>lead (code c) = _\<close>] 1
      by (intro that [of "code c - 192"]) auto
    obtain x where x: "x < 64" "code a = 128 + x" using cont_digit h s by auto
    show ?thesis using encode_two [OF b(2,3) x(1)] b x s 1 size r lead_digit(1) by (simp add: code_add)
  next
    case 2
    obtain a a' t where s: "s = a # a' # t" using \<open>n \<le> length s\<close> 2 by (cases s; cases "tl s") auto
    obtain b where b: "code c = 224 + b" "b < 16" using lead_cases [OF \<open>lead (code c) = _\<close>] 2
      by (intro that [of "code c - 224"]) auto
    obtain x y where x: "x < 64" "code a = 128 + x" "y < 64" "code a' = 128 + y"
      using cont_digit [of "code a"] cont_digit [of "code a'"] h s 2 \<open>list_all cont _\<close> by auto
    have "b = 0 \<longrightarrow> 32 \<le> x" "b = 13 \<longrightarrow> x < 32"
      using lead_cases [OF \<open>lead (code c) = _\<close>] 2 b x s \<open>lo \<le> code (hd s)\<close> \<open>code (hd s) \<le> hi\<close> by auto
    moreover have "take n s = [a, a']" using s 2 by (simp add: numeral_2_eq_2)
    ultimately show ?thesis using encode_three [OF b(2) x(1,3)] b x 2 size r lead_digit(2) by (simp add: code_add)
  next
    case 3
    obtain a a' a'' t where s: "s = a # a' # a'' # t" using \<open>n \<le> length s\<close> 3 by (cases s; cases "tl s"; cases "tl (tl s)") auto
    obtain b where b: "code c = 240 + b" "b < 5" using lead_cases [OF \<open>lead (code c) = _\<close>] 3
      by (intro that [of "code c - 240"]) auto
    obtain x y z where x: "x < 64" "code a = 128 + x" "y < 64" "code a' = 128 + y" "z < 64" "code a'' = 128 + z"
      using cont_digit [of "code a"] cont_digit [of "code a'"] cont_digit [of "code a''"] h s 3 \<open>list_all cont _\<close> by auto
    have "b = 0 \<longrightarrow> 16 \<le> x" "b = 4 \<longrightarrow> x < 16"
      using lead_cases [OF \<open>lead (code c) = _\<close>] 3 b x s \<open>lo \<le> code (hd s)\<close> \<open>code (hd s) \<le> hi\<close> by auto
    moreover have "take n s = [a, a', a'']" using s 3 by (simp add: numeral_3_eq_3)
    ultimately show ?thesis using encode_four [OF b(2) x(1,3,5)] b x 3 size r lead_digit(3) by (simp add: code_add)
  qed
qed

end
