(* ===== verification/SqsCel.thy ===== *)
theory SqsCel
  imports EvalState Runes
begin

text \<open>
  The functions the engine offers to the queue service's bundle and applies to its requests
  (\<^verbatim>\<open>internal/engine/sqs_cel.go\<close>): message attributes, queue names and attributes, permissions, and the
  two rewrites of a request, of its tags and of the account it addresses.

  A loop over a string reads runes: \<open>runes\<close> is the decoding of UTF-8 with one replacement rune per
  byte that does not decode.  Which runes outside ASCII are letters or digits is a parameter.
\<close>

section \<open>Names and attributes of messages\<close>

text \<open>\<^verbatim>\<open>unicode.IsLetter\<close> or \<^verbatim>\<open>unicode.IsDigit\<close>, the parameter \<open>wide\<close> beyond ASCII.\<close>

definition letterOrDigit :: "(nat \<Rightarrow> bool) \<Rightarrow> nat \<Rightarrow> bool" where
  "letterOrDigit wide r \<longleftrightarrow>
     (if r < 128 then 48 \<le> r \<and> r \<le> 57 \<or> 65 \<le> r \<and> r \<le> 90 \<or> 97 \<le> r \<and> r \<le> 122 else wide r)"

definition dotted :: "(nat \<Rightarrow> bool) \<Rightarrow> nat \<Rightarrow> bool" where
  "dotted wide r \<longleftrightarrow> letterOrDigit wide r \<or> r = 46 \<or> r = 95 \<or> r = 45"

section \<open>Message attributes\<close>

definition validMessageAttributeName :: "(nat \<Rightarrow> bool) \<Rightarrow> string \<Rightarrow> bool" where
  "validMessageAttributeName wide name =
     (let rs = runes name in
      if rs = [] \<or> 256 < length rs \<or> HasPrefix (ToLower name) ''aws.'' \<or> HasPrefix (ToLower name) ''amazon.'' then False
      else if \<not> letterOrDigit wide (hd rs) then False
      else if \<not> letterOrDigit wide (List.last rs) then False
      else list_all (dotted wide) rs)"

definition validMessageAttributeDataType :: "(nat \<Rightarrow> bool) \<Rightarrow> string \<Rightarrow> bool" where
  "validMessageAttributeDataType wide dataType =
     (let rs = runes dataType in
      if rs = [] \<or> 256 < length rs then False
      else case Cut dataType ''.'' of
        (base, sfx, hasSuffix) \<Rightarrow>
          if base \<notin> set [''String'', ''Number'', ''Binary''] then False
          else if \<not> hasSuffix \<or> sfx = [] then \<not> hasSuffix
          else list_all (dotted wide) (runes sfx))"

definition messageContentsOK :: "string \<Rightarrow> bool" where
  "messageContentsOK val \<longleftrightarrow>
     list_all (\<lambda>r. r = 9 \<or> r = 10 \<or> r = 13 \<or> \<not> (r < 32 \<or> 55295 < r \<and> r < 57344 \<or> 65533 < r \<and> r < 65536)) (runes val)"

definition listLen :: "gval \<Rightarrow> nat" where
  "listLen v = (case v of VList xs \<Rightarrow> length xs | _ \<Rightarrow> 0)"

definition validAttribute :: "engine \<Rightarrow> (nat \<Rightarrow> bool) \<Rightarrow> gobj \<Rightarrow> bool" where
  "validAttribute G wide attr =
     (let has = (\<lambda>k. map_of attr k \<noteq> None) in
      if \<not> validMessageAttributeDataType wide (anyString G (gget attr ''DataType'')) then False
      else if length (filter has [''StringValue'', ''BinaryValue'', ''StringListValues'', ''BinaryListValues'']) \<noteq> 1 then False
      else if has ''StringValue'' \<and>
           (anyString G (gget attr ''StringValue'') = [] \<or> \<not> messageContentsOK (anyString G (gget attr ''StringValue''))) then False
      else if has ''BinaryValue'' \<and> gget attr ''BinaryValue'' = VNil then False
      else if has ''StringListValues'' \<and> listLen (gget attr ''StringListValues'') = 0 then False
      else \<not> (has ''BinaryListValues'' \<and> listLen (gget attr ''BinaryListValues'') = 0))"

definition validMessageAttributes :: "engine \<Rightarrow> (nat \<Rightarrow> bool) \<Rightarrow> gval \<Rightarrow> bool" where
  "validMessageAttributes G wide attrs =
     list_all (\<lambda>(name, raw). validMessageAttributeName wide name \<and>
       (case raw of VMap attr \<Rightarrow> validAttribute G wide attr | _ \<Rightarrow> False)) (as_map attrs)"

section \<open>Queues\<close>

definition sqsQueueAttrConflict :: "engine \<Rightarrow> gval \<Rightarrow> gval \<Rightarrow> string" where
  "sqsQueueAttrConflict G effective requested =
     (case find (\<lambda>k. Sprint G (gget (as_map effective) k) \<noteq> Sprint G (gget (as_map requested) k))
             (sort (gkeys (as_map requested))) of
        Some k \<Rightarrow> k
      | None \<Rightarrow> [])"

definition dropsAttr :: "string \<Rightarrow> string \<Rightarrow> bool" where
  "dropsAttr key sv \<longleftrightarrow>
     (key = ''RedrivePolicy'' \<or> key = ''Policy'') \<and> sv = [] \<or> key = ''KmsMasterKeyId'' \<and> sv = [] \<or>
     key = ''KmsDataKeyReusePeriodSeconds'' \<and> sv = ''300''"

definition mergeAttr :: "engine \<Rightarrow> gobj \<Rightarrow> string \<times> gval \<Rightarrow> gobj" where
  "mergeAttr G out kv =
     (case kv of (key, val) \<Rightarrow>
        if dropsAttr key (anyString G val) then AList.delete key out else AList.update key val out)"

definition sqsMergeQueueAttrs :: "engine \<Rightarrow> gval \<Rightarrow> gval \<Rightarrow> gobj" where
  "sqsMergeQueueAttrs G existing updates =
     (case updates of
        VMap u \<Rightarrow>
          let out = foldl (mergeAttr G) (as_map existing) u in
          if anyString G (gget u ''KmsMasterKeyId'') \<noteq> [] \<and>
             (map_of u ''SqsManagedSseEnabled'' = None \<or> anyString G (gget u ''SqsManagedSseEnabled'') = [])
          then AList.update ''SqsManagedSseEnabled'' (VStr ''false'') out else out
      | _ \<Rightarrow> as_map existing)"

definition validQueueName :: "string \<Rightarrow> bool" where
  "validQueueName val =
     (let name = (if HasSuffix val ''.fifo'' then TrimSuffix val ''.fifo'' else val) in
      name \<noteq> [] \<and> length name \<le> 80 \<and>
      list_all (\<lambda>r. 97 \<le> r \<and> r \<le> 122 \<or> 65 \<le> r \<and> r \<le> 90 \<or> 48 \<le> r \<and> r \<le> 57 \<or> r = 45 \<or> r = 95) (runes name))"

definition partitionOf :: "string \<Rightarrow> string" where
  "partitionOf region =
     (if HasPrefix region ''cn-'' then ''aws-cn''
      else if HasPrefix region ''us-gov-'' then ''aws-us-gov''
      else if HasPrefix region ''us-iso-b-'' then ''aws-iso-b''
      else if HasPrefix region ''us-iso-'' then ''aws-iso''
      else ''aws'')"

definition oneOrMany :: "string list \<Rightarrow> gval" where
  "oneOrMany out = (case out of [x] \<Rightarrow> VStr x | _ \<Rightarrow> VList (map VStr out))"

definition elems :: "gval \<Rightarrow> gval list" where
  "elems v = (case v of VList xs \<Rightarrow> xs | _ \<Rightarrow> [])"

definition sqsIAMPrincipals :: "engine \<Rightarrow> gval \<Rightarrow> string \<Rightarrow> gval" where
  "sqsIAMPrincipals G accounts region =
     oneOrMany (map (\<lambda>a. ''arn:'' @ partitionOf region @ '':iam::'' @ Sprint G a @ '':root'') (elems accounts))"

definition sqsSQSActions :: "engine \<Rightarrow> gval \<Rightarrow> gval" where
  "sqsSQSActions G actions =
     oneOrMany (map (\<lambda>a. let s = Sprint G a in if Contains s '':'' then s else ''SQS:'' @ s) (elems actions))"

section \<open>Rewriting a request\<close>

text \<open>The account segment of a queue's URL: the last but one of its path, twelve digits.\<close>

definition urlOwner :: "engine \<Rightarrow> string \<Rightarrow> string" where
  "urlOwner G u =
     (if u = [] then []
      else case gParseURL G u of
        None \<Rightarrow> []
      | Some parsed \<Rightarrow>
          let parts = SplitByte (CHR ''/'') (TrimByte (CHR ''/'') (uPath parsed)) in
          if length parts < 2 then []
          else let cand = parts ! (length parts - 2) in
               if length cand = 12 \<and> list_all is_digit cand then cand else [])"

definition inputText :: "engine \<Rightarrow> gobj \<Rightarrow> string \<Rightarrow> string" where
  "inputText G inp k = (case map_of inp k of Some v \<Rightarrow> Sprint G v | None \<Rightarrow> [])"

definition queueOwner :: "engine \<Rightarrow> request \<Rightarrow> string" where
  "queueOwner G q =
     (let owner = inputText G (qInput q) ''QueueOwnerAWSAccountId'' in
      if owner \<noteq> [] then owner else urlOwner G (inputText G (qInput q) ''QueueUrl''))"

definition rewriteQueueOwner :: "engine \<Rightarrow> request \<Rightarrow> request" where
  "rewriteQueueOwner G q =
     (if queueOwner G q = [] \<or> queueOwner G q = qAccount q then q else q\<lparr>qAccount := queueOwner G q\<rparr>)"

definition tagBase :: "string \<Rightarrow> string" where
  "tagBase key = TrimSuffix (TrimSuffix key ''.Key'') ''.Value''"

definition tagEntries :: "engine \<Rightarrow> string \<Rightarrow> gobj \<Rightarrow> (string, string) gmap" where
  "tagEntries G sfx inp =
     foldl (\<lambda>m (key, v).
       if (HasPrefix key ''Tag.'' \<or> HasPrefix key ''Tags.member.'') \<and> HasSuffix key sfx
       then AList.update (tagBase key) (Sprint G v) m else m) [] inp"

definition liftTags :: "engine \<Rightarrow> gobj \<Rightarrow> gobj" where
  "liftTags G inp =
     (let tags = foldl (\<lambda>m (base, name).
            AList.update name (VStr (case map_of (tagEntries G ''.Value'' inp) base of Some v \<Rightarrow> v | None \<Rightarrow> [])) m)
          [] (tagEntries G ''.Key'' inp)
      in if tags = [] then inp else AList.update ''Tags'' (VMap tags) inp)"

definition liftTagKeys :: "engine \<Rightarrow> gobj \<Rightarrow> gobj" where
  "liftTagKeys G inp =
     (if map_of inp ''TagKeys'' \<noteq> None then inp
      else let out = map (\<lambda>(_, v). VStr (Sprint G v))
                 (filter (\<lambda>(k, _). HasPrefix k ''TagKey.'' \<or> HasPrefix k ''TagKeys.member.'') inp)
           in if out = [] then inp else AList.update ''TagKeys'' (VList out) inp)"

definition normalizeSQSQueryTags :: "engine \<Rightarrow> request \<Rightarrow> request" where
  "normalizeSQSQueryTags G q =
     (if map_of (qInput q) ''Tags'' \<noteq> None then q else q\<lparr>qInput := liftTagKeys G (liftTags G (qInput q))\<rparr>)"

section \<open>Hostnames\<close>

definition secondLevel :: "string list" where
  "secondLevel = [''co'', ''com'', ''org'', ''net'', ''gov'', ''edu'', ''ac'', ''ne'', ''or'', ''go'', ''nom'', ''ltd'', ''plc'']"

definition apexOf :: "string \<Rightarrow> string" where
  "apexOf host =
     (let labels = SplitByte (CHR ''.'') (TrimSuffix host ''.''); n = length labels in
      if n \<le> 2 then Join labels ''.''
      else let k = (if length (labels ! (n - 1)) = 2 \<and> labels ! (n - 2) \<in> set secondLevel then 3 else 2)
           in Join (drop (n - k) labels) ''.'')"

end
