(* ===== verification/Engine.thy ===== *)
theory Engine
  imports EvalEffects SqsCel
begin

text \<open>
  A request through the engine (\<^verbatim>\<open>internal/engine/engine.go\<close>, \<^verbatim>\<open>batch.go\<close> and \<^verbatim>\<open>after.go\<close>): validation against
  the model, the fixed order of reads, derived values, preconditions, selection, waiting, effects,
  listing and projection, batches that delegate to a sibling operation, and the hooks that follow.

  A request runs over the state the request before it left: \<open>newEval\<close> keeps the store, the clock, the
  random stream and what was published, and starts the rest anew.  The lock that makes requests
  run one after another is this sequential order; an operation that waits gives its place up, which is
  what \<open>eScript\<close> says.  A batch calls the engine again for each entry: \<open>Invoke\<close> takes the depth to
  which batches may nest, and \<open>NeverReturns\<close> is the answer beyond it.  A hook is a function of the
  request and the response that may change both the response and the state.
\<close>

section \<open>Validation\<close>

definition splatPayload :: "engine \<Rightarrow> member \<Rightarrow> bool" where
  "splatPayload G m \<longleftrightarrow>
     MLocation m = ''payload'' \<and> \<not> ScalarBody (gShapes G) (MShape m) \<and>
     (case map_of (gShapes G) (MShape m) of Some sh \<Rightarrow> ShKind sh \<noteq> ''list'' | None \<Rightarrow> True)"

definition firstOf :: "fault option \<Rightarrow> eerr \<Rightarrow> eerr" where
  "firstOf fo e = (case fo of Some f \<Rightarrow> AFault f | None \<Rightarrow> e)"

definition clientFault :: "string \<Rightarrow> fault" where
  "clientFault msg = \<lparr>FCode = ''ValidationException'', FMessage = msg, FStatus = 400, FKind = ''client'', FFields = []\<rparr>"

definition below :: "'a option \<Rightarrow> ('a \<Rightarrow> bool) \<Rightarrow> bool" where
  "below b out = (case b of Some x \<Rightarrow> out x | None \<Rightarrow> False)"

definition checkConstraints :: "engine \<Rightarrow> string \<Rightarrow> member \<Rightarrow> gval \<Rightarrow> fault option" where
  "checkConstraints G name m v =
     (case map_of (gShapes G) (MShape m) of
        None \<Rightarrow> None
      | Some sh \<Rightarrow>
          let c = ShConstraints sh;
              bad = (\<lambda>msg. Some (clientFault (name @ '' '' @ msg)));
              len = (case v of VStr s \<Rightarrow> Some (int (length s)) | _ \<Rightarrow> None);
              num = toFloat v;
              value_text = (\<lambda>b. Sprint G (VFloat (the b)))
          in if len \<noteq> None \<and> below (MinLength c) (\<lambda>lo. the len < lo)
             then bad (''must be at least '' @ show_int (the (MinLength c)) @ '' characters'')
             else if len \<noteq> None \<and> below (MaxLength c) (\<lambda>hi. the len > hi)
             then bad (''must be at most '' @ show_int (the (MaxLength c)) @ '' characters'')
             else if num \<noteq> None \<and> below (MinValue c) (\<lambda>lo. f64_lt (the num) lo)
             then bad (''must be at least '' @ value_text (MinValue c))
             else if num \<noteq> None \<and> below (MaxValue c) (\<lambda>hi. f64_lt hi (the num))
             then bad (''must be at most '' @ value_text (MaxValue c))
             else None)"

text \<open>The resources an operation addresses, in the order in which the range over their set meets them:
  the code leaves the order open, and here it is that of the reads, the selection and the list.\<close>

definition addressed :: "operation \<Rightarrow> string list" where
  "addressed op =
     remdups (map (\<lambda>(_, rd). RdResource rd) (OReads op) @
       (case OSelect op of Some sel \<Rightarrow> [SelResource sel] | None \<Rightarrow> []) @
       (case OList op of Some l \<Rightarrow> [LResource l] | None \<Rightarrow> []))"

fun addressLoop :: "engine \<Rightarrow> gobj \<Rightarrow> string \<Rightarrow> string list \<Rightarrow> bool" where
  "addressLoop G inp name [] = False"
| "addressLoop G inp name (res # rest) =
     (case map_of (SvResources (gIR G)) res of
        None \<Rightarrow> addressLoop G inp name rest
      | Some r \<Rightarrow>
          if name \<in> set (IDInputMembers (RID r)) then False
          else if length (AddressMembers r) < 2 \<or> name \<notin> set (AddressMembers r) then addressLoop G inp name rest
          else if list_ex (\<lambda>m. m \<noteq> name \<and> map_of inp m \<noteq> None) (AddressMembers r) then True
          else addressLoop G inp name rest)"

definition addressedOtherwise :: "engine \<Rightarrow> request \<Rightarrow> string \<Rightarrow> bool" where
  "addressedOtherwise G q name =
     (case map_of (SvOperations (gIR G)) (qOperation q) of
        None \<Rightarrow> False
      | Some op \<Rightarrow> addressLoop G (qInput q) name (addressed op))"

definition missingFault :: "engine \<Rightarrow> string \<Rightarrow> fault" where
  "missingFault G name =
     (if SvMissingInput (gIR G) \<noteq> []
      then faultOf G (SvMissingInput (gIR G))
             (case map_of (SvMissingMessages (gIR G)) name of Some msg \<Rightarrow> msg | None \<Rightarrow> name)
      else clientFault (name @ '' is required''))"

definition checkMember :: "engine \<Rightarrow> request \<Rightarrow> string \<Rightarrow> member \<Rightarrow> fault option" where
  "checkMember G q name m =
     (case map_of (qInput q) name of
        Some v \<Rightarrow> checkConstraints G name m v
      | None \<Rightarrow>
          if MRequired m \<and> \<not> splatPayload G m \<and> \<not> addressedOtherwise G q name then Some (missingFault G name) else None)"

fun firstFault :: "('a \<Rightarrow> fault option) \<Rightarrow> 'a list \<Rightarrow> fault option" where
  "firstFault f [] = None"
| "firstFault f (x # xs) = (case f x of Some e \<Rightarrow> Some e | None \<Rightarrow> firstFault f xs)"

definition validateInput :: "engine \<Rightarrow> model_operation \<Rightarrow> request \<Rightarrow> fault option" where
  "validateInput G mop q =
     (if MoInput mop = [] then None
      else case map_of (gShapes G) (MoInput mop) of
        None \<Rightarrow> None
      | Some sh \<Rightarrow>
          firstFault (\<lambda>name. case map_of (ShMembers sh) name of Some m \<Rightarrow> checkMember G q name m | None \<Rightarrow> None)
            (sort (gkeys (ShMembers sh))))"

section \<open>Responses and hooks\<close>

type_synonym hook = "request \<Rightarrow> response \<Rightarrow> response ev"

type_synonym registry = "(string, hook list) gmap"

definition hookKey :: "string \<Rightarrow> string \<Rightarrow> string" where
  "hookKey serviceID operation = serviceID @ ''/'' @ operation"

definition hooksOf :: "registry \<Rightarrow> string \<Rightarrow> hook list" where
  "hooksOf H key = (case map_of H key of Some hs \<Rightarrow> hs | None \<Rightarrow> [])"

text \<open>A nil hook is not registered.\<close>

definition RegisterAfterInvoke :: "string \<Rightarrow> string \<Rightarrow> hook option \<Rightarrow> registry \<Rightarrow> registry" where
  "RegisterAfterInvoke serviceID operation h H =
     (case h of
        None \<Rightarrow> H
      | Some f \<Rightarrow> AList.update (hookKey serviceID operation) (hooksOf H (hookKey serviceID operation) @ [f]) H)"

definition runAfterInvoke :: "registry \<Rightarrow> string \<Rightarrow> request \<Rightarrow> response \<Rightarrow> response ev" where
  "runAfterInvoke H serviceID q resp = foldE (\<lambda>r h. h q r) resp (hooksOf H (hookKey serviceID (qOperation q)))"

section \<open>Batches\<close>

definition validBatchEntryID :: "(nat \<Rightarrow> bool) \<Rightarrow> string \<Rightarrow> bool" where
  "validBatchEntryID wide i \<longleftrightarrow>
     i \<noteq> [] \<and> length i \<le> 80 \<and> list_all (\<lambda>r. letterOrDigit wide r \<or> r = 45 \<or> r = 95) (runes i)"

definition messageByteSize :: "engine \<Rightarrow> string \<Rightarrow> gval \<Rightarrow> nat" where
  "messageByteSize G body attrs =
     length body + sum_list (map (\<lambda>(name, raw). case raw of
         VMap a \<Rightarrow> length name + length (anyString G (gget a ''DataType'')) +
                    length (anyString G (gget a ''StringValue'')) + length (anyString G (gget a ''BinaryValue''))
       | _ \<Rightarrow> 0) (as_map attrs))"

definition bareEntry :: "batch \<Rightarrow> nat \<times> gval \<Rightarrow> gval" where
  "bareEntry b ie =
     (case ie of
        (i, VStr s) \<Rightarrow> if s = [] then VStr s else VMap (AList.update (BBareField b) (VStr s) [(BID b, VStr (show_nat i))])
      | (i, e) \<Rightarrow> e)"

definition batchEntries :: "batch \<Rightarrow> gobj \<Rightarrow> gval list" where
  "batchEntries b inp =
     (let raw = elems (gget inp (BEntries b)) in
      if BBareField b = [] then raw else map (bareEntry b) (enumerate 0 raw))"

definition records :: "gval list \<Rightarrow> gobj list" where
  "records es = concat (map (\<lambda>e. case e of VMap m \<Rightarrow> [m] | _ \<Rightarrow> []) es)"

definition batchFault :: "engine \<Rightarrow> (nat \<Rightarrow> bool) \<Rightarrow> batch \<Rightarrow> gobj \<Rightarrow> fault option" where
  "batchFault G wide b inp =
     (let raw = elems (gget inp (BEntries b));
          es = records (batchEntries b inp);
          named = (\<lambda>n d. if n = [] then d else n);
          total = sum_list (map (\<lambda>e. messageByteSize G (Sprint G (gget e ''MessageBody'')) (gget e ''MessageAttributes'')) es)
      in if BEmptyError b \<noteq> [] \<and> raw = [] then Some (faultOf G (BEmptyError b) [])
         else if 0 < BMaxEntries b \<and> BMaxEntries b < int (length raw)
         then Some (faultOf G (named (BTooManyError b) ''TooManyEntriesInBatchRequest'')
                (''Maximum number of entries per request are '' @ show_int (BMaxEntries b) @ ''. You have sent '' @
                 show_nat (length raw) @ ''.''))
         else if 0 < BMaxBytes b \<and> BMaxBytes b < int total
         then Some (faultOf G (named (BTooLongError b) ''BatchRequestTooLong'')
                (''Batch requests cannot be longer than '' @ show_int (BMaxBytes b) @ '' bytes. You have sent '' @
                 show_nat total @ '' bytes.''))
         else if BInvalidIDError b \<noteq> [] \<and> \<not> list_all (\<lambda>e. validBatchEntryID wide (Sprint G (gget e (BID b)))) es
         then Some (faultOf G (BInvalidIDError b)
                ''A batch entry id can only contain alphanumeric characters, hyphens and underscores. It can be at most 80 letters long.'')
         else None)"

definition subRequest :: "batch \<Rightarrow> request \<Rightarrow> gobj \<Rightarrow> request" where
  "subRequest b q entry =
     (let carried = foldl (\<lambda>m k. case map_of (qInput q) k of Some v \<Rightarrow> AList.update k v m | None \<Rightarrow> m) [] (BCarry b) in
      q\<lparr>qOperation := BOf b, qBody := None, qAdvertiseURL := [],
        qInput := foldl (\<lambda>m (k, v). if k = BID b then m else AList.update k v m) carried entry\<rparr>)"

definition failedRow :: "gval \<Rightarrow> fault \<Rightarrow> gval" where
  "failedRow i f =
     VMap [(''Id'', i), (''Code'', VStr (FCode f)), (''Message'', VStr (FMessage f)), (''SenderFault'', VBool (FKind f = ''client''))]"

definition successRow :: "batch \<Rightarrow> gval \<Rightarrow> response \<Rightarrow> gval" where
  "successRow b i resp =
     VMap (foldl (\<lambda>row k. case map_of (rOutput resp) k of Some v \<Rightarrow> AList.update k v row | None \<Rightarrow> row) [(''Id'', i)] (BResult b))"

definition batchEntry :: "(request \<Rightarrow> response ev) \<Rightarrow> batch \<Rightarrow> request \<Rightarrow> gval list \<times> gval list \<Rightarrow> gobj \<Rightarrow> (gval list \<times> gval list) ev" where
  "batchEntry again b q rows entry =
     andThen (attempt (again (subRequest b q entry))) (\<lambda>r.
     case r of
       Inr resp \<Rightarrow> ret (fst rows @ [successRow b (gget entry (BID b)) resp], snd rows)
     | Inl (AFault f) \<Rightarrow> ret (fst rows, snd rows @ [failedRow (gget entry (BID b)) f])
     | Inl e \<Rightarrow> fail e)"

definition batchOutput :: "batch \<Rightarrow> gval list \<Rightarrow> gval list \<Rightarrow> gobj" where
  "batchOutput b successful failed =
     (let out = (if BSuccessful b \<noteq> [] then [(BSuccessful b, VList successful)] else []) in
      if BFailed b \<noteq> [] \<and> failed \<noteq> [] then AList.update (BFailed b) (VList failed) out else out)"

definition runBatch :: "engine \<Rightarrow> (nat \<Rightarrow> bool) \<Rightarrow> (request \<Rightarrow> response ev) \<Rightarrow> request \<Rightarrow> batch \<Rightarrow> response ev" where
  "runBatch G wide again q b =
     (if map_of (SvOperations (gIR G)) (BOf b) = None then fail (NotAnOperation (BOf b))
      else case batchFault G wide b (qInput q) of
        Some f \<Rightarrow> fail (AFault f)
      | None \<Rightarrow>
          andThen (foldE (batchEntry again b q) ([], []) (records (batchEntries b (qInput q)))) (\<lambda>(successful, failed).
          ret \<lparr>rOutput = batchOutput b successful failed, rStatus = 0\<rparr>))"

section \<open>A request\<close>

definition newEval :: "request \<Rightarrow> operation \<Rightarrow> evals \<Rightarrow> evals" where
  "newEval q op s =
     s\<lparr>eReq := q, eOp := op, eBinds := [], eID := [], eFx := [], eSelection := [], eBound := [], eCur := None,
       eShort := None, eDedup := None, eResIDs := [], eLastCol := [], eSqsWakes := []\<rparr>"

definition withBody :: "request \<Rightarrow> request" where
  "withBody q =
     (case qBody q of
        Some body \<Rightarrow>
          if map_of (qInput q) ''body'' = None then q\<lparr>qInput := AList.update ''body'' (VStr body) (qInput q)\<rparr> else q
      | None \<Rightarrow> q)"

text \<open>A step whose error gives way to the input fault that is being held.\<close>

definition held :: "fault option \<Rightarrow> 'a ev \<Rightarrow> 'a ev" where
  "held fo m = andThen (attempt m) (\<lambda>r. case r of Inl e \<Rightarrow> fail (firstOf fo e) | Inr x \<Rightarrow> ret x)"

definition raise :: "fault option \<Rightarrow> unit ev" where
  "raise fo = (case fo of Some f \<Rightarrow> fail (AFault f) | None \<Rightarrow> ret ())"

text \<open>Whether the answer is final: an early one skips the hooks.\<close>

datatype outcome = Early gobj | Full gobj

definition observing :: "engine \<Rightarrow> operation \<Rightarrow> unit ev" where
  "observing G op =
     andThen (runSelect G op) (\<lambda>_.
     andThen (if OSelect op = None then ret ()
              else andThen (evalSelectLets G op) (\<lambda>_. andThen (checkRequires G op True) raise)) (\<lambda>_.
     runWait G op))"

definition timedOut :: "engine \<Rightarrow> operation \<Rightarrow> gobj option ev" where
  "timedOut G op =
     (case OWait op of
        None \<Rightarrow> ret None
      | Some w \<Rightarrow>
          if WOnTimeout w = [] then ret None
          else andThen (gets opPath) (\<lambda>p.
               andThen (evalBool G (p @ ''.wait.until'')) (\<lambda>ok.
               if ok then ret None
               else andThen (projectMap G (p @ ''.wait.on_timeout.output'') (gget (WOnTimeout w) ''output'')) (\<lambda>out.
                    ret (Some out)))))"

definition trimmed :: "operation \<Rightarrow> gobj \<Rightarrow> gobj" where
  "trimmed op out = filter (\<lambda>(k, v). \<not> (v = VNil \<and> k \<in> set (OOmitNull op))) out"

definition acting :: "engine \<Rightarrow> operation \<Rightarrow> model_operation \<Rightarrow> outcome ev" where
  "acting G op mop =
     andThen (attempt (runEffects G op)) (\<lambda>r.
     case r of
       Inl e \<Rightarrow>
         if e = ShortCircuit then gets (\<lambda>s. Early (trimmed op (case eShort s of Some out \<Rightarrow> out | None \<Rightarrow> [])))
         else fail e
     | Inr _ \<Rightarrow>
         andThen (runList G op mop) (\<lambda>_.
         andThen (project G op mop) (\<lambda>out.
         andThen (completeDedup G out) (\<lambda>_. ret (Full out)))))"

text \<open>The held failures: the preconditions decide first, then a derived value that failed, then the input.\<close>

definition prechecks :: "engine \<Rightarrow> operation \<Rightarrow> fault option \<Rightarrow> unit ev" where
  "prechecks G op fo =
     andThen (held fo (resolveReads G op)) (\<lambda>_.
     andThen (attempt (evalLets G op)) (\<lambda>letR.
     andThen (checkRequires G op False) (\<lambda>f.
     andThen (raise f) (\<lambda>_.
     andThen (case letR of Inl e \<Rightarrow> fail (firstOf fo e) | Inr _ \<Rightarrow> ret ()) (\<lambda>_.
     raise fo)))))"

definition evaluate :: "engine \<Rightarrow> operation \<Rightarrow> model_operation \<Rightarrow> fault option \<Rightarrow> outcome ev" where
  "evaluate G op mop fo =
     andThen (prechecks G op fo) (\<lambda>_.
     andThen (observing G op) (\<lambda>_.
     andThen (timedOut G op) (\<lambda>t.
     case t of Some out \<Rightarrow> ret (Early out) | None \<Rightarrow> acting G op mop)))"

text \<open>The deferred wake-ups go out however the request ends, unless it has not ended.\<close>

definition flushed :: "engine \<Rightarrow> 'a ev \<Rightarrow> 'a ev" where
  "flushed G m =
     (\<lambda>s. case m s of
        (Inl e, t) \<Rightarrow> (Inl e, if e = Parked \<or> e = NeverReturns then t else flushSQSWakes G t)
      | (Inr x, t) \<Rightarrow> (Inr x, flushSQSWakes G t))"

definition batchChecks :: "engine \<Rightarrow> operation \<Rightarrow> fault option \<Rightarrow> unit ev" where
  "batchChecks G op fo =
     andThen (if OReads op = [] \<and> OLet op = [] \<and> ORequire op = [] then ret ()
              else andThen (held fo (resolveReads G op)) (\<lambda>_.
                   andThen (held fo (evalLets G op)) (\<lambda>_.
                   andThen (checkRequires G op False) raise))) (\<lambda>_.
     raise fo)"

definition modelOpOf :: "engine \<Rightarrow> string \<Rightarrow> model_operation" where
  "modelOpOf G name =
     (case map_of (gModelOps G) name of Some mop \<Rightarrow> mop | None \<Rightarrow> \<lparr>MoCode = 0, MoInput = [], MoPagination = None\<rparr>)"

definition serve :: "engine \<Rightarrow> (nat \<Rightarrow> bool) \<Rightarrow> registry \<Rightarrow> (request \<Rightarrow> response ev) \<Rightarrow> request \<Rightarrow> operation \<Rightarrow> fault option \<Rightarrow> response ev" where
  "serve G wide H again q op fo =
     (case OBatch op of
        Some b \<Rightarrow> andThen (upd (newEval q op)) (\<lambda>_. andThen (batchChecks G op fo) (\<lambda>_. runBatch G wide again q b))
      | None \<Rightarrow>
          andThen (upd (newEval q op)) (\<lambda>_.
          andThen (flushed G (evaluate G op (modelOpOf G (qOperation q)) fo)) (\<lambda>r.
          case r of
            Early out \<Rightarrow> ret \<lparr>rOutput = out, rStatus = 0\<rparr>
          | Full out \<Rightarrow> runAfterInvoke H (SvID (gIR G)) q \<lparr>rOutput = out, rStatus = 0\<rparr>)))"

definition invokeWith :: "engine \<Rightarrow> (nat \<Rightarrow> bool) \<Rightarrow> registry \<Rightarrow> (request \<Rightarrow> response ev) \<Rightarrow> request \<Rightarrow> response ev" where
  "invokeWith G wide H again q0 =
     (case map_of (SvOperations (gIR G)) (qOperation q0) of
        None \<Rightarrow> fail (AFault (notImplemented (SvID (gIR G)) (qOperation q0)))
      | Some op \<Rightarrow>
          let q = normalizeSQSQueryTags G (withBody q0);
              fo = validateInput G (modelOpOf G (qOperation q)) q
          in if fo \<noteq> None \<and> ORequire op = [] then fail (firstOf fo NeverReturns)
             else serve G wide H again (rewriteQueueOwner G q) op fo)"

definition withStatus :: "engine \<Rightarrow> string \<Rightarrow> response \<Rightarrow> response" where
  "withStatus G operation resp =
     (if rStatus resp \<noteq> 0 then resp
      else resp\<lparr>rStatus := (case map_of (SvOperations (gIR G)) operation of
          Some op \<Rightarrow> if OStatus op \<noteq> 0 then OStatus op else MoCode (modelOpOf G operation)
        | None \<Rightarrow> MoCode (modelOpOf G operation))\<rparr>)"

fun Invoke :: "engine \<Rightarrow> (nat \<Rightarrow> bool) \<Rightarrow> registry \<Rightarrow> nat \<Rightarrow> request \<Rightarrow> response ev" where
  "Invoke G wide H 0 q =
     andThen (invokeWith G wide H (\<lambda>_. fail NeverReturns) q) (\<lambda>r. ret (withStatus G (qOperation q) r))"
| "Invoke G wide H (Suc n) q =
     andThen (invokeWith G wide H (Invoke G wide H n) q) (\<lambda>r. ret (withStatus G (qOperation q) r))"

section \<open>The precedence of errors\<close>

definition ruleFault :: "engine \<Rightarrow> string \<Rightarrow> require \<Rightarrow> evals \<Rightarrow> fault option" where
  "ruleFault G base rq s =
     (case fst (evalBool G (base @ ''.cond'') s) of
        Inl e \<Rightarrow> Some (serverFault (gErrText G e))
      | Inr holds \<Rightarrow>
          if holds then None
          else Some (case fst (requireFault G base rq s) of Inl e \<Rightarrow> serverFault (gErrText G e) | Inr f \<Rightarrow> f))"

text \<open>The fault of the first rule that does not hold, among those asked before or after the selection.\<close>

definition firstBroken :: "engine \<Rightarrow> operation \<Rightarrow> bool \<Rightarrow> evals \<Rightarrow> fault option" where
  "firstBroken G op late s =
     firstFault (\<lambda>(i, rq). ruleFault G (opPath s @ ''.require['' @ show_nat i @ '']'') rq s)
       (filter (\<lambda>(i, rq). asksSelection op rq = late) (enumerate 0 (ORequire op)))"

lemma still_requireFault: "keeps (\<lambda>s t. t = s) (requireFault G base rq)"
  unfolding requireFault_def
  by (intro still.keeps_andThen still.keeps_ret still.keeps_mapE keeps_if still_evalP)

lemma run_requireOne: "requireOne G base rq s = (Ok (ruleFault G base rq s), s)"
proof -
  obtain c where c: "evalBool G (base @ ''.cond'') s = (c, s)" using still_run [OF still_evalBool] by blast
  obtain f where f: "requireFault G base rq s = (f, s)" using still_run [OF still_requireFault] by blast
  show ?thesis
    using c f by (auto simp: requireOne_def ruleFault_def attempt_def andThen_def ret_def split: sum.splits)
qed

lemma run_requireLoop:
  "requireLoop G op late p i rqs s =
     (Ok (firstFault (\<lambda>(i, rq). ruleFault G (p @ ''.require['' @ show_nat i @ '']'') rq s)
        (filter (\<lambda>(i, rq). asksSelection op rq = late) (enumerate i rqs))), s)"
  by (induction rqs arbitrary: i) (auto simp: ret_def andThen_run [OF run_requireOne] split: option.split)

lemma run_checkRequires: "checkRequires G op late s = (Ok (firstBroken G op late s), s)"
  by (simp add: checkRequires_def run_requireLoop firstBroken_def)


section \<open>Inputs the model accepts\<close>

definition withinModel :: "engine \<Rightarrow> member \<Rightarrow> gval \<Rightarrow> bool" where
  "withinModel G m v \<longleftrightarrow>
     (\<forall>sh. map_of (gShapes G) (MShape m) = Some sh \<longrightarrow>
        (\<forall>text. v = VStr text \<longrightarrow>
           (\<forall>lo. MinLength (ShConstraints sh) = Some lo \<longrightarrow> lo \<le> int (length text)) \<and>
           (\<forall>hi. MaxLength (ShConstraints sh) = Some hi \<longrightarrow> int (length text) \<le> hi)) \<and>
        (\<forall>x. toFloat v = Some x \<longrightarrow>
           (\<forall>lo. MinValue (ShConstraints sh) = Some lo \<longrightarrow> \<not> f64_lt x lo) \<and>
           (\<forall>hi. MaxValue (ShConstraints sh) = Some hi \<longrightarrow> \<not> f64_lt hi x)))"

lemma toFloat_not_text: "toFloat v = Some x \<Longrightarrow> v \<noteq> VStr text"
  by auto

lemma checkConstraints_None: "checkConstraints G name m v = None \<longleftrightarrow> withinModel G m v"
  unfolding checkConstraints_def withinModel_def
  by (cases v) (auto simp: Let_def below_def not_less split: option.splits)

lemma firstFault_None: "firstFault f xs = None \<longleftrightarrow> (\<forall>x\<in>set xs. f x = None)"
  by (induction xs) (auto split: option.splits)


section \<open>Batches answer every entry once\<close>

definition idOf :: "gval \<Rightarrow> gval" where
  "idOf row = gget (as_map row) ''Id''"

lemma idOf_rows:
  "idOf (failedRow i f) = i" "''Id'' \<notin> set (BResult b) \<Longrightarrow> idOf (successRow b i resp) = i"
proof -
  have "k \<notin> set ks \<Longrightarrow> gget (foldl (\<lambda>row k. case map_of out k of Some v \<Rightarrow> AList.update k v row | None \<Rightarrow> row) row ks) k = gget row k"
    for k ks row and out :: gobj
    by (induction ks arbitrary: row) (auto split: option.splits)
  then show "''Id'' \<notin> set (BResult b) \<Longrightarrow> idOf (successRow b i resp) = i" by (simp add: idOf_def successRow_def)
qed (simp add: idOf_def failedRow_def)

lemma batchEntry_row:
  assumes "batchEntry again b q (ok, bad) e s = (Ok (ok', bad'), t)" "''Id'' \<notin> set (BResult b)"
  shows "\<exists>row. idOf row = gget e (BID b) \<and> (ok' = ok @ [row] \<and> bad' = bad \<or> ok' = ok \<and> bad' = bad @ [row])"
  using assms
  by (auto simp: batchEntry_def attempt_def andThen_def ret_def fail_def idOf_rows split: prod.splits sum.splits eerr.splits)

lemma batch_fold:
  assumes "foldE (batchEntry again b q) (ok, bad) es s = (Ok (ok', bad'), t)" "''Id'' \<notin> set (BResult b)"
  shows "\<exists>flags. length flags = length es \<and>
    map idOf ok' = map idOf ok @ map fst (filter snd (zip (map (\<lambda>e. gget e (BID b)) es) flags)) \<and>
    map idOf bad' = map idOf bad @ map fst (filter (\<lambda>x. \<not> snd x) (zip (map (\<lambda>e. gget e (BID b)) es) flags))"
  using assms(1)
proof (induction es arbitrary: ok bad s)
  case Nil
  then show ?case by (simp add: ret_def)
next
  case (Cons e es)
  then obtain ok1 bad1 u where one: "batchEntry again b q (ok, bad) e s = (Ok (ok1, bad1), u)"
    "foldE (batchEntry again b q) (ok1, bad1) es u = (Ok (ok', bad'), t)" by (auto elim!: andThen_OkE)
  obtain row where row: "idOf row = gget e (BID b)" "ok1 = ok @ [row] \<and> bad1 = bad \<or> ok1 = ok \<and> bad1 = bad @ [row]"
    using batchEntry_row [OF one(1) assms(2)] by blast
  obtain flags where "length flags = length es"
    "map idOf ok' = map idOf ok1 @ map fst (filter snd (zip (map (\<lambda>e. gget e (BID b)) es) flags))"
    "map idOf bad' = map idOf bad1 @ map fst (filter (\<lambda>x. \<not> snd x) (zip (map (\<lambda>e. gget e (BID b)) es) flags))"
    using Cons.IH [OF one(2)] by blast
  then show ?case using row by (intro exI [of _ "(ok1 \<noteq> ok) # flags"]) auto
qed


section \<open>How deep a request goes\<close>

lemma runBatch_cong:
  assumes "\<And>q. qOperation q = BOf b \<Longrightarrow> again q = again' q"
  shows "runBatch G wide again q b = runBatch G wide again' q b"
proof -
  have "batchEntry again b q = batchEntry again' b q"
    by (intro ext) (simp add: batchEntry_def assms subRequest_def Let_def)
  then show ?thesis by (simp add: runBatch_def split: option.split)
qed

lemma invokeWith_cong:
  assumes "\<And>op b q'. map_of (SvOperations (gIR G)) (qOperation q) = Some op \<Longrightarrow> OBatch op = Some b \<Longrightarrow> qOperation q' = BOf b \<Longrightarrow>
    map_of (SvOperations (gIR G)) (BOf b) \<noteq> None \<Longrightarrow> again q' = again' q'"
  shows "invokeWith G wide H again q = invokeWith G wide H again' q"
proof (cases "map_of (SvOperations (gIR G)) (qOperation q)")
  case (Some op)
  have "runBatch G wide again q' b = runBatch G wide again' q' b" if "OBatch op = Some b" for q' b
  proof (cases "map_of (SvOperations (gIR G)) (BOf b)")
    case None
    then show ?thesis by (simp add: runBatch_def)
  next
    case known: (Some op')
    show ?thesis by (rule runBatch_cong) (simp add: assms [OF Some that] known)
  qed
  then show ?thesis using Some by (auto simp: invokeWith_def serve_def Let_def split: option.split)
qed (simp add: invokeWith_def)

lemma Invoke_single:
  "map_of (SvOperations (gIR G)) (qOperation q) = Some op \<Longrightarrow> OBatch op = None \<Longrightarrow> Invoke G wide H n q = Invoke G wide H 0 q"
proof (cases n)
  case (Suc m)
  assume "map_of (SvOperations (gIR G)) (qOperation q) = Some op" "OBatch op = None"
  then have "invokeWith G wide H (Invoke G wide H m) q = invokeWith G wide H (\<lambda>_. fail NeverReturns) q"
    by (intro invokeWith_cong) simp
  then show ?thesis by (simp add: Suc)
qed simp

text \<open>A request goes one level deep.  In a service whose batches delegate to operations that are not
  batches themselves, the depth to which batches may nest makes no difference beyond one: no request
  is cut short.\<close>

theorem Invoke_depth:
  assumes "\<And>name op b op'. map_of (SvOperations (gIR G)) name = Some op \<Longrightarrow> OBatch op = Some b \<Longrightarrow>
      map_of (SvOperations (gIR G)) (BOf b) = Some op' \<Longrightarrow> OBatch op' = None"
  shows "Invoke G wide H (Suc n) q = Invoke G wide H 1 q"
proof -
  have "Invoke G wide H n q' = Invoke G wide H 0 q'"
    if b: "map_of (SvOperations (gIR G)) (qOperation q) = Some op" "OBatch op = Some b" "qOperation q' = BOf b"
      "map_of (SvOperations (gIR G)) (BOf b) \<noteq> None" for op b q'
  proof -
    obtain op' where op': "map_of (SvOperations (gIR G)) (qOperation q') = Some op'" using b(3,4) by auto
    then show ?thesis using Invoke_single [OF op'] assms [OF b(1,2)] b(3) by simp
  qed
  then have "invokeWith G wide H (Invoke G wide H n) q = invokeWith G wide H (Invoke G wide H 0) q"
    by (intro invokeWith_cong)
  then show ?thesis by simp
qed

section \<open>Examples\<close>

definition two_rules :: operation where
  "two_rules = demo_op\<lparr>ORequire :=
     [\<lparr>RqCond = ''true'', RqError = ''NoQueue'', RqMessage = [], RqMessageExpr = [], RqFields = []\<rparr>,
      \<lparr>RqCond = ''false'', RqError = ''Busy'', RqMessage = ''later'', RqMessageExpr = [], RqFields = []\<rparr>]\<rparr>"

definition rules_engine :: engine where
  "rules_engine = demo_engine\<lparr>
     gIR := (gIR demo_engine)\<lparr>SvErrors := [(''Busy'', \<lparr>EDCode = ''Busy'', EDHTTP = 409, EDFault = ''client'', EDMessage = []\<rparr>)]\<rparr>,
     gPrograms := (\<lambda>path. if path = ''operations.Op.require[0].cond'' then Some (\<lambda>_. Ok (VBool True))
       else if path = ''operations.Op.require[1].cond'' then Some (\<lambda>_. Ok (VBool False)) else None)\<rparr>"

lemma rules_broken:
  "firstBroken rules_engine two_rules False (snd (evalLets rules_engine two_rules demo_evals)) = Some (faultOf rules_engine ''Busy'' ''later'')"
  by code_simp


definition name_engine :: engine where
  "name_engine = demo_engine\<lparr>gShapes :=
     [(''Input'', \<lparr>ShKind = ''structure'', ShMembers = [(''Name'', \<lparr>MShape = ''NameType'', MRequired = True, MLocation = []\<rparr>)],
        ShConstraints = \<lparr>MinLength = None, MaxLength = None, MinValue = None, MaxValue = None\<rparr>\<rparr>),
      (''NameType'', \<lparr>ShKind = ''string'', ShMembers = [],
        ShConstraints = \<lparr>MinLength = Some 1, MaxLength = Some 4, MinValue = None, MaxValue = None\<rparr>\<rparr>)]\<rparr>"

definition name_model :: model_operation where
  "name_model = \<lparr>MoCode = 200, MoInput = ''Input'', MoPagination = None\<rparr>"


definition send_batch :: batch where
  "send_batch = \<lparr>BOf = ''Op'', BEntries = ''Entries'', BID = ''Id'', BCarry = [], BSuccessful = ''Successful'', BFailed = ''Failed'',
     BResult = [''MessageId''], BMaxEntries = 10, BEmptyError = ''Empty'', BTooManyError = [], BInvalidIDError = ''BadId'', BBareField = [],
     BMaxBytes = 0, BTooLongError = []\<rparr>"

definition batch_engine :: engine where
  "batch_engine = demo_engine\<lparr>gIR := (gIR demo_engine)\<lparr>SvOperations :=
     [(''Op'', demo_op), (''OpBatch'', demo_op\<lparr>OBatch := Some send_batch\<rparr>)]\<rparr>\<rparr>"

definition batch_request :: request where
  "batch_request = demo_request\<lparr>qOperation := ''OpBatch'', qInput := [(''Entries'', VList
     [VMap [(''Id'', VStr ''x''), (''Body'', VStr ''hi'')], VMap [(''Id'', VStr ''y''), (''Body'', VStr ''bad'')]])]\<rparr>"

definition refuse_bad :: "request \<Rightarrow> response ev" where
  "refuse_bad q =
     (if gget (qInput q) ''Body'' = VStr ''bad'' then fail (AFault (clientFault ''refused''))
      else ret \<lparr>rOutput = [(''MessageId'', VStr ''m1'')], rStatus = 0\<rparr>)"

definition batch_answer :: response where
  "batch_answer = \<lparr>rOutput = [(''Successful'', VList [VMap [(''Id'', VStr ''x''), (''MessageId'', VStr ''m1'')]]),
     (''Failed'', VList [failedRow (VStr ''y'') (clientFault ''refused'')])], rStatus = 0\<rparr>"

lemma batch_runs: "fst (runBatch batch_engine (\<lambda>_. False) refuse_bad batch_request send_batch demo_evals) = Ok batch_answer"
  by code_simp


theorem Invoke_depth_witness:
  "Invoke batch_engine (\<lambda>_. False) [] (Suc 6) batch_request = Invoke batch_engine (\<lambda>_. False) [] 1 batch_request"
proof (rule Invoke_depth)
  fix name op b op'
  assume "map_of (SvOperations (gIR batch_engine)) name = Some op" "OBatch op = Some b"
    "map_of (SvOperations (gIR batch_engine)) (BOf b) = Some op'"
  then show "OBatch op' = None"
    by (auto simp: batch_engine_def demo_op_def send_batch_def split: if_splits)
qed

definition queue_res :: "string list \<Rightarrow> string \<Rightarrow> resource" where
  "queue_res prims derive = demo_res\<lparr>RID := \<lparr>IDGenerate = None, IDInputMembers = prims, IDDerive = derive\<rparr>\<rparr>"

definition order_engine :: "(string, read) gmap \<Rightarrow> engine" where
  "order_engine reads = demo_engine\<lparr>gIR := (gIR demo_engine)\<lparr>
     SvResources := [(''queue'', queue_res [''QueueName''] ''input.QueueUrl''), (''mirror'', queue_res [''QueueUrl''] [])],
     SvOperations := [(''Op'', demo_op\<lparr>OReads := reads\<rparr>)]\<rparr>\<rparr>"

text \<open>Whether a missing member counts as addressed otherwise can depend on the order in which the range over
  the operation's resources meets them: two reads, the same request, and the two orders disagree.\<close>

theorem addressed_by_iteration_order:
  "addressedOtherwise (order_engine [(''a'', \<lparr>RdResource = ''queue'', RdKey = []\<rparr>), (''b'', \<lparr>RdResource = ''mirror'', RdKey = []\<rparr>)])
     (demo_request\<lparr>qInput := [(''QueueName'', VStr ''q'')]\<rparr>) ''QueueUrl'' \<and>
   \<not> addressedOtherwise (order_engine [(''b'', \<lparr>RdResource = ''mirror'', RdKey = []\<rparr>), (''a'', \<lparr>RdResource = ''queue'', RdKey = []\<rparr>)])
     (demo_request\<lparr>qInput := [(''QueueName'', VStr ''q'')]\<rparr>) ''QueueUrl''"
  by code_simp

end
