(* ===== verification/EngineFrame.thy ===== *)
theory EngineFrame
  imports Engine
begin

text \<open>
  What a request may touch.  The locale \<open>store_frame\<close> is the contract of an evaluation's steps with a
  relation between states: every step that leaves the store and the request alone keeps it, and so
  do a put and a delete through a collection handle.  Every step of an operation that does not wait then
  keeps it, which is proved once, by the structure of the steps.

  The first interpretation is tenant isolation, with the relation that no scope changes but the
  request's and the global one.  The second is the well-formedness of the store.
\<close>

named_theorems frames

locale store_frame = preorder_rel I for I :: "evals \<Rightarrow> evals \<Rightarrow> bool" +
  assumes quiet: "eMem t = eMem s \<Longrightarrow> eReq t = eReq s \<Longrightarrow> eScript t = eScript s \<Longrightarrow> I s t"
    and put: "I s (snd (colPut c key val s))"
    and del: "I s (snd (colDelete c key s))"
begin

section \<open>Single steps\<close>

lemma same: "I s s"
  by (rule quiet) simp_all

lemma keeps_quiet:
  "(\<And>s. eMem (f s) = eMem s) \<Longrightarrow> (\<And>s. eReq (f s) = eReq s) \<Longrightarrow> (\<And>s. eScript (f s) = eScript s) \<Longrightarrow> keeps I (upd f)"
  by (simp add: keeps_def upd_def quiet)

lemma keeps_still:
  "(\<And>s. eMem (snd (m s)) = eMem s) \<Longrightarrow> (\<And>s. eReq (snd (m s)) = eReq s) \<Longrightarrow> (\<And>s. eScript (snd (m s)) = eScript s) \<Longrightarrow>
     keeps I m"
  by (simp add: keeps_def quiet)

lemmas steps = keeps_ret keeps_fail keeps_ask keeps_gets keeps_quiet keeps_andThen keeps_attempt keeps_wrapE keeps_forM
  keeps_mapE keeps_foldE keeps_splits

lemma keeps_colGet [frames]: "keeps I (colGet c k)"
  unfolding colGet_def by (rule keeps_gets)

lemma keeps_colList [frames]: "keeps I (colList c p a n)"
  unfolding colList_def by (rule keeps_gets)

lemma keeps_colPut [frames]: "keeps I (colPut c k v)"
  by (simp add: keeps_def put)

lemma keeps_colDelete [frames]: "keeps I (colDelete c k)"
  by (simp add: keeps_def del)

lemma keeps_bindV [frames]: "keeps I (bindV k v)"
  unfolding bindV_def by (intro steps) simp_all

lemma keeps_unbind [frames]: "keeps I (unbind k)"
  unfolding unbind_def by (intro steps) simp_all

lemma keeps_restore [frames]: "keeps I (restore k p)"
  unfolding restore_def by (intro steps frames)

lemma keeps_scoped [frames]: "keeps I m \<Longrightarrow> keeps I (scoped k m)"
  unfolding scoped_def by (intro steps frames)

lemma keeps_touch [frames]: "keeps I (touch rc)"
  unfolding touch_def by (intro steps) (auto split: option.splits gval.splits prod.splits)

lemma keeps_withRec [frames]: "keeps I (withRec rc)"
  unfolding withRec_def by (intro steps frames)

lemma keeps_evalP [frames]: "keeps I (evalP G p)"
  unfolding evalP_def by (intro steps)

lemma keeps_evalBool [frames]: "keeps I (evalBool G p)"
  unfolding evalBool_def by (intro steps frames) (auto intro: steps split: gval.split)

lemma keeps_evalAt [frames]: "keeps I (evalAt G p src)"
  unfolding evalAt_def by (intro steps frames)

lemma keeps_interpolate [frames]: "keeps I (interpolate G t)"
  unfolding interpolate_def by (intro steps)

lemma keeps_collection [frames]: "keeps I (collection G res)"
  unfolding collection_def by (intro steps frames; simp)

lemma keeps_resourceOf [frames]: "keeps I (resourceOf G n)"
  unfolding resourceOf_def by (intro steps)

lemma keeps_marshalE [frames]: "keeps I (marshalE G m)"
  unfolding marshalE_def by (intro steps)

lemma keeps_unmarshalE [frames]: "keeps I (unmarshalE G b)"
  unfolding unmarshalE_def by (intro steps)

lemma keeps_generateID [frames]: "keeps I (generateID g)"
  by (rule keeps_still) (simp_all add: generateID_def Let_def)

lemma keeps_nextCounter [frames]: "keeps I (nextCounter G n)"
  unfolding nextCounter_def by (intro steps frames)

lemma keeps_recordValue [frames]: "keeps I (recordValue G p v)"
proof (induction G p v rule: recordValue.induct)
  case (2 G path v)
  show ?case unfolding recordValue.simps by (intro steps frames 2) auto
next
  case (3 G path xs)
  show ?case unfolding recordValue.simps by (intro keeps_andThen keeps_mapE keeps_ret) (use 3 in auto)
qed (auto intro: steps frames)

lemma keeps_putRecord [frames]: "keeps I (putRecord G c k rc)"
  unfolding putRecord_def by (intro steps frames) (auto simp: wakeUps_def Let_def split: option.splits)

section \<open>Record lifecycles\<close>

lemma keeps_settleE [frames]: "keeps I (settleE n ch rc)"
  by (rule keeps_still) (auto simp: settleE_def split: prod.splits option.splits)

lemma keeps_setMembers [frames]: "keeps I (setMembers G p spec ks rc)"
  by (induction ks arbitrary: rc) (simp, intro steps, unfold setMembers.simps, intro steps frames)

lemma keeps_moveTargets [frames]: "keeps I (moveTargets G p ks saved)"
  proof (induction ks arbitrary: saved)
  case (Cons k ks)
  show ?case unfolding moveTargets.simps by (intro steps frames Cons; simp)
qed (simp add: keeps_ret)

lemma keeps_moveRecord [frames]: "keeps I (moveRecord G p res m rc)"
  unfolding moveRecord_def by (intro steps frames; simp)

lemma keeps_runAction [frames]: "keeps I (runAction G p res a rc)"
  unfolding runAction_def by (cases a) (simp_all only: action.case, (intro steps frames)+)

lemma keeps_runActions [frames]: "keeps I (runActions G p res j as rc moved)"
proof (induction as arbitrary: j rc moved)
  case (Cons a as)
  show ?case unfolding runActions.simps by (intro steps frames Cons)
qed (simp add: keeps_ret)

lemma keeps_takeFirst [frames]: "keeps I (takeFirst G b res ch i ts rc changed)"
proof (induction ts arbitrary: i)
  case (Cons t ts)
  show ?case unfolding takeFirst.simps by (intro steps frames Cons)
qed (simp add: keeps_ret)

lemma keeps_eventScope [frames]: "keeps I m \<Longrightarrow> keeps I (eventScope rc evt m)"
  unfolding eventScope_def by (intro steps frames)

lemma keeps_sendEvent [frames]: "keeps I (sendEvent G n res rc e evt)"
  unfolding sendEvent_def by (intro steps frames)

lemma keeps_resolveKeyAlias [frames]: "keeps I (resolveKeyAlias G res k)"
  unfolding resolveKeyAlias_def by (intro steps frames)

lemma keeps_loadRecord [frames]: "keeps I (loadRecord G c k res)"
  unfolding loadRecord_def by (intro steps frames)

lemma keeps_putKeyAlias [frames]: "keeps I (putKeyAlias G res o1 n1)"
  unfolding putKeyAlias_def by (intro steps frames)

lemma keeps_settleWrite [frames]: "keeps I (settleWrite G c k res rc ch mv)"
  unfolding settleWrite_def by (intro steps frames)

section \<open>Reads, derived values and preconditions\<close>

lemma keeps_resourceKey [frames]: "keeps I (resourceKey G res e p)"
  unfolding resourceKey_def by (intro steps frames)

lemma keeps_viewMembers [frames]: "keeps I (viewMembers G r ns rc)"
proof (induction ns arbitrary: rc)
  case (Cons n ns)
  show ?case unfolding viewMembers.simps by (intro steps frames Cons)
qed (simp add: keeps_ret)

lemma keeps_applyViews [frames]: "keeps I (applyViews G r res rc)"
  unfolding applyViews_def by (intro steps frames)

lemma keeps_resolveRead [frames]: "keeps I (resolveRead G n rd)"
  unfolding resolveRead_def by (intro steps frames; simp)

lemma keeps_readIsReady [frames]: "keeps I (readIsReady G rd)"
  unfolding readIsReady_def by (intro steps frames)

lemma keeps_readPass [frames]: "keeps I (readPass G op many ns)"
proof (induction ns)
  case (Cons n ns)
  show ?case unfolding readPass.simps by (intro steps frames Cons)
qed (simp add: keeps_ret)

lemma keeps_run: "keeps I m \<Longrightarrow> m s = (r, t) \<Longrightarrow> I s t"
  unfolding keeps_def by (metis snd_conv)

lemma readLoop_frame: "I s (snd (readLoop G op pending s))"
proof (induction G op pending s rule: readLoop.induct)
  case (1 G op pending s)
  obtain r t where pass: "readPass G op (1 < length pending) pending s = (r, t)" by force
  have st: "I s t" using keeps_readPass pass by (rule keeps_run)
  show ?case
  proof (cases "pending = []")
    case True
    then show ?thesis by (simp add: readLoop.simps refl)
  next
    case nonempty: False
    show ?thesis
    proof (cases r)
      case (Inl e)
      then show ?thesis using nonempty pass st by (simp add: readLoop.simps)
    next
      case (Inr x)
      obtain blocked progress where x: "x = (blocked, progress)" by force
      obtain r' u where one: "resolveRead G (hd blocked) (readOf op (hd blocked)) t = (r', u)" by force
      have su: "I s u" using trans [OF st keeps_run [OF keeps_resolveRead one]] .
      show ?thesis
      proof (cases progress)
        case True
        then have "I t (snd (readLoop G op blocked t))" using 1(1) nonempty pass Inr x by simp
        then show ?thesis using nonempty pass Inr x True trans [OF st] by (simp add: readLoop.simps [of G op pending])
      next
        case False
        show ?thesis
        proof (cases r')
          case (Inl e)
          then show ?thesis using nonempty pass Inr x False one su by (simp add: readLoop.simps [of G op pending] \<open>r = Inr x\<close>)
        next
          case (Inr y)
          have "I u (snd (readLoop G op (tl blocked) u))" using 1(2) nonempty pass \<open>r = Inr x\<close> x False one Inr by simp
          then show ?thesis using nonempty pass \<open>r = Inr x\<close> x False one Inr trans [OF su]
            by (simp add: readLoop.simps [of G op pending])
        qed
      qed
    qed
  qed
qed

lemma keeps_resolveReads [frames]: "keeps I (resolveReads G op)"
  unfolding keeps_def resolveReads_def by (simp add: readLoop_frame)

lemma keeps_letPass [frames]: "keeps I (letPass G base ns)"
proof (induction ns)
  case (Cons n ns)
  show ?case unfolding letPass.simps by (intro steps frames Cons)
qed (simp add: keeps_ret)


lemma letLoop_frame: "I s (snd (letLoop G base pending s))"
proof (induction G base pending s rule: letLoop.induct)
  case (1 G base pending s)
  obtain r t where pass: "letPass G base pending s = (r, t)" by force
  have st: "I s t" using keeps_letPass pass by (rule keeps_run)
  show ?case
  proof (cases "pending = [] \<or> (\<exists>e. r = Inl e) \<or> (\<exists>stuck. r = Inr ([], stuck))")
    case True
    then show ?thesis using pass st by (auto simp: letLoop.simps [of G base pending] refl)
  next
    case False
    then obtain bound stuck where r: "r = Inr (bound, stuck)" "bound \<noteq> []" "pending \<noteq> []" by (cases r) auto
    then have "I t (snd (letLoop G base (map fst stuck) t))" using 1 pass by simp
    then show ?thesis using pass r trans [OF st]
      by (auto simp: letLoop.simps [of G base pending] split: prod.splits sum.splits)
  qed
qed

lemma keeps_resolveLets [frames]: "keeps I (resolveLets G lets base)"
  unfolding keeps_def resolveLets_def by (simp add: letLoop_frame)

lemma keeps_evalLets [frames]: "keeps I (evalLets G op)"
  unfolding evalLets_def by (intro steps frames)

lemma keeps_evalSelectLets [frames]: "keeps I (evalSelectLets G op)"
  unfolding evalSelectLets_def by (intro steps frames)

lemma keeps_requireFault [frames]: "keeps I (requireFault G b rq)"
  unfolding requireFault_def by (intro steps frames)

lemma keeps_requireOne [frames]: "keeps I (requireOne G b rq)"
  unfolding requireOne_def by (intro steps frames)

lemma keeps_requireLoop [frames]: "keeps I (requireLoop G op late p i rqs)"
proof (induction rqs arbitrary: i)
  case (Cons rq rqs)
  show ?case unfolding requireLoop.simps by (intro steps frames Cons; simp)
qed (simp add: keeps_ret)

lemma keeps_checkRequires [frames]: "keeps I (checkRequires G op late)"
  unfolding checkRequires_def by (intro steps frames)

section \<open>Selections\<close>

lemma keeps_itemEval [frames]: "keeps I m \<Longrightarrow> keeps I (itemEval rc m)"
  unfolding itemEval_def by (intro steps frames)

lemma keeps_sortSelected [frames]: "keeps I (sortSelected G items)"
  unfolding sortSelected_def by (intro steps frames)

lemma keeps_setSelection [frames]: "keeps I (setSelection b taken)"
  unfolding setSelection_def by (intro steps frames; simp)

lemma keeps_selectEntry [frames]: "keeps I (selectEntry G res sel grouping b c acc kv)"
  unfolding selectEntry_def by (intro steps frames)

lemma keeps_runSelect [frames]: "keeps I (runSelect G op)"
  unfolding runSelect_def by (intro steps frames)

lemma keeps_nextDeadline [frames]: "keeps I (nextDeadline G op)"
  unfolding nextDeadline_def by (intro steps frames)

section \<open>Effects\<close>

lemma keeps_spreadInto [frames]: "keeps I (spreadInto p f rc)"
  unfolding spreadInto_def by (intro steps frames)

lemma keeps_fillMembers [frames]: "(\<And>m. keeps I (shown m)) \<Longrightarrow> keeps I (fillMembers G p shown spec ks rc)"
proof (induction ks arbitrary: rc)
  case (Cons k ks)
  then show ?case unfolding fillMembers.simps by (intro steps frames Cons)
qed (simp add: keeps_ret)

lemma keeps_fillRecord [frames]: "(\<And>m. keeps I (shown m)) \<Longrightarrow> keeps I (fillRecord G p w res schema shown rc)"
  unfolding fillRecord_def by (intro steps frames)

lemma keeps_bornState [frames]: "keeps I (bornState G p w ch rc)"
  unfolding bornState_def by (intro steps frames)

lemma keeps_bornDeadline [frames]: "keeps I (bornDeadline G p w rc)"
  unfolding bornDeadline_def by (intro steps frames)

lemma keeps_writeKey [frames]: "keeps I (writeKey G p w res create)"
  unfolding writeKey_def by (intro steps frames)

lemma keeps_bindARN [frames]: "keeps I (bindARN G p res)"
  unfolding bindARN_def by (intro steps frames)

lemma keeps_existing [frames]: "keeps I (existing G p w res c k)"
  unfolding existing_def by (intro steps frames)

lemma keeps_storeOne [frames]: "keeps I (storeOne G p w res patch c k rc found)"
  unfolding storeOne_def by (intro steps frames; simp)

lemma keeps_writeOne [frames]: "keeps I (writeOne G p w create patch)"
  unfolding writeOne_def by (intro steps frames; simp)

lemma keeps_guarded [frames]: "keeps I m \<Longrightarrow> keeps I (guarded G e p m)"
  unfolding guarded_def by (intro steps frames)

lemma keeps_writeElem [frames]: "keeps I (writeElem G p w create patch written e)"
  unfolding writeElem_def by (intro steps frames)

lemma keeps_writeEach [frames]: "keeps I (writeEach G p w create patch)"
  unfolding writeEach_def by (intro steps frames) (auto intro!: keeps_andThen frames keeps_fail keeps_ret keeps_foldE split: gval.split)

lemma keeps_showItem [frames]: "keeps I (showItem rc)"
  unfolding showItem_def by (intro steps frames)

lemma keeps_writeFound [frames]: "keeps I (writeFound G p w res patch c f rc)"
  unfolding writeFound_def by (intro steps frames; simp)

lemma keeps_writeEntry [frames]: "keeps I (writeEntry G p w res patch c kv)"
  unfolding writeEntry_def by (intro steps frames)

lemma keeps_writeWhere [frames]: "keeps I (writeWhere G p w patch)"
  unfolding writeWhere_def by (intro steps frames)

lemma keeps_writeRecords [frames]: "keeps I (writeRecords G p w create patch)"
  unfolding writeRecords_def by (intro steps frames)

lemma keeps_doomedKey [frames]: "keeps I (doomedKey G p ds kv)"
  unfolding doomedKey_def by (intro steps frames)

lemma keeps_removeWhere [frames]: "keeps I (removeWhere G p c)"
  unfolding removeWhere_def by (intro steps frames)

lemma keeps_removeRecord [frames]: "keeps I (removeRecord G p d)"
  unfolding removeRecord_def by (intro steps frames)


lemma keeps_projectMap [frames]: "keeps I (projectMap G p v)"
  unfolding projectMap_def by (auto intro!: steps frames split: gval.split)

lemma keeps_dedupHit [frames]: "keeps I (dedupHit G p d rc)"
  unfolding dedupHit_def by (intro steps frames; simp)

lemma keeps_dedupBlob [frames]: "keeps I (dedupBlob G u rc)"
  unfolding dedupBlob_def by (intro steps frames)

lemma keeps_dedupMiss [frames]: "keeps I (dedupMiss G p d table k)"
  unfolding dedupMiss_def by (intro steps frames; simp)

lemma keeps_dedupLookup [frames]: "keeps I (dedupLookup G p d table k)"
  unfolding dedupLookup_def by (intro steps frames)

lemma keeps_runDedup [frames]: "keeps I (runDedup G p d)"
  unfolding runDedup_def by (intro steps frames)

lemma keeps_completeDedup [frames]: "keeps I (completeDedup G out)"
  unfolding completeDedup_def by (intro steps frames)

lemma keeps_eventOne [frames]: "keeps I (eventOne G se sel res c evt x)"
  unfolding eventOne_def by (intro steps frames; simp)

lemma keeps_eventBatch [frames]: "keeps I (eventBatch G se sel res c evt want ss seen kept)"
proof (induction ss arbitrary: seen kept)
  case (Cons x ss)
  show ?case unfolding eventBatch.simps by (intro steps frames Cons)
qed (simp add: keeps_ret)

lemma keeps_refill [frames]: "keeps I (refill G need seen)"
  unfolding refill_def by (intro steps frames)

lemma eventLoop_frame:
  assumes "eventLoop G se sel res c evt want seen kept s = Some r"
  shows "I s (snd r)"
proof (rule eventLoop.raw_induct [where P = "\<lambda>G se sel res c evt want seen kept s r. I s (snd r)", OF _ assms], goal_cases)
  case (1 loop G se sel res c evt want seen kept s r)
  obtain b t where fill: "refill G (want - length kept) seen s = (b, t)" by force
  have st: "I s t" using keeps_refill fill by (rule keeps_run)
  have clear: "I t (t\<lparr>eSelection := []\<rparr>)" by (simp add: quiet)
  show ?case
  proof (cases "want \<le> length kept \<or> (\<exists>e. b = Inl e) \<or> b = Inr []")
    case True
    then show ?thesis using 1(2) fill st keeps_refill [unfolded keeps_def] by (auto simp: same split: if_splits)
  next
    case False
    then obtain batch where b: "b = Inr batch" "batch \<noteq> []" "\<not> want \<le> length kept" by (cases b) auto
    obtain x u where pass: "eventBatch G se sel res c evt want batch seen kept (t\<lparr>eSelection := []\<rparr>) = (x, u)" by force
    have su: "I s u" using trans [OF st trans [OF clear keeps_run [OF keeps_eventBatch pass]]] .
    show ?thesis
    proof (cases x)
      case (Inl e)
      then show ?thesis using 1(2) fill b pass su by auto
    next
      case (Inr y)
      then have "loop G se sel res c evt want (fst y) (snd y) u = Some r" using 1(2) fill b pass by simp
      then show ?thesis using 1(1) trans [OF su] by blast
    qed
  qed
qed

lemma keeps_runEvents [frames]: "keeps I (runEvents G se sel res c evt want)"
  unfolding keeps_def runEvents_def by (auto simp: same split: option.splits dest: eventLoop_frame)

lemma keeps_sendForEach [frames]: "keeps I (sendForEach G p se evt)"
  unfolding sendForEach_def by (intro steps frames)

lemma keeps_sendAddressed [frames]: "keeps I (sendAddressed G p se evt)"
  unfolding sendAddressed_def by (intro steps frames)

lemma keeps_runSendEvent [frames]: "keeps I (runSendEvent G p se)"
  unfolding runSendEvent_def by (intro steps frames)

lemma keeps_executeCall [frames]: "keeps I (executeCall ex cl)"
  by (rule keeps_still) (simp_all add: executeCall_def)

lemma keeps_runExecute [frames]: "keeps I (runExecute G p x)"
  unfolding runExecute_def by (intro steps frames; simp)

lemma keeps_setFx [frames]: "keeps I (setFx k v)"
  unfolding setFx_def by (intro steps frames; simp)

lemma keeps_runEffect [frames]: "keeps I (runEffect G p eff)"
  unfolding runEffect_def by (cases eff) (simp_all only: effect.case, (intro steps frames)+)

lemma keeps_effectLoop [frames]: "keeps I (effectLoop G p i effs)"
proof (induction effs arbitrary: i)
  case (Cons e effs)
  show ?case unfolding effectLoop.simps by (intro steps frames Cons)
qed (simp add: keeps_ret)

lemma keeps_runEffects [frames]: "keeps I (runEffects G op)"
  unfolding runEffects_def by (intro steps frames)

lemma keeps_listRead [frames]: "keeps I (listRead G b nr)"
  unfolding listRead_def by (intro steps frames)

lemma keeps_resolveListReads [frames]: "keeps I (resolveListReads G l b)"
  unfolding resolveListReads_def by (intro steps frames)

lemma keeps_listKeep [frames]: "keeps I (listKeep G l b rc)"
  unfolding listKeep_def by (intro steps frames)

lemma keeps_listEntry [frames]: "keeps I (listEntry G l res b c acc kv)"
  unfolding listEntry_def by (intro steps frames)

lemma keeps_listAfter [frames]: "keeps I (listAfter G l b pg)"
  unfolding listAfter_def by (intro steps frames)

lemma keeps_listEntries [frames]: "keeps I (listEntries G l b c pg)"
  unfolding listEntries_def by (intro steps frames)

lemma keeps_runList [frames]: "keeps I (runList G op mop)"
  unfolding runList_def by (intro steps frames)

lemma keeps_projectMember [frames]: "keeps I (projectMember G op p out m)"
  unfolding projectMember_def by (intro steps frames)

lemma keeps_project [frames]: "keeps I (project G op mop)"
  unfolding project_def by (intro steps frames)

section \<open>Requests\<close>

lemma keeps_held [frames]: "keeps I m \<Longrightarrow> keeps I (held fo m)"
  unfolding held_def by (intro steps frames)

lemma keeps_raise [frames]: "keeps I (raise fo)"
  unfolding raise_def by (intro steps frames)

lemma keeps_observing [frames]: "OWait op = None \<Longrightarrow> keeps I (observing G op)"
  unfolding observing_def runWait_def by (intro steps frames) simp_all

lemma keeps_timedOut [frames]: "OWait op = None \<Longrightarrow> keeps I (timedOut G op)"
  unfolding timedOut_def by (simp add: keeps_ret)

lemma keeps_acting [frames]: "keeps I (acting G op mop)"
  unfolding acting_def by (intro steps frames)

lemma keeps_prechecks [frames]: "keeps I (prechecks G op fo)"
  unfolding prechecks_def by (intro steps frames)

lemma keeps_batchChecks [frames]: "keeps I (batchChecks G op fo)"
  unfolding batchChecks_def by (intro steps frames)

lemma keeps_evaluate [frames]: "OWait op = None \<Longrightarrow> keeps I (evaluate G op mop fo)"
  unfolding evaluate_def by (auto intro!: keeps_andThen frames keeps_ret split: option.split)

lemma flushed_frame: "keeps I m \<Longrightarrow> keeps I (flushed G m)"
proof -
  assume m: "keeps I m"
  have "I t (flushSQSWakes G t)" for t by (simp add: quiet flushSQSWakes_def)
  then have "I s (snd (flushed G m s))" for s
    using keeps_run [OF m, of s] by (cases "m s") (auto simp: flushed_def intro: trans split: sum.split)
  then show ?thesis by (simp add: keeps_def)
qed

end

section \<open>Isolation\<close>

text \<open>No scope changes but that of the request and the global one; the request stays the same.\<close>

definition confined :: "evals \<Rightarrow> evals \<Rightarrow> bool" where
  "confined s t \<longleftrightarrow> eReq t = eReq s \<and>
     (\<forall>sk. sk \<noteq> scopeKey (qAccount (eReq s)) (qRegion (eReq s)) \<longrightarrow> sk \<noteq> scopeKey ''_mirror'' ''global'' \<longrightarrow>
        scopeData (eMem t) sk = scopeData (eMem s) sk)"

lemma confined_store:
  "confined s (snd (colPut c key val s))" "confined s (snd (colDelete c key s))"
  by (auto simp: confined_def colPut_def colDelete_def upd_def scopeOf_def coll_Put_def coll_Delete_def Let_def split: option.splits)

interpretation iso: store_frame confined
  by unfold_locales (rule confined_store | force simp: confined_def)+

text \<open>The request as the engine serves it: with its body and tags in place and the account it addresses.\<close>

definition effective :: "engine \<Rightarrow> request \<Rightarrow> request" where
  "effective G q = rewriteQueueOwner G (normalizeSQSQueryTags G (withBody q))"

lemma qOperation_effective [simp]:
  "qOperation (withBody q1) = qOperation q1" "qOperation (normalizeSQSQueryTags G q2) = qOperation q2"
  "qOperation (rewriteQueueOwner G q3) = qOperation q3" "qOperation (effective G q4) = qOperation q4"
  by (simp_all add: withBody_def normalizeSQSQueryTags_def rewriteQueueOwner_def effective_def split: option.splits)

lemma qRegion_effective [simp]: "qRegion (effective G q) = qRegion q"
  by (simp add: withBody_def normalizeSQSQueryTags_def rewriteQueueOwner_def effective_def split: option.splits)

lemma eMem_newEval [simp]:
  "eMem (newEval q op s) = eMem s" "eReq (newEval q op s) = q" "eScript (newEval q op s) = eScript s"
  by (simp_all add: newEval_def)

lemma snd_andThen_ret: "snd (andThen m (\<lambda>x. ret (f x)) s) = snd (m s)"
  by (simp add: andThen_def ret_def split: prod.split sum.split)

lemma snd_Invoke: "\<exists>again. snd (Invoke G wide H n q s) = snd (invokeWith G wide H again q s)"
  by (cases n) (auto simp: snd_andThen_ret)

text \<open>A request of its own either ends at once or is one evaluation over a fresh state.\<close>

lemma invokeWith_single:
  assumes "map_of (SvOperations (gIR G)) (qOperation q) = Some op" "OBatch op = None"
    and "hooksOf H (hookKey (SvID (gIR G)) (qOperation q)) = []"
  shows "snd (invokeWith G wide H again q s) = s \<or>
    (\<exists>mop fo. snd (invokeWith G wide H again q s) = snd (flushed G (evaluate G op mop fo) (newEval (effective G q) op s)))"
proof -
  have "snd (serve G wide H again (effective G q) op fo s) =
      snd (flushed G (evaluate G op (modelOpOf G (qOperation q)) fo) (newEval (effective G q) op s))" for fo
    using assms by (auto simp: serve_def runAfterInvoke_def andThen_def ret_def upd_def split: prod.split sum.split outcome.split)
  then show ?thesis
    using assms(1) by (auto simp: invokeWith_def Let_def fail_def effective_def [symmetric])
qed



text \<open>A service of one resource and one operation that puts a row, over a store with two tenants.\<close>

definition rowRes :: resource where
  "rowRes = demo_res\<lparr>RCollection := ''rows'', RChart := None\<rparr>"

definition rowPut :: write_effect where
  "rowPut = \<lparr>WResource = ''row'', WKey = ''input.k'', WRecord = [(''v'', VStr ''mine'')], WWhen = [], WSpread = [], WForEach = [],
     WWhere = [], WMissing = [], WState = [], WDeadline = None\<rparr>"

definition rowOp :: operation where
  "rowOp = demo_op\<lparr>OEffects := [Put rowPut]\<rparr>"

definition rowPrograms :: "string \<Rightarrow> program option" where
  "rowPrograms path =
     (if path = ''operations.Op.effects[0].put.key''
      then Some (\<lambda>act. case map_of act ''input'' of Some (AVal (VMap m)) \<Rightarrow> Ok (gget m ''k'') | _ \<Rightarrow> Err ''no input'')
      else None)"

definition rowEngine :: engine where
  "rowEngine = (textCodec demo_engine)\<lparr>gPrograms := rowPrograms,
     gIR := (gIR demo_engine)\<lparr>SvResources := [(''row'', rowRes)], SvOperations := [(''Op'', rowOp)]\<rparr>\<rparr>"

definition rowRequest :: request where
  "rowRequest = demo_request\<lparr>qInput := [(''k'', VStr ''a'')]\<rparr>"

definition twoTenants :: evals where
  "twoTenants = demo_evals\<lparr>eMem := coll_Put ''2'' ''us'' ''rows'' (NewMemory []) ''a'' ''v=theirs;''\<rparr>"

lemma row_written:
  "coll_Get ''1'' ''us'' ''rows'' (eMem (snd (Invoke rowEngine (\<lambda>_. False) [] 0 rowRequest twoTenants))) ''a'' = Some ''v=mine;''"
  by code_simp


text \<open>The account is the one the request names: any request with a member QueueOwnerAWSAccountId is moved to
  that account, whatever its service, and writes there.\<close>

theorem named_owner_is_written:
  "qAccount rowRequest = ''1'' \<and>
   coll_Get ''2'' ''us'' ''rows'' (eMem (snd (Invoke rowEngine (\<lambda>_. False) [] 0
     (rowRequest\<lparr>qInput := [(''k'', VStr ''a''), (''QueueOwnerAWSAccountId'', VStr ''2'')]\<rparr>) twoTenants))) ''a'' = Some ''v=mine;''"
  by code_simp

section \<open>Well-formed stores\<close>

definition okScript :: "wake list \<Rightarrow> bool" where
  "okScript ws = list_all (\<lambda>w. case w of WakeAt t m \<Rightarrow> mem_ok m | CtxDone \<Rightarrow> True) ws"

definition keepsOk :: "evals \<Rightarrow> evals \<Rightarrow> bool" where
  "keepsOk s t \<longleftrightarrow> (mem_ok (eMem s) \<and> okScript (eScript s) \<longrightarrow> mem_ok (eMem t) \<and> okScript (eScript t))"

interpretation wf: store_frame keepsOk
  by unfold_locales (auto simp: keepsOk_def colPut_def colDelete_def upd_def)

lemma keeps_runWait: "keeps keepsOk (runWait G op)"
proof -
  have parks: "keeps keepsOk (parks G op d)" for d
    unfolding parks_def by (intro wf.steps wf.keeps_nextDeadline; simp)
  have loop: "okScript ws \<Longrightarrow> keeps keepsOk (parkLoop G op b d ws)" for b d ws
  proof (induction ws)
    case Nil
    show ?case unfolding parkLoop.simps by (intro wf.steps parks)
  next
    case (Cons w ws)
    have ok: "okScript ws" using Cons.prems by (simp add: okScript_def)
    show ?case
    proof (cases w)
      case (WakeAt t m)
      then have "mem_ok m" using Cons.prems by (simp add: okScript_def)
      then have wake: "keeps keepsOk (upd (\<lambda>s. s\<lparr>eScript := ws, eNow := t, eMem := m\<rparr>))"
        using ok by (simp add: keeps_def keepsOk_def upd_def)
      show ?thesis unfolding parkLoop.simps WakeAt wake.case
        by (intro wake parks wf.keeps_andThen wf.keeps_ret keeps_if wf.keeps_runSelect wf.keeps_evalBool Cons.IH ok)
    next
      case CtxDone
      have cancel: "keeps keepsOk (upd (\<lambda>s. s\<lparr>eScript := ws\<rparr>))" using ok by (simp add: keeps_def keepsOk_def upd_def)
      show ?thesis unfolding parkLoop.simps CtxDone wake.case by (intro cancel parks wf.keeps_andThen wf.keeps_ret keeps_if)
    qed
  qed
  have "keepsOk s (snd (parkLoop G op b d (eScript s) s))" for b d s
    using loop [of "eScript s" b d] unfolding keeps_def by (cases "okScript (eScript s)") (auto simp: keepsOk_def)
  then have park: "keeps keepsOk (andThen (gets (\<lambda>s. (eNow s, eScript s))) (\<lambda>(now, script). parkLoop G op b (now + d) script))"
    for b d by (simp add: keeps_def)
  show ?thesis unfolding runWait_def
    by (rule park wf.keeps_ret wf.keeps_fail wf.keeps_gets wf.keeps_evalBool wf.keeps_evalP | rule wf.keeps_andThen keeps_splits)+
qed

lemma keeps_evaluateOk: "keeps keepsOk (evaluate G op mop fo)"
proof -
  have "keeps keepsOk (observing G op)"
    unfolding observing_def
    by (intro wf.keeps_andThen keeps_runWait wf.keeps_runSelect keeps_if wf.keeps_ret wf.keeps_evalSelectLets
        wf.keeps_checkRequires wf.keeps_raise)
  moreover have "keeps keepsOk (timedOut G op)"
    unfolding timedOut_def by (intro wf.steps wf.keeps_evalBool wf.keeps_projectMap)
  ultimately show ?thesis
    unfolding evaluate_def by (intro wf.steps wf.keeps_prechecks wf.keeps_acting)
qed

lemma keeps_newEval: "keeps keepsOk (upd (newEval q op))"
  by (simp add: keeps_def keepsOk_def upd_def)

lemma keeps_runBatch: "(\<And>q. keeps keepsOk (again q)) \<Longrightarrow> keeps keepsOk (runBatch G wide again q b)"
  unfolding runBatch_def batchEntry_def by (intro wf.steps) (auto intro!: wf.steps split: eerr.split)

lemma keeps_invokeWith:
  assumes "\<And>q. keeps keepsOk (again q)" "\<And>k h q r. h \<in> set (hooksOf H k) \<Longrightarrow> keeps keepsOk (h q r)"
  shows "keeps keepsOk (invokeWith G wide H again q)"
proof -
  have hooks: "keeps keepsOk (runAfterInvoke H sid q r)" for sid q r
    unfolding runAfterInvoke_def using assms(2) by (intro wf.keeps_foldE)
  have "keeps keepsOk (serve G wide H again q op fo)" for q op fo
    unfolding serve_def
    by (auto intro!: wf.keeps_andThen keeps_newEval wf.keeps_batchChecks keeps_runBatch assms(1) hooks wf.keeps_ret
        wf.flushed_frame keeps_evaluateOk split: option.split outcome.split simp del: andThen_simps)
  then show ?thesis unfolding invokeWith_def by (intro wf.steps)
qed



end
