(* ===== verification/Json.thy ===== *)
theory Json
  imports GoVal Runes
begin

text \<open>
  The JSON of package \<^verbatim>\<open>encoding/json\<close> as the sources use it: \<open>Marshal\<close> writes a value of type \<^verbatim>\<open>any\<close> and
  \<open>Unmarshal\<close> reads one.  Keys are written in ascending order, text is escaped as the encoder escapes it
  by default, a number is read as the double nearest to it, and containers nest at most 10000 deep.
  How a double is written is a parameter.

  \<open>Unmarshal\<close> answers \<open>None\<close> for a text that is no JSON, which leaves the destination as it was.  A number
  too large for a double leaves nil in its place and makes the flag false, and the rest is stored.
\<close>

section \<open>Writing\<close>

abbreviation quoteChar :: char where "quoteChar \<equiv> CHR 0x22"

abbreviation backslash :: char where "backslash \<equiv> CHR 0x5C"

definition hexDigit :: "nat \<Rightarrow> char" where
  "hexDigit d = (if d < 10 then char_of (48 + d) else char_of (87 + d))"

definition u4 :: "nat \<Rightarrow> string" where
  "u4 r = backslash # CHR ''u'' # map hexDigit [r div 4096 mod 16, r div 256 mod 16, r div 16 mod 16, r mod 16]"

text \<open>The bytes below 128 that are written as they are.\<close>

definition htmlSafe :: "char \<Rightarrow> bool" where
  "htmlSafe c \<longleftrightarrow> 32 \<le> code c \<and> c \<notin> {quoteChar, backslash, CHR ''<'', CHR ''>'', CHR ''&''}"

definition escapeByte :: "char \<Rightarrow> string" where
  "escapeByte c =
     (if htmlSafe c then [c]
      else if c = backslash \<or> c = quoteChar then [backslash, c]
      else if code c = 8 then [backslash, CHR ''b'']
      else if code c = 12 then [backslash, CHR ''f'']
      else if code c = 10 then [backslash, CHR ''n'']
      else if code c = 13 then [backslash, CHR ''r'']
      else if code c = 9 then [backslash, CHR ''t'']
      else u4 (code c))"

function escaped :: "string \<Rightarrow> string" where
  "escaped [] = []"
| "escaped (c # s) =
     (if code c < 128 then escapeByte c @ escaped s
      else (let r = fst (decodeRune c s); rest = snd (decodeRune c s) in
            (if badRune c s then u4 65533
             else if r = 8232 \<or> r = 8233 then u4 r
             else take (runeSize c s) (c # s)) @ escaped rest))"
  by pat_completeness auto
termination
  by (relation "measure length") (auto simp: less_Suc_eq_le decodeRune_shorter)

definition quoted :: "string \<Rightarrow> string" where
  "quoted s = quoteChar # escaped s @ [quoteChar]"

text \<open>\<^verbatim>\<open>base64.StdEncoding\<close>, in which a byte slice is written.\<close>

definition base64Char :: "nat \<Rightarrow> char" where
  "base64Char n = ''ABCDEFGHIJKLMNOPQRSTUVWXYZabcdefghijklmnopqrstuvwxyz0123456789+/'' ! n"

fun base64 :: "string \<Rightarrow> string" where
  "base64 [] = []"
| "base64 [a] = map base64Char [code a div 4, code a mod 4 * 16] @ ''==''"
| "base64 [a, b] = map base64Char [code a div 4, code a mod 4 * 16 + code b div 16, code b mod 16 * 4] @ ''=''"
| "base64 (a # b # c # s) =
     map base64Char [code a div 4, code a mod 4 * 16 + code b div 16, code b mod 16 * 4 + code c div 64, code c mod 64] @ base64 s"

text \<open>Infinities and NaN have no JSON: the encoder fails on them.\<close>

fun encodable :: "gval \<Rightarrow> bool" where
  "encodable (VFloat (Fin q)) \<longleftrightarrow> True"
| "encodable (VFloat _) \<longleftrightarrow> False"
| "encodable (VList vs) \<longleftrightarrow> list_all encodable vs"
| "encodable (VMap m) \<longleftrightarrow> list_all (\<lambda>(k, v). encodable v) m"
| "encodable _ \<longleftrightarrow> True"

fun encode :: "(f64 \<Rightarrow> string) \<Rightarrow> gval \<Rightarrow> string" where
  "encode jf VNil = ''null''"
| "encode jf (VBool b) = (if b then ''true'' else ''false'')"
| "encode jf (VInt i) = show_int i"
| "encode jf (VInt64 i) = show_int i"
| "encode jf (VDuration i) = show_int i"
| "encode jf (VFloat f) = jf f"
| "encode jf (VStr s) = quoted s"
| "encode jf (VBytes s) = quoteChar # base64 s @ [quoteChar]"
| "encode jf (VList vs) = ''['' @ Join (map (encode jf) vs) '','' @ '']''"
| "encode jf (VMap m) =
     ''{'' @ Join (map (\<lambda>(k, e). quoted k @ '':'' @ e) (sort_key fst (map (\<lambda>(k, v). (k, encode jf v)) m))) '','' @ ''}''"

definition Marshal :: "(f64 \<Rightarrow> string) \<Rightarrow> gval \<Rightarrow> string option" where
  "Marshal jf v = (if encodable v then Some (encode jf v) else None)"

section \<open>Reading\<close>

definition skipWs :: "string \<Rightarrow> string" where
  "skipWs s = dropWhile (\<lambda>c. c \<in> {CHR '' '', CHR 0x09, CHR 0x0A, CHR 0x0D}) s"

definition hexVal :: "char \<Rightarrow> nat option" where
  "hexVal c =
     (let n = code c in
      if 48 \<le> n \<and> n \<le> 57 then Some (n - 48)
      else if 97 \<le> n \<and> n \<le> 102 then Some (n - 87)
      else if 65 \<le> n \<and> n \<le> 70 then Some (n - 55)
      else None)"

text \<open>Four hexadecimal digits at the start of a text.\<close>

definition hex4 :: "string \<Rightarrow> nat option" where
  "hex4 s =
     (case map hexVal (take 4 s) of
        [Some a, Some b, Some c, Some d] \<Rightarrow> Some (4096 * a + 256 * b + 16 * c + d)
      | _ \<Rightarrow> None)"

text \<open>The rune of an escape after its four digits, and what remains: two surrogates in a row are one rune,
  a surrogate alone is the replacement rune.\<close>

definition uEscape :: "nat \<Rightarrow> string \<Rightarrow> nat \<times> string" where
  "uEscape r s =
     (if 55296 \<le> r \<and> r \<le> 57343
      then (case (if HasPrefix s [backslash, CHR ''u''] then hex4 (drop 2 s) else None) of
              Some r2 \<Rightarrow>
                if r \<le> 56319 \<and> 56320 \<le> r2 \<and> r2 \<le> 57343
                then ((r - 55296) * 1024 + (r2 - 56320) + 65536, drop 6 s) else (65533, s)
            | None \<Rightarrow> (65533, s))
      else (r, s))"

definition simpleEscape :: "char \<Rightarrow> char option" where
  "simpleEscape c =
     (if c \<in> {quoteChar, backslash, CHR ''/''} then Some c
      else if c = CHR ''b'' then Some (char_of (8::nat))
      else if c = CHR ''f'' then Some (char_of (12::nat))
      else if c = CHR ''n'' then Some (char_of (10::nat))
      else if c = CHR ''r'' then Some (char_of (13::nat))
      else if c = CHR ''t'' then Some (char_of (9::nat))
      else None)"

lemma uEscape_shorter: "length (snd (uEscape r s)) \<le> length s"
  by (auto simp: uEscape_def split: option.splits)

text \<open>The text after an opening quote, up to the closing one.\<close>

function textLoop :: "string \<Rightarrow> (string \<times> string) option" where
  "textLoop [] = None"
| "textLoop (c # s) =
     (if c = quoteChar then Some ([], s)
      else if c = backslash then
        (case s of
           [] \<Rightarrow> None
         | e # t \<Rightarrow>
             if e = CHR ''u''
             then (case hex4 t of
                     None \<Rightarrow> None
                   | Some r \<Rightarrow>
                       map_option (\<lambda>(x, rest). (encodeRune (fst (uEscape r (drop 4 t))) @ x, rest))
                         (textLoop (snd (uEscape r (drop 4 t)))))
             else (case simpleEscape e of
                     None \<Rightarrow> None
                   | Some d \<Rightarrow> map_option (\<lambda>(x, rest). (d # x, rest)) (textLoop t)))
      else if code c < 32 then None
      else if code c < 128 then map_option (\<lambda>(x, rest). (c # x, rest)) (textLoop s)
      else map_option (\<lambda>(x, rest). ((if badRune c s then encodeRune 65533 else take (runeSize c s) (c # s)) @ x, rest))
             (textLoop (snd (decodeRune c s))))"
  by pat_completeness auto
termination
proof (relation "measure length", goal_cases)
  case (2 c s e t r)
  then show ?case using uEscape_shorter [of r "drop 4 t"] by auto
next
  case (5 c s)
  then show ?case using decodeRune_shorter [of c s] by (simp add: less_Suc_eq_le)
qed auto

text \<open>A number: its sign, digits, fraction and exponent, as the exact rational.\<close>

definition digitsOf :: "string \<Rightarrow> string \<times> string" where
  "digitsOf s = (takeWhile is_digit s, dropWhile is_digit s)"

definition natOf :: "string \<Rightarrow> nat" where
  "natOf s = foldl (\<lambda>n c. 10 * n + digit_val c) 0 s"

definition intPart :: "string \<Rightarrow> (string \<times> string) option" where
  "intPart s =
     (case digitsOf s of
        ([], _) \<Rightarrow> None
      | (d # ds, r) \<Rightarrow> if d = CHR ''0'' then Some ([d], tl s) else Some (d # ds, r))"

definition fracPart :: "string \<Rightarrow> (string \<times> string) option" where
  "fracPart s =
     (case s of
        c # t \<Rightarrow> if c = CHR ''.'' then (case digitsOf t of ([], _) \<Rightarrow> None | (ds, r) \<Rightarrow> Some (ds, r)) else Some ([], s)
      | [] \<Rightarrow> Some ([], []))"

definition expPart :: "string \<Rightarrow> (int \<times> string) option" where
  "expPart s =
     (case s of
        c # t \<Rightarrow>
          if c = CHR ''e'' \<or> c = CHR ''E''
          then (let (neg, t') = (case t of
                       x # u \<Rightarrow> if x = CHR ''-'' then (True, u) else if x = CHR ''+'' then (False, u) else (False, t)
                     | [] \<Rightarrow> (False, []))
                in case digitsOf t' of ([], _) \<Rightarrow> None | (ds, r) \<Rightarrow> Some (if neg then - int (natOf ds) else int (natOf ds), r))
          else Some (0, s)
      | [] \<Rightarrow> Some (0, []))"

definition scaled :: "rat \<Rightarrow> int \<Rightarrow> rat" where
  "scaled q e = (if 0 \<le> e then q * 10 ^ nat e else q / 10 ^ nat (- e))"

definition numberOf :: "string \<Rightarrow> (gval \<times> string) option" where
  "numberOf s =
     (let (neg, s1) = (case s of c # t \<Rightarrow> if c = CHR ''-'' then (True, t) else (False, s) | [] \<Rightarrow> (False, [])) in
      case intPart s1 of
        None \<Rightarrow> None
      | Some (ds, s2) \<Rightarrow>
          (case fracPart s2 of
             None \<Rightarrow> None
           | Some (fs, s3) \<Rightarrow>
               (case expPart s3 of
                  None \<Rightarrow> None
                | Some (e, s4) \<Rightarrow>
                    let q = scaled (of_nat (natOf (ds @ fs))) (e - int (length fs))
                    in Some (VFloat (f64_of_rat (if neg then - q else q)), s4))))"

text \<open>The elements of an array and the members of an object, given the reader of one value.\<close>

function elements :: "(string \<Rightarrow> (gval \<times> string) option) \<Rightarrow> string \<Rightarrow> (gval list \<times> string) option" where
  "elements p s =
     (case p s of
        None \<Rightarrow> None
      | Some (v, r) \<Rightarrow>
          (case skipWs r of
             [] \<Rightarrow> None
           | c # t \<Rightarrow>
               if c = CHR '']'' then Some ([v], t)
               else if c = CHR '','' \<and> length t < length s then map_option (\<lambda>(vs, u). (v # vs, u)) (elements p t)
               else None))"
  by pat_completeness auto
termination by (relation "measure (length \<circ> snd)") auto

definition memberName :: "string \<Rightarrow> (string \<times> string) option" where
  "memberName s =
     (case skipWs s of
        c # t \<Rightarrow>
          if c = quoteChar
          then (case textLoop t of
                  Some (k, r) \<Rightarrow> (case skipWs r of d # u \<Rightarrow> if d = CHR '':'' then Some (k, u) else None | [] \<Rightarrow> None)
                | None \<Rightarrow> None)
          else None
      | [] \<Rightarrow> None)"

function objectMembers ::
  "(string \<Rightarrow> (gval \<times> string) option) \<Rightarrow> string \<Rightarrow> ((string \<times> gval) list \<times> string) option" where
  "objectMembers p s =
     (case memberName s of
        None \<Rightarrow> None
      | Some (k, s1) \<Rightarrow>
          (case p s1 of
             None \<Rightarrow> None
           | Some (v, r) \<Rightarrow>
               (case skipWs r of
                  [] \<Rightarrow> None
                | c # t \<Rightarrow>
                    if c = CHR ''}'' then Some ([(k, v)], t)
                    else if c = CHR '','' \<and> length t < length s then map_option (\<lambda>(ms, u). ((k, v) # ms, u)) (objectMembers p t)
                    else None)))"
  by pat_completeness auto
termination by (relation "measure (length \<circ> snd)") auto

declare elements.simps [simp del] objectMembers.simps [simp del]

text \<open>A later member of the same name replaces the earlier one.\<close>

definition objectOf :: "(string \<times> gval) list \<Rightarrow> gobj" where
  "objectOf ms = foldl (\<lambda>m (k, v). AList.update k v m) [] ms"

definition startsWith :: "string \<Rightarrow> char \<Rightarrow> bool" where
  "startsWith s c \<longleftrightarrow> (case s of d # _ \<Rightarrow> d = c | [] \<Rightarrow> False)"

definition arrayOf :: "(string \<Rightarrow> (gval \<times> string) option) \<Rightarrow> string \<Rightarrow> (gval \<times> string) option" where
  "arrayOf p t =
     (if startsWith (skipWs t) (CHR '']'') then Some (VList [], tl (skipWs t))
      else map_option (\<lambda>(vs, r). (VList vs, r)) (elements p t))"

definition objectFrom :: "(string \<Rightarrow> (gval \<times> string) option) \<Rightarrow> string \<Rightarrow> (gval \<times> string) option" where
  "objectFrom p t =
     (if startsWith (skipWs t) (CHR ''}'') then Some (VMap [], tl (skipWs t))
      else map_option (\<lambda>(ms, r). (VMap (objectOf ms), r)) (objectMembers p t))"

text \<open>One value; the second argument reads what a container holds, \<open>None\<close> at the greatest depth.\<close>

definition valueStep :: "string \<Rightarrow> (string \<Rightarrow> (gval \<times> string) option) option \<Rightarrow> (gval \<times> string) option" where
  "valueStep s0 inner =
     (let s = skipWs s0 in
      case s of
        [] \<Rightarrow> None
      | c # t \<Rightarrow>
          if c = quoteChar then map_option (\<lambda>(x, r). (VStr x, r)) (textLoop t)
          else if c = CHR ''['' then (case inner of Some p \<Rightarrow> arrayOf p t | None \<Rightarrow> None)
          else if c = CHR ''{'' then (case inner of Some p \<Rightarrow> objectFrom p t | None \<Rightarrow> None)
          else if HasPrefix s ''null'' then Some (VNil, drop 4 s)
          else if HasPrefix s ''true'' then Some (VBool True, drop 4 s)
          else if HasPrefix s ''false'' then Some (VBool False, drop 5 s)
          else numberOf s)"

function jsonValue :: "int \<Rightarrow> string \<Rightarrow> (gval \<times> string) option" where
  "jsonValue d s = valueStep s (if d < 10000 then Some (\<lambda>t. jsonValue (d + 1) t) else None)"
  by pat_completeness auto
termination by (relation "measure (\<lambda>(d, s). nat (10000 - d))") auto

declare jsonValue.simps [simp del]

lemma jsonValue_code [code]: "jsonValue d s = valueStep s (if d < 10000 then Some (jsonValue (d + 1)) else None)"
  by (subst jsonValue.simps) simp

text \<open>A number beyond the doubles is reported and left out.\<close>

fun inRange :: "gval \<Rightarrow> bool" where
  "inRange (VFloat f) \<longleftrightarrow> f \<noteq> PosInf \<and> f \<noteq> NegInf"
| "inRange (VList vs) \<longleftrightarrow> list_all inRange vs"
| "inRange (VMap m) \<longleftrightarrow> list_all (\<lambda>(k, v). inRange v) m"
| "inRange _ \<longleftrightarrow> True"

fun kept :: "gval \<Rightarrow> gval" where
  "kept (VFloat f) = (if f = PosInf \<or> f = NegInf then VNil else VFloat f)"
| "kept (VList vs) = VList (map kept vs)"
| "kept (VMap m) = VMap (map (\<lambda>(k, v). (k, kept v)) m)"
| "kept v = v"

definition Unmarshal :: "string \<Rightarrow> (gval \<times> bool) option" where
  "Unmarshal s =
     (case jsonValue 0 s of
        Some (v, r) \<Rightarrow> if skipWs r = [] then Some (kept v, inRange v) else None
      | None \<Rightarrow> None)"

text \<open>Into a variable of type \<^verbatim>\<open>map[string]any\<close>: an object's members are added to the map, null makes the map
  nil, and any other value is an error that leaves it.  The flag says whether there was none.\<close>

definition intoMap :: "gobj option \<Rightarrow> string \<Rightarrow> gobj option \<times> bool" where
  "intoMap m s =
     (case Unmarshal s of
        Some (VMap o1, ok) \<Rightarrow> (Some (foldl (\<lambda>m (k, v). AList.update k v m) (case m of Some o0 \<Rightarrow> o0 | None \<Rightarrow> []) o1), ok)
      | Some (VNil, ok) \<Rightarrow> (None, ok)
      | Some _ \<Rightarrow> (m, False)
      | None \<Rightarrow> (m, False))"

section \<open>What is written reads back\<close>

text \<open>The values the theorems are about: text in valid UTF-8, integers a double holds exactly, no doubles and
  no byte slices, and every name once in an object.  \<open>canon\<close> is such a value as it comes back: integers are doubles,
  and the members are in the order they were written.\<close>

function validText :: "string \<Rightarrow> bool" where
  "validText [] \<longleftrightarrow> True"
| "validText (c # s) \<longleftrightarrow> (if code c < 128 then validText s else \<not> badRune c s \<and> validText (snd (decodeRune c s)))"
  by pat_completeness auto
termination
  by (relation "measure length") (auto simp: less_Suc_eq_le decodeRune_shorter)

fun plainJson :: "gval \<Rightarrow> bool" where
  "plainJson (VStr s) \<longleftrightarrow> validText s"
| "plainJson (VInt i) \<longleftrightarrow> \<bar>i\<bar> < 2 ^ 53"
| "plainJson (VInt64 i) \<longleftrightarrow> \<bar>i\<bar> < 2 ^ 53"
| "plainJson (VDuration i) \<longleftrightarrow> \<bar>i\<bar> < 2 ^ 53"
| "plainJson (VFloat f) \<longleftrightarrow> False"
| "plainJson (VBytes b) \<longleftrightarrow> False"
| "plainJson (VList vs) \<longleftrightarrow> list_all plainJson vs"
| "plainJson (VMap m) \<longleftrightarrow> distinct (map fst m) \<and> list_all (\<lambda>(k, v). validText k \<and> plainJson v) m"
| "plainJson _ \<longleftrightarrow> True"

fun canon :: "gval \<Rightarrow> gval" where
  "canon (VInt i) = VFloat (Fin (of_int i))"
| "canon (VInt64 i) = VFloat (Fin (of_int i))"
| "canon (VDuration i) = VFloat (Fin (of_int i))"
| "canon (VList vs) = VList (map canon vs)"
| "canon (VMap m) = VMap (sort_key fst (map (\<lambda>(k, v). (k, canon v)) m))"
| "canon v = v"

fun nesting :: "gval \<Rightarrow> nat" where
  "nesting (VList vs) = Suc (foldr max (map nesting vs) 0)"
| "nesting (VMap m) = Suc (foldr max (map (\<lambda>(k, v). nesting v) m) 0)"
| "nesting _ = 0"

subsection \<open>Text\<close>

lemma hexVal_hexDigit: "d < 16 \<Longrightarrow> hexVal (hexDigit d) = Some d"
  by (auto simp: hexVal_def hexDigit_def code_def Let_def)

lemma hex_digits:
  fixes r :: nat
  assumes "r < 65536"
  shows "4096 * (r div 4096 mod 16) + 256 * (r div 256 mod 16) + 16 * (r div 16 mod 16) + r mod 16 = r"
proof -
  have "r div 4096 < 16" using assms by auto
  moreover have "r div 256 = 16 * (r div 4096) + r div 256 mod 16"
    using div_mult_mod_eq [of "r div 256" 16] by (simp flip: div_mult2_eq)
  moreover have "r div 16 = 16 * (r div 256) + r div 16 mod 16"
    using div_mult_mod_eq [of "r div 16" 16] by (simp flip: div_mult2_eq)
  moreover have "r = 16 * (r div 16) + r mod 16" by simp
  ultimately show ?thesis by (simp only: mod_less)
qed

lemma textLoop_u4:
  assumes "r < 55296 \<or> r = 65533"
  shows "textLoop (u4 r @ t) = map_option (\<lambda>(x, rest). (encodeRune r @ x, rest)) (textLoop t)"
proof -
  let ?h = "map hexDigit [r div 4096 mod 16, r div 256 mod 16, r div 16 mod 16, r mod 16]"
  have "hex4 (?h @ t) = Some r"
    using hex_digits [of r] assms by (auto simp: hex4_def hexVal_hexDigit)
  moreover have "uEscape r t = (r, t)" using assms by (auto simp: uEscape_def)
  ultimately show ?thesis unfolding u4_def by (simp del: hexDigit_def)
qed

lemma code_eq_iff: "code c = code d \<longleftrightarrow> c = d"
  by (metis char_of_code)

lemma encodeRune_ascii: "code c < 128 \<Longrightarrow> encodeRune (code c) = [c]"
  by (simp add: encodeRune_def)

lemma textLoop_escapeByte:
  assumes "code c < 128"
  shows "textLoop (escapeByte c @ t) = map_option (\<lambda>(x, rest). (c # x, rest)) (textLoop t)"
proof (cases "htmlSafe c")
  case True
  then show ?thesis using assms by (simp add: escapeByte_def htmlSafe_def)
next
  case False
  consider "c = backslash" | "c = quoteChar" | "code c \<in> {8, 12, 10, 13, 9}" | "escapeByte c = u4 (code c)"
    using False by (cases "c = backslash \<or> c = quoteChar \<or> code c \<in> {8, 12, 10, 13, 9}") (auto simp: escapeByte_def)
  then show ?thesis
  proof cases
    case 3
    then have "c = char_of (8::nat) \<or> c = char_of (12::nat) \<or> c = char_of (10::nat) \<or> c = char_of (13::nat) \<or> c = char_of (9::nat)"
      by (metis char_of_code empty_iff insert_iff)
    then show ?thesis by (elim disjE) (simp_all add: escapeByte_def htmlSafe_def simpleEscape_def code_def)
  next
    case 4
    then show ?thesis using assms by (simp add: textLoop_u4 encodeRune_ascii)
  qed (simp_all add: escapeByte_def htmlSafe_def simpleEscape_def)
qed

lemma high_not_special: "128 \<le> code c \<Longrightarrow> c \<noteq> quoteChar \<and> c \<noteq> backslash"
  by (auto simp: code_def)

lemma textLoop_escaped: "validText s \<Longrightarrow> textLoop (escaped s @ quoteChar # rest) = Some (s, rest)"
proof (induction s rule: escaped.induct)
  case (2 c s)
  show ?case
  proof (cases "code c < 128")
    case True
    then show ?thesis using 2 by (simp add: textLoop_escapeByte)
  next
    case False
    then have ok: "128 \<le> code c" "\<not> badRune c s" using 2 by auto
    let ?t = "escaped (snd (decodeRune c s)) @ quoteChar # rest"
    have IH: "textLoop ?t = Some (snd (decodeRune c s), rest)" using 2 False by auto
    have enc: "encodeRune (fst (decodeRune c s)) = take (runeSize c s) (c # s)"
      using encode_decode [OF ok] by (metis prod.collapse)
    from ok show ?thesis
    proof (cases rule: decodes)
      case (1 n lo hi)
      then have size: "runeSize c s = Suc n" by (simp add: runeSize_def)
      have whole: "take n s @ snd (decodeRune c s) = s" using 1 by simp
      show ?thesis
      proof (cases "fst (decodeRune c s) = 8232 \<or> fst (decodeRune c s) = 8233")
        case True
        then have "escaped (c # s) @ quoteChar # rest = u4 (fst (decodeRune c s)) @ ?t" using False ok by (simp add: Let_def)
        moreover have "fst (decodeRune c s) < 55296" using True by auto
        ultimately show ?thesis using IH enc size whole by (simp add: textLoop_u4)
      next
        case no: False
        have esc: "escaped (c # s) @ quoteChar # rest = c # take n s @ ?t" using False ok no size by (simp add: Let_def)
        have dec: "decodeRune c (take n s @ ?t) = (fst (decodeRune c s), ?t)" using 1 by blast
        then have size': "runeSize c (take n s @ ?t) = Suc n" using 1(3) by (simp add: runeSize_def min_def)
        then have good: "\<not> badRune c (take n s @ ?t)" using 1(2) by (simp add: badRune_def)
        show ?thesis unfolding esc
          using False high_not_special [OF ok(1)] dec size' good IH whole 1(3) by simp
      qed
    qed
  qed
qed simp

lemma textLoop_quoted: "validText s \<Longrightarrow> textLoop (tl (quoted s) @ rest) = Some (s, rest)"
  by (simp add: quoted_def textLoop_escaped)

subsection \<open>Values\<close>

text \<open>What may follow a value inside a container or at the end of the text.\<close>

definition stops :: "string \<Rightarrow> bool" where
  "stops s \<longleftrightarrow> (case s of [] \<Rightarrow> True | c # _ \<Rightarrow> c \<in> {CHR '','', CHR '']'', CHR ''}''})"

lemma stops_simps [simp]: "stops []" "stops (CHR '','' # s)" "stops (CHR '']'' # s)" "stops (CHR ''}'' # s)"
  by (simp_all add: stops_def)

definition blank :: "char \<Rightarrow> bool" where
  "blank c \<longleftrightarrow> c \<in> {CHR '' '', CHR 0x09, CHR 0x0A, CHR 0x0D}"

lemma skipWs_Cons: "\<not> blank c \<Longrightarrow> skipWs (c # s) = c # s"
  by (auto simp: skipWs_def blank_def)

lemma skipWs_stops: "stops s \<Longrightarrow> skipWs s = s"
  by (cases s) (auto simp: stops_def skipWs_def)

lemma digit_not_blank: "is_digit c \<Longrightarrow> \<not> blank c"
  by (auto simp: is_digit_def blank_def less_eq_char_def)

lemma show_nat_hd: "0 < n \<Longrightarrow> hd (show_nat n) \<noteq> CHR ''0''"
proof (induction n rule: show_nat.induct)
  case (1 n)
  show ?case
  proof (cases "n < 10")
    case True
    then show ?thesis using 1 digit_val_digit_char [of n] by (subst show_nat.simps) (auto simp: digit_val_def)
  next
    case False
    then show ?thesis using 1 by (subst show_nat.simps) (simp add: hd_append)
  qed
qed

lemma digitsOf_show_nat:
  assumes "stops r"
  shows "digitsOf (show_nat n @ r) = (show_nat n, r)"
proof -
  have "\<forall>c\<in>set (show_nat n). is_digit c" using show_nat_digits [of n] by (simp add: list_all_iff)
  moreover have "takeWhile is_digit r = []" "dropWhile is_digit r = r"
    using assms by (auto simp: stops_def is_digit_def less_eq_char_def split: list.splits)
  ultimately show ?thesis by (simp add: digitsOf_def takeWhile_append2 dropWhile_append2)
qed

lemma intPart_show_nat:
  assumes "stops r"
  shows "intPart (show_nat n @ r) = Some (show_nat n, r)"
proof (cases "n = 0")
  case True
  then show ?thesis using digitsOf_show_nat [OF assms, of 0] by (simp add: intPart_def show_nat.simps digit_char_def)
next
  case False
  obtain d ds where "show_nat n = d # ds" by (metis list.exhaust show_nat_not_Nil)
  then show ?thesis using False show_nat_hd [of n] digitsOf_show_nat [OF assms, of n] by (simp add: intPart_def)
qed

lemma natOf_show_nat [simp]: "natOf (show_nat n) = n"
  by (simp add: natOf_def foldl_show_nat)

lemma tail_parts: "stops r \<Longrightarrow> fracPart r = Some ([], r)" "stops r \<Longrightarrow> expPart r = Some (0, r)"
  by (auto simp: stops_def fracPart_def expPart_def split: list.splits)

lemma numberOf_show_int:
  assumes "stops r" "\<bar>i\<bar> < 2 ^ 53"
  shows "numberOf (show_int i @ r) = Some (VFloat (Fin (of_int i)), r)"
proof -
  have f: "f64_of_rat (of_int i) = Fin (of_int i)" using f64_exact_int [OF assms(2)] by (simp add: f64_of_int_def)
  show ?thesis
  proof (cases "i < 0")
    case True
    then have "- of_nat (nat (- i)) = (of_int i :: rat)" by (simp add: of_nat_nat)
    then show ?thesis using True f by (simp add: numberOf_def show_int_def intPart_show_nat tail_parts assms(1) scaled_def Let_def)
  next
    case False
    obtain d ds where d: "show_nat (nat i) = d # ds" by (metis list.exhaust show_nat_not_Nil)
    then have "d \<noteq> CHR ''-''" using show_nat_hd_digit [OF d] by (auto simp: is_digit_def less_eq_char_def)
    moreover have "intPart (d # ds @ r) = Some (d # ds, r)" "natOf (d # ds) = nat i"
      using intPart_show_nat [OF assms(1), of "nat i"] natOf_show_nat [of "nat i"] d by simp_all
    moreover have "of_nat (nat i) = (of_int i :: rat)" using False by (simp add: of_nat_nat)
    ultimately show ?thesis using f False d by (simp add: numberOf_def show_int_def tail_parts assms(1) scaled_def Let_def)
  qed
qed

lemma valueStep_number:
  assumes "stops r" "\<bar>i\<bar> < 2 ^ 53"
  shows "valueStep (show_int i @ r) inner = Some (VFloat (Fin (of_int i)), r)"
proof -
  obtain d ds where d: "show_int i = d # ds" "d = CHR ''-'' \<or> is_digit d"
    using show_nat_hd_digit by (metis list.exhaust show_int_def show_nat_not_Nil)
  then have b: "\<not> blank d" using digit_not_blank by (auto simp: blank_def)
  have "d \<notin> {quoteChar, CHR ''['', CHR ''{'', CHR ''n'', CHR ''t'', CHR ''f''}"
    using d(2) by (auto simp: is_digit_def less_eq_char_def)
  then have "valueStep (show_int i @ r) inner = numberOf (show_int i @ r)"
    using d(1) b by (simp add: valueStep_def skipWs_Cons Let_def)
  then show ?thesis using numberOf_show_int [OF assms] by simp
qed

text \<open>The loops, given that the reader of one value reads back what was written.\<close>

lemma elements_encoded:
  assumes "\<And>v r. v \<in> set vs \<Longrightarrow> stops r \<Longrightarrow> p (enc v @ r) = Some (f v, r)" "vs \<noteq> []"
  shows "elements p (Join (map enc vs) '','' @ CHR '']'' # rest) = Some (map f vs, rest)"
  using assms
proof (induction vs)
  case (Cons v vs)
  show ?case
  proof (cases "vs = []")
    case True
    then show ?thesis using Cons.prems(1) [of v "CHR '']'' # rest"]
      by (subst elements.simps) (simp add: skipWs_stops)
  next
    case False
    let ?t = "Join (map enc vs) '','' @ CHR '']'' # rest"
    have "elements p ?t = Some (map f vs, rest)" using Cons False by simp
    moreover have "p (enc v @ CHR '','' # ?t) = Some (f v, CHR '','' # ?t)" using Cons.prems(1) by simp
    ultimately show ?thesis using False by (subst elements.simps) (simp add: skipWs_stops Join_Cons)
  qed
qed simp

lemma memberName_quoted: "validText k \<Longrightarrow> memberName (quoted k @ CHR '':'' # s) = Some (k, s)"
  using textLoop_quoted [of k "CHR '':'' # s"] skipWs_Cons [of quoteChar] skipWs_Cons [of "CHR '':''"]
  by (simp add: memberName_def quoted_def blank_def)

definition member :: "string \<times> string \<Rightarrow> string" where
  "member ke = quoted (fst ke) @ '':'' @ snd ke"

lemma objectMembers_encoded:
  assumes "\<And>k e r. (k, e) \<in> set kes \<Longrightarrow> stops r \<Longrightarrow> validText k \<and> p (e @ r) = Some (f (k, e), r)" "kes \<noteq> []"
  shows "objectMembers p (Join (map member kes) '','' @ CHR ''}'' # rest) = Some (map (\<lambda>(k, e). (k, f (k, e))) kes, rest)"
  using assms
proof (induction kes)
  case (Cons ke kes)
  obtain k e where ke: "ke = (k, e)" by (cases ke)
  show ?case
  proof (cases "kes = []")
    case True
    then show ?thesis using Cons.prems(1) [of k e "CHR ''}'' # rest"] ke
      by (subst objectMembers.simps) (simp add: member_def memberName_quoted skipWs_stops)
  next
    case False
    let ?t = "Join (map member kes) '','' @ CHR ''}'' # rest"
    have "objectMembers p ?t = Some (map (\<lambda>(k, e). (k, f (k, e))) kes, rest)" using Cons.prems(1) False by (intro Cons.IH) auto
    moreover have "validText k" "p (e @ CHR '','' # ?t) = Some (f (k, e), CHR '','' # ?t)"
      using Cons.prems(1) [of k e "CHR '','' # ?t"] ke by simp_all
    ultimately show ?thesis using False ke
      by (subst objectMembers.simps) (simp add: member_def memberName_quoted skipWs_stops Join_Cons)
  qed
qed simp

lemma objectOf_distinct: "distinct (map fst ms) \<Longrightarrow> objectOf ms = ms"
proof -
  have "distinct (map fst (acc @ ms)) \<Longrightarrow> foldl (\<lambda>m (k, v). AList.update k v m) acc ms = acc @ ms" for acc :: gobj
  proof (induction ms arbitrary: acc)
    case (Cons kv ms)
    obtain k v where kv: "kv = (k, v)" by (cases kv)
    then have "map_of acc k = None" using Cons.prems by (auto simp: map_of_eq_None_iff)
    then show ?case using Cons kv by (simp add: update_fresh)
  qed simp
  from this [of "[]"] show "distinct (map fst ms) \<Longrightarrow> objectOf ms = ms" by (simp add: objectOf_def)
qed

lemma valueStep_text: "validText s \<Longrightarrow> valueStep (quoted s @ r) inner = Some (VStr s, r)"
  using textLoop_quoted [of s r] skipWs_Cons [of quoteChar "escaped s @ quoteChar # r"] by (simp add: valueStep_def quoted_def blank_def Let_def)

lemma valueStep_words:
  "valueStep (CHR ''n'' # CHR ''u'' # CHR ''l'' # CHR ''l'' # r) inner = Some (VNil, r)"
  "valueStep (CHR ''t'' # CHR ''r'' # CHR ''u'' # CHR ''e'' # r) inner = Some (VBool True, r)"
  "valueStep (CHR ''f'' # CHR ''a'' # CHR ''l'' # CHR ''s'' # CHR ''e'' # r) inner = Some (VBool False, r)"
  by (simp_all add: valueStep_def skipWs_def Let_def)

lemma Join_hd: "xs \<noteq> [] \<Longrightarrow> hd xs \<noteq> [] \<Longrightarrow> Join xs sep @ t = hd xs @ drop (length (hd xs)) (Join xs sep @ t)"
  by (induction xs sep rule: Join.induct) auto

text \<open>The first character of a written value is none of those a reader would skip or close with.\<close>

definition opener :: "char \<Rightarrow> bool" where
  "opener c \<longleftrightarrow> \<not> blank c \<and> c \<noteq> CHR '']'' \<and> c \<noteq> CHR ''}''"

lemma encode_opens: "plainJson v \<Longrightarrow> encode jf v \<noteq> [] \<and> opener (hd (encode jf v))"
proof -
  have "show_int i \<noteq> [] \<and> opener (hd (show_int i))" for i
  proof -
    obtain d ds where d: "show_int i = d # ds" "d = CHR ''-'' \<or> is_digit d"
      using show_nat_hd_digit by (metis list.exhaust show_int_def show_nat_not_Nil)
    then show ?thesis using digit_not_blank [of d] by (auto simp: opener_def blank_def is_digit_def less_eq_char_def)
  qed
  then show "plainJson v \<Longrightarrow> encode jf v \<noteq> [] \<and> opener (hd (encode jf v))"
    by (cases v) (auto simp: opener_def blank_def quoted_def)
qed

lemma starts_open:
  assumes "xs \<noteq> []" "hd xs \<noteq> []" "opener (hd (hd xs))"
  shows "\<not> startsWith (skipWs (Join xs '','' @ t)) (CHR '']'')" "\<not> startsWith (skipWs (Join xs '','' @ t)) (CHR ''}'')"
proof -
  obtain c u where "Join xs '','' @ t = c # u" "opener c"
    using Join_hd [OF assms(1,2), of "'',''" t] assms(2,3) by (metis append_Cons list.collapse)
  then show "\<not> startsWith (skipWs (Join xs '','' @ t)) (CHR '']'')" "\<not> startsWith (skipWs (Join xs '','' @ t)) (CHR ''}'')"
    by (auto simp: skipWs_Cons opener_def startsWith_def)
qed

lemma foldr_max_ge: "x \<in> set xs \<Longrightarrow> x \<le> foldr max xs (0::nat)"
  by (induction xs) auto

lemma nesting_less: "v \<in> set vs \<Longrightarrow> nesting v < nesting (VList vs)" "(k, v) \<in> set m \<Longrightarrow> nesting v < nesting (VMap m)"
  by (force simp: less_Suc_eq_le intro: foldr_max_ge)+

lemma encode_VMap: "encode jf (VMap m) = ''{'' @ Join (map member (sort_key fst (map (\<lambda>(k, v). (k, encode jf v)) m))) '','' @ ''}''"
  by (simp add: member_def [abs_def] case_prod_unfold)

lemma sort_key_map: "(\<And>x. fst (g x) = fst x) \<Longrightarrow> sort_key fst (map g xs) = map g (sort_key fst xs)"
proof (induction xs)
  case (Cons x xs)
  have "insort_key fst (g x) (map g ys) = map g (insort_key fst x ys)" for ys
    using Cons.prems by (induction ys) auto
  then show ?case using Cons by simp
qed simp

lemma jsonValue_encode:
  "plainJson v \<Longrightarrow> int (nesting v) + d \<le> 10000 \<Longrightarrow> stops r \<Longrightarrow> jsonValue d (encode jf v @ r) = Some (canon v, r)"
proof (induction v arbitrary: d r rule: canon.induct)
  case (4 vs)
  let ?es = "map (encode jf) vs"
  have inner: "jsonValue d ((CHR ''['' # t)) = arrayOf (jsonValue (d + 1)) t" for t
    using 4 by (subst jsonValue_code) (simp add: valueStep_def skipWs_Cons blank_def)
  have IH: "jsonValue (d + 1) (encode jf v @ r') = Some (canon v, r')" if "v \<in> set vs" "stops r'" for v r'
    using 4 that nesting_less(1) [OF that(1)] by (intro "4.IH") (auto simp: list_all_iff)
  show ?case
  proof (cases "vs = []")
    case True
    then show ?thesis by (simp add: inner arrayOf_def skipWs_Cons blank_def startsWith_def)
  next
    case False
    then have "encode jf (hd vs) \<noteq> [] \<and> opener (hd (encode jf (hd vs)))" using 4 by (intro encode_opens) (auto simp: list_all_iff)
    then have "\<not> startsWith (skipWs (Join ?es '','' @ CHR '']'' # r)) (CHR '']'')"
      using False by (intro starts_open) (auto simp: hd_map)
    then show ?thesis using elements_encoded [of vs "jsonValue (d + 1)" "encode jf" canon r] IH False
      by (simp add: inner arrayOf_def)
  qed
next
  case (5 m)
  let ?kes = "sort_key fst (map (\<lambda>(k, v). (k, encode jf v)) m)"
  have inner: "jsonValue d ((CHR ''{'' # t)) = objectFrom (jsonValue (d + 1)) t" for t
    using 5 by (subst jsonValue_code) (simp add: valueStep_def skipWs_Cons blank_def)
  have IH: "jsonValue (d + 1) (encode jf v @ r') = Some (canon v, r')" if "(k, v) \<in> set m" "stops r'" for k v r'
    using 5 that nesting_less(2) [OF that(1)] by (intro "5.IH") (auto simp: list_all_iff)
  have kes: "map_of m k \<noteq> None \<and> e = encode jf (the (map_of m k)) \<and> validText k \<and> (k, the (map_of m k)) \<in> set m"
    if "(k, e) \<in> set ?kes" for k e using that 5 by (auto simp: list_all_iff)
  define f where "f = (\<lambda>(k, e::string). canon (the (map_of m k)))"
  have one: "validText k \<and> jsonValue (d + 1) (e @ r') = Some (f (k, e), r')" if "(k, e) \<in> set ?kes" "stops r'" for k e r'
    using kes [OF that(1)] IH [OF _ that(2)] by (auto simp: f_def)
  have f: "map (\<lambda>(k, e). (k, f (k, e))) ?kes = sort_key fst (map (\<lambda>(k, v). (k, canon v)) m)"
  proof -
    have "map (\<lambda>(k, e). (k, f (k, e))) ?kes = sort_key fst (map (\<lambda>(k, e). (k, f (k, e))) (map (\<lambda>(k, v). (k, encode jf v)) m))"
      by (rule sort_key_map [symmetric]) auto
    also have "map (\<lambda>(k, e). (k, f (k, e))) (map (\<lambda>(k, v). (k, encode jf v)) m) = map (\<lambda>(k, v). (k, canon v)) m"
      using 5 by (auto simp: f_def)
    finally show ?thesis .
  qed
  show ?case
  proof (cases "m = []")
    case True
    then show ?thesis by (simp add: inner objectFrom_def skipWs_Cons blank_def startsWith_def)
  next
    case False
    then have ne: "?kes \<noteq> []" by (metis length_0_conv length_map length_sort)
    have "\<not> startsWith (skipWs (Join (map member ?kes) '','' @ CHR ''}'' # r)) (CHR ''}'')"
      using ne by (intro starts_open) (simp_all add: hd_map member_def quoted_def opener_def blank_def)
    moreover have "objectMembers (jsonValue (d + 1)) (Join (map member ?kes) '','' @ CHR ''}'' # r) =
        Some (map (\<lambda>(k, e). (k, f (k, e))) ?kes, r)"
      using one ne by (rule objectMembers_encoded)
    moreover have "distinct (map fst (map (\<lambda>(k, e). (k, f (k, e))) ?kes))"
    proof -
      have "distinct (map fst (map (\<lambda>(k, v). (k, encode jf v)) m))" using 5 by (simp add: case_prod_unfold comp_def)
      then have "distinct (map fst ?kes)" by (simp only: distinct_map set_sort distinct_sort)
      then show ?thesis by (simp add: case_prod_unfold comp_def)
    qed
    ultimately show ?thesis unfolding encode_VMap using f by (simp add: inner objectFrom_def objectOf_distinct)
  qed
qed (simp_all add: valueStep_number valueStep_text valueStep_words jsonValue_code)

lemma kept_canon: "plainJson v \<Longrightarrow> kept (canon v) = canon v \<and> inRange (canon v)"
proof (induction v rule: canon.induct)
  case (5 m)
  then show ?case by (fastforce simp: list_all_iff intro!: map_idI)
qed (auto simp: list_all_iff intro!: map_idI)

lemma json_roundtrip:
  assumes "plainJson v" "nesting v \<le> 10000"
  shows "Marshal jf v = Some (encode jf v) \<and> Unmarshal (encode jf v) = Some (canon v, True)"
proof
  have "encodable v" using assms(1)
    by (induction v rule: encodable.induct) (fastforce simp: list_all_iff)+
  then show "Marshal jf v = Some (encode jf v)" by (simp add: Marshal_def)
  show "Unmarshal (encode jf v) = Some (canon v, True)"
    using jsonValue_encode [OF assms(1), of 0 "[]" jf] assms(2) kept_canon [OF assms(1)] by (simp add: Unmarshal_def skipWs_def)
qed

subsection \<open>Everything written is valid text\<close>

lemma rune_prefix:
  assumes "128 \<le> code c" "\<not> badRune c s"
  obtains n where "runeSize c s = Suc n" "take n s @ snd (decodeRune c s) = s"
    "\<And>t. validText (c # take n s @ t) \<longleftrightarrow> validText t"
  using assms
proof (cases rule: decodes)
  case (1 n lo hi)
  have "validText (c # take n s @ t) \<longleftrightarrow> validText t" for t
  proof -
    have dec: "decodeRune c (take n s @ t) = (fst (decodeRune c s), t)" using 1 by blast
    then have "runeSize c (take n s @ t) = Suc n" using 1(3) by (simp add: runeSize_def min_def)
    then show ?thesis using assms(1) 1(2) dec by (simp add: badRune_def)
  qed
  then show ?thesis using that [of n] 1 by (simp add: runeSize_def)
qed

lemma validText_append: "validText xs \<Longrightarrow> validText (xs @ ys) \<longleftrightarrow> validText ys"
proof (induction xs rule: validText.induct)
  case (2 c s)
  show ?case
  proof (cases "code c < 128")
    case False
    then have ok: "128 \<le> code c" "\<not> badRune c s" "validText (snd (decodeRune c s))" using 2 by auto
    obtain n where n: "take n s @ snd (decodeRune c s) = s" "\<And>t. validText (c # take n s @ t) \<longleftrightarrow> validText t"
      using rune_prefix [OF ok(1,2)] by metis
    have "validText ((c # s) @ ys) \<longleftrightarrow> validText (snd (decodeRune c s) @ ys)" using n(2) [of "snd (decodeRune c s) @ ys"] n(1)
      by (metis append_assoc append_Cons)
    then show ?thesis using 2(2) False ok by blast
  qed (use 2 in auto)
qed simp

lemma validText_ascii: "list_all (\<lambda>c. code c < 128) s \<Longrightarrow> validText s"
  by (induction s) auto

lemma hexDigit_ascii: "d < 16 \<Longrightarrow> code (hexDigit d) < 128"
  by (simp add: hexDigit_def code_def)

lemma u4_ascii: "list_all (\<lambda>c. code c < 128) (u4 r)"
  by (simp add: u4_def hexDigit_ascii) (simp add: code_def)

lemma escapeByte_ascii: "code c < 128 \<Longrightarrow> list_all (\<lambda>c. code c < 128) (escapeByte c)"
  using u4_ascii [of "code c"] by (auto simp: escapeByte_def) (simp_all add: code_def)

lemma validText_escaped: "validText (escaped s)"
proof (induction s rule: escaped.induct)
  case (2 c s)
  show ?case
  proof (cases "code c < 128")
    case True
    then show ?thesis using 2 validText_append [OF validText_ascii [OF escapeByte_ascii [OF True]]] by simp
  next
    case False
    have u4: "validText (u4 r @ escaped (snd (decodeRune c s)))" for r
      using 2 False validText_append [OF validText_ascii [OF u4_ascii]] by simp
    show ?thesis
    proof (cases "badRune c s")
      case good: False
      obtain n where "runeSize c s = Suc n" "\<And>t. validText (c # take n s @ t) \<longleftrightarrow> validText t"
        using rune_prefix [OF _ good] False by (metis not_less)
      then show ?thesis using u4 2 False good by (simp add: Let_def)
    qed (use u4 False in \<open>simp add: Let_def\<close>)
  qed
qed simp

lemma validText_quoted: "validText (quoted s)"
  using validText_append [OF validText_escaped, of s "[quoteChar]"] by (simp add: quoted_def code_def)

lemma base64Char_ascii: "n < 64 \<Longrightarrow> code (base64Char n) < 128"
proof -
  assume n: "n < 64"
  have "list_all (\<lambda>c. code c < 128) ''ABCDEFGHIJKLMNOPQRSTUVWXYZabcdefghijklmnopqrstuvwxyz0123456789+/''" by (simp add: code_def)
  then show ?thesis using n unfolding base64Char_def list_all_length by simp
qed

lemma base64_ascii: "list_all (\<lambda>c. code c < 128) (base64 s)"
proof (induction s rule: base64.induct)
  case (2 a)
  have "code a div 4 < 64" using code_less [of a] by linarith
  then show ?case by (simp add: base64Char_ascii) (simp add: code_def)
next
  case (3 a b)
  have "code a div 4 < 64" "code b div 16 < 16" using code_less [of a] code_less [of b] by linarith+
  then have "code a div 4 < 64" "code a mod 4 * 16 + code b div 16 < 64" by arith+
  then show ?case by (simp add: base64Char_ascii) (simp add: code_def)
next
  case (4 a b c s)
  have "code a div 4 < 64" "code b div 16 < 16" "code c div 64 < 4" using code_less [of a] code_less [of b] code_less [of c] by linarith+
  then have "code a div 4 < 64" "code a mod 4 * 16 + code b div 16 < 64" "code b mod 16 * 4 + code c div 64 < 64" by arith+
  then show ?case using 4 by (simp add: base64Char_ascii)
qed simp

lemma show_nat_ascii: "list_all (\<lambda>c. code c < 128) (show_nat n)"
  using show_nat_digits [of n] by (force simp: list_all_iff is_digit_def code_def less_eq_char_def)

lemma validText_Join: "list_all validText xs \<Longrightarrow> validText (Join xs '','')"
proof (induction xs rule: induct_list012)
  case (3 x y zs)
  then have "validText (x @ CHR '','' # Join (y # zs) '','')" using validText_append [of x] by (simp add: code_def)
  then show ?case by simp
qed auto

lemma validText_encode: "(\<And>f. validText (jf f)) \<Longrightarrow> validText (encode jf v)"
proof (induction jf v rule: encode.induct)
  case (8 jf s)
  then show ?case using validText_append [OF validText_ascii [OF base64_ascii]] by (simp add: code_def)
next
  case (9 jf vs)
  then have "validText (Join (map (encode jf) vs) '','')" by (intro validText_Join) (simp add: list_all_iff)
  then show ?case using validText_append by (simp add: code_def)
next
  case (10 jf m)
  have "validText (quoted k @ '':'' @ e)" if "(k, e) \<in> set (sort_key fst (map (\<lambda>(k, v). (k, encode jf v)) m))" for k e
    using that 10 validText_append [OF validText_quoted] by (auto simp: code_def)
  then have "validText (Join (map (\<lambda>(k, e). quoted k @ '':'' @ e) (sort_key fst (map (\<lambda>(k, v). (k, encode jf v)) m))) '','')"
    by (intro validText_Join) (force simp: list_all_iff)
  then show ?case using validText_append by (simp add: code_def)
qed (use validText_ascii [OF show_nat_ascii] validText_quoted in \<open>auto simp: show_int_def code_def\<close>)

end
