(* ===== verification/DdbPack.thy ===== *)
theory DdbPack
  imports Json Spi Store Rand DdbExpr Page
begin

text \<open>
  The parts of the DynamoDB pack its operations share (\<^verbatim>\<open>internal/services/aws/dynamodb\<close>): table definitions
  and their metadata, the key of an item, conditions, global tables, and change streams with their
  Kinesis destinations (\<^verbatim>\<open>dynamodb.go\<close>, \<^verbatim>\<open>ddb_stream.go\<close>, \<^verbatim>\<open>ddb_extra.go\<close>).

  An operation is a function from the pack's state, which is the account store, the randomness, the
  clock's reading and the messages published, to a result and the new state.  An error keeps what was
  written before it; \<open>PPanic\<close> is a run-time panic.  A map that may be nil is an option.  A map the code
  copies by encoding and decoding it is copied that way: an object with an infinite number, which no
  request decodes to, is the only one that has no encoding.  Parameters, in the record \<open>ddblib\<close>: how a
  double is written in JSON, the number formats of the expressions, whether there is a bus, and the tagging operation of
  the service's bundle, to which \<^verbatim>\<open>CreateTable\<close> hands its tags.
\<close>

section \<open>State and steps\<close>

datatype pack_err = PFault fault | PPanic

record pstate =
  pMem :: memory
  pRand :: seeded
  pNow :: int
  pPub :: "(string \<times> bytes) list"

type_synonym 'a pk = "pstate \<Rightarrow> (pack_err, 'a) res \<times> pstate"

record ddblib =
  dFmt :: fmtlib
  dJf :: "f64 \<Rightarrow> string"
  dHasBus :: bool
  dTag :: "string \<Rightarrow> string \<Rightarrow> gobj \<Rightarrow> pstate \<Rightarrow> pstate"

definition pret :: "'a \<Rightarrow> 'a pk" where
  "pret x = (\<lambda>s. (Ok x, s))"

definition pfail :: "pack_err \<Rightarrow> 'a pk" where
  "pfail e = (\<lambda>s. (Err e, s))"

definition pbind :: "'a pk \<Rightarrow> ('a \<Rightarrow> 'b pk) \<Rightarrow> 'b pk" where
  "pbind m f = (\<lambda>s. case m s of (Inl e, s') \<Rightarrow> (Inl e, s') | (Inr x, s') \<Rightarrow> f x s')"

definition pgets :: "(pstate \<Rightarrow> 'a) \<Rightarrow> 'a pk" where
  "pgets f = (\<lambda>s. (Ok (f s), s))"

definition pupd :: "(pstate \<Rightarrow> pstate) \<Rightarrow> unit pk" where
  "pupd f = (\<lambda>s. (Ok (), f s))"

definition pattempt :: "'a pk \<Rightarrow> (pack_err, 'a) res pk" where
  "pattempt m = (\<lambda>s. case m s of (r, s') \<Rightarrow> (Ok r, s'))"

fun pforM :: "('a \<Rightarrow> unit pk) \<Rightarrow> 'a list \<Rightarrow> unit pk" where
  "pforM f [] = pret ()"
| "pforM f (x # xs) = pbind (f x) (\<lambda>_. pforM f xs)"

fun pfold :: "('b \<Rightarrow> 'a \<Rightarrow> 'b pk) \<Rightarrow> 'b \<Rightarrow> 'a list \<Rightarrow> 'b pk" where
  "pfold f acc [] = pret acc"
| "pfold f acc (x # xs) = pbind (f acc x) (\<lambda>acc'. pfold f acc' xs)"

text \<open>The randomness: a draw from the pack's generator.\<close>

definition draw :: "(seeded \<Rightarrow> 'a \<times> seeded) \<Rightarrow> 'a pk" where
  "draw f = (\<lambda>s. case f (pRand s) of (x, r) \<Rightarrow> (Ok x, s\<lparr>pRand := r\<rparr>))"

text \<open>\<^verbatim>\<open>p.col(req, name)\<close> and its operations.\<close>

definition cGetP :: "request \<Rightarrow> string \<Rightarrow> string \<Rightarrow> bytes option pk" where
  "cGetP q name key = pgets (\<lambda>s. coll_Get (qAccount q) (qRegion q) name (pMem s) key)"

definition cPutP :: "request \<Rightarrow> string \<Rightarrow> string \<Rightarrow> bytes \<Rightarrow> unit pk" where
  "cPutP q name key val = pupd (\<lambda>s. s\<lparr>pMem := coll_Put (qAccount q) (qRegion q) name (pMem s) key val\<rparr>)"

definition cDelP :: "request \<Rightarrow> string \<Rightarrow> string \<Rightarrow> unit pk" where
  "cDelP q name key = pupd (\<lambda>s. s\<lparr>pMem := coll_Delete (qAccount q) (qRegion q) name (pMem s) key\<rparr>)"

definition cListP :: "request \<Rightarrow> string \<Rightarrow> string \<Rightarrow> KV list pk" where
  "cListP q name pre = pgets (\<lambda>s. fst (listLocked (qAccount q) (qRegion q) name (pMem s) pre [] 0))"

text \<open>A transaction of the scope: an error puts the scope back as it was, a panic does not.\<close>

abbreviation rolledBack :: "string \<Rightarrow> string \<Rightarrow> memory \<Rightarrow> memory \<Rightarrow> memory" where
  "rolledBack a r \<equiv> rolled_back (scopeKey a r)"

definition inTxn :: "request \<Rightarrow> 'a pk \<Rightarrow> 'a pk" where
  "inTxn q body =
     (\<lambda>s. case body s of
        (Ok x, t) \<Rightarrow> (Ok x, t)
      | (Err PPanic, t) \<Rightarrow> (Err PPanic, t)
      | (Err e, t) \<Rightarrow> (Err e, t\<lparr>pMem := rolledBack (qAccount q) (qRegion q) (pMem s) (pMem t)\<rparr>))"

section \<open>Values\<close>

definition nilOr :: "gobj option \<Rightarrow> gobj" where
  "nilOr m = (case m of Some o1 \<Rightarrow> o1 | None \<Rightarrow> [])"

definition valOrNil :: "gobj option \<Rightarrow> gval" where
  "valOrNil m = (case m of Some o1 \<Rightarrow> VMap o1 | None \<Rightarrow> VNil)"

fun asSlice :: "gval \<Rightarrow> gval list" where
  "asSlice (VList vs) = vs"
| "asSlice _ = []"

fun mapOpt :: "gval \<Rightarrow> gobj option" where
  "mapOpt (VMap m) = Some m"
| "mapOpt _ = None"

definition bytesOf :: "ddblib \<Rightarrow> gval \<Rightarrow> bytes" where
  "bytesOf L v = (case Marshal (dJf L) v of Some b \<Rightarrow> b | None \<Rightarrow> [])"

definition loadMap :: "bytes \<Rightarrow> gobj option" where
  "loadMap b = fst (intoMap None b)"

definition cloneMap :: "ddblib \<Rightarrow> gobj \<Rightarrow> gobj" where
  "cloneMap L m = nilOr (loadMap (bytesOf L (VMap m)))"

definition first :: "gobj \<Rightarrow> string list \<Rightarrow> string" where
  "first m keys = (case filter (\<lambda>k. gstr m k \<noteq> []) keys of k # _ \<Rightarrow> gstr m k | [] \<Rightarrow> [])"

fun truthy :: "gval \<Rightarrow> bool" where
  "truthy (VBool b) = b"
| "truthy (VStr s) = (s = ''true'' \<or> s = ''TRUE'' \<or> s = ''1'')"
| "truthy (VFloat f) = (f \<noteq> Fin 0)"
| "truthy _ = False"

text \<open>\<^verbatim>\<open>strconv.Atoi\<close> with its error ignored: zero for a text that is no number, the nearest integer for one out
  of range.\<close>

definition atoi :: "string \<Rightarrow> int" where
  "atoi s =
     (let (neg, body) = (case s of
             c # t \<Rightarrow> if c = CHR ''-'' then (True, t) else if c = CHR ''+'' then (False, t) else (False, s)
           | [] \<Rightarrow> (False, []))
      in case parse_digits body of
           None \<Rightarrow> 0
         | Some n \<Rightarrow> max (- (2 ^ 63)) (min (2 ^ 63 - 1) (if neg then - int n else int n)))"

fun asInt :: "gval \<Rightarrow> int" where
  "asInt (VFloat f) = f64_to_int64 f"
| "asInt (VInt i) = i"
| "asInt (VInt64 i) = i"
| "asInt (VStr s) = atoi s"
| "asInt _ = 0"

definition pack_fault :: "string \<Rightarrow> string \<Rightarrow> gobj \<Rightarrow> pack_err" where
  "pack_fault c msg extra = PFault \<lparr>FCode = c, FMessage = msg, FStatus = 400, FKind = ''client'', FFields = extra\<rparr>"

definition invalid :: "string \<Rightarrow> pack_err" where
  "invalid msg = pack_fault ''ValidationException'' msg []"

text \<open>\<^verbatim>\<open>reflect.DeepEqual\<close> on decoded maps: the order of the keys does not count.\<close>

fun orderless :: "gval \<Rightarrow> gval" where
  "orderless (VMap m) = VMap (sort_key fst (map (\<lambda>(k, v). (k, orderless v)) m))"
| "orderless (VList vs) = VList (map orderless vs)"
| "orderless v = v"

section \<open>Tables and keys\<close>

definition tableDef :: "request \<Rightarrow> string \<Rightarrow> gobj option pk" where
  "tableDef q table =
     pbind (cGetP q ''tables'' table) (\<lambda>b. pret (case b of None \<Rightarrow> Some [] | Some raw \<Rightarrow> loadMap raw))"

definition requireTable :: "request \<Rightarrow> string \<Rightarrow> unit pk" where
  "requireTable q name =
     pbind (cGetP q ''tables'' name) (\<lambda>b.
     if b = None then pfail (pack_fault ''ResourceNotFoundException'' ''Requested resource not found'' []) else pret ())"

definition schemaNames :: "gobj \<Rightarrow> string list" where
  "schemaNames sch = filter (\<lambda>n. n \<noteq> []) (map (\<lambda>key. gstr (as_map key) ''AttributeName'') (asSlice (gget sch ''KeySchema'')))"

definition validateItemKeyDefinition :: "gobj \<Rightarrow> gobj \<Rightarrow> unit pk" where
  "validateItemKeyDefinition def item =
     (case filter (\<lambda>name. as_map (gget item name) = []) (schemaNames def) of
        [] \<Rightarrow> pret ()
      | name # _ \<Rightarrow> pfail (invalid (''One or more parameter values were invalid: Missing the key '' @ name @ '' in the item'')))"

definition validateItemKey :: "request \<Rightarrow> string \<Rightarrow> gobj \<Rightarrow> unit pk" where
  "validateItemKey q table item = pbind (tableDef q table) (\<lambda>def. validateItemKeyDefinition (nilOr def) item)"

definition itemKey :: "ddblib \<Rightarrow> gobj option \<Rightarrow> string" where
  "itemKey L m = bytesOf L (valOrNil m)"

definition keyPart :: "gobj \<Rightarrow> gobj \<Rightarrow> gobj" where
  "keyPart def attrs = foldl (\<lambda>item name. AList.update name (gget attrs name) item) [] (schemaNames def)"

definition itemKeyFromDefinition :: "ddblib \<Rightarrow> gobj \<Rightarrow> gobj option \<Rightarrow> string" where
  "itemKeyFromDefinition L def attrs =
     (if asSlice (gget def ''KeySchema'') \<noteq> [] then itemKey L (Some (keyPart def (nilOr attrs)))
      else itemKey L attrs)"

definition itemKeyFrom :: "ddblib \<Rightarrow> request \<Rightarrow> string \<Rightarrow> gobj option \<Rightarrow> string pk" where
  "itemKeyFrom L q table attrs =
     pbind (cGetP q ''tables'' table) (\<lambda>b. pret (case b of
         Some raw \<Rightarrow> itemKeyFromDefinition L (nilOr (loadMap raw)) attrs
       | None \<Rightarrow> itemKey L attrs))"

definition tableKey :: "ddblib \<Rightarrow> gobj \<Rightarrow> gobj option \<Rightarrow> gobj option" where
  "tableKey L td item =
     (let out = foldl (\<lambda>out name. case map_of (nilOr item) name of Some v \<Rightarrow> AList.update name v out | None \<Rightarrow> out) [] (schemaNames td)
      in if out = [] then map_option (cloneMap L) item else Some out)"

definition loadItem :: "request \<Rightarrow> string \<Rightarrow> string \<Rightarrow> gobj option pk" where
  "loadItem q table key =
     pbind (cGetP q (''items:'' @ table) key) (\<lambda>b. pret (case b of None \<Rightarrow> None | Some raw \<Rightarrow> loadMap raw))"

definition indexSpec :: "gobj \<Rightarrow> string \<Rightarrow> gobj" where
  "indexSpec td indexName =
     (case filter (\<lambda>m. gstr m ''IndexName'' = indexName)
         (map as_map (asSlice (gget td ''GlobalSecondaryIndexes'') @ asSlice (gget td ''LocalSecondaryIndexes''))) of
        m # _ \<Rightarrow> m
      | [] \<Rightarrow> [])"

definition projectIndex :: "gobj \<Rightarrow> string \<Rightarrow> gobj option \<Rightarrow> gobj option" where
  "projectIndex td indexName item =
     (let spec = indexSpec td indexName;
          proj = as_map (gget spec ''Projection'');
          pt = gstr proj ''ProjectionType'';
          keep = schemaNames td @ schemaNames spec @
            (if pt = ''INCLUDE'' then map as_str (asSlice (gget proj ''NonKeyAttributes'')) else [])
      in if indexName = [] \<or> spec = [] \<or> pt = [] \<or> pt = ''ALL'' then item
         else Some (filter (\<lambda>(k, v). k \<in> set keep) (nilOr item)))"

section \<open>Conditions and what an operation returns\<close>

definition exprText :: "expr_err \<Rightarrow> string" where
  "exprText e =
     (case e of
        NeedsOperands opn \<Rightarrow> opn @ (if opn = ''NOT'' then '' needs one operand'' else '' needs two operands'')
      | UnsupportedOp opn \<Rightarrow> ''unsupported expr op '' @ opn
      | IndexPanic \<Rightarrow> [])"

definition exprErr :: "expr_err \<Rightarrow> pack_err" where
  "exprErr e = (if e = IndexPanic then PPanic else invalid (exprText e))"

definition conditionOK :: "ddblib \<Rightarrow> gobj \<Rightarrow> gobj option \<Rightarrow> (expr_err, bool) res" where
  "conditionOK L input item =
     (if gstr input ''ConditionExpression'' = [] then Ok True
      else EvalBool (dFmt L) (gstr input ''ConditionExpression'') (nilOr item)
             (as_map (gget input ''ExpressionAttributeNames'')) (as_map (gget input ''ExpressionAttributeValues'')))"

definition checkCond :: "ddblib \<Rightarrow> request \<Rightarrow> gobj option \<Rightarrow> unit pk" where
  "checkCond L q item =
     (case conditionOK L (qInput q) item of
        Inl e \<Rightarrow> pfail (exprErr e)
      | Inr True \<Rightarrow> pret ()
      | Inr False \<Rightarrow>
          pfail (pack_fault ''ConditionalCheckFailedException'' ''The conditional request failed''
            (case item of
               Some m \<Rightarrow> if gstr (qInput q) ''ReturnValuesOnConditionCheckFailure'' = ''ALL_OLD'' then [(''Item'', VMap m)] else []
             | None \<Rightarrow> [])))"

definition picked :: "string \<Rightarrow> string list \<Rightarrow> gobj option \<Rightarrow> gobj" where
  "picked mode touched src =
     (case src of
        None \<Rightarrow> []
      | Some m \<Rightarrow>
          if mode \<noteq> ''UPDATED_OLD'' \<and> mode \<noteq> ''UPDATED_NEW'' then m
          else foldl (\<lambda>out k. case map_of m k of Some v \<Rightarrow> AList.update k v out | None \<Rightarrow> out) [] touched)"

definition returnValues :: "request \<Rightarrow> gobj option \<Rightarrow> gobj option \<Rightarrow> string list \<Rightarrow> gobj" where
  "returnValues q old neu touched =
     (let mode = gstr (qInput q) ''ReturnValues'';
          attrs = (if mode = ''ALL_OLD'' \<or> mode = ''UPDATED_OLD'' then picked mode touched old
                   else if mode = ''ALL_NEW'' \<or> mode = ''UPDATED_NEW'' then picked mode touched neu
                   else [])
      in if mode = [] \<or> mode = ''NONE'' \<or> attrs = [] then [] else [(''Attributes'', VMap attrs)])"

section \<open>Global tables\<close>

definition regionalRequest :: "request \<Rightarrow> string \<Rightarrow> request" where
  "regionalRequest q region = q\<lparr>qRegion := region\<rparr>"

definition hasReplica :: "gval list \<Rightarrow> string \<Rightarrow> bool" where
  "hasReplica replicas region = list_ex (\<lambda>replica. gstr (as_map replica) ''RegionName'' = region) replicas"

definition withoutReplica :: "gval list \<Rightarrow> string \<Rightarrow> gval list" where
  "withoutReplica replicas region = filter (\<lambda>replica. gstr (as_map replica) ''RegionName'' \<noteq> region) replicas"

text \<open>The regions a table is kept in, each once and in their order.\<close>

definition replicaRegions :: "gobj \<Rightarrow> string list" where
  "replicaRegions state =
     gstr state ''SourceRegion'' # map (\<lambda>replica. gstr (as_map replica) ''RegionName'') (asSlice (gget state ''ReplicationGroup''))"

definition globalTableIdentities :: "request \<Rightarrow> string \<Rightarrow> string list pk" where
  "globalTableIdentities q table =
     pbind (cGetP q ''ddbglobal'' table) (\<lambda>b. pret (case b of
         None \<Rightarrow> [qRegion q]
       | Some encoded \<Rightarrow>
           foldl (\<lambda>seen region. if region \<noteq> [] \<and> region \<notin> set seen then seen @ [region] else seen) []
             (replicaRegions (nilOr (loadMap encoded)))))"

section \<open>Change streams\<close>

definition padded :: "nat \<Rightarrow> string \<Rightarrow> string" where
  "padded w s = replicate (w - length s) (CHR ''0'') @ s"

text \<open>\<^verbatim>\<open>fmt.Sprintf("%015d", n)\<close>.\<close>

definition seqText :: "int \<Rightarrow> string" where
  "seqText n = (if n < 0 then CHR ''-'' # padded 14 (show_nat (nat (- n))) else padded 15 (show_nat (nat n)))"

definition streamARN :: "request \<Rightarrow> string \<Rightarrow> string \<Rightarrow> string" where
  "streamARN q table label =
     ''arn:aws:dynamodb:'' @ qRegion q @ '':'' @ qAccount q @ '':table/'' @ table @ ''/stream/'' @ label"

definition tableFromStreamARN :: "string \<Rightarrow> string" where
  "tableFromStreamARN arn =
     (case Index arn '':table/'' of
        None \<Rightarrow> arn
      | Some i \<Rightarrow>
          let rest = drop (i + 7) arn
          in case Index rest ''/stream/'' of Some j \<Rightarrow> take j rest | None \<Rightarrow> rest)"

definition ensureStream :: "request \<Rightarrow> gobj \<Rightarrow> string \<Rightarrow> gobj pk" where
  "ensureStream q rec table =
     (if \<not> truthy (gget (as_map (gget rec ''StreamSpecification'')) ''StreamEnabled'') \<or> gstr rec ''LatestStreamArn'' \<noteq> []
      then pret rec
      else pbind (draw (Hex 8)) (\<lambda>label.
           pret (AList.update ''LatestStreamArn'' (VStr (streamARN q table label))
                  (AList.update ''LatestStreamLabel'' (VStr label) rec))))"

text \<open>\<^verbatim>\<open>len\<close> of what \<^verbatim>\<open>base64.StdEncoding.DecodeString\<close> decodes, up to the first error.\<close>

definition isBase64 :: "char \<Rightarrow> bool" where
  "isBase64 c \<longleftrightarrow> is_upper c \<or> is_lower c \<or> is_digit c \<or> c = CHR ''+'' \<or> c = CHR ''/''"

function base64Len :: "string \<Rightarrow> nat" where
  "base64Len s =
     (let k = length (takeWhile isBase64 (take 4 s)) in
      if k = 4 then 3 + base64Len (drop 4 s)
      else case drop k s of
        x # t \<Rightarrow>
          if x \<noteq> CHR ''='' then 0
          else if k = 3 then 2
          else if k = 2 \<and> startsWith t (CHR ''='') then 1
          else 0
      | [] \<Rightarrow> 0)"
  by pat_completeness auto
termination
proof (relation "measure length", goal_cases)
  case (2 s k)
  then have "4 \<le> length (take 4 s)" by (metis length_takeWhile_le)
  then show ?case by simp
qed simp

declare base64Len.simps [simp del]

definition decodedLen :: "string \<Rightarrow> nat" where
  "decodedLen s = base64Len (filter (\<lambda>c. c \<noteq> CHR 0x0A \<and> c \<noteq> CHR 0x0D) s)"

fun streamAttributeSize :: "gobj \<Rightarrow> nat" where
  "streamAttributeSize [] = 0"
| "streamAttributeSize ((kind, raw) # attribute) =
     (if kind = ''S'' \<or> kind = ''N'' then length (as_str raw)
      else if kind = ''B'' then decodedLen (as_str raw)
      else if kind = ''BOOL'' \<or> kind = ''NULL'' then 1
      else if kind = ''SS'' \<or> kind = ''NS'' then sum_list (map (\<lambda>v. length (as_str v)) (asSlice raw))
      else if kind = ''BS'' then sum_list (map (\<lambda>v. decodedLen (as_str v)) (asSlice raw))
      else if kind = ''L'' then
        (case raw of VList vs \<Rightarrow> sum_list (map (\<lambda>v. case v of VMap a \<Rightarrow> streamAttributeSize a | _ \<Rightarrow> 0) vs) | _ \<Rightarrow> 0)
      else if kind = ''M'' then
        (case raw of VMap m \<Rightarrow> sum_list (map (\<lambda>(n, v). length n + (case v of VMap a \<Rightarrow> streamAttributeSize a | _ \<Rightarrow> 0)) m) | _ \<Rightarrow> 0)
      else streamAttributeSize attribute)"

definition streamItemSize :: "gobj \<Rightarrow> nat" where
  "streamItemSize item = sum_list (map (\<lambda>(name, raw). length name + streamAttributeSize (as_map raw)) item)"

definition kinesisStreamName :: "request \<Rightarrow> string \<Rightarrow> string" where
  "kinesisStreamName q arn = TrimPrefix arn (''arn:aws:kinesis:'' @ qRegion q @ '':'' @ qAccount q @ '':stream/'')"

definition activeKinesisDestinations :: "request \<Rightarrow> string \<Rightarrow> gobj list pk" where
  "activeKinesisDestinations q table =
     pbind (cListP q ''kinesisdest'' (table @ ''/'')) (\<lambda>kvs.
     pret (map nilOr (filter (\<lambda>d. gget (nilOr d) ''DestinationStatus'' = VStr ''ACTIVE'')
       (map fst (filter snd (map (\<lambda>kv. intoMap None (Value kv)) kvs))))))"

definition seconds :: "int \<Rightarrow> gval" where
  "seconds now = VFloat (f64_over (f64_of_int (now div 1000000)) (f64_of_int 1000))"

definition toKinesis :: "ddblib \<Rightarrow> request \<Rightarrow> string \<Rightarrow> bytes \<Rightarrow> gobj \<Rightarrow> unit pk" where
  "toKinesis L q table payload destination =
     (let streamName = kinesisStreamName q (gstr destination ''StreamArn'') in
      if streamName = [] then pret ()
      else inTxn q (
        pbind (cGetP q ''kinesis'' streamName) (\<lambda>b.
        case b of
          None \<Rightarrow> pret ()
        | Some raw \<Rightarrow>
            (case loadMap raw of
               None \<Rightarrow> pfail PPanic
             | Some stream \<Rightarrow>
                 let sequence = asInt (gget stream ''Seq'') in
                 pbind (cPutP q ''kinesis'' streamName (bytesOf L (VMap (AList.update ''Seq'' (VInt (wrap64 (sequence + 1))) stream)))) (\<lambda>_.
                 pbind (pgets pNow) (\<lambda>now.
                 cPutP q (''kinesis:'' @ streamName) (show_int sequence) (bytesOf L (VMap
                   [(''SequenceNumber'', VStr (show_int sequence)), (''PartitionKey'', VStr table),
                    (''Data'', VStr (base64 payload)), (''ApproximateArrivalTimestamp'', seconds now)]))))))))"

definition emitKinesisDestinations :: "ddblib \<Rightarrow> request \<Rightarrow> gobj list \<Rightarrow> string \<Rightarrow> string \<Rightarrow> gobj \<Rightarrow> unit pk" where
  "emitKinesisDestinations L q destinations table event ddb =
     pforM (toKinesis L q table (bytesOf L (VMap [(''tableName'', VStr table), (''eventName'', VStr event), (''dynamodb'', VMap ddb)])))
       destinations"

definition nextStreamSeq :: "request \<Rightarrow> string \<Rightarrow> int pk" where
  "nextStreamSeq q table =
     pbind (cGetP q ''ddbseq'' table) (\<lambda>b.
     let n = wrap64 ((case b of Some raw \<Rightarrow> atoi raw | None \<Rightarrow> 0) + 1) in
     pbind (cPutP q ''ddbseq'' table (show_int n)) (\<lambda>_. pret n))"

text \<open>The images a record carries.\<close>

definition images :: "string \<Rightarrow> string \<Rightarrow> gobj option \<Rightarrow> gobj option \<Rightarrow> gobj" where
  "images view event item old =
     (let new = (case item of Some m \<Rightarrow> if event \<noteq> ''REMOVE'' then [(''NewImage'', VMap m)] else [] | None \<Rightarrow> []);
          prev = (case old of Some m \<Rightarrow> [(''OldImage'', VMap m)] | None \<Rightarrow> [])
      in if view = ''KEYS_ONLY'' then []
         else if view = ''OLD_IMAGE'' then prev
         else if view = ''NEW_IMAGE'' then new
         else new @ prev)"

definition streamBody :: "ddblib \<Rightarrow> gobj \<Rightarrow> string \<Rightarrow> gobj option \<Rightarrow> gobj option \<Rightarrow> int \<Rightarrow> int \<Rightarrow> gobj" where
  "streamBody L td event item old seq now =
     (let view0 = gstr (as_map (gget td ''StreamSpecification'')) ''StreamViewType'';
          view = (if view0 = [] then ''NEW_AND_OLD_IMAGES'' else view0);
          keys0 = tableKey L td item;
          keys = (if nilOr keys0 = [] then tableKey L td old else keys0);
          imgs = images view event item old
      in [(''ApproximateCreationDateTime'', seconds now), (''Keys'', valOrNil keys),
          (''SequenceNumber'', VStr (seqText seq)), (''StreamViewType'', VStr view)] @ imgs @
         [(''SizeBytes'', VInt (int (streamItemSize (nilOr keys) + streamItemSize (as_map (gget imgs ''NewImage'')) +
            streamItemSize (as_map (gget imgs ''OldImage'')))))])"

definition emitRegionalStream :: "ddblib \<Rightarrow> request \<Rightarrow> string \<Rightarrow> string \<Rightarrow> gobj option \<Rightarrow> gobj option \<Rightarrow> unit pk" where
  "emitRegionalStream L q table event item old =
     pbind (tableDef q table) (\<lambda>td0.
     pbind (activeKinesisDestinations q table) (\<lambda>destinations.
     let td = nilOr td0;
         streamEnabled = truthy (gget (as_map (gget td ''StreamSpecification'')) ''StreamEnabled'') in
     if \<not> streamEnabled \<and> destinations = [] then pret ()
     else if event = ''REMOVE'' \<and> old = None \<or>
             event = ''MODIFY'' \<and> map_option (\<lambda>m. orderless (VMap m)) item = map_option (\<lambda>m. orderless (VMap m)) old then pret ()
     else
       pbind (nextStreamSeq q table) (\<lambda>seq.
       pbind (pgets pNow) (\<lambda>now.
       let ddb = streamBody L td event item old seq now in
       pbind (draw (Hex 16)) (\<lambda>eventID.
       let b = bytesOf L (VMap [(''eventID'', VStr eventID), (''eventName'', VStr event), (''eventVersion'', VStr ''1.1''),
           (''eventSource'', VStr ''aws:dynamodb''), (''awsRegion'', VStr (qRegion q)), (''dynamodb'', VMap ddb)]) in
       pbind (if streamEnabled
              then pbind (cPutP q (''ddbstream:'' @ table) (seqText seq) b) (\<lambda>_.
                   if dHasBus L then pupd (\<lambda>s. s\<lparr>pPub := pPub s @ [(''dynamodb-stream'', b)]\<rparr>) else pret ())
              else pret ()) (\<lambda>_.
       emitKinesisDestinations L q destinations table event ddb))))))"

definition copyItem :: "ddblib \<Rightarrow> request \<Rightarrow> string \<Rightarrow> string \<Rightarrow> gobj option \<Rightarrow> gobj option \<Rightarrow> unit pk" where
  "copyItem L q table event item old =
     pbind (itemKeyFrom L q table (if event = ''REMOVE'' \<and> old \<noteq> None then old else item)) (\<lambda>key.
     if event = ''REMOVE'' then cDelP q (''items:'' @ table) key
     else cPutP q (''items:'' @ table) key (bytesOf L (valOrNil item)))"

definition emitStream :: "ddblib \<Rightarrow> request \<Rightarrow> string \<Rightarrow> string \<Rightarrow> gobj option \<Rightarrow> gobj option \<Rightarrow> unit pk" where
  "emitStream L q table event item old =
     pbind (globalTableIdentities q table) (\<lambda>regions.
     pforM (\<lambda>region.
       pbind (if region \<noteq> qRegion q then copyItem L (regionalRequest q region) table event item old else pret ()) (\<lambda>_.
       emitRegionalStream L (regionalRequest q region) table event item old)) regions)"

section \<open>The metadata of a table\<close>

definition zeroThroughput :: gobj where
  "zeroThroughput = [(''ReadCapacityUnits'', VInt 0), (''WriteCapacityUnits'', VInt 0)]"

text \<open>The throughput a table or an index shows: the requested one, or zeros when it is billed per request.\<close>

definition withThroughput :: "ddblib \<Rightarrow> string \<Rightarrow> gobj \<Rightarrow> gobj" where
  "withThroughput L billing rec =
     (let t = (if billing = ''PAY_PER_REQUEST'' then zeroThroughput else cloneMap L (as_map (gget rec ''ProvisionedThroughput'')))
      in if t = [] then rec
         else AList.update ''ProvisionedThroughput'' (VMap (AList.update ''NumberOfDecreasesToday'' (VInt 0) t)) rec)"

definition indexMetadata :: "ddblib \<Rightarrow> string \<Rightarrow> string \<Rightarrow> gval \<Rightarrow> gval" where
  "indexMetadata L billing arn raw =
     (case raw of
        VMap index \<Rightarrow>
          VMap (withThroughput L billing
            (AList.update ''ItemCount'' (VInt 0) (AList.update ''IndexSizeBytes'' (VInt 0)
              (AList.update ''IndexArn'' (VStr (arn @ ''/index/'' @ gstr index ''IndexName'')) index))))
      | _ \<Rightarrow> raw)"

definition onSlice :: "(gval \<Rightarrow> gval) \<Rightarrow> string \<Rightarrow> gobj \<Rightarrow> gobj" where
  "onSlice f key m = (case map_of m key of Some (VList vs) \<Rightarrow> AList.update key (VList (map f vs)) m | _ \<Rightarrow> m)"

definition chars :: "byte list \<Rightarrow> string" where
  "chars bs = map (\<lambda>b. char_of (unat b)) bs"

definition managedKey :: "request \<Rightarrow> string \<Rightarrow> seeded \<Rightarrow> int \<Rightarrow> string \<times> string \<times> gobj" where
  "managedKey q alias rnd now =
     (let (id, r1) = Hex 8 rnd; (material, r2) = UUID r1; (key, r3) = Bytes 32 r2;
          arn = ''arn:aws:kms:'' @ qRegion q @ '':'' @ qAccount q @ '':key/'' @ id
      in (id, arn,
          [(''AWSAccountId'', VStr (qAccount q)), (''Arn'', VStr arn), (''CreationDate'', VInt64 (now div 1000000000)),
           (''CurrentKeyMaterialId'', VStr material), (''CustomerMasterKeySpec'', VStr ''SYMMETRIC_DEFAULT''),
           (''Description'', VStr ''Default key that protects my DynamoDB data when no other key is defined''),
           (''Enabled'', VBool True), (''EncryptionAlgorithms'', VList [VStr ''SYMMETRIC_DEFAULT'']), (''KeyId'', VStr id),
           (''KeyManager'', VStr ''AWS''), (''KeyMaterial'', VStr (base64 (chars key))), (''KeySpec'', VStr ''SYMMETRIC_DEFAULT''),
           (''KeyState'', VStr ''Enabled''), (''KeyUsage'', VStr ''ENCRYPT_DECRYPT''), (''MultiRegion'', VBool False), (''Origin'', VStr ''AWS_KMS'')]))"

definition createManagedKey :: "ddblib \<Rightarrow> request \<Rightarrow> string \<Rightarrow> string pk" where
  "createManagedKey L q alias =
     pbind (pgets (\<lambda>s. managedKey q alias
         (Derive (''aws-managed-kms:'' @ qAccount q @ '':'' @ qRegion q @ '':'' @ alias) (pRand s)) (pNow s))) (\<lambda>(id, arn, key).
     pbind (cPutP q ''kms'' id (bytesOf L (VMap key))) (\<lambda>_.
     pbind (cPutP q ''kmsalias'' alias (bytesOf L (VMap [(''AliasName'', VStr alias), (''TargetKeyId'', VStr id)]))) (\<lambda>_.
     pret arn)))"

definition defaultDynamoDBKey :: "ddblib \<Rightarrow> request \<Rightarrow> string pk" where
  "defaultDynamoDBKey L q =
     (let alias = ''alias/aws/dynamodb'' in
      inTxn q (
        pbind (cGetP q ''kmsalias'' alias) (\<lambda>b.
        case b of
          None \<Rightarrow> createManagedKey L q alias
        | Some raw \<Rightarrow>
            let record = loadMap raw in
            pbind (cGetP q ''kms'' (gstr (nilOr record) ''TargetKeyId'')) (\<lambda>k.
            case k of
              None \<Rightarrow> createManagedKey L q alias
            | Some raw2 \<Rightarrow> pret (gstr (nilOr (fst (intoMap record raw2))) ''Arn'')))))"

definition encryption :: "ddblib \<Rightarrow> request \<Rightarrow> gobj \<Rightarrow> gobj pk" where
  "encryption L q table =
     (let spec = as_map (gget table ''SSESpecification'') in
      if spec = [] then pret table
      else if gget spec ''Enabled'' = VBool True then
        (let key = gstr spec ''KMSMasterKeyId'' in
         pbind (if key = [] then defaultDynamoDBKey L q
                else pret (if HasPrefix key ''arn:'' then key
                           else ''arn:aws:kms:'' @ qRegion q @ '':'' @ qAccount q @ '':key/'' @ key)) (\<lambda>arn.
         pret (AList.delete ''SSESpecification'' (AList.update ''SSEDescription''
           (VMap [(''Status'', VStr ''ENABLED''), (''SSEType'', VStr ''KMS''), (''KMSMasterKeyArn'', VStr arn)]) table))))
      else pret (AList.delete ''SSESpecification'' table))"

definition billingOf :: "gobj \<Rightarrow> string" where
  "billingOf table =
     (if gstr table ''BillingMode'' \<noteq> [] then gstr table ''BillingMode''
      else gstr (as_map (gget table ''BillingModeSummary'')) ''BillingMode'')"

definition prepareTableMetadata :: "ddblib \<Rightarrow> request \<Rightarrow> gobj \<Rightarrow> gobj pk" where
  "prepareTableMetadata L q table =
     (let billing = billingOf table;
          t1 = (if billing = ''PAY_PER_REQUEST'' then AList.update ''BillingModeSummary'' (VMap [(''BillingMode'', VStr billing)]) table else table);
          t2 = withThroughput L billing (AList.delete ''BillingMode'' t1);
          t3 = onSlice (indexMetadata L billing (gstr table ''TableArn'')) ''GlobalSecondaryIndexes'' t2
      in encryption L q t3)"

definition warmed :: "string \<Rightarrow> gobj \<Rightarrow> gobj" where
  "warmed status d =
     (let warm0 = as_map (gget d ''WarmThroughput'');
          t = as_map (gget d ''ProvisionedThroughput'');
          warm = (if status = ''ACTIVE'' \<and> warm0 = [] \<and> (0 < asInt (gget t ''ReadCapacityUnits'') \<or> 0 < asInt (gget t ''WriteCapacityUnits''))
                  then [(''ReadUnitsPerSecond'', gget t ''ReadCapacityUnits''), (''WriteUnitsPerSecond'', gget t ''WriteCapacityUnits'')]
                  else warm0)
      in if warm = [] then d
         else AList.update ''WarmThroughput''
                (VMap (AList.update ''Status'' (VStr (if status \<noteq> ''ACTIVE'' then ''UPDATING'' else ''ACTIVE'')) warm)) d)"

definition tableDescription :: "ddblib \<Rightarrow> gobj \<Rightarrow> string \<Rightarrow> gobj" where
  "tableDescription L table status =
     onSlice (\<lambda>raw. case raw of VMap ix \<Rightarrow> VMap (AList.update ''IndexStatus'' (VStr status) ix) | _ \<Rightarrow> raw) ''GlobalSecondaryIndexes''
       (warmed status (AList.update ''TableStatus'' (VStr status) (cloneMap L table)))"

end
