(* ===== verification/DdbOps.thy ===== *)
theory DdbOps
  imports DdbPack
begin

text \<open>
  The operations of the DynamoDB pack on tables and items (\<^verbatim>\<open>Pack.Invoke\<close> and what it calls in \<^verbatim>\<open>dynamodb.go\<close>,
  \<^verbatim>\<open>ddb_stream.go\<close> and \<^verbatim>\<open>ddb_extra.go\<close>), one definition per case.  The output of an operation is the map the
  handler returns.
\<close>

section \<open>Tables\<close>

definition tableARN :: "request \<Rightarrow> string \<Rightarrow> string" where
  "tableARN q table = ''arn:aws:dynamodb:'' @ qRegion q @ '':'' @ qAccount q @ '':table/'' @ table"

definition notFound :: "string \<Rightarrow> pack_err" where
  "notFound msg = pack_fault ''ResourceNotFoundException'' msg []"

definition classSummary :: "gobj \<Rightarrow> gobj" where
  "classSummary rec =
     (let class = gstr rec ''TableClass'' in
      if class = [] then rec
      else AList.delete ''TableClass'' (AList.update ''TableClassSummary'' (VMap [(''TableClass'', VStr class)]) rec))"

text \<open>The record a new table starts from.\<close>

definition newTable :: "request \<Rightarrow> string \<Rightarrow> seeded \<Rightarrow> int \<Rightarrow> gobj \<Rightarrow> gobj" where
  "newTable q table rnd now rec =
     AList.update ''TableSizeBytes'' (VInt 0) (AList.update ''ItemCount'' (VInt 0)
       (AList.update ''DeletionProtectionEnabled'' (VBool False)
         (AList.update ''CreationDateTime'' (VInt64 (now div 1000000000))
           (AList.update ''TableId'' (VStr (fst (UUID (Derive (''dynamodb:table:'' @ qAccount q @ '':'' @ qRegion q @ '':'' @ table) rnd))))
             (AList.update ''TableArn'' (VStr (tableARN q table)) (AList.delete ''Tags'' rec))))))"

definition createTable :: "ddblib \<Rightarrow> request \<Rightarrow> gobj pk" where
  "createTable L q =
     (let table = gstr (qInput q) ''TableName'';
          rec0 = cloneMap L (qInput q) in
      if gstr rec0 ''BillingMode'' = ''PAY_PER_REQUEST'' \<and> as_map (gget rec0 ''ProvisionedThroughput'') \<noteq> []
      then pfail (invalid ''One or more parameter values were invalid: Neither ReadCapacityUnits nor WriteCapacityUnits can be specified when BillingMode is PAY_PER_REQUEST'')
      else
        pbind (pgets (\<lambda>s. newTable q table (pRand s) (pNow s) rec0)) (\<lambda>rec1.
        pbind (prepareTableMetadata L q rec1) (\<lambda>rec2.
        pbind (ensureStream q (classSummary rec2) table) (\<lambda>rec.
        pbind (inTxn q (
          pbind (cGetP q ''tables'' table) (\<lambda>b.
          if b \<noteq> None then pfail (pack_fault ''ResourceInUseException'' (''Table already exists: '' @ table) [])
          else cPutP q ''tables'' table (bytesOf L (VMap rec))))) (\<lambda>_.
        pbind (if asSlice (gget rec0 ''Tags'') \<noteq> []
               then pupd (dTag L (qAccount q) (qRegion q) [(''ResourceArn'', VStr (tableARN q table)), (''Tags'', gget rec0 ''Tags'')])
               else pret ()) (\<lambda>_.
        pret [(''TableDescription'', VMap (tableDescription L rec ''CREATING''))]))))))"

definition deleteTable :: "request \<Rightarrow> gobj pk" where
  "deleteTable q =
     (let table = gstr (qInput q) ''TableName'' in
      pbind (inTxn q (
        pbind (cGetP q ''tables'' table) (\<lambda>b.
        case b of
          None \<Rightarrow> pfail (notFound (''Requested resource not found: Table: '' @ table @ '' not found''))
        | Some raw \<Rightarrow> pbind (cDelP q ''tables'' table) (\<lambda>_. pret (nilOr (loadMap raw)))))) (\<lambda>existing.
      pbind (cDelP q ''ttl'' table) (\<lambda>_.
      pbind (cDelP q ''tags'' (tableARN q table)) (\<lambda>_.
      pret [(''TableDescription'', VMap
        (map (\<lambda>k. (k, gget existing k)) [''DeletionProtectionEnabled'', ''ItemCount'', ''ProvisionedThroughput'', ''TableArn'', ''TableId''] @
         [(''TableName'', VStr table), (''TableStatus'', VStr ''DELETING'')]))]))))"

definition describeTable :: "ddblib \<Rightarrow> request \<Rightarrow> gobj pk" where
  "describeTable L q =
     pbind (cGetP q ''tables'' (gstr (qInput q) ''TableName'')) (\<lambda>b.
     case b of
       None \<Rightarrow> pfail (notFound [])
     | Some raw \<Rightarrow> pret [(''Table'', VMap (tableDescription L (nilOr (loadMap raw)) ''ACTIVE''))])"

section \<open>Items\<close>

definition eventOf :: "gobj option \<Rightarrow> string" where
  "eventOf old = (if old \<noteq> None then ''MODIFY'' else ''INSERT'')"

definition itemsOf :: "string \<Rightarrow> string" where
  "itemsOf table = ''items:'' @ table"

definition putItem :: "ddblib \<Rightarrow> request \<Rightarrow> gobj pk" where
  "putItem L q =
     (let table = gstr (qInput q) ''TableName''; item = mapOpt (gget (qInput q) ''Item'') in
      pbind (validateItemKey q table (nilOr item)) (\<lambda>_.
      pbind (itemKeyFrom L q table item) (\<lambda>key.
      pbind (inTxn q (
        pbind (loadItem q table key) (\<lambda>old.
        pbind (checkCond L q old) (\<lambda>_.
        pbind (cPutP q (itemsOf table) key (bytesOf L (valOrNil item))) (\<lambda>_. pret old))))) (\<lambda>old.
      pbind (emitStream L q table (eventOf old) item old) (\<lambda>_.
      pret (returnValues q old item []))))))"

definition getItem :: "ddblib \<Rightarrow> request \<Rightarrow> gobj pk" where
  "getItem L q =
     (let table = gstr (qInput q) ''TableName'' in
      pbind (itemKeyFrom L q table (Some (as_map (gget (qInput q) ''Key'')))) (\<lambda>key.
      pbind (loadItem q table key) (\<lambda>item.
      pret (case item of
          None \<Rightarrow> []
        | Some m \<Rightarrow> [(''Item'', VMap (Project (dFmt L) (gstr (qInput q) ''ProjectionExpression'') m
                          (as_map (gget (qInput q) ''ExpressionAttributeNames''))))]))))"

definition deleteItem :: "ddblib \<Rightarrow> request \<Rightarrow> gobj pk" where
  "deleteItem L q =
     (let table = gstr (qInput q) ''TableName''; key_attrs = as_map (gget (qInput q) ''Key'') in
      pbind (itemKeyFrom L q table (Some key_attrs)) (\<lambda>key.
      pbind (inTxn q (
        pbind (loadItem q table key) (\<lambda>old.
        pbind (checkCond L q old) (\<lambda>_.
        pbind (cDelP q (itemsOf table) key) (\<lambda>_. pret old))))) (\<lambda>old.
      pbind (emitStream L q table ''REMOVE'' (Some key_attrs) old) (\<lambda>_.
      pret (returnValues q old None [])))))"

definition startItem :: "ddblib \<Rightarrow> gobj \<Rightarrow> gobj option \<Rightarrow> gobj" where
  "startItem L input old = (case old of Some m \<Rightarrow> cloneMap L m | None \<Rightarrow> cloneMap L (as_map (gget input ''Key'')))"

text \<open>What an update makes of an item, and the attributes it touched.\<close>

definition updated :: "ddblib \<Rightarrow> gobj \<Rightarrow> gobj option \<Rightarrow> (expr_err, string list) res \<times> gobj" where
  "updated L input old =
     ApplyUpdate (dFmt L) (gstr input ''UpdateExpression'') (startItem L input old)
       (as_map (gget input ''ExpressionAttributeNames'')) (as_map (gget input ''ExpressionAttributeValues''))"

definition updateItem :: "ddblib \<Rightarrow> request \<Rightarrow> gobj pk" where
  "updateItem L q =
     (let table = gstr (qInput q) ''TableName'' in
      pbind (itemKeyFrom L q table (Some (as_map (gget (qInput q) ''Key'')))) (\<lambda>key.
      pbind (inTxn q (
        pbind (loadItem q table key) (\<lambda>old.
        pbind (checkCond L q old) (\<lambda>_.
        pbind (if gstr (qInput q) ''UpdateExpression'' = [] then pret ([], startItem L (qInput q) old)
               else case updated L (qInput q) old of
                      (Inl e, _) \<Rightarrow> pfail (exprErr e)
                    | (Inr touched, item) \<Rightarrow> pret (touched, item)) (\<lambda>(touched, item).
        pbind (cPutP q (itemsOf table) key (bytesOf L (VMap item))) (\<lambda>_.
        pret (old, item, touched))))))) (\<lambda>(old, item, touched).
      pbind (emitStream L q table (eventOf old) (Some item) old) (\<lambda>_.
      pret (returnValues q old (Some item) touched)))))"

section \<open>Scans and queries\<close>

definition matches :: "ddblib \<Rightarrow> string \<Rightarrow> gobj \<Rightarrow> gobj \<Rightarrow> gobj \<Rightarrow> bool" where
  "matches L cond names values item \<longleftrightarrow> cond = [] \<or> EvalBool (dFmt L) cond item names values = Ok True"

text \<open>What follows the start key: everything after the first item with that key.\<close>

definition afterKey :: "ddblib \<Rightarrow> gobj \<Rightarrow> string \<Rightarrow> gobj option list \<Rightarrow> gobj option list" where
  "afterKey L td sk matched = drop 1 (dropWhile (\<lambda>it. itemKey L (tableKey L td it) \<noteq> sk \<and> itemKey L it \<noteq> sk) matched)"

definition listing :: "ddblib \<Rightarrow> request \<Rightarrow> gobj \<Rightarrow> string \<Rightarrow> string \<Rightarrow> KV list \<Rightarrow> gobj option list" where
  "listing L q td keyCond fltr kvs =
     (let names = as_map (gget (qInput q) ''ExpressionAttributeNames'');
          values = as_map (gget (qInput q) ''ExpressionAttributeValues'');
          hits = filter (\<lambda>it. matches L keyCond names values (nilOr it) \<and> matches L fltr names values (nilOr it))
            (map (\<lambda>kv. loadMap (Value kv)) kvs)
      in sort_key (itemKey L) (map (projectIndex td (gstr (qInput q) ''IndexName'')) hits))"

definition pageOfItems :: "ddblib \<Rightarrow> request \<Rightarrow> gobj \<Rightarrow> gobj option list \<Rightarrow> gobj option list \<times> gobj option" where
  "pageOfItems L q td sorted_items =
     (let start = as_map (gget (qInput q) ''ExclusiveStartKey'');
          rest = (if start = [] then sorted_items else afterKey L td (itemKey L (Some start)) sorted_items);
          limit = asInt (gget (qInput q) ''Limit'')
      in if 0 < limit \<and> limit < int (length rest)
         then (take (nat limit) rest, tableKey L td (rest ! (nat limit - 1)))
         else (rest, None))"

text \<open>An expression that indexes out of range panics on the first item that gets to it.\<close>

definition panics :: "ddblib \<Rightarrow> string \<Rightarrow> gobj \<Rightarrow> gobj \<Rightarrow> gobj \<Rightarrow> bool" where
  "panics L cond names values item \<longleftrightarrow> cond \<noteq> [] \<and> EvalBool (dFmt L) cond item names values = Err IndexPanic"

definition listPanics :: "ddblib \<Rightarrow> request \<Rightarrow> string \<Rightarrow> string \<Rightarrow> KV list \<Rightarrow> bool" where
  "listPanics L q keyCond fltr kvs =
     (let names = as_map (gget (qInput q) ''ExpressionAttributeNames'');
          values = as_map (gget (qInput q) ''ExpressionAttributeValues'')
      in list_ex (\<lambda>kv. let item = nilOr (loadMap (Value kv)) in
           panics L keyCond names values item \<or> matches L keyCond names values item \<and> panics L fltr names values item) kvs)"

definition listItems :: "ddblib \<Rightarrow> request \<Rightarrow> string \<Rightarrow> string \<Rightarrow> string \<Rightarrow> gobj pk" where
  "listItems L q table keyCond fltr =
     pbind (tableDef q table) (\<lambda>td.
     pbind (cListP q (itemsOf table) []) (\<lambda>kvs.
     if listPanics L q keyCond fltr kvs then pfail PPanic else
     let (page, last) = pageOfItems L q (nilOr td) (listing L q (nilOr td) keyCond fltr kvs);
         proj = gstr (qInput q) ''ProjectionExpression'';
         items = map (\<lambda>it. if proj \<noteq> [] then VMap (Project (dFmt L) proj (nilOr it) (as_map (gget (qInput q) ''ExpressionAttributeNames'')))
                           else valOrNil it) page
     in pret ([(''Items'', VList items), (''Count'', VInt (int (length items))), (''ScannedCount'', VInt (int (length kvs)))] @
          (case last of Some k \<Rightarrow> [(''LastEvaluatedKey'', VMap k)] | None \<Rightarrow> []))))"

definition queryItems :: "ddblib \<Rightarrow> request \<Rightarrow> gobj pk" where
  "queryItems L q =
     (let table = gstr (qInput q) ''TableName''; indexName = gstr (qInput q) ''IndexName'' in
      pbind (tableDef q table) (\<lambda>td.
      let index = indexSpec (nilOr td) indexName in
      if indexName \<noteq> [] \<and> index = []
      then pfail (invalid (''The table does not have the specified index: '' @ indexName))
      else if indexName \<noteq> [] \<and> gstr (qInput q) ''Select'' = ''ALL_ATTRIBUTES'' \<and> gstr (as_map (gget index ''Projection'')) ''ProjectionType'' \<noteq> ''ALL''
      then pfail (invalid (''Select type ALL_ATTRIBUTES is not supported for global secondary index '' @ indexName @
             '' because its projection type is not ALL''))
      else listItems L q table (gstr (qInput q) ''KeyConditionExpression'') (gstr (qInput q) ''FilterExpression'')))"

section \<open>Backups, exports and restores\<close>

definition itemsKV :: "KV list \<Rightarrow> gval list" where
  "itemsKV kvs = map (\<lambda>kv. VMap [(''Key'', VStr (Key kv)), (''Value'', VStr (Value kv))]) kvs"

definition createBackup :: "ddblib \<Rightarrow> request \<Rightarrow> gobj pk" where
  "createBackup L q =
     (let table = gstr (qInput q) ''TableName''; name = first (qInput q) [''BackupName''] in
      pbind (draw (Hex 8)) (\<lambda>id.
      pbind (cGetP q ''tables'' table) (\<lambda>td.
      pbind (cListP q (itemsOf table) []) (\<lambda>items.
      let arn = tableARN q table @ ''/backup/'' @ id in
      pbind (cPutP q ''backups'' id (bytesOf L (VMap
        [(''BackupArn'', VStr arn), (''BackupName'', VStr name), (''TableName'', VStr table), (''BackupStatus'', VStr ''AVAILABLE''),
         (''Table'', VStr (case td of Some b \<Rightarrow> b | None \<Rightarrow> [])), (''Items'', VList (itemsKV items))]))) (\<lambda>_.
      pret [(''BackupDetails'', VMap [(''BackupArn'', VStr arn), (''BackupName'', VStr name), (''BackupStatus'', VStr ''AVAILABLE'')])])))))"

definition backupID :: "string \<Rightarrow> string" where
  "backupID arn = (case LastIndexByte arn (CHR ''/'') of Some i \<Rightarrow> drop (i + 1) arn | None \<Rightarrow> arn)"

definition restored :: "string \<Rightarrow> gobj" where
  "restored dst = [(''TableDescription'', VMap [(''TableName'', VStr dst), (''TableStatus'', VStr ''ACTIVE'')])]"

definition restoreTableFromBackup :: "request \<Rightarrow> gobj pk" where
  "restoreTableFromBackup q =
     pbind (cGetP q ''backups'' (backupID (first (qInput q) [''BackupArn'']))) (\<lambda>b.
     case b of
       None \<Rightarrow> pfail (pack_fault ''BackupNotFoundException'' [] [])
     | Some raw \<Rightarrow>
         let m = nilOr (loadMap raw); dst = first (qInput q) [''TargetTableName''] in
         pbind (if gstr m ''Table'' \<noteq> [] then cPutP q ''tables'' dst (gstr m ''Table'') else pret ()) (\<lambda>_.
         pbind (pforM (\<lambda>it. if gstr (as_map it) ''Key'' \<noteq> [] then cPutP q (itemsOf dst) (gstr (as_map it) ''Key'') (gstr (as_map it) ''Value'') else pret ())
           (asSlice (gget m ''Items''))) (\<lambda>_.
         pret (restored dst))))"

definition restorePITR :: "request \<Rightarrow> gobj pk" where
  "restorePITR q =
     (let src = gstr (qInput q) ''SourceTableName''; dst = gstr (qInput q) ''TargetTableName'' in
      pbind (cGetP q ''tables'' src) (\<lambda>tb.
      case tb of
        None \<Rightarrow> pfail (notFound [])
      | Some raw \<Rightarrow>
          pbind (cPutP q ''tables'' dst raw) (\<lambda>_.
          pbind (cListP q (itemsOf src) []) (\<lambda>kvs.
          pbind (pforM (\<lambda>kv. cPutP q (itemsOf dst) (Key kv) (Value kv)) kvs) (\<lambda>_.
          pret (restored dst))))))"

definition exportTable :: "ddblib \<Rightarrow> request \<Rightarrow> gobj pk" where
  "exportTable L q =
     (let table = gstr (qInput q) ''TableName'' in
      pbind (draw (Hex 12)) (\<lambda>id.
      let arn = tableARN q table @ ''/export/'' @ id in
      pbind (cListP q (itemsOf table) []) (\<lambda>kvs.
      let rec = [(''ExportArn'', VStr arn), (''TableArn'', VStr table), (''ExportStatus'', VStr ''COMPLETED''),
          (''ExportedItemCount'', VInt (int (length kvs))), (''S3Bucket'', gget (qInput q) ''S3Bucket'')] in
      pbind (cPutP q ''exports'' arn (bytesOf L (VMap rec))) (\<lambda>_.
      pret [(''ExportDescription'', VMap rec)]))))"

definition importTable :: "ddblib \<Rightarrow> request \<Rightarrow> gobj pk" where
  "importTable L q =
     (let tcp = as_map (gget (qInput q) ''TableCreationParameters'');
          name = (if gstr tcp ''TableName'' \<noteq> [] then gstr tcp ''TableName'' else gstr (qInput q) ''TableName'') in
      pbind (if name = [] then pret ()
             else pbind (pattempt (createTable L (q\<lparr>qOperation := ''CreateTable'', qInput := tcp\<rparr>))) (\<lambda>r.
                  case r of Inl PPanic \<Rightarrow> pfail PPanic | _ \<Rightarrow> pret ())) (\<lambda>_.
      pbind (draw (Hex 12)) (\<lambda>id.
      let arn = tableARN q name @ ''/import/'' @ id;
          rec = [(''ImportArn'', VStr arn), (''TableName'', VStr name), (''ImportStatus'', VStr ''COMPLETED'')] in
      pbind (cPutP q ''imports'' arn (bytesOf L (VMap rec))) (\<lambda>_.
      pret [(''ImportTableDescription'', VMap rec)]))))"

definition searchVectors :: "request \<Rightarrow> gobj pk" where
  "searchVectors q =
     (let qy = (if gstr (qInput q) ''Query'' \<noteq> [] then gstr (qInput q) ''Query'' else gstr (qInput q) ''VectorSearch'') in
      pbind (cListP q (itemsOf (gstr (qInput q) ''TableName'')) []) (\<lambda>kvs.
      pret [(''Items'', VList (map (\<lambda>kv. valOrNil (loadMap (Value kv))) (filter (\<lambda>kv. qy = [] \<or> Contains (Value kv) qy) kvs)))]))"

end
