(* ===== verification/DdbInvoke.thy ===== *)
theory DdbInvoke
  imports DdbOps
begin

text \<open>
  Batches, global tables, streams, transactions and statements of the DynamoDB pack, the expiry of items, and
  the dispatch of a request (\<^verbatim>\<open>dynamodb.go\<close>, \<^verbatim>\<open>ddb_transaction.go\<close>, \<^verbatim>\<open>ddb_stream.go\<close>, \<^verbatim>\<open>ddb_extra.go\<close>).
\<close>

section \<open>Batches\<close>

definition batchGetOne :: "ddblib \<Rightarrow> request \<Rightarrow> string \<Rightarrow> gval list \<Rightarrow> gval \<Rightarrow> gval list pk" where
  "batchGetOne L q tbl items k =
     pbind (itemKeyFrom L q tbl (Some (as_map k))) (\<lambda>key.
     pbind (cGetP q (itemsOf tbl) key) (\<lambda>b. pret (case b of None \<Rightarrow> items | Some raw \<Rightarrow> items @ [valOrNil (loadMap raw)])))"

definition batchGetItem :: "ddblib \<Rightarrow> request \<Rightarrow> gobj pk" where
  "batchGetItem L q =
     pbind (pfold (\<lambda>out (tbl, spec).
         pbind (requireTable q tbl) (\<lambda>_.
         pbind (pfold (batchGetOne L q tbl) [] (asSlice (gget (as_map spec) ''Keys''))) (\<lambda>items.
         pret (AList.update tbl (VList items) out)))) [] (as_map (gget (qInput q) ''RequestItems''))) (\<lambda>out.
     pret [(''Responses'', VMap out), (''UnprocessedKeys'', VMap [])])"

definition batchPut :: "ddblib \<Rightarrow> request \<Rightarrow> string \<Rightarrow> gobj \<Rightarrow> unit pk" where
  "batchPut L q tbl item =
     pbind (validateItemKey q tbl item) (\<lambda>_.
     pbind (itemKeyFrom L q tbl (Some item)) (\<lambda>key.
     pbind (loadItem q tbl key) (\<lambda>old.
     pbind (cPutP q (itemsOf tbl) key (bytesOf L (VMap item))) (\<lambda>_.
     emitStream L q tbl (eventOf old) (Some item) old))))"

definition batchDelete :: "ddblib \<Rightarrow> request \<Rightarrow> string \<Rightarrow> gobj \<Rightarrow> unit pk" where
  "batchDelete L q tbl dk =
     pbind (itemKeyFrom L q tbl (Some dk)) (\<lambda>key.
     pbind (loadItem q tbl key) (\<lambda>old.
     pbind (cDelP q (itemsOf tbl) key) (\<lambda>_.
     emitStream L q tbl ''REMOVE'' (Some dk) old)))"

definition batchWriteOne :: "ddblib \<Rightarrow> request \<Rightarrow> string \<Rightarrow> gval \<Rightarrow> unit pk" where
  "batchWriteOne L q tbl r =
     (let put = as_map (gget (as_map r) ''PutRequest''); del = as_map (gget (as_map r) ''DeleteRequest'') in
      pbind (if put \<noteq> [] then batchPut L q tbl (as_map (gget put ''Item'')) else pret ()) (\<lambda>_.
      if del \<noteq> [] then batchDelete L q tbl (as_map (gget del ''Key'')) else pret ()))"

definition batchWriteItem :: "ddblib \<Rightarrow> request \<Rightarrow> gobj pk" where
  "batchWriteItem L q =
     pbind (pforM (\<lambda>(tbl, spec). pbind (requireTable q tbl) (\<lambda>_. pforM (batchWriteOne L q tbl) (asSlice spec)))
       (as_map (gget (qInput q) ''RequestItems''))) (\<lambda>_.
     pret [(''UnprocessedItems'', VMap [])])"

section \<open>Global tables\<close>

definition clearCollection :: "request \<Rightarrow> string \<Rightarrow> unit pk" where
  "clearCollection q name = pbind (cListP q name []) (pforM (\<lambda>kv. cDelP q name (Key kv)))"

text \<open>A new replica: a table of its own in the region, with a copy of the items.\<close>

definition addReplica :: "ddblib \<Rightarrow> request \<Rightarrow> string \<Rightarrow> gobj \<Rightarrow> string \<Rightarrow> gval list \<Rightarrow> gobj \<Rightarrow> gval list pk" where
  "addReplica L q table def source replicas create =
     (let region = gstr create ''RegionName''; target = regionalRequest q region in
      if region = source \<or> hasReplica replicas region
      then pfail (invalid ''Update global table operation failed because one or more replicas already existed'')
      else
        pbind (cGetP target ''tables'' table) (\<lambda>b.
        if b \<noteq> None then pfail (pack_fault ''ResourceInUseException'' (''Table already exists: '' @ table) [])
        else
          pbind (pgets (\<lambda>s. fst (UUID (Derive (''dynamodb:table:'' @ qAccount q @ '':'' @ region @ '':'' @ table) (pRand s))))) (\<lambda>id.
          pbind (ensureStream target (AList.delete ''LatestStreamLabel'' (AList.delete ''LatestStreamArn''
              (AList.update ''TableId'' (VStr id) (AList.update ''TableArn'' (VStr (tableARN target table)) (cloneMap L def))))) table) (\<lambda>clone.
          pbind (cPutP target ''tables'' table (bytesOf L (VMap clone))) (\<lambda>_.
          pbind (cListP q (itemsOf table) []) (\<lambda>items.
          pbind (pforM (\<lambda>kv. cPutP target (itemsOf table) (Key kv) (Value kv)) items) (\<lambda>_.
          pret (replicas @ [VMap (AList.update ''ReplicaStatus'' (VStr ''ACTIVE'') (cloneMap L create))])))))))) "

definition dropReplica :: "request \<Rightarrow> string \<Rightarrow> gval list \<Rightarrow> string \<Rightarrow> gval list pk" where
  "dropReplica q table replicas region =
     (if \<not> hasReplica replicas region
      then pfail (invalid ''Update global table operation failed because one or more replicas were not part of the global table'')
      else
        let target = regionalRequest q region in
        pbind (cDelP target ''tables'' table) (\<lambda>_.
        pbind (cDelP target ''ddbglobal'' table) (\<lambda>_.
        pbind (clearCollection target (itemsOf table)) (\<lambda>_.
        pbind (clearCollection target (''ddbstream:'' @ table)) (\<lambda>_.
        pret (withoutReplica replicas region))))))"

definition replicaUpdate :: "ddblib \<Rightarrow> request \<Rightarrow> string \<Rightarrow> gobj \<Rightarrow> string \<Rightarrow> gval list \<times> bool \<Rightarrow> gval \<Rightarrow> (gval list \<times> bool) pk" where
  "replicaUpdate L q table def source acc raw =
     (let create = as_map (gget (as_map raw) ''Create''); remove = as_map (gget (as_map raw) ''Delete'');
          region = gstr remove ''RegionName'' in
      pbind (if gstr create ''RegionName'' \<noteq> [] then addReplica L q table def source (fst acc) create else pret (fst acc)) (\<lambda>replicas.
      if region \<noteq> []
      then pbind (dropReplica q table replicas region) (\<lambda>left. pret (left, region = qRegion q))
      else pret (replicas, snd acc)))"

text \<open>The state of the group is written to every region; the caller's definition becomes that of its own region.\<close>

definition writeReplicas :: "ddblib \<Rightarrow> request \<Rightarrow> string \<Rightarrow> gobj \<Rightarrow> gval list \<Rightarrow> gobj \<Rightarrow> string \<Rightarrow> gobj pk" where
  "writeReplicas L q table state replicas def region =
     (let target = regionalRequest q region in
      pbind (tableDef target table) (\<lambda>stored0.
      let stored = nilOr stored0 in
      if stored = [] then pret def
      else if replicas = [] then
        pbind (cDelP target ''ddbglobal'' table) (\<lambda>_.
        let stored1 = AList.delete ''Replicas'' stored in
        pbind (cPutP target ''tables'' table (bytesOf L (VMap stored1))) (\<lambda>_.
        pret (if region = qRegion q then stored1 else def)))
      else
        pbind (cPutP target ''ddbglobal'' table (bytesOf L (VMap state))) (\<lambda>_.
        let stored1 = AList.update ''Replicas'' (VList replicas) stored in
        pbind (cPutP target ''tables'' table (bytesOf L (VMap stored1))) (\<lambda>_.
        pret (if region = qRegion q then stored1 else def)))))"

definition updateTableReplicas :: "ddblib \<Rightarrow> request \<Rightarrow> string \<Rightarrow> gobj \<Rightarrow> (bool \<times> gobj) pk" where
  "updateTableReplicas L q table def =
     pbind (cGetP q ''ddbglobal'' table) (\<lambda>b.
     let state0 = Some [(''SourceRegion'', VStr (qRegion q)), (''ReplicationGroup'', VList [])];
         state = (case b of Some encoded \<Rightarrow> fst (intoMap state0 encoded) | None \<Rightarrow> state0) in
     pbind (pfold (replicaUpdate L q table def (gstr (nilOr state) ''SourceRegion'')) (asSlice (gget (nilOr state) ''ReplicationGroup''), False)
       (asSlice (gget (qInput q) ''ReplicaUpdates''))) (\<lambda>(replicas, deletedCurrent).
     case state of
       None \<Rightarrow> pfail PPanic
     | Some st \<Rightarrow>
         let state1 = AList.update ''ReplicationGroup'' (VList replicas) st in
         pbind (pfold (writeReplicas L q table state1 replicas) def (replicaRegions state1)) (\<lambda>def'.
         pret (deletedCurrent, def'))))"

definition indexUpdate :: "gval list \<Rightarrow> gval \<Rightarrow> gval list" where
  "indexUpdate indexes u =
     (let cr = as_map (gget (as_map u) ''Create''); del = as_map (gget (as_map u) ''Delete'');
          added = (if cr \<noteq> [] then indexes @ [VMap cr] else indexes)
      in if del \<noteq> [] then filter (\<lambda>ix. gstr (as_map ix) ''IndexName'' \<noteq> gstr del ''IndexName'') added else added)"

definition changedTable :: "request \<Rightarrow> string \<Rightarrow> gobj \<Rightarrow> gobj pk" where
  "changedTable q table m =
     (let input = qInput q;
          m1 = (if gget input ''GlobalSecondaryIndexUpdates'' = VNil then m
                else AList.update ''GlobalSecondaryIndexes'' (VList (foldl indexUpdate (asSlice (gget m ''GlobalSecondaryIndexes''))
                       (asSlice (gget input ''GlobalSecondaryIndexUpdates'')))) m) in
      pbind (if gget input ''StreamSpecification'' = VNil then pret m1
             else ensureStream q (AList.update ''StreamSpecification'' (gget input ''StreamSpecification'') m1) table) (\<lambda>m2.
      let m3 = (if gstr input ''TableClass'' = [] then m2
                else AList.update ''TableClassSummary'' (VMap [(''TableClass'', VStr (gstr input ''TableClass''))]) m2)
      in pret (foldl (\<lambda>m key. if gget input key = VNil then m else AList.update key (gget input key) m) m3
           [''AttributeDefinitions'', ''BillingMode'', ''ProvisionedThroughput'', ''SSESpecification'', ''WarmThroughput''])))"

definition sseUpdating :: "request \<Rightarrow> gobj \<Rightarrow> gobj" where
  "sseUpdating q d =
     (if gget (as_map (gget (qInput q) ''SSESpecification'')) ''Enabled'' = VBool False \<and> as_map (gget d ''SSEDescription'') \<noteq> []
      then AList.update ''SSEDescription'' (VMap (AList.update ''Status'' (VStr ''UPDATING'') (as_map (gget d ''SSEDescription'')))) d
      else d)"

definition updateTable :: "ddblib \<Rightarrow> request \<Rightarrow> gobj pk" where
  "updateTable L q =
     (let table = gstr (qInput q) ''TableName'';
          answer = (\<lambda>d. [(''TableDescription'', VMap d)]) in
      pbind (cGetP q ''tables'' table) (\<lambda>b.
      case b of
        None \<Rightarrow> pfail (notFound ''Requested resource not found'')
      | Some raw \<Rightarrow>
          let m0 = nilOr (fst (intoMap (Some []) raw)) in
          pbind (if gget (qInput q) ''ReplicaUpdates'' = VNil then pret (False, m0) else updateTableReplicas L q table m0) (\<lambda>(deletedCurrent, m).
          if deletedCurrent then pret (answer (tableDescription L m ''UPDATING''))
          else
            pbind (changedTable q table m) (\<lambda>m1.
            pbind (prepareTableMetadata L q m1) (\<lambda>m2.
            pbind (cPutP q ''tables'' table (bytesOf L (VMap m2))) (\<lambda>_.
            pret (answer (sseUpdating q (tableDescription L m2 ''UPDATING'')))))))))"

text \<open>The older interface, which keeps its groups in collections of its own.\<close>

definition groupUpdate :: "gval list \<Rightarrow> gval \<Rightarrow> gval list" where
  "groupUpdate reps a =
     (let cr = as_map (gget (as_map a) ''Create''); del = as_map (gget (as_map a) ''Delete'');
          added = (if gstr cr ''RegionName'' \<noteq> [] \<and> \<not> hasReplica reps (gstr cr ''RegionName'')
                   then reps @ [VMap [(''RegionName'', gget cr ''RegionName'')]] else reps)
      in if gstr del ''RegionName'' \<noteq> [] then withoutReplica added (gstr del ''RegionName'') else added)"

definition globalTable :: "ddblib \<Rightarrow> request \<Rightarrow> gobj pk" where
  "globalTable L q =
     (let name = gstr (qInput q) ''GlobalTableName''; opn = qOperation q in
      if opn = ''CreateGlobalTable'' then
        (let rec = [(''GlobalTableName'', VStr name), (''ReplicationGroup'', gget (qInput q) ''ReplicationGroup''), (''GlobalTableStatus'', VStr ''ACTIVE'')] in
         pbind (inTxn q (
           pbind (cGetP q ''gtables'' name) (\<lambda>b.
           if b \<noteq> None then pfail (pack_fault ''GlobalTableAlreadyExistsException'' (''Global Table already exists: '' @ name) [])
           else cPutP q ''gtables'' name (bytesOf L (VMap rec))))) (\<lambda>_.
         pret [(''GlobalTableDescription'', VMap rec)]))
      else if opn = ''DescribeGlobalTable'' then
        pbind (cGetP q ''gtables'' name) (\<lambda>b.
        case b of
          None \<Rightarrow> pfail (pack_fault ''GlobalTableNotFoundException'' [] [])
        | Some raw \<Rightarrow> pret [(''GlobalTableDescription'', valOrNil (loadMap raw))])
      else if opn = ''ListGlobalTables'' then
        pbind (cListP q ''gtables'' []) (\<lambda>kvs. pret [(''GlobalTables'', VList (map (\<lambda>kv. valOrNil (loadMap (Value kv))) kvs))])
      else if opn = ''UpdateGlobalTable'' then
        pbind (cGetP q ''gtables'' name) (\<lambda>b.
        case b of
          None \<Rightarrow> pfail (pack_fault ''GlobalTableNotFoundException'' (''Global Table not found: '' @ name) [])
        | Some raw \<Rightarrow>
            (case fst (intoMap (Some []) raw) of
               None \<Rightarrow> pfail PPanic
             | Some rec \<Rightarrow>
                 let rec1 = AList.update ''ReplicationGroup'' (VList (foldl groupUpdate (asSlice (gget rec ''ReplicationGroup''))
                       (asSlice (gget (qInput q) ''ReplicaUpdates'')))) rec in
                 pbind (cPutP q ''gtables'' name (bytesOf L (VMap rec1))) (\<lambda>_.
                 pret [(''GlobalTableDescription'', VMap rec1)])))
      else if opn = ''UpdateGlobalTableSettings'' then
        pbind (cPutP q ''gtset'' name (bytesOf L (VMap (qInput q)))) (\<lambda>_.
        pret [(''GlobalTableName'', VStr name), (''ReplicaSettings'', gget (qInput q) ''ReplicaSettings'')])
      else if opn = ''DescribeGlobalTableSettings'' then
        pbind (cGetP q ''gtset'' name) (\<lambda>b. pret (case b of
            None \<Rightarrow> [(''GlobalTableName'', VStr name), (''ReplicaSettings'', VList [])]
          | Some raw \<Rightarrow> nilOr (loadMap raw)))
      else pfail (PFault (notImplemented ''aws.dynamodb'' opn)))"

section \<open>Streams\<close>

definition noDestination :: "string \<Rightarrow> string \<Rightarrow> pack_err" where
  "noDestination arn table =
     invalid (''Table is not in a valid state to enable Kinesis Streaming Destination: No streaming destination with streamArn: '' @ arn @
       '' found for table with tableName: '' @ table)"

definition precisionUpdate :: "ddblib \<Rightarrow> request \<Rightarrow> string \<Rightarrow> gobj \<Rightarrow> string \<Rightarrow> gobj option \<Rightarrow> gobj pk" where
  "precisionUpdate L q table def arn record0 =
     (let configuration = as_map (gget (qInput q) ''UpdateKinesisStreamingConfiguration'');
          precision = gstr configuration ''ApproximateCreationDateTimePrecision'' in
      if configuration = []
      then pfail (invalid ''Streaming destination cannot be updated with given parameters: UpdateKinesisStreamingConfiguration cannot be null or contain only null values'')
      else if precision \<noteq> ''MILLISECOND'' \<and> precision \<noteq> ''MICROSECOND''
      then pfail (invalid (''1 validation error detected: Value '' @ [CHR 0x27] @ precision @ [CHR 0x27] @ '' at '' @ [CHR 0x27] @
             ''updateKinesisStreamingConfiguration.approximateCreationDateTimePrecision'' @ [CHR 0x27] @
             '' failed to satisfy constraint: Member must satisfy enum value set: [MILLISECOND, MICROSECOND]''))
      else if gget (nilOr record0) ''ApproximateCreationDateTimePrecision'' = VStr precision
      then pfail (invalid (''Invalid Request: Precision is already set to the desired value of '' @ precision @ '' for tableId: '' @
             gstr def ''TableId'' @ '', kdsArn: '' @ arn))
      else case record0 of
        None \<Rightarrow> pfail PPanic
      | Some record \<Rightarrow>
          pbind (cPutP q ''kinesisdest'' (table @ ''/'' @ arn) (bytesOf L (VMap
            (AList.update ''ApproximateCreationDateTimePrecision'' (VStr precision) (AList.update ''DestinationStatus'' (VStr ''ACTIVE'') record))))) (\<lambda>_.
          pret [(''TableName'', VStr table), (''StreamArn'', VStr arn), (''DestinationStatus'', VStr ''UPDATING''),
            (''UpdateKinesisStreamingConfiguration'', VMap configuration)]))"

definition enableDestination :: "ddblib \<Rightarrow> request \<Rightarrow> string \<Rightarrow> string \<Rightarrow> gobj pk" where
  "enableDestination L q table arn =
     (let missing = invalid (''Kinesis stream not found: '' @ arn) in
      if kinesisStreamName q arn = [] then pfail missing
      else
        pbind (cGetP q ''kinesis'' (kinesisStreamName q arn)) (\<lambda>b.
        if b = None then pfail missing
        else
          pbind (cPutP q ''kinesisdest'' (table @ ''/'' @ arn)
            (bytesOf L (VMap [(''StreamArn'', VStr arn), (''DestinationStatus'', VStr ''ACTIVE'')]))) (\<lambda>_.
          pret [(''TableName'', VStr table), (''StreamArn'', VStr arn), (''DestinationStatus'', VStr ''ENABLING''),
            (''EnableKinesisStreamingConfiguration'', VMap [])])))"

definition disableDestination :: "ddblib \<Rightarrow> request \<Rightarrow> string \<Rightarrow> string \<Rightarrow> gobj option \<Rightarrow> gobj pk" where
  "disableDestination L q table arn record0 =
     (case record0 of
        None \<Rightarrow> pfail PPanic
      | Some record \<Rightarrow>
          pbind (cPutP q ''kinesisdest'' (table @ ''/'' @ arn)
            (bytesOf L (VMap (AList.update ''DestinationStatus'' (VStr ''DISABLED'') record)))) (\<lambda>_.
          pret [(''TableName'', VStr table), (''StreamArn'', VStr arn), (''DestinationStatus'', VStr ''DISABLING'')]))"

definition kinesisDestination :: "ddblib \<Rightarrow> request \<Rightarrow> gobj pk" where
  "kinesisDestination L q =
     (let table = gstr (qInput q) ''TableName''; arn = gstr (qInput q) ''StreamArn'' in
      pbind (tableDef q table) (\<lambda>def0.
      let def = nilOr def0 in
      if gstr def ''TableName'' = []
      then pfail (notFound (''Requested resource not found: Table: '' @ table @ '' not found''))
      else if qOperation q = ''DescribeKinesisStreamingDestination'' then
        pbind (cListP q ''kinesisdest'' (table @ ''/'')) (\<lambda>kvs.
        pret [(''TableName'', VStr table), (''KinesisDataStreamDestinations'',
          VList (map (\<lambda>r. valOrNil (fst r)) (filter snd (map (\<lambda>kv. intoMap None (Value kv)) kvs))))])
      else if qOperation q = ''EnableKinesisStreamingDestination'' then enableDestination L q table arn
      else
        pbind (cGetP q ''kinesisdest'' (table @ ''/'' @ arn)) (\<lambda>b.
        case b of
          None \<Rightarrow> pfail (noDestination arn table)
        | Some stored \<Rightarrow>
            if qOperation q = ''DisableKinesisStreamingDestination'' then disableDestination L q table arn (loadMap stored)
            else precisionUpdate L q table def arn (loadMap stored))))"

definition listStreams :: "request \<Rightarrow> gobj pk" where
  "listStreams q =
     (let want = first (qInput q) [''TableName''] in
      pbind (cListP q ''tables'' []) (\<lambda>kvs.
      pret [(''Streams'', VList (concat (map (\<lambda>kv.
        let td = nilOr (loadMap (Value kv)) in
        if want \<noteq> [] \<and> Key kv \<noteq> want \<or> \<not> truthy (gget (as_map (gget td ''StreamSpecification'')) ''StreamEnabled'') then []
        else [VMap [(''StreamArn'', gget td ''LatestStreamArn''), (''TableName'', VStr (Key kv)), (''StreamLabel'', gget td ''LatestStreamLabel'')]]) kvs)))]))"

definition describeStream :: "request \<Rightarrow> gobj pk" where
  "describeStream q =
     (let arn = first (qInput q) [''StreamArn'']; table = tableFromStreamARN arn in
      pbind (tableDef q table) (\<lambda>td0.
      if td0 = None \<and> table \<noteq> [] then pfail PPanic
      else
        let td = nilOr td0; spec = as_map (gget td ''StreamSpecification'');
            view0 = gstr spec ''StreamViewType'' in
        pret [(''StreamDescription'', VMap
          [(''StreamArn'', VStr arn), (''StreamLabel'', gget td ''LatestStreamLabel''),
           (''StreamStatus'', VStr (if truthy (gget spec ''StreamEnabled'') then ''ENABLED'' else ''DISABLED'')),
           (''StreamViewType'', VStr (if view0 = [] then ''NEW_AND_OLD_IMAGES'' else view0)), (''TableName'', VStr table),
           (''KeySchema'', gget td ''KeySchema''),
           (''Shards'', VList (if first (qInput q) [''ExclusiveStartShardId''] = ''shardId-000000000000'' then []
             else [VMap [(''ShardId'', VStr ''shardId-000000000000''),
                    (''SequenceNumberRange'', VMap [(''StartingSequenceNumber'', VStr ''000000000000001'')])]]))])]))"

definition iteratorText :: "string \<Rightarrow> int \<Rightarrow> string \<Rightarrow> string" where
  "iteratorText arn seq rest = arn @ ''|'' @ show_int seq @ ''|'' @ rest"

definition getShardIterator :: "request \<Rightarrow> gobj pk" where
  "getShardIterator q =
     (let arn = first (qInput q) [''StreamArn'']; kind = gstr (qInput q) ''ShardIteratorType'';
          given = atoi (gstr (qInput q) ''SequenceNumber'') in
      pbind (cGetP q ''ddbseq'' (tableFromStreamARN arn)) (\<lambda>b.
      let seq = (if kind = ''LATEST'' then wrap64 ((case b of Some raw \<Rightarrow> atoi raw | None \<Rightarrow> 0) + 1)
                 else if kind = ''AT_SEQUENCE_NUMBER'' then given
                 else if kind = ''AFTER_SEQUENCE_NUMBER'' then wrap64 (given + 1)
                 else 1) in
      pbind (draw (Hex 8)) (\<lambda>x. pret [(''ShardIterator'', VStr (iteratorText arn seq x))])))"

text \<open>\<^verbatim>\<open>strings.SplitN(s, "|", 3)\<close>.\<close>

definition splitThree :: "string \<Rightarrow> string list" where
  "splitThree s =
     (case Cut s ''|'' of
        (a, rest, False) \<Rightarrow> [a]
      | (a, rest, True) \<Rightarrow> (case Cut rest ''|'' of (b, _, False) \<Rightarrow> [a, b] | (b, c, True) \<Rightarrow> [a, b, c]))"

text \<open>The records from a number on, at most so many, and the number to go on from.\<close>

fun recordsFrom :: "int \<Rightarrow> int \<Rightarrow> nat \<Rightarrow> int \<Rightarrow> KV list \<Rightarrow> gval list \<times> int" where
  "recordsFrom start limit taken nxt [] = ([], nxt)"
| "recordsFrom start limit taken nxt (kv # kvs) =
     (if atoi (Key kv) < start then recordsFrom start limit taken nxt kvs
      else if limit \<le> int (Suc taken) then ([valOrNil (loadMap (Value kv))], wrap64 (atoi (Key kv) + 1))
      else case recordsFrom start limit (Suc taken) (wrap64 (atoi (Key kv) + 1)) kvs of
        (recs, n) \<Rightarrow> (valOrNil (loadMap (Value kv)) # recs, n))"

definition getStreamRecords :: "request \<Rightarrow> gobj pk" where
  "getStreamRecords q =
     (case splitThree (gstr (qInput q) ''ShardIterator'') of
        [arn, startText, rest] \<Rightarrow>
          (let limit0 = asInt (gget (qInput q) ''Limit'') in
           pbind (cListP q (''ddbstream:'' @ tableFromStreamARN arn) []) (\<lambda>kvs.
           let (recs, n) = recordsFrom (atoi startText) (if limit0 \<le> 0 then 1000 else limit0) 0 (atoi startText) kvs in
           pret [(''Records'', VList recs), (''NextShardIterator'', VStr (iteratorText arn n rest))]))
      | _ \<Rightarrow> pfail (invalid []))"

section \<open>Transactions\<close>

record transactionWrite =
  twKind :: string
  twTable :: string
  twKey :: string
  twOld :: "gobj option"
  twItem :: "gobj option"

definition transactionTable :: "request \<Rightarrow> string \<Rightarrow> gobj pk" where
  "transactionTable q table =
     pbind (cGetP q ''tables'' table) (\<lambda>b.
     case b of None \<Rightarrow> pfail (notFound ''Requested resource not found'') | Some raw \<Rightarrow> pret (nilOr (loadMap raw)))"

definition transactGetOne :: "ddblib \<Rightarrow> request \<Rightarrow> gval list \<Rightarrow> gval \<Rightarrow> gval list pk" where
  "transactGetOne L q responses raw =
     (let get = as_map (gget (as_map raw) ''Get''); table = tableFromStreamARN (gstr get ''TableName'') in
      pbind (transactionTable q table) (\<lambda>def.
      pbind (cGetP q (itemsOf table) (itemKeyFromDefinition L def (Some (as_map (gget get ''Key''))))) (\<lambda>b.
      pret (responses @ [VMap (case b of
          Some stored \<Rightarrow> [(''Item'', VMap (Project (dFmt L) (gstr get ''ProjectionExpression'') (nilOr (loadMap stored))
              (as_map (gget get ''ExpressionAttributeNames''))))]
        | None \<Rightarrow> [])]))))"

definition transactGetItems :: "ddblib \<Rightarrow> request \<Rightarrow> gobj pk" where
  "transactGetItems L q =
     pbind (inTxn q (pfold (transactGetOne L q) [] (asSlice (gget (qInput q) ''TransactItems'')))) (\<lambda>responses.
     pret [(''Responses'', VList responses)])"

text \<open>The one action of an item; \<open>None\<close> when there is none, several, or one that is no map.\<close>

definition transactionAction :: "gobj \<Rightarrow> (string \<times> gobj) option" where
  "transactionAction item =
     (case filter (\<lambda>k. map_of item k \<noteq> None) [''ConditionCheck'', ''Put'', ''Update'', ''Delete''] of
        [kind] \<Rightarrow> (case gget item kind of VMap action \<Rightarrow> Some (kind, action) | _ \<Rightarrow> None)
      | _ \<Rightarrow> None)"

definition cancelReason :: "gobj \<Rightarrow> gobj option \<Rightarrow> gval" where
  "cancelReason input old =
     VMap ([(''Code'', VStr ''ConditionalCheckFailed''), (''Message'', VStr ''The conditional request failed'')] @
       (case old of
          Some m \<Rightarrow> if gstr input ''ReturnValuesOnConditionCheckFailure'' = ''ALL_OLD'' then [(''Item'', VMap m)] else []
        | None \<Rightarrow> []))"

record txplan =
  tpReasons :: "gval list"
  tpFailed :: bool
  tpSeen :: "string list"
  tpWrites :: "transactionWrite list"

text \<open>One item of the transaction: its write is planned against the store as it is, nothing is written yet.\<close>

definition planned :: "ddblib \<Rightarrow> string \<Rightarrow> gobj \<Rightarrow> gobj option \<Rightarrow> gobj option pk" where
  "planned L kind input old =
     (if kind = ''Put'' then pret (Some (cloneMap L (as_map (gget input ''Item''))))
      else if kind = ''Update'' then
        (case updated L input old of (Inl e, _) \<Rightarrow> pfail (exprErr e) | (Inr _, item) \<Rightarrow> pret (Some item))
      else pret None)"

definition planOne :: "ddblib \<Rightarrow> request \<Rightarrow> txplan \<Rightarrow> gval \<Rightarrow> txplan pk" where
  "planOne L q plan raw =
     (case transactionAction (as_map raw) of
        None \<Rightarrow> pfail (invalid ''TransactItems must contain exactly one action'')
      | Some (kind, input) \<Rightarrow>
          let table = tableFromStreamARN (gstr input ''TableName'');
              attributes = (if kind = ''Put'' then as_map (gget input ''Item'') else as_map (gget input ''Key'')) in
          pbind (transactionTable q table) (\<lambda>def.
          pbind (validateItemKeyDefinition def attributes) (\<lambda>_.
          let key = itemKeyFromDefinition L def (Some attributes) in
          if table @ CHR 0x00 # key \<in> set (tpSeen plan)
          then pfail (invalid ''Transaction request cannot include multiple operations on one item'')
          else
            pbind (loadItem q table key) (\<lambda>old.
            case conditionOK L input old of
              Inl e \<Rightarrow> pfail (exprErr e)
            | Inr ok \<Rightarrow>
                pbind (planned L kind input old) (\<lambda>item.
                pret \<lparr>tpReasons = tpReasons plan @ [if ok then VMap [(''Code'', VStr ''None'')] else cancelReason input old],
                      tpFailed = (tpFailed plan \<or> \<not> ok), tpSeen = (table @ CHR 0x00 # key) # tpSeen plan,
                      tpWrites = tpWrites plan @ [\<lparr>twKind = kind, twTable = table, twKey = key, twOld = old, twItem = item\<rparr>]\<rparr>)))))"

definition canceled :: "gval list \<Rightarrow> pack_err" where
  "canceled reasons =
     pack_fault ''TransactionCanceledException''
       (''Transaction cancelled, please refer cancellation reasons for specific reasons ['' @
         Join (map (\<lambda>r. gstr (as_map r) ''Code'') reasons) '', '' @ '']'')
       [(''CancellationReasons'', VList reasons)]"

definition applyWrite :: "ddblib \<Rightarrow> request \<Rightarrow> transactionWrite \<Rightarrow> unit pk" where
  "applyWrite L q w =
     (if twKind w = ''ConditionCheck'' then pret ()
      else if twKind w = ''Delete'' then cDelP q (itemsOf (twTable w)) (twKey w)
      else cPutP q (itemsOf (twTable w)) (twKey w) (bytesOf L (valOrNil (twItem w))))"

text \<open>A token that is still in force: the stored payload.\<close>

definition tokenPayload :: "request \<Rightarrow> string \<Rightarrow> string option pk" where
  "tokenPayload q tok =
     (if tok = [] then pret None
      else
        pbind (cGetP q ''ddbtx-tokens'' tok) (\<lambda>b.
        pbind (pgets pNow) (\<lambda>now.
        pret (case b of
            None \<Rightarrow> None
          | Some stored \<Rightarrow>
              let record = nilOr (loadMap stored)
              in if now div 1000000000 < asInt (gget record ''Expires'') then Some (gstr record ''Payload'') else None))))"

text \<open>What a token stands for: the encoded items, null when the request has none.\<close>

definition txPayload :: "ddblib \<Rightarrow> request \<Rightarrow> string" where
  "txPayload L q = bytesOf L (case gget (qInput q) ''TransactItems'' of VList vs \<Rightarrow> VList vs | _ \<Rightarrow> VNil)"

text \<open>The body of the transaction: the writes made, or \<open>None\<close> when the request is a repetition.\<close>

definition transactBody :: "ddblib \<Rightarrow> request \<Rightarrow> transactionWrite list option pk" where
  "transactBody L q =
     (let items = asSlice (gget (qInput q) ''TransactItems'');
          payload = txPayload L q;
          tok = gstr (qInput q) ''ClientRequestToken'' in
      pbind (tokenPayload q tok) (\<lambda>prev.
      case prev of
        Some p \<Rightarrow>
          if p \<noteq> payload
          then pfail (pack_fault ''IdempotentParameterMismatchException'' ''A client request token was reused with different parameters'' [])
          else pret None
      | None \<Rightarrow>
          pbind (pfold (planOne L q) \<lparr>tpReasons = [], tpFailed = False, tpSeen = [], tpWrites = []\<rparr> items) (\<lambda>plan.
          if tpFailed plan then pfail (canceled (tpReasons plan))
          else
            pbind (pforM (applyWrite L q) (tpWrites plan)) (\<lambda>_.
            pbind (if tok = [] then pret ()
                   else pbind (pgets pNow) (\<lambda>now.
                        cPutP q ''ddbtx-tokens'' tok (bytesOf L (VMap
                          [(''Payload'', VStr payload), (''Expires'', VInt64 ((now + 600000000000) div 1000000000))])))) (\<lambda>_.
            pret (Some (tpWrites plan)))))))"

definition emitWrite :: "ddblib \<Rightarrow> request \<Rightarrow> transactionWrite \<Rightarrow> unit pk" where
  "emitWrite L q w =
     (if twKind w = ''ConditionCheck'' then pret ()
      else emitStream L q (twTable w) (if twKind w = ''Delete'' then ''REMOVE'' else eventOf (twOld w)) (twItem w) (twOld w))"

definition transactWriteItems :: "ddblib \<Rightarrow> request \<Rightarrow> gobj pk" where
  "transactWriteItems L q =
     pbind (inTxn q (transactBody L q)) (\<lambda>r.
     pbind (case r of None \<Rightarrow> pret () | Some ws \<Rightarrow> pforM (emitWrite L q) ws) (\<lambda>_.
     pret []))"

section \<open>Expiry\<close>

definition expireOne :: "ddblib \<Rightarrow> request \<Rightarrow> string \<Rightarrow> gobj \<Rightarrow> string \<Rightarrow> nat \<Rightarrow> KV \<Rightarrow> nat pk" where
  "expireOne L q table def attribute expired kv =
     (let item = loadMap (Value kv) in
      pbind (pgets pNow) (\<lambda>now.
      case ParseInt10 (gstr (as_map (gget (nilOr item) attribute)) ''N'') of
        None \<Rightarrow> pret expired
      | Some expires \<Rightarrow>
          if now div 1000000000 < expires then pret expired
          else
            pbind (inTxn q (
              pbind (cGetP q (itemsOf table) (Key kv)) (\<lambda>b.
              if b = None then pret False
              else pbind (cDelP q (itemsOf table) (Key kv)) (\<lambda>_. pret True)))) (\<lambda>deleted.
            if \<not> deleted then pret expired
            else
              pbind (emitStream L q table ''REMOVE'' (tableKey L def item) item) (\<lambda>_.
              pret (Suc expired)))))"

definition expireTable :: "ddblib \<Rightarrow> request \<Rightarrow> nat \<Rightarrow> KV \<Rightarrow> nat pk" where
  "expireTable L q expired kv =
     (let table = Key kv in
      pbind (cGetP q ''ttl'' table) (\<lambda>b.
      case b of
        None \<Rightarrow> pret expired
      | Some raw \<Rightarrow>
          let (ttl, ok) = intoMap None raw in
          if \<not> ok \<or> \<not> truthy (gget (nilOr ttl) ''Enabled'') \<or> gstr (nilOr ttl) ''AttributeName'' = [] then pret expired
          else
            pbind (cListP q (itemsOf table) []) (\<lambda>items.
            pbind (tableDef q table) (\<lambda>def.
            pfold (expireOne L q table (nilOr def) (gstr (nilOr ttl) ''AttributeName'')) expired items))))"

definition ExpireItems :: "ddblib \<Rightarrow> request \<Rightarrow> nat pk" where
  "ExpireItems L q = pbind (cListP q ''tables'' []) (pfold (expireTable L q) 0)"

section \<open>Statements\<close>

definition trimSet :: "char list \<Rightarrow> string \<Rightarrow> string" where
  "trimSet cs s = rev (dropWhile (\<lambda>c. c \<in> set cs) (rev (dropWhile (\<lambda>c. c \<in> set cs) s)))"

definition attributeOf :: "ddblib \<Rightarrow> gval \<Rightarrow> gval" where
  "attributeOf L v =
     (case v of
        VMap m \<Rightarrow> VMap m
      | VStr t \<Rightarrow> VMap [(''S'', VStr t)]
      | _ \<Rightarrow> VMap [(''N'', VStr (bytesOf L v))])"

definition parsePartiqlMap :: "ddblib \<Rightarrow> string \<Rightarrow> gobj option" where
  "parsePartiqlMap L raw =
     (case intoMap None (ReplaceAll [CHR 0x27] [quoteChar] (TrimSuffix (TrimSpace raw) '';'')) of
        (_, False) \<Rightarrow> None
      | (m, True) \<Rightarrow>
          if mapOpt (gget (nilOr m) ''id'') \<noteq> None then m
          else Some (map (\<lambda>(k, v). (k, attributeOf L v)) (nilOr m)))"

text \<open>The first word of a text; \<open>None\<close> is the panic on a text without one.\<close>

definition firstWord :: "string \<Rightarrow> string option" where
  "firstWord s = (case Fields (TrimSpace s) of w # _ \<Rightarrow> Some w | [] \<Rightarrow> None)"

text \<open>\<open>None\<close> is a panic, in what follows as well.\<close>

definition parseInsert :: "ddblib \<Rightarrow> string \<Rightarrow> (string \<times> gobj option) option" where
  "parseInsert L st =
     (case Index (ToUpper st) ''INTO '' of
        None \<Rightarrow> Some ([], None)
      | Some i \<Rightarrow>
          map_option (\<lambda>name. (name,
            case Index (ToUpper st) ''VALUE'' of
              None \<Rightarrow> None
            | Some vi \<Rightarrow> parsePartiqlMap L (TrimSpace (TrimPrefix (TrimSpace (drop (vi + 5) st)) ''E''))))
            (firstWord (drop (i + 5) st)))"

definition tableStart :: "string \<Rightarrow> nat option" where
  "tableStart up =
     (case concat (map (\<lambda>k. case Index up k of Some i \<Rightarrow> [i + length k] | None \<Rightarrow> []) [''FROM '', ''INTO '', ''UPDATE '']) of
        i # _ \<Rightarrow> Some i
      | [] \<Rightarrow> None)"

definition whereKey :: "string \<Rightarrow> gobj" where
  "whereKey st =
     (case Index (ToUpper st) ''WHERE'' of
        None \<Rightarrow> []
      | Some wi \<Rightarrow>
          let cond = TrimSpace (drop (wi + 5) st) in
          (case IndexByte cond (CHR ''='') of
             None \<Rightarrow> []
           | Some eq \<Rightarrow>
               [(TrimSpace (take eq cond),
                 VMap [(''S'', VStr (trimSet [quoteChar, CHR 0x27] (trimSet ''; '' (TrimSpace (drop (eq + 1) cond)))))])]))"

definition parseWhereKey :: "string \<Rightarrow> (string \<times> gobj) option" where
  "parseWhereKey st =
     (case tableStart (ToUpper st) of
        None \<Rightarrow> Some ([], [])
      | Some i \<Rightarrow> map_option (\<lambda>name. (name, whereKey st)) (firstWord (drop i st)))"

definition partiqlTable :: "ddblib \<Rightarrow> string \<Rightarrow> string option" where
  "partiqlTable L st =
     (case parseWhereKey st of
        None \<Rightarrow> None
      | Some (table, _) \<Rightarrow> if table \<noteq> [] then Some table else map_option fst (parseInsert L st))"

definition assignment :: "ddblib \<Rightarrow> (string list \<times> gobj) option \<Rightarrow> nat \<times> string \<Rightarrow> (string list \<times> gobj) option" where
  "assignment L acc ia =
     (case (acc, Cut (snd ia) ''='') of
        (Some (clauses, values), (name, raw, True)) \<Rightarrow>
          (let tok = '':v'' @ show_nat (fst ia);
               value = parsePartiqlMap L ([CHR ''{'', quoteChar] @ ''value'' @ [quoteChar, CHR '':''] @ TrimSpace raw @ ''}'')
           in if TrimSpace name = [] \<or> value = None then None
              else Some (clauses @ [TrimSpace name @ '' = '' @ tok], AList.update tok (gget (nilOr value) ''value'') values))
      | _ \<Rightarrow> None)"

text \<open>The update expression of the assignments between SET and WHERE.\<close>

definition parsePartiqlUpdate :: "ddblib \<Rightarrow> string \<Rightarrow> (string \<times> gobj \<times> string \<times> gobj) option" where
  "parsePartiqlUpdate L st =
     (case parseWhereKey st of
        None \<Rightarrow> None
      | Some (table, key) \<Rightarrow>
          (case (Index (ToUpper st) '' SET '', Index (ToUpper st) '' WHERE '') of
             (Some s, Some w) \<Rightarrow>
               if w < s then Some (table, key, [], [])
               else if w < s + 5 then None
               else let parts = SplitByte (CHR '','') (take (w - (s + 5)) (drop (s + 5) st)) in
                 (case foldl (assignment L) (Some ([], [])) (zip [0..<length parts] parts) of
                    None \<Rightarrow> Some (table, key, [], [])
                  | Some (clauses, values) \<Rightarrow> Some (table, key, ''SET '' @ Join clauses '', '', values))
           | _ \<Rightarrow> Some (table, key, [], [])))"

definition partiqlMissingFilter :: "string \<Rightarrow> string" where
  "partiqlMissingFilter st =
     (case Index (ToUpper st) '' WHERE '' of
        None \<Rightarrow> []
      | Some w \<Rightarrow>
          let cond = TrimSpace (drop (w + 7) st);
              call = (\<lambda>f suf. f @ ''('' @ TrimSpace (take (length cond - length suf) cond) @ '')'')
          in if HasSuffix (ToUpper cond) '' IS NOT MISSING'' then call ''attribute_exists'' '' IS NOT MISSING''
             else if HasSuffix (ToUpper cond) '' IS MISSING'' then call ''attribute_not_exists'' '' IS MISSING''
             else [])"

text \<open>The item operations behind the check that their table exists.\<close>

definition onTable :: "request \<Rightarrow> gobj pk \<Rightarrow> gobj pk" where
  "onTable q m = pbind (requireTable q (gstr (qInput q) ''TableName'')) (\<lambda>_. m)"

definition itemOp :: "ddblib \<Rightarrow> request \<Rightarrow> gobj pk" where
  "itemOp L q =
     onTable q
       (if qOperation q = ''PutItem'' then putItem L q
        else if qOperation q = ''GetItem'' then getItem L q
        else if qOperation q = ''DeleteItem'' then deleteItem L q
        else if qOperation q = ''UpdateItem'' then updateItem L q
        else if qOperation q = ''Query'' then queryItems L q
        else listItems L q (gstr (qInput q) ''TableName'') [] (gstr (qInput q) ''FilterExpression''))"

definition orPanic :: "'a option \<Rightarrow> 'a pk" where
  "orPanic r = (case r of Some x \<Rightarrow> pret x | None \<Rightarrow> pfail PPanic)"

definition executeStatement :: "ddblib \<Rightarrow> request \<Rightarrow> gobj pk" where
  "executeStatement L q =
     (let st = TrimSpace (gstr (qInput q) ''Statement''); up = ToUpper st;
          sub = (\<lambda>opn input. itemOp L (q\<lparr>qOperation := opn, qInput := input\<rparr>)) in
      if map_of (qInput q) ''Parameters'' \<noteq> None \<and> asSlice (gget (qInput q) ''Parameters'') = []
      then pfail (invalid (''1 validation error detected: Value '' @ [CHR 0x27] @ ''[]'' @ [CHR 0x27] @ '' at '' @ [CHR 0x27] @ ''parameters'' @ [CHR 0x27] @
             '' failed to satisfy constraint: Member must have length greater than or equal to 1''))
      else if HasPrefix up ''INSERT'' then
        pbind (orPanic (parseInsert L st)) (\<lambda>(table, item).
        if table = [] \<or> item = None then pfail (invalid ''INSERT'')
        else sub ''PutItem'' [(''TableName'', VStr table), (''Item'', valOrNil item)])
      else if HasPrefix up ''DELETE'' then
        pbind (orPanic (parseWhereKey st)) (\<lambda>(table, key).
        if table = [] then pfail (invalid ''DELETE'')
        else sub ''DeleteItem'' [(''TableName'', VStr table), (''Key'', VMap key)])
      else if HasPrefix up ''UPDATE'' then
        pbind (orPanic (parsePartiqlUpdate L st)) (\<lambda>(table, key, update, values).
        if table = [] \<or> key = [] \<or> update = [] then pfail (invalid ''UPDATE'')
        else sub ''UpdateItem'' [(''TableName'', VStr table), (''Key'', VMap key), (''UpdateExpression'', VStr update),
               (''ExpressionAttributeValues'', VMap values)])
      else
        pbind (orPanic (parseWhereKey st)) (\<lambda>(table0, key).
        let table = (if table0 = [] then gstr (qInput q) ''TableName'' else table0) in
        if key \<noteq> [] then sub ''GetItem'' [(''TableName'', VStr table), (''Key'', VMap key)]
        else sub ''Scan'' [(''TableName'', VStr table), (''FilterExpression'', VStr (partiqlMissingFilter st))]))"

definition statementRequest :: "request \<Rightarrow> gobj \<Rightarrow> request" where
  "statementRequest q sm =
     q\<lparr>qOperation := ''ExecuteStatement'',
       qInput := (''Statement'', gget sm ''Statement'') # (case map_of sm ''Parameters'' of Some ps \<Rightarrow> [(''Parameters'', ps)] | None \<Rightarrow> [])\<rparr>"

definition faultText :: "fault \<Rightarrow> string" where
  "faultText f = (if FMessage f \<noteq> [] then FCode f @ '': '' @ FMessage f else FCode f)"

definition batchStatement :: "ddblib \<Rightarrow> request \<Rightarrow> gval list \<Rightarrow> gval \<Rightarrow> gval list pk" where
  "batchStatement L q resps s =
     pbind (pattempt (executeStatement L (statementRequest q (as_map s)))) (\<lambda>r.
     pbind (case r of Inl PPanic \<Rightarrow> pfail PPanic | _ \<Rightarrow> orPanic (partiqlTable L (gstr (as_map s) ''Statement''))) (\<lambda>table.
     let response = [(''TableName'', VStr table)] in
     pret (resps @ [VMap (case r of
         Inr out \<Rightarrow> foldl (\<lambda>m (k, v). AList.update k v m) response out
       | Inl (PFault f) \<Rightarrow> response @ [(''Error'', VMap [(''Code'', VStr ''ValidationException''), (''Message'', VStr (faultText f))])]
       | Inl PPanic \<Rightarrow> response)])))"

definition transactStatement :: "ddblib \<Rightarrow> request \<Rightarrow> gval list \<Rightarrow> gval \<Rightarrow> gval list pk" where
  "transactStatement L q responses s =
     pbind (executeStatement L (statementRequest q (as_map s))) (\<lambda>out.
     pret (if HasPrefix (ToUpper (TrimSpace (gstr (as_map s) ''Statement''))) ''SELECT'' then responses @ [VMap out] else responses))"

definition partiql :: "ddblib \<Rightarrow> request \<Rightarrow> gobj pk" where
  "partiql L q =
     (if qOperation q = ''BatchExecuteStatement'' then
        pbind (pfold (batchStatement L q) [] (asSlice (gget (qInput q) ''Statements''))) (\<lambda>rs. pret [(''Responses'', VList rs)])
      else if qOperation q = ''ExecuteTransaction'' then
        (let stmts = asSlice (gget (qInput q) ''TransactStatements'') in
         pbind (pfold (transactStatement L q) [] (if stmts = [] then asSlice (gget (qInput q) ''Statements'') else stmts)) (\<lambda>rs.
         pret [(''Responses'', VList rs)]))
      else executeStatement L q)"

section \<open>Dispatch\<close>

definition PackInvoke :: "ddblib \<Rightarrow> request \<Rightarrow> gobj pk" where
  "PackInvoke L q =
     (let opn = qOperation q in
      if opn \<in> {''PutItem'', ''GetItem'', ''DeleteItem'', ''UpdateItem'', ''Query'', ''Scan''} then itemOp L q
      else if opn = ''CreateTable'' then createTable L q
      else if opn = ''DeleteTable'' then deleteTable q
      else if opn = ''DescribeTable'' then describeTable L q
      else if opn = ''CreateBackup'' then createBackup L q
      else if opn = ''RestoreTableFromBackup'' then restoreTableFromBackup q
      else if opn \<in> {''EnableKinesisStreamingDestination'', ''DisableKinesisStreamingDestination'',
                ''DescribeKinesisStreamingDestination'', ''UpdateKinesisStreamingDestination''} then kinesisDestination L q
      else if opn = ''BatchGetItem'' then batchGetItem L q
      else if opn = ''BatchWriteItem'' then batchWriteItem L q
      else if opn = ''TransactGetItems'' then transactGetItems L q
      else if opn = ''TransactWriteItems'' then transactWriteItems L q
      else if opn = ''UpdateTable'' then updateTable L q
      else if opn \<in> {''ExecuteStatement'', ''BatchExecuteStatement'', ''ExecuteTransaction''} then partiql L q
      else if opn \<in> {''CreateGlobalTable'', ''DescribeGlobalTable'', ''ListGlobalTables'', ''UpdateGlobalTable'',
                ''DescribeGlobalTableSettings'', ''UpdateGlobalTableSettings''} then globalTable L q
      else if opn = ''ExportTableToPointInTime'' then exportTable L q
      else if opn = ''ImportTable'' then importTable L q
      else if opn = ''RestoreTableToPointInTime'' then restorePITR q
      else if opn = ''SearchVectors'' then searchVectors q
      else if opn = ''ListStreams'' then listStreams q
      else if opn = ''DescribeStream'' then describeStream q
      else if opn = ''GetShardIterator'' then getShardIterator q
      else if opn = ''GetRecords'' then getStreamRecords q
      else pfail (PFault (notImplemented ''aws.dynamodb'' opn)))"

end
