(* ===== verification/DdbFrame.thy ===== *)
theory DdbFrame
  imports DdbInvoke
begin

text \<open>
  What the operations of the DynamoDB pack leave alone.  The locale \<open>pk_rel\<close> carries a relation between states
  through the control structure of the operations and through those that only read; \<open>pack_rel\<close> adds the
  single writes an account's requests are made of and carries the relation through every operation.
  Interpreted on the runs of such steps, it shows that the pack stays within the account of the request
  and that the store stays well-formed.
\<close>

definition pkeeps :: "(pstate \<Rightarrow> pstate \<Rightarrow> bool) \<Rightarrow> 'a pk \<Rightarrow> bool" where
  "pkeeps I m \<longleftrightarrow> (\<forall>s. I s (snd (m s)))"

lemma qAccount_regional [simp]: "qAccount (regionalRequest q r) = qAccount q"
  by (simp add: regionalRequest_def)

locale pk_rel =
  fixes I :: "pstate \<Rightarrow> pstate \<Rightarrow> bool"
  assumes same: "I s s"
    and chain: "I s t \<Longrightarrow> I t u \<Longrightarrow> I s u"
begin

lemma k_pret: "pkeeps I (pret x)"
  by (simp add: pkeeps_def pret_def same)

lemma k_pfail: "pkeeps I (pfail e)"
  by (simp add: pkeeps_def pfail_def same)

lemma k_pgets: "pkeeps I (pgets f)"
  by (simp add: pkeeps_def pgets_def same)

lemma k_pbind: "pkeeps I m \<Longrightarrow> (\<And>x. pkeeps I (f x)) \<Longrightarrow> pkeeps I (pbind m f)"
proof -
  assume m: "pkeeps I m" and f: "\<And>x. pkeeps I (f x)"
  have "I s (snd (pbind m f s))" for s
  proof -
    obtain r t where r: "m s = (r, t)" by force
    have st: "I s t" using m r unfolding pkeeps_def by (metis snd_conv)
    show ?thesis
    proof (cases r)
      case (Inr x)
      have "I t (snd (f x t))" using f unfolding pkeeps_def by blast
      then show ?thesis using r Inr chain [OF st] by (simp add: pbind_def)
    qed (simp add: pbind_def r st)
  qed
  then show ?thesis unfolding pkeeps_def by blast
qed

lemma k_pattempt: "pkeeps I m \<Longrightarrow> pkeeps I (pattempt m)"
  by (auto simp: pkeeps_def pattempt_def split: prod.split) (metis snd_conv)

lemma k_pforM: "(\<And>x. pkeeps I (f x)) \<Longrightarrow> pkeeps I (pforM f xs)"
  by (induction xs) (simp_all add: k_pret k_pbind)

lemma k_pfold: "(\<And>a x. pkeeps I (f a x)) \<Longrightarrow> pkeeps I (pfold f acc xs)"
  by (induction xs arbitrary: acc) (simp_all add: k_pret k_pbind)

lemma k_orPanic: "pkeeps I (orPanic r)"
  by (auto simp: orPanic_def k_pret k_pfail split: option.split)

lemma k_cGetP: "pkeeps I (cGetP q n k)"
  by (simp add: cGetP_def k_pgets)

lemma k_cListP: "pkeeps I (cListP q n p)"
  by (simp add: cListP_def k_pgets)

lemma k_if: "(b \<Longrightarrow> pkeeps I m) \<Longrightarrow> (\<not> b \<Longrightarrow> pkeeps I n) \<Longrightarrow> pkeeps I (if b then m else n)"
  by simp

lemma k_option: "(x = None \<Longrightarrow> pkeeps I m) \<Longrightarrow> (\<And>y. x = Some y \<Longrightarrow> pkeeps I (f y)) \<Longrightarrow> pkeeps I (case x of None \<Rightarrow> m | Some y \<Rightarrow> f y)"
  by (cases x) simp_all

lemma k_sum: "(\<And>y. pkeeps I (f y)) \<Longrightarrow> (\<And>y. pkeeps I (g y)) \<Longrightarrow> pkeeps I (case x of Inl y \<Rightarrow> f y | Inr y \<Rightarrow> g y)"
  by (cases x) simp_all

lemma k_prod: "(\<And>y z. pkeeps I (f y z)) \<Longrightarrow> pkeeps I (case x of (y, z) \<Rightarrow> f y z)"
  by (cases x) simp_all

lemma k_list: "pkeeps I m \<Longrightarrow> (\<And>y ys. pkeeps I (f y ys)) \<Longrightarrow> pkeeps I (case x of [] \<Rightarrow> m | y # ys \<Rightarrow> f y ys)"
  by (cases x) simp_all

lemma k_bool: "pkeeps I m \<Longrightarrow> pkeeps I n \<Longrightarrow> pkeeps I (case b of True \<Rightarrow> m | False \<Rightarrow> n)"
  by (cases b) simp_all

lemma k_err: "(\<And>f. pkeeps I (g f)) \<Longrightarrow> pkeeps I n \<Longrightarrow> pkeeps I (case e of PFault f \<Rightarrow> g f | PPanic \<Rightarrow> n)"
  by (cases e) simp_all

lemmas k_still = k_pret k_pfail k_pgets k_pbind k_pattempt k_pforM k_pfold k_orPanic k_cGetP k_cListP
  k_if k_option k_sum k_prod k_list k_bool k_err

lemma k_reads:
  "pkeeps I (tableDef q t)" "pkeeps I (requireTable q t)" "pkeeps I (validateItemKeyDefinition d i)" "pkeeps I (validateItemKey q t i)"
  "pkeeps I (itemKeyFrom L q t attrs)" "pkeeps I (loadItem q t key)" "pkeeps I (checkCond L q old)" "pkeeps I (globalTableIdentities q t)"
  "pkeeps I (activeKinesisDestinations q t)" "pkeeps I (transactionTable q t)" "pkeeps I (tokenPayload q tok)" "pkeeps I (planned L kind input old)"
  by (auto simp: tableDef_def requireTable_def validateItemKeyDefinition_def validateItemKey_def itemKeyFrom_def loadItem_def checkCond_def
      globalTableIdentities_def activeKinesisDestinations_def transactionTable_def tokenPayload_def planned_def intro!: k_still)

lemma k_planOne: "pkeeps I (planOne L q plan raw)"
  unfolding planOne_def Let_def by (intro k_still k_reads)

lemma k_lists:
  "pkeeps I (getItem L q)" "pkeeps I (listItems L q t kc f)" "pkeeps I (queryItems L q)" "pkeeps I (searchVectors q)"
  "pkeeps I (transactGetOne L q rs raw)"
  unfolding getItem_def queryItems_def listItems_def searchVectors_def transactGetOne_def Let_def by (intro k_still k_reads)+

end

text \<open>Operations that only read.\<close>

interpretation calm: pk_rel "\<lambda>s t. t = s"
  by unfold_locales auto

locale pack_rel = pk_rel I for I :: "pstate \<Rightarrow> pstate \<Rightarrow> bool" +
  fixes acct :: string
    and L :: ddblib
  assumes put: "I s (s\<lparr>pMem := coll_Put acct r n (pMem s) k v\<rparr>)"
    and del: "I s (s\<lparr>pMem := coll_Delete acct r n (pMem s) k\<rparr>)"
    and rollback: "I s t \<Longrightarrow> I s (t\<lparr>pMem := rolledBack acct r (pMem s) (pMem t)\<rparr>)"
    and rand: "I s (s\<lparr>pRand := x\<rparr>)"
    and publish: "I s (s\<lparr>pPub := ps\<rparr>)"
    and tag: "I s (dTag L acct r input s)"
begin

lemma k_draw: "pkeeps I (draw f)"
  by (auto simp: pkeeps_def draw_def rand split: prod.split)

lemma k_inTxn: "qAccount q = acct \<Longrightarrow> pkeeps I m \<Longrightarrow> pkeeps I (inTxn q m)"
proof -
  assume a: "qAccount q = acct" and m: "pkeeps I m"
  have "I s (snd (inTxn q m s))" for s
  proof -
    obtain x t where x: "m s = (x, t)" by force
    have "I s t" using m x unfolding pkeeps_def by (metis snd_conv)
    then show ?thesis using a rollback [of s t "qRegion q"]
      by (auto simp: inTxn_def x split: sum.split pack_err.split)
  qed
  then show ?thesis unfolding pkeeps_def by blast
qed

lemma k_cPutP: "qAccount q = acct \<Longrightarrow> pkeeps I (cPutP q n k v)"
  by (auto simp: pkeeps_def cPutP_def pupd_def put)

lemma k_cDelP: "qAccount q = acct \<Longrightarrow> pkeeps I (cDelP q n k)"
  by (auto simp: pkeeps_def cDelP_def pupd_def del)

lemma k_publish: "pkeeps I (pupd (\<lambda>s. s\<lparr>pPub := f s\<rparr>))"
  by (simp add: pkeeps_def pupd_def publish)

lemma k_tag: "qAccount q = acct \<Longrightarrow> pkeeps I (pupd (dTag L (qAccount q) r input))"
  by (simp add: pkeeps_def pupd_def tag)

lemmas k_steps = k_still k_draw k_inTxn k_cPutP k_cDelP k_publish k_tag

lemma k_ensureStream: "pkeeps I (ensureStream q rec t)"
  by (simp add: ensureStream_def k_steps)

lemma k_emitStream: "qAccount q = acct \<Longrightarrow> pkeeps I (emitStream L q t e i old)"
  unfolding emitStream_def emitRegionalStream_def copyItem_def emitKinesisDestinations_def toKinesis_def nextStreamSeq_def Let_def
  by (intro k_steps k_reads) simp_all

lemma k_metadata: "qAccount q = acct \<Longrightarrow> pkeeps I (prepareTableMetadata L q t)"
  unfolding prepareTableMetadata_def encryption_def defaultDynamoDBKey_def createManagedKey_def Let_def
  by (intro k_steps k_reads)

lemmas k_parts = k_steps k_reads k_ensureStream k_emitStream k_metadata

lemma k_tables: "qAccount q = acct \<Longrightarrow> pkeeps I (createTable L q)" "qAccount q = acct \<Longrightarrow> pkeeps I (deleteTable q)" "pkeeps I (describeTable L q)"
  unfolding createTable_def deleteTable_def describeTable_def Let_def by (intro k_parts; simp)+

lemma k_putItem: "qAccount q = acct \<Longrightarrow> pkeeps I (putItem L q)"
  unfolding putItem_def Let_def by (intro k_parts; simp)

lemma k_deleteItem: "qAccount q = acct \<Longrightarrow> pkeeps I (deleteItem L q)"
  unfolding deleteItem_def Let_def by (intro k_parts; simp)

lemma k_updateItem: "qAccount q = acct \<Longrightarrow> pkeeps I (updateItem L q)"
  unfolding updateItem_def Let_def by (intro k_parts; simp)

lemma k_backups:
  "qAccount q = acct \<Longrightarrow> pkeeps I (createBackup L q)" "qAccount q = acct \<Longrightarrow> pkeeps I (restoreTableFromBackup q)"
  "qAccount q = acct \<Longrightarrow> pkeeps I (restorePITR q)" "qAccount q = acct \<Longrightarrow> pkeeps I (exportTable L q)"
  "qAccount q = acct \<Longrightarrow> pkeeps I (importTable L q)"
  unfolding createBackup_def restoreTableFromBackup_def restorePITR_def exportTable_def importTable_def Let_def
  by (intro k_parts k_tables; simp)+

lemma k_batches:
  "pkeeps I (batchGetItem L q)" "qAccount q = acct \<Longrightarrow> pkeeps I (batchWriteItem L q)"
  unfolding batchGetItem_def batchGetOne_def batchWriteItem_def batchWriteOne_def batchPut_def batchDelete_def Let_def
  by (intro k_parts; simp)+

lemma k_replicas: "qAccount q = acct \<Longrightarrow> pkeeps I (updateTableReplicas L q t d)"
  unfolding updateTableReplicas_def replicaUpdate_def addReplica_def dropReplica_def clearCollection_def writeReplicas_def Let_def
  by (intro k_parts; simp)

lemma k_updateTable: "qAccount q = acct \<Longrightarrow> pkeeps I (updateTable L q)"
  unfolding updateTable_def changedTable_def Let_def by (intro k_parts k_replicas; simp)

lemma k_globalTable: "qAccount q = acct \<Longrightarrow> pkeeps I (globalTable L q)"
  unfolding globalTable_def Let_def by (intro k_parts; simp)

lemma k_kinesis: "qAccount q = acct \<Longrightarrow> pkeeps I (kinesisDestination L q)"
  unfolding kinesisDestination_def enableDestination_def disableDestination_def precisionUpdate_def Let_def by (intro k_parts; simp)

lemma k_streams: "pkeeps I (listStreams q)" "pkeeps I (describeStream q)" "pkeeps I (getShardIterator q)" "pkeeps I (getStreamRecords q)"
  unfolding listStreams_def describeStream_def getShardIterator_def getStreamRecords_def Let_def by (intro k_parts)+

lemma k_transactGet: "qAccount q = acct \<Longrightarrow> pkeeps I (transactGetItems L q)"
  unfolding transactGetItems_def transactGetOne_def Let_def by (intro k_parts; simp)

lemma k_transactWrite: "qAccount q = acct \<Longrightarrow> pkeeps I (transactWriteItems L q)"
  unfolding transactWriteItems_def transactBody_def planOne_def applyWrite_def emitWrite_def Let_def by (intro k_parts; simp)

lemma k_itemOp: "qAccount q = acct \<Longrightarrow> pkeeps I (itemOp L q)"
  unfolding itemOp_def onTable_def by (intro k_parts k_putItem k_deleteItem k_updateItem k_lists; simp)

lemma k_statement: "qAccount q = acct \<Longrightarrow> pkeeps I (executeStatement L q)"
  unfolding executeStatement_def Let_def by (intro k_parts k_itemOp; simp)

lemma k_partiql: "qAccount q = acct \<Longrightarrow> pkeeps I (partiql L q)"
  unfolding partiql_def batchStatement_def transactStatement_def Let_def
  by (intro k_parts k_statement; simp add: statementRequest_def)

lemma k_expire: "qAccount q = acct \<Longrightarrow> pkeeps I (ExpireItems L q)"
  unfolding ExpireItems_def expireTable_def expireOne_def Let_def by (intro k_parts; simp)

lemma k_invoke: "qAccount q = acct \<Longrightarrow> pkeeps I (PackInvoke L q)"
  unfolding PackInvoke_def Let_def
  by (intro k_if k_itemOp k_tables k_backups k_kinesis k_batches k_transactGet k_transactWrite k_updateTable k_partiql k_globalTable
      k_lists k_streams k_pfail)

end

section \<open>Every operation is a run of steps\<close>

text \<open>What an account's requests are made of: writes to its scopes, rollbacks, draws, messages and taggings.\<close>

inductive packSteps :: "string \<Rightarrow> ddblib \<Rightarrow> pstate \<Rightarrow> pstate \<Rightarrow> bool" for acct L where
  stay: "packSteps acct L s s"
| follow: "packSteps acct L s t \<Longrightarrow> packSteps acct L t u \<Longrightarrow> packSteps acct L s u"
| put: "packSteps acct L s (s\<lparr>pMem := coll_Put acct r n (pMem s) k v\<rparr>)"
| del: "packSteps acct L s (s\<lparr>pMem := coll_Delete acct r n (pMem s) k\<rparr>)"
| rollback: "packSteps acct L s t \<Longrightarrow> packSteps acct L s (t\<lparr>pMem := rolledBack acct r (pMem s) (pMem t)\<rparr>)"
| rand: "packSteps acct L s (s\<lparr>pRand := x\<rparr>)"
| publish: "packSteps acct L s (s\<lparr>pPub := ps\<rparr>)"
| tag: "packSteps acct L s (dTag L acct r input s)"

interpretation pack: pack_rel "packSteps acct L" acct L
  by unfold_locales
    (rule stay, erule (1) follow, rule put, rule del, erule rollback, rule rand, rule publish, rule tag)

definition sameElsewhere :: "string \<Rightarrow> pstate \<Rightarrow> pstate \<Rightarrow> bool" where
  "sameElsewhere acct s t \<longleftrightarrow> (\<forall>sk. (\<forall>r. sk \<noteq> scopeKey acct r) \<longrightarrow> scopeData (pMem t) sk = scopeData (pMem s) sk)"

lemma scopeData_rolled_back: "sk' \<noteq> sk \<Longrightarrow> scopeData (rolled_back sk m m') sk' = scopeData m' sk'"
  by (auto simp: rolled_back_def scopeData_def split: option.split)

lemma mem_ok_rolled_back: "mem_ok m \<Longrightarrow> mem_ok m' \<Longrightarrow> mem_ok (rolled_back sk m m')"
proof (cases "map_of (data m) sk")
  case None
  assume "mem_ok m'"
  moreover have "set (AList.delete sk (data m')) \<subseteq> set (data m')" by (auto simp: AList.delete_eq)
  ultimately show ?thesis using None by (auto simp: rolled_back_def mem_ok_def)
next
  case (Some b)
  assume "mem_ok m" "mem_ok m'"
  then have "gmap_ok b" using map_of_SomeD [OF Some] by (auto simp: mem_ok_def)
  then show ?thesis using Some \<open>mem_ok m'\<close> by (simp add: rolled_back_def mem_ok_update)
qed

lemma steps_elsewhere:
  assumes "packSteps acct L s t" "\<And>r input u. sameElsewhere acct u (dTag L acct r input u)"
  shows "sameElsewhere acct s t"
  using assms(1)
proof induction
  case (rollback s t r)
  then show ?case by (auto simp: sameElsewhere_def scopeData_rolled_back)
qed (auto simp: sameElsewhere_def coll_Put_def coll_Delete_def Let_def assms(2) [unfolded sameElsewhere_def] split: option.split)

lemma steps_ok:
  assumes "packSteps acct L s t" "\<And>r input u. mem_ok (pMem u) \<Longrightarrow> mem_ok (pMem (dTag L acct r input u))" "mem_ok (pMem s)"
  shows "mem_ok (pMem t)"
  using assms(1,3) by induction (auto simp: mem_ok_rolled_back assms(2))

lemma PackInvoke_steps: "packSteps (qAccount q) L s (snd (PackInvoke L q s))"
  using pack.k_invoke [OF HOL.refl, of q L] unfolding pkeeps_def by blast

end
