(* ===== verification/DdbProps.thy ===== *)
theory DdbProps
  imports DdbFrame
begin

text \<open>
  What the DynamoDB pack promises: transactions are atomic and see one snapshot, an item that was put is read
  back, and examples of what goes wrong.
\<close>

section \<open>A small service\<close>

definition ddbLib :: ddblib where
  "ddbLib = \<lparr>dFmt = noLib, dJf = (\<lambda>_. ''0''), dHasBus = False, dTag = (\<lambda>a r input s. s)\<rparr>"

definition ddbReq :: "string \<Rightarrow> gobj \<Rightarrow> request" where
  "ddbReq opn input =
     \<lparr>qServiceID = ''aws.dynamodb'', qOperation = opn, qInput = input, qAccount = ''1'', qRegion = ''us'', qAccessKeyID = [],
      qARN = [], qProject = [], qBody = None, qHTTP = None, qAdvertiseURL = []\<rparr>"

definition sAttr :: "string \<Rightarrow> gval" where
  "sAttr t = VMap [(''S'', VStr t)]"

definition ddbTable :: gobj where
  "ddbTable = [(''KeySchema'', VList [VMap [(''AttributeName'', VStr ''id'')]]), (''TableName'', VStr ''t'')]"

text \<open>One account with a table, another with a table of the same name.\<close>

definition ddbState :: pstate where
  "ddbState =
     \<lparr>pMem = coll_Put ''1'' ''us'' ''tables'' (coll_Put ''2'' ''us'' ''tables'' (NewMemory []) ''t'' ''theirs'') ''t'' (bytesOf ddbLib (VMap ddbTable)),
      pRand = \<lparr>ctr = 0, seed = []\<rparr>, pNow = 0, pPub = []\<rparr>"

definition putA :: request where
  "putA = ddbReq ''PutItem'' [(''TableName'', VStr ''t''), (''Item'', VMap [(''id'', sAttr ''a''), (''n'', sAttr ''1'')])]"

definition getA :: request where
  "getA = ddbReq ''GetItem'' [(''TableName'', VStr ''t''), (''Key'', VMap [(''id'', sAttr ''a'')])]"

lemma putA_ok: "fst (PackInvoke ddbLib putA ddbState) = Ok []"
  by code_simp

section \<open>Failures\<close>

text \<open>Steps that end well or panic, but return no error.\<close>

definition noFault :: "'a pk \<Rightarrow> bool" where
  "noFault m \<longleftrightarrow> (\<forall>s f t. m s \<noteq> (Err (PFault f), t))"

lemma nf_basic: "noFault (pret x)" "noFault (pfail PPanic)" "noFault (pgets g)" "noFault (pupd h)" "noFault (draw d)"
  by (auto simp: noFault_def pret_def pfail_def pgets_def pupd_def draw_def split: prod.split)

lemma nf_pbind: "noFault m \<Longrightarrow> (\<And>x. noFault (f x)) \<Longrightarrow> noFault (pbind m f)"
  by (auto simp: noFault_def pbind_def split: prod.splits sum.splits)

lemma nf_pforM: "(\<And>x. noFault (f x)) \<Longrightarrow> noFault (pforM f xs)"
  by (induction xs) (simp_all add: nf_basic nf_pbind)

lemma nf_inTxn: "noFault m \<Longrightarrow> noFault (inTxn q m)"
  by (auto simp: noFault_def inTxn_def split: prod.splits sum.splits pack_err.splits)

lemma nf_col: "noFault (cGetP q n k)" "noFault (cListP q n p)" "noFault (cPutP q n k v)" "noFault (cDelP q n k)"
  by (simp_all add: cGetP_def cListP_def cPutP_def cDelP_def nf_basic)

lemma nf_if: "noFault m \<Longrightarrow> noFault n \<Longrightarrow> noFault (if b then m else n)"
  by simp

lemma nf_option: "noFault m \<Longrightarrow> (\<And>y. noFault (f y)) \<Longrightarrow> noFault (case x of None \<Rightarrow> m | Some y \<Rightarrow> f y)"
  by (cases x) simp_all

lemmas nf_steps = nf_basic nf_pbind nf_pforM nf_inTxn nf_col nf_if nf_option

lemma nf_emitStream: "noFault (emitStream L q t e i old)"
  unfolding emitStream_def globalTableIdentities_def copyItem_def itemKeyFrom_def emitRegionalStream_def tableDef_def
    activeKinesisDestinations_def nextStreamSeq_def emitKinesisDestinations_def toKinesis_def Let_def
  by (intro nf_steps)

lemma calmD: "pkeeps (\<lambda>s t. t = s) m \<Longrightarrow> m s = (r, t) \<Longrightarrow> t = s"
  unfolding pkeeps_def by (metis snd_conv)

text \<open>Steps that leave the state alone when they return an error.\<close>

definition faultCalm :: "'a pk \<Rightarrow> bool" where
  "faultCalm m \<longleftrightarrow> (\<forall>s f t. m s = (Err (PFault f), t) \<longrightarrow> t = s)"

lemma fc_noFault: "noFault m \<Longrightarrow> faultCalm m"
  by (simp add: faultCalm_def noFault_def)

lemma fc_calm: "pkeeps (\<lambda>s t. t = s) m \<Longrightarrow> faultCalm m"
  using calmD unfolding faultCalm_def by blast

lemma fc_then: "pkeeps (\<lambda>s t. t = s) m \<Longrightarrow> (\<And>x. faultCalm (f x)) \<Longrightarrow> faultCalm (pbind m f)"
  unfolding faultCalm_def pbind_def by (auto split: prod.splits sum.splits dest: calmD)

lemma fc_last: "faultCalm m \<Longrightarrow> (\<And>x. noFault (f x)) \<Longrightarrow> faultCalm (pbind m f)"
  unfolding faultCalm_def noFault_def pbind_def by (fastforce split: prod.splits sum.splits)

lemma fc_inTxn: "faultCalm m \<Longrightarrow> faultCalm (inTxn q m)"
  unfolding faultCalm_def inTxn_def by (fastforce simp: rolled_back_self split: prod.splits sum.splits pack_err.splits)

lemma fc_if: "faultCalm m \<Longrightarrow> faultCalm n \<Longrightarrow> faultCalm (if b then m else n)"
  by simp

lemma fc_option: "faultCalm m \<Longrightarrow> (\<And>y. faultCalm (f y)) \<Longrightarrow> faultCalm (case x of None \<Rightarrow> m | Some y \<Rightarrow> f y)"
  by (cases x) simp_all

lemma nf_prod: "(\<And>y z. noFault (f y z)) \<Longrightarrow> noFault (case x of (y, z) \<Rightarrow> f y z)"
  by (cases x) simp_all

lemma fc_prod: "(\<And>y z. faultCalm (f y z)) \<Longrightarrow> faultCalm (case x of (y, z) \<Rightarrow> f y z)"
  by (cases x) simp_all

lemmas calm_steps = calm.k_still calm.k_reads calm.k_planOne
lemmas fc_end = fc_noFault nf_steps nf_prod nf_emitStream

lemma fc_transactBody: "faultCalm (transactBody L q)"
  unfolding transactBody_def Let_def
  apply (rule fc_then, intro calm_steps)
  apply (rule fc_option)
   apply (rule fc_then, intro calm_steps)
   apply (rule fc_if, rule fc_calm, intro calm_steps)
   apply (rule fc_noFault, unfold applyWrite_def, intro nf_steps)
  apply (rule fc_calm, intro calm_steps)
  done

lemma fc_transactWriteItems: "faultCalm (transactWriteItems L q)"
  unfolding transactWriteItems_def
  by (rule fc_last [OF fc_inTxn [OF fc_transactBody]], unfold emitWrite_def, intro nf_steps nf_emitStream)

lemma fc_putItem: "faultCalm (putItem L q)"
  unfolding putItem_def Let_def
  by (rule fc_then, intro calm_steps, rule fc_then, intro calm_steps, rule fc_last, rule fc_inTxn,
      rule fc_then, intro calm_steps, rule fc_then, intro calm_steps, intro fc_end, intro fc_end)

lemma fc_deleteItem: "faultCalm (deleteItem L q)"
  unfolding deleteItem_def Let_def
  by (rule fc_then, intro calm_steps, rule fc_last, rule fc_inTxn,
      rule fc_then, intro calm_steps, rule fc_then, intro calm_steps, intro fc_end, intro fc_end)

lemma fc_updateItem: "faultCalm (updateItem L q)"
  unfolding updateItem_def Let_def
  by (rule fc_then, intro calm_steps, rule fc_last, rule fc_inTxn,
      rule fc_then, intro calm_steps, rule fc_then, intro calm_steps, rule fc_then, intro calm_steps, intro fc_end, intro fc_end)

lemma fc_transactGetItems: "faultCalm (transactGetItems L q)"
  unfolding transactGetItems_def
  by (rule fc_last [OF fc_inTxn [OF fc_calm]], intro calm_steps calm.k_lists, intro nf_steps)


definition txTwo :: "string \<Rightarrow> string \<Rightarrow> request" where
  "txTwo tok cond = ddbReq ''TransactWriteItems'' [(''ClientRequestToken'', VStr tok), (''TransactItems'', VList
     [VMap [(''Put'', VMap [(''TableName'', VStr ''t''), (''Item'', VMap [(''id'', sAttr ''a''), (''n'', sAttr ''1'')])])],
      VMap [(''Delete'', VMap [(''TableName'', VStr ''t''), (''Key'', VMap [(''id'', sAttr ''b'')]), (''ConditionExpression'', VStr cond)])]])]"


section \<open>Accounts\<close>





section \<open>What a committed transaction did\<close>

definition keptKey :: "string \<Rightarrow> bool" where
  "keptKey k \<longleftrightarrow> HasPrefix k ''items:'' \<or> HasPrefix k ''tables'' \<or> HasPrefix k ''ddbtx''"

text \<open>The tables, items and tokens of a scope stay as they are, and so does the time.\<close>

definition recordsKept :: "string \<Rightarrow> string \<Rightarrow> pstate \<Rightarrow> pstate \<Rightarrow> bool" where
  "recordsKept a r s t \<longleftrightarrow> pNow t = pNow s \<and>
     (\<forall>k. keptKey k \<longrightarrow> map_of (scopeData (pMem t) (scopeKey a r)) k = map_of (scopeData (pMem s) (scopeKey a r)) k)"

interpretation kept: pk_rel "recordsKept a r"
  by unfold_locales (auto simp: recordsKept_def)

lemma scopeKey_region [simp]: "scopeKey a r = scopeKey a r' \<longleftrightarrow> r = r'"
  by (simp add: scopeKey_def)

lemma rk_write:
  assumes "qAccount q = a" "qRegion q \<noteq> r \<or> \<not> keptKey (full n k)"
  shows "pkeeps (recordsKept a r) (cPutP q n k v)" "pkeeps (recordsKept a r) (cDelP q n k)"
  using assms
  by (auto simp: pkeeps_def cPutP_def cDelP_def pupd_def recordsKept_def coll_Put_def coll_Delete_def Let_def scopeData_def split: option.split)

lemma rk_draw: "pkeeps (recordsKept a r) (draw f)" "pkeeps (recordsKept a r) (pupd (\<lambda>s. s\<lparr>pPub := g s\<rparr>))"
  by (auto simp: pkeeps_def draw_def pupd_def recordsKept_def split: prod.split)

lemma rk_inTxn: "qAccount q = a \<Longrightarrow> pkeeps (recordsKept a r) m \<Longrightarrow> pkeeps (recordsKept a r) (inTxn q m)"
proof -
  assume a: "qAccount q = a" and m: "pkeeps (recordsKept a r) m"
  have "recordsKept a r s (snd (inTxn q m s))" for s
  proof -
    obtain x t where x: "m s = (x, t)" by force
    have st: "recordsKept a r s t" using m x unfolding pkeeps_def by (metis snd_conv)
    have "scopeData (rolled_back (scopeKey a r) (pMem s) (pMem t)) (scopeKey a r) = scopeData (pMem s) (scopeKey a r)"
      by (auto simp: rolled_back_def scopeData_def split: option.split)
    then have "recordsKept a r s (t\<lparr>pMem := rolled_back (scopeKey a (qRegion q)) (pMem s) (pMem t)\<rparr>)"
      using st by (cases "qRegion q = r") (auto simp: recordsKept_def scopeData_rolled_back)
    then show ?thesis using st a by (auto simp: inTxn_def x split: sum.split pack_err.split)
  qed
  then show ?thesis unfolding pkeeps_def by blast
qed

lemma rk_emitStream: "pkeeps (recordsKept (qAccount q) (qRegion q)) (emitStream L q t e i old)"
proof -
  have regional: "pkeeps (recordsKept (qAccount q) (qRegion q)) (emitRegionalStream L (regionalRequest q r) t e i old)" for r
    unfolding emitRegionalStream_def emitKinesisDestinations_def toKinesis_def nextStreamSeq_def Let_def
    by (intro kept.k_still kept.k_reads rk_draw rk_inTxn rk_write) (simp_all add: keptKey_def full_def HasPrefix_def)
  show ?thesis
    unfolding emitStream_def copyItem_def by (intro kept.k_still kept.k_reads regional rk_write) (simp_all add: regionalRequest_def)
qed

text \<open>The write an item of a transaction asks for, against the state before the transaction: what the store held, a
  condition that was true of it, and the item it leaves.\<close>

definition writeOf :: "ddblib \<Rightarrow> request \<Rightarrow> pstate \<Rightarrow> gval \<Rightarrow> transactionWrite \<Rightarrow> bool" where
  "writeOf L q s raw w \<longleftrightarrow>
     (\<exists>input def. transactionAction (as_map raw) = Some (twKind w, input) \<and>
        twTable w = tableFromStreamARN (gstr input ''TableName'') \<and>
        coll_Get (qAccount q) (qRegion q) ''tables'' (pMem s) (twTable w) = Some def \<and>
        twKey w = itemKeyFromDefinition L (nilOr (loadMap def))
          (Some (if twKind w = ''Put'' then as_map (gget input ''Item'') else as_map (gget input ''Key''))) \<and>
        twOld w = (case coll_Get (qAccount q) (qRegion q) (itemsOf (twTable w)) (pMem s) (twKey w) of None \<Rightarrow> None | Some b \<Rightarrow> loadMap b) \<and>
        conditionOK L input (twOld w) = Ok True \<and>
        twItem w = (if twKind w = ''Put'' then Some (cloneMap L (as_map (gget input ''Item'')))
                    else if twKind w = ''Update'' then Some (snd (updated L input (twOld w))) else None))"

definition slot :: "transactionWrite \<Rightarrow> string" where
  "slot w = twTable w @ CHR 0x00 # twKey w"

lemma pbind_ok: "pbind m f s = (Ok y, t) \<longleftrightarrow> (\<exists>x u. m s = (Ok x, u) \<and> f x u = (Ok y, t))"
  by (auto simp: pbind_def split: prod.splits sum.splits)

lemma pbind_run: "m s = (Ok x, u) \<Longrightarrow> pbind m f s = f x u"
  by (simp add: pbind_def)

lemma list_all2_right: "list_all2 P xs ys \<Longrightarrow> y \<in> set ys \<Longrightarrow> \<exists>x \<in> set xs. P x y"
  by (induction rule: list_all2_induct) auto

lemma transactionTable_ok:
  "transactionTable q table s = (Ok d, u) \<longleftrightarrow>
     u = s \<and> (\<exists>raw. coll_Get (qAccount q) (qRegion q) ''tables'' (pMem s) table = Some raw \<and> d = nilOr (loadMap raw))"
  by (auto simp: transactionTable_def pbind_def cGetP_def pgets_def pfail_def pret_def split: option.split)

lemma validate_ok: "validateItemKeyDefinition d i s = (Ok x, u) \<Longrightarrow> u = s"
  by (auto simp: validateItemKeyDefinition_def pret_def pfail_def split: list.splits)

lemma loadItem_run:
  "loadItem q table key s =
     (Ok (case coll_Get (qAccount q) (qRegion q) (itemsOf table) (pMem s) key of None \<Rightarrow> None | Some b \<Rightarrow> loadMap b), s)"
  by (simp add: loadItem_def pbind_def cGetP_def pgets_def pret_def itemsOf_def)

lemma planned_ok:
  "planned L kind input old s = (Ok item, u) \<Longrightarrow> u = s \<and>
     item = (if kind = ''Put'' then Some (cloneMap L (as_map (gget input ''Item'')))
             else if kind = ''Update'' then Some (snd (updated L input old)) else None)"
  by (auto simp: planned_def pret_def pfail_def split: if_splits prod.splits sum.splits)

lemma planOne_ok:
  assumes "planOne L q plan raw s = (Ok plan', t)"
  shows "t = s \<and> (\<exists>w. tpWrites plan' = tpWrites plan @ [w] \<and> tpSeen plan' = slot w # tpSeen plan \<and> slot w \<notin> set (tpSeen plan) \<and>
    (\<not> tpFailed plan' \<longrightarrow> \<not> tpFailed plan \<and> writeOf L q s raw w))"
proof -
  obtain kind input where a: "transactionAction (as_map raw) = Some (kind, input)"
    using assms by (cases "transactionAction (as_map raw)") (auto simp: planOne_def pfail_def)
  define table where "table = tableFromStreamARN (gstr input ''TableName'')"
  define attrs where "attrs = (if kind = ''Put'' then as_map (gget input ''Item'') else as_map (gget input ''Key''))"
  obtain def u where def: "transactionTable q table s = (Ok def, s)" and valid: "validateItemKeyDefinition def attrs s = (Ok u, s)"
    and rest: "(let key = itemKeyFromDefinition L def (Some attrs) in
          if table @ CHR 0x00 # key \<in> set (tpSeen plan)
          then pfail (invalid ''Transaction request cannot include multiple operations on one item'')
          else
            pbind (loadItem q table key) (\<lambda>old.
            case conditionOK L input old of
              Inl e \<Rightarrow> pfail (exprErr e)
            | Inr ok \<Rightarrow>
                pbind (planned L kind input old) (\<lambda>item.
                pret \<lparr>tpReasons = tpReasons plan @ [if ok then VMap [(''Code'', VStr ''None'')] else cancelReason input old],
                      tpFailed = (tpFailed plan \<or> \<not> ok), tpSeen = (table @ CHR 0x00 # key) # tpSeen plan,
                      tpWrites = tpWrites plan @ [\<lparr>twKind = kind, twTable = table, twKey = key, twOld = old, twItem = item\<rparr>]\<rparr>))) s = (Ok plan', t)"
    using assms unfolding planOne_def a option.case prod.case Let_def pbind_ok table_def [symmetric] attrs_def [symmetric]
    by (auto simp: transactionTable_ok dest: validate_ok)
  define key where "key = itemKeyFromDefinition L def (Some attrs)"
  define old where "old = (case coll_Get (qAccount q) (qRegion q) (itemsOf table) (pMem s) key of None \<Rightarrow> None | Some b \<Rightarrow> loadMap b)"
  obtain ok item where ok: "table @ CHR 0x00 # key \<notin> set (tpSeen plan)" "conditionOK L input old = Ok ok" "planned L kind input old s = (Ok item, t)"
    "plan' = \<lparr>tpReasons = tpReasons plan @ [if ok then VMap [(''Code'', VStr ''None'')] else cancelReason input old],
       tpFailed = (tpFailed plan \<or> \<not> ok), tpSeen = (table @ CHR 0x00 # key) # tpSeen plan,
       tpWrites = tpWrites plan @ [\<lparr>twKind = kind, twTable = table, twKey = key, twOld = old, twItem = item\<rparr>]\<rparr>"
    using rest unfolding Let_def key_def [symmetric]
    by (auto simp: pfail_def pret_def pbind_ok loadItem_run old_def [symmetric] split: if_splits sum.splits)
  let ?w = "\<lparr>twKind = kind, twTable = table, twKey = key, twOld = old, twItem = item\<rparr>"
  obtain raw' where raw': "coll_Get (qAccount q) (qRegion q) ''tables'' (pMem s) table = Some raw'" "def = nilOr (loadMap raw')"
    using def by (auto simp: transactionTable_ok)
  have key': "key = itemKeyFromDefinition L (nilOr (loadMap raw')) (Some (if kind = ''Put'' then as_map (gget input ''Item'') else as_map (gget input ''Key'')))"
    using raw'(2) by (simp add: key_def attrs_def)
  have "writeOf L q s raw ?w" if "ok"
  proof -
    have "conditionOK L input old = Ok True" using ok(2) that by simp
    then show ?thesis unfolding writeOf_def transactionWrite.simps
      using a table_def raw'(1) key' old_def planned_ok [OF ok(3)] by blast
  qed
  then show ?thesis using planned_ok [OF ok(3)] ok(1,4) by (auto simp: slot_def intro!: exI [of _ ?w])
qed

lemma plan_ok:
  assumes "pfold (planOne L q) plan items s = (Ok plan', t)"
  shows "t = s \<and> (\<exists>ws. tpWrites plan' = tpWrites plan @ ws \<and> distinct (map slot ws) \<and> set (map slot ws) \<inter> set (tpSeen plan) = {} \<and>
    (\<not> tpFailed plan' \<longrightarrow> \<not> tpFailed plan \<and> list_all2 (writeOf L q s) items ws))"
  using assms
proof (induction items arbitrary: plan)
  case Nil
  then show ?case by (simp add: pret_def)
next
  case (Cons raw items)
  then obtain p1 u where p1: "planOne L q plan raw s = (Ok p1, u)" and rest: "pfold (planOne L q) p1 items u = (Ok plan', t)"
    by (auto simp: pbind_ok)
  then obtain w where w: "u = s" "tpWrites p1 = tpWrites plan @ [w]" "tpSeen p1 = slot w # tpSeen plan" "slot w \<notin> set (tpSeen plan)"
    "\<not> tpFailed p1 \<longrightarrow> \<not> tpFailed plan \<and> writeOf L q s raw w" using planOne_ok [OF p1] by blast
  obtain ws where ws: "t = s" "tpWrites plan' = tpWrites p1 @ ws" "distinct (map slot ws)" "set (map slot ws) \<inter> set (tpSeen p1) = {}"
    "\<not> tpFailed plan' \<longrightarrow> \<not> tpFailed p1 \<and> list_all2 (writeOf L q s) items ws" using Cons.IH [of p1] rest w(1) by blast
  then show ?case using w by (intro conjI exI [of _ "w # ws"]) auto
qed

text \<open>The store after the writes, and what one of them leaves at its place.\<close>

definition applied :: "ddblib \<Rightarrow> request \<Rightarrow> transactionWrite list \<Rightarrow> memory \<Rightarrow> memory" where
  "applied L q ws m = foldl (\<lambda>m w. pMem (snd (applyWrite L q w \<lparr>pMem = m, pRand = New [], pNow = 0, pPub = []\<rparr>))) m ws"

definition leaves :: "ddblib \<Rightarrow> transactionWrite \<Rightarrow> bytes option \<Rightarrow> bytes option" where
  "leaves L w before =
     (if twKind w = ''ConditionCheck'' then before else if twKind w = ''Delete'' then None else Some (bytesOf L (valOrNil (twItem w))))"

lemma applyWrite_run:
  "applyWrite L q w s = (Ok (), s\<lparr>pMem := pMem (snd (applyWrite L q w \<lparr>pMem = pMem s, pRand = x, pNow = y, pPub = z\<rparr>))\<rparr>)"
  by (simp add: applyWrite_def pret_def cDelP_def cPutP_def pupd_def)

lemma applyWrites_run: "pforM (applyWrite L q) ws s = (Ok (), s\<lparr>pMem := applied L q ws (pMem s)\<rparr>)"
proof (induction ws arbitrary: s)
  case (Cons w ws)
  then show ?case by (simp add: pbind_def applyWrite_run [of L q w s "New []" 0 "[]"] applied_def)
qed (simp add: pret_def applied_def)

lemma applyWrite_Get:
  assumes "plain table" "plain (twTable w)"
  shows "coll_Get (qAccount q) (qRegion q) (itemsOf table) (pMem (snd (applyWrite L q w s))) key =
    (if twTable w = table \<and> twKey w = key then leaves L w else id) (coll_Get (qAccount q) (qRegion q) (itemsOf table) (pMem s) key)"
proof -
  have "plain (itemsOf t) \<longleftrightarrow> plain t" for t by (simp add: itemsOf_def plain_def)
  then show ?thesis using assms
    by (auto simp: applyWrite_def leaves_def pret_def cDelP_def cPutP_def pupd_def coll_Get_Put coll_Get_Delete itemsOf_def)
qed

lemma applied_Get:
  assumes "plain table" "\<forall>w \<in> set ws. plain (twTable w)" "distinct (map (\<lambda>w. (twTable w, twKey w)) ws)"
  shows "coll_Get (qAccount q) (qRegion q) (itemsOf table) (applied L q ws m) key =
    (case filter (\<lambda>w. twTable w = table \<and> twKey w = key) ws of [] \<Rightarrow> id | w # _ \<Rightarrow> leaves L w)
      (coll_Get (qAccount q) (qRegion q) (itemsOf table) m key)"
  using assms(2,3)
proof (induction ws arbitrary: m)
  case (Cons w ws)
  let ?m = "pMem (snd (applyWrite L q w \<lparr>pMem = m, pRand = New [], pNow = 0, pPub = []\<rparr>))"
  have step: "applied L q (w # ws) m = applied L q ws ?m" by (simp add: applied_def)
  have none: "filter (\<lambda>v. twTable v = table \<and> twKey v = key) ws = []" if "twTable w = table \<and> twKey w = key"
    using that Cons.prems(2) by (auto simp: filter_empty_conv image_iff)
  show ?case
    using Cons.IH [of ?m] Cons.prems none applyWrite_Get [OF assms(1), of w q L "\<lparr>pMem = m, pRand = New [], pNow = 0, pPub = []\<rparr>" key]
    by (cases "twTable w = table \<and> twKey w = key") (auto simp: step)
qed (simp add: applied_def)

abbreviation txToken :: "request \<Rightarrow> string" where
  "txToken q \<equiv> gstr (qInput q) ''ClientRequestToken''"

abbreviation txItems :: "request \<Rightarrow> gval list" where
  "txItems q \<equiv> asSlice (gget (qInput q) ''TransactItems'')"

definition tokenRecord :: "ddblib \<Rightarrow> request \<Rightarrow> int \<Rightarrow> gobj" where
  "tokenRecord L q now = [(''Payload'', VStr (txPayload L q)), (''Expires'', VInt64 ((now + 600000000000) div 1000000000))]"

lemma transactBody_ok:
  assumes "transactBody L q s = (Ok r, u)" "tokenPayload q (txToken q) s = (Ok None, s)"
  shows "\<exists>ws. r = Some ws \<and> distinct (map slot ws) \<and> list_all2 (writeOf L q s) (txItems q) ws \<and>
    u = s\<lparr>pMem := (if txToken q = [] then applied L q ws (pMem s)
       else coll_Put (qAccount q) (qRegion q) ''ddbtx-tokens'' (applied L q ws (pMem s)) (txToken q) (bytesOf L (VMap (tokenRecord L q (pNow s)))))\<rparr>"
proof -
  let ?plan0 = "\<lparr>tpReasons = [], tpFailed = False, tpSeen = [], tpWrites = []\<rparr>"
  obtain plan v where plan: "pfold (planOne L q) ?plan0 (txItems q) s = (Ok plan, v)" "\<not> tpFailed plan"
    and rest: "pbind (pforM (applyWrite L q) (tpWrites plan)) (\<lambda>_.
            pbind (if txToken q = [] then pret ()
                   else pbind (pgets pNow) (\<lambda>now. cPutP q ''ddbtx-tokens'' (txToken q) (bytesOf L (VMap (tokenRecord L q now))))) (\<lambda>_.
            pret (Some (tpWrites plan)))) v = (Ok r, u)"
    using assms(1) unfolding transactBody_def Let_def tokenRecord_def pbind_run [of "tokenPayload q (txToken q)", OF assms(2)] option.case pbind_ok [of "pfold _ _ _"]
    by (force simp: pfail_def split: if_splits)
  obtain ws where ws: "v = s" "tpWrites plan = ws" "distinct (map slot ws)" "list_all2 (writeOf L q s) (txItems q) ws"
    using plan_ok [OF plan(1)] plan(2) by auto
  then show ?thesis
    using rest by (auto simp: pbind_ok applyWrites_run pret_def pgets_def cPutP_def pupd_def split: if_splits)
qed

lemma slot_places: "distinct (map slot ws) \<Longrightarrow> distinct (map (\<lambda>w. (twTable w, twKey w)) ws)"
  by (auto simp: distinct_map inj_on_def slot_def)

lemma recordsKept_Get:
  "recordsKept a r s t \<Longrightarrow> keptKey (full n k) \<Longrightarrow> coll_Get a r n (pMem t) k = coll_Get a r n (pMem s) k"
  by (simp add: recordsKept_def coll_Get_def)

lemma keptKey_names: "keptKey (full (itemsOf table) k)" "keptKey (full ''tables'' k)" "keptKey (full ''ddbtx-tokens'' k)"
  by (simp_all add: keptKey_def full_def itemsOf_def HasPrefix_def)

lemma transact_ok:
  assumes "transactWriteItems L q s = (Ok out, t)"
  shows "out = [] \<and> (\<exists>r u. transactBody L q s = (Ok r, u) \<and> (r = None \<longrightarrow> t = u) \<and> recordsKept (qAccount q) (qRegion q) u t)"
proof -
  obtain r u where r: "transactBody L q s = (Ok r, u)" "out = []"
    "(case r of None \<Rightarrow> pret () | Some ws \<Rightarrow> pforM (emitWrite L q) ws) u = (Ok (), t)"
    using assms by (auto simp: transactWriteItems_def pbind_ok pret_def inTxn_def split: prod.splits sum.splits pack_err.splits)
  have "pkeeps (recordsKept (qAccount q) (qRegion q)) (case r of None \<Rightarrow> pret () | Some ws \<Rightarrow> pforM (emitWrite L q) ws)"
    unfolding emitWrite_def by (intro kept.k_still rk_emitStream)
  then have "recordsKept (qAccount q) (qRegion q) u t" using r(3) unfolding pkeeps_def by (metis snd_conv)
  then show ?thesis using r by (auto simp: pret_def)
qed

text \<open>An item whose table has a name without the separator byte.\<close>

definition plainTable :: "gval \<Rightarrow> bool" where
  "plainTable raw =
     (case transactionAction (as_map raw) of
        Some (kind, input) \<Rightarrow> sep \<notin> set (tableFromStreamARN (gstr input ''TableName''))
      | None \<Rightarrow> True)"

text \<open>C7: a transaction commits as a whole, against one snapshot.  When TransactWriteItems succeeds and its token is not one
  still in force, then each of its items had its condition true of the store before the transaction, they name
  different places, and afterwards every place of every table holds what the one item that names it asks for
  (computed from the item the store held before), or what it held when no item names it.\<close>

theorem transact_commits:
  assumes "transactWriteItems L q s = (Ok out, t)" "tokenPayload q (txToken q) s = (Ok None, s)"
    and "list_all plainTable (txItems q)"
  shows "\<exists>ws. list_all2 (writeOf L q s) (txItems q) ws \<and> distinct (map (\<lambda>w. (twTable w, twKey w)) ws) \<and>
    (\<forall>table key. plain table \<longrightarrow> coll_Get (qAccount q) (qRegion q) (itemsOf table) (pMem t) key =
       (case filter (\<lambda>w. twTable w = table \<and> twKey w = key) ws of [] \<Rightarrow> id | w # _ \<Rightarrow> leaves L w)
         (coll_Get (qAccount q) (qRegion q) (itemsOf table) (pMem s) key))"
proof -
  obtain r u where r: "transactBody L q s = (Ok r, u)" "recordsKept (qAccount q) (qRegion q) u t"
    using transact_ok [OF assms(1)] by blast
  obtain ws where ws: "distinct (map slot ws)" "list_all2 (writeOf L q s) (txItems q) ws"
    "u = s\<lparr>pMem := (if txToken q = [] then applied L q ws (pMem s)
       else coll_Put (qAccount q) (qRegion q) ''ddbtx-tokens'' (applied L q ws (pMem s)) (txToken q) (bytesOf L (VMap (tokenRecord L q (pNow s)))))\<rparr>"
    using transactBody_ok [OF r(1) assms(2)] by blast
  have tables: "\<forall>w \<in> set ws. plain (twTable w)"
  proof
    fix w assume "w \<in> set ws"
    then obtain raw where "raw \<in> set (txItems q)" "writeOf L q s raw w" using list_all2_right [OF ws(2)] by blast
    then show "plain (twTable w)" using assms(3) by (fastforce simp: list_all_iff writeOf_def plainTable_def plain_def)
  qed
  have get: "coll_Get (qAccount q) (qRegion q) (itemsOf table) (pMem t) key = coll_Get (qAccount q) (qRegion q) (itemsOf table) (applied L q ws (pMem s)) key"
    for table key
    using recordsKept_Get [OF r(2) keptKey_names(1)] ws(3) by (auto simp: coll_Get_Put full_def itemsOf_def)
  show ?thesis using ws(2) slot_places [OF ws(1)] applied_Get [OF _ tables slot_places [OF ws(1)]] get by (intro exI [of _ ws]) simp
qed

definition txDone :: "(pack_err, gobj) res \<times> pstate" where
  "txDone = transactWriteItems ddbLib (txTwo [] ''attribute_not_exists(id)'') ddbState"

lemma txDone_ok: "fst txDone = Ok []"
  by code_simp

theorem transact_commits_witness:
  "\<exists>ws. list_all2 (writeOf ddbLib (txTwo [] ''attribute_not_exists(id)'') ddbState) (txItems (txTwo [] ''attribute_not_exists(id)'')) ws \<and>
     coll_Get ''1'' ''us'' (itemsOf ''u'') (pMem (snd txDone)) ''x'' =
       (case filter (\<lambda>w. twTable w = ''u'' \<and> twKey w = ''x'') ws of [] \<Rightarrow> id | w # _ \<Rightarrow> leaves ddbLib w)
         (coll_Get ''1'' ''us'' (itemsOf ''u'') (pMem ddbState) ''x'')"
proof -
  let ?q = "txTwo [] ''attribute_not_exists(id)''"
  have t: "transactWriteItems ddbLib ?q ddbState = (Ok [], snd txDone)" using txDone_ok by (simp add: txDone_def prod_eq_iff)
  have k: "tokenPayload ?q (txToken ?q) ddbState = (Ok None, ddbState)"
    by (simp add: tokenPayload_def txTwo_def ddbReq_def gget_def pret_def)
  have q: "qAccount ?q = ''1''" "qRegion ?q = ''us''" by (simp_all add: txTwo_def ddbReq_def)
  have p: "list_all plainTable (txItems ?q)" by code_simp
  show ?thesis using transact_commits [OF t k p] unfolding q by (auto simp: plain_def)
qed

section \<open>Tokens\<close>

lemma distinct_sort_keys: "distinct (map fst xs) \<Longrightarrow> distinct (map fst (sort_key fst xs))"
  by (simp add: distinct_map)

lemma loadMap_bytesOf:
  assumes "plainJson (VMap m)" "nesting (VMap m) \<le> 10000"
  shows "loadMap (bytesOf L (VMap m)) = Some (sort_key fst (map (\<lambda>(k, v). (k, canon v)) m))"
proof -
  let ?c = "sort_key fst (map (\<lambda>(k, v). (k, canon v)) m)"
  have rt: "Marshal (dJf L) (VMap m) = Some (encode (dJf L) (VMap m))" "Unmarshal (encode (dJf L) (VMap m)) = Some (VMap ?c, True)"
    using json_roundtrip [OF assms, of "dJf L"] by simp_all
  have "map fst (map (\<lambda>(k, v). (k, canon v)) m) = map fst m" by auto
  then have "distinct (map fst (map (\<lambda>(k, v). (k, canon v)) m))" using assms(1) by (metis plainJson.simps(8))
  then have d: "distinct (map fst ?c)" by (rule distinct_sort_keys)
  have "foldl (\<lambda>m (k, v). AList.update k v m) [] xs = xs" if "distinct (map fst xs)" for xs :: gobj
    using that
  proof (induction xs rule: rev_induct)
    case (snoc x xs)
    then show ?case by (cases x) (auto simp: update_fresh map_of_eq_None_iff)
  qed simp
  then show ?thesis using d by (simp add: loadMap_def intoMap_def bytesOf_def rt del: encode.simps)
qed

lemma tokenRecord_reads:
  assumes "validText (txPayload L q)" "0 \<le> now" "now < 2 ^ 62"
  shows "loadMap (bytesOf L (VMap (tokenRecord L q now))) =
    Some [(''Expires'', VFloat (Fin (of_int ((now + 600000000000) div 1000000000)))), (''Payload'', VStr (txPayload L q))]"
proof -
  have "(now + 600000000000) div 1000000000 < 2 ^ 53" "0 \<le> (now + 600000000000) div 1000000000" using assms(2,3) by simp_all
  then have "plainJson (VMap (tokenRecord L q now))"
    using assms(1) validText_ascii [of "''Payload''"] validText_ascii [of "''Expires''"] by (simp add: tokenRecord_def code_def)
  then have "loadMap (bytesOf L (VMap (tokenRecord L q now))) = Some (sort_key fst (map (\<lambda>(k, v). (k, canon v)) (tokenRecord L q now)))"
    by (rule loadMap_bytesOf) (simp add: tokenRecord_def)
  moreover have "''Expires'' < ''Payload''" by code_simp
  ultimately show ?thesis by (simp add: tokenRecord_def)
qed

lemma validText_payload: "(\<And>f. validText (dJf L f)) \<Longrightarrow> validText (txPayload L q)"
  by (auto simp: txPayload_def bytesOf_def Marshal_def simp del: encode.simps intro!: validText_encode split: gval.split)

lemma trunc_rat_int [simp]: "trunc_rat (of_int i) = i"
  by (simp add: trunc_rat_def)

text \<open>C10: a transaction's token makes it idempotent.  For ten minutes after a transaction with a token, in whatever
  state the pack is by then as long as the token's record is there, a request with the same token does nothing: it
  succeeds when it carries the same items, and is refused when it carries others.\<close>

theorem transact_replay:
  assumes first: "transactWriteItems L q s = (Ok out, t)" "tokenPayload q (txToken q) s = (Ok None, s)" "txToken q \<noteq> []"
    and now: "0 \<le> pNow s" "pNow s < 2 ^ 62" "pNow t' div 1000000000 < (pNow s + 600000000000) div 1000000000"
    and floats: "\<And>f. validText (dJf L f)"
    and again: "qAccount q' = qAccount q" "qRegion q' = qRegion q" "txToken q' = txToken q"
    and there: "coll_Get (qAccount q) (qRegion q) ''ddbtx-tokens'' (pMem t') (txToken q) =
      coll_Get (qAccount q) (qRegion q) ''ddbtx-tokens'' (pMem t) (txToken q)"
  shows "transactWriteItems L q' t' =
    (if txPayload L q' = txPayload L q then (Ok [], t')
     else (Err (pack_fault ''IdempotentParameterMismatchException'' ''A client request token was reused with different parameters'' []), t'))"
proof -
  obtain r u where r: "transactBody L q s = (Ok r, u)" "recordsKept (qAccount q) (qRegion q) u t" using transact_ok [OF first(1)] by blast
  have rec: "coll_Get (qAccount q) (qRegion q) ''ddbtx-tokens'' (pMem t') (txToken q) = Some (bytesOf L (VMap (tokenRecord L q (pNow s))))"
    using transactBody_ok [OF r(1) first(2)] first(3) there recordsKept_Get [OF r(2) keptKey_names(3)] by (auto simp: coll_Get_Put)
  have e: "in_int64 ((pNow s + 600000000000) div 1000000000)" using now(1,2) by (simp add: in_int64_def) linarith
  have rd: "gget [(''Expires'', x), (''Payload'', y)] ''Expires'' = x" "gget [(''Expires'', x), (''Payload'', y)] ''Payload'' = y" for x y
    by (simp_all add: gget_def)
  have "tokenPayload q' (txToken q') t' = (Ok (Some (txPayload L q)), t')"
    using rec first(3) now(3) e rd unfolding again(3)
    by (simp add: tokenPayload_def pbind_def cGetP_def pgets_def pret_def again(1,2) tokenRecord_reads [OF validText_payload [OF floats] now(1,2)]
        nilOr_def Let_def)
  then show ?thesis
    by (simp add: transactWriteItems_def transactBody_def Let_def pbind_def inTxn_def pret_def pfail_def rolled_back_self pack_fault_def)
qed

definition txOnce :: request where
  "txOnce = ddbReq ''TransactWriteItems'' [(''ClientRequestToken'', VStr ''k''), (''TransactItems'', VList
     [VMap [(''Delete'', VMap [(''TableName'', VStr ''t''), (''Key'', VMap [(''id'', sAttr ''b'')])])]])]"

definition onceDone :: "(pack_err, gobj) res \<times> pstate" where
  "onceDone = transactWriteItems ddbLib txOnce ddbState"

lemma onceDone_ok: "fst onceDone = Ok [] \<and> pNow (snd onceDone) = 0"
  by code_simp

theorem transact_replay_witness: "transactWriteItems ddbLib txOnce (snd onceDone) = (Ok [], snd onceDone)"
proof -
  have t: "transactWriteItems ddbLib txOnce ddbState = (Ok [], snd onceDone)" using onceDone_ok by (simp add: onceDone_def prod_eq_iff)
  have "fst (tokenPayload txOnce (txToken txOnce) ddbState) = Ok None" by code_simp
  moreover have "snd (tokenPayload txOnce (txToken txOnce) ddbState) = ddbState" using calm.k_reads(11) unfolding pkeeps_def by blast
  ultimately have k: "tokenPayload txOnce (txToken txOnce) ddbState = (Ok None, ddbState)" by (simp add: prod_eq_iff)
  have tok: "txToken txOnce \<noteq> []" by (simp add: txOnce_def ddbReq_def gget_def)
  show ?thesis
    using transact_replay [OF t k tok, of "snd onceDone" txOnce] onceDone_ok validText_ascii [of "''0''"] by (simp add: ddbState_def ddbLib_def code_def)
qed

section \<open>Reading back\<close>

lemma itemKeyFrom_run:
  "coll_Get (qAccount q) (qRegion q) ''tables'' (pMem s) table = Some raw \<Longrightarrow>
     itemKeyFrom L q table attrs s = (Ok (itemKeyFromDefinition L (nilOr (loadMap raw)) attrs), s)"
  by (simp add: itemKeyFrom_def pbind_def cGetP_def pgets_def pret_def)

lemma itemKey_agrees:
  assumes "asSlice (gget td ''KeySchema'') \<noteq> []" "\<forall>n \<in> set (schemaNames td). gget key n = gget item n"
  shows "itemKeyFromDefinition L td (Some key) = itemKeyFromDefinition L td (Some item)"
proof -
  have "foldl (\<lambda>i n. AList.update n (gget key n) i) acc ns = foldl (\<lambda>i n. AList.update n (gget item n) i) acc ns"
    if "\<forall>n \<in> set ns. gget key n = gget item n" for acc ns
    using that by (induction ns arbitrary: acc) simp_all
  then have "keyPart td key = keyPart td item" using assms(2) by (simp add: keyPart_def)
  then show ?thesis using assms(1) by (simp add: itemKeyFromDefinition_def nilOr_def)
qed

lemma putItem_ok:
  assumes "putItem L q s = (Ok out, t)" "gget (qInput q) ''Item'' = VMap item"
    and raw: "coll_Get (qAccount q) (qRegion q) ''tables'' (pMem s) (gstr (qInput q) ''TableName'') = Some raw"
  shows "\<exists>u. recordsKept (qAccount q) (qRegion q) u t \<and>
    u = s\<lparr>pMem := coll_Put (qAccount q) (qRegion q) (itemsOf (gstr (qInput q) ''TableName'')) (pMem s)
      (itemKeyFromDefinition L (nilOr (loadMap raw)) (Some item)) (bytesOf L (VMap item))\<rparr>"
proof -
  let ?table = "gstr (qInput q) ''TableName''"
  let ?key = "itemKeyFromDefinition L (nilOr (loadMap raw)) (Some item)"
  let ?body = "pbind (loadItem q ?table ?key) (\<lambda>old. pbind (checkCond L q old) (\<lambda>_.
        pbind (cPutP q (itemsOf ?table) ?key (bytesOf L (VMap item))) (\<lambda>_. pret old)))"
  let ?rest = "\<lambda>key. pbind (inTxn q (pbind (loadItem q ?table key) (\<lambda>old. pbind (checkCond L q old) (\<lambda>_.
        pbind (cPutP q (itemsOf ?table) key (bytesOf L (VMap item))) (\<lambda>_. pret old))))) (\<lambda>old.
      pbind (emitStream L q ?table (eventOf old) (Some item) old) (\<lambda>_. pret (returnValues q old (Some item) [])))"
  obtain x v where v: "validateItemKey q ?table item s = (Ok x, v)" "pbind (itemKeyFrom L q ?table (Some item)) ?rest v = (Ok out, t)"
    using assms(1) unfolding putItem_def Let_def assms(2) mapOpt.simps nilOr_def option.case valOrNil_def pbind_ok [of "validateItemKey _ _ _"] by blast
  have k: "itemKeyFrom L q ?table (Some item) s = (Ok ?key, s)" by (rule itemKeyFrom_run [OF raw])
  have "v = s" using calmD [OF calm.k_reads(4) v(1)] .
  then have "?rest ?key s = (Ok out, t)" using v(2) pbind_run [of "itemKeyFrom L q ?table (Some item)", OF k, of ?rest] by simp
  then obtain old u where u: "inTxn q ?body s = (Ok old, u)" and e: "emitStream L q ?table (eventOf old) (Some item) old u = (Ok (), t)"
    unfolding pbind_ok [of "inTxn _ _"] pbind_ok [of "emitStream _ _ _ _ _ _"] by (auto simp: pret_def)
  have "u = s\<lparr>pMem := coll_Put (qAccount q) (qRegion q) (itemsOf ?table) (pMem s) ?key (bytesOf L (VMap item))\<rparr>"
    using u by (auto simp: inTxn_def pbind_ok loadItem_run pret_def cPutP_def pupd_def split: prod.splits sum.splits pack_err.splits
        dest!: calmD [OF calm.k_reads(7)])
  moreover have "recordsKept (qAccount q) (qRegion q) u t"
    using rk_emitStream e unfolding pkeeps_def by (metis snd_conv)
  ultimately show ?thesis by blast
qed

text \<open>C11: an item that was put is read back.  After a successful PutItem into a table with a key schema, GetItem with the
  item's key attributes (and whatever others beside) answers with the item: its members in the order of their names,
  its integers as doubles.\<close>

theorem put_then_get:
  assumes "PackInvoke L p s = (Ok out, t)" "qOperation p = ''PutItem''" "qOperation g = ''GetItem''"
    and "qAccount g = qAccount p" "qRegion g = qRegion p" "gstr (qInput g) ''TableName'' = gstr (qInput p) ''TableName''"
    and "coll_Get (qAccount p) (qRegion p) ''tables'' (pMem s) (gstr (qInput p) ''TableName'') = Some raw"
    and "asSlice (gget (nilOr (loadMap raw)) ''KeySchema'') \<noteq> []"
    and "gget (qInput p) ''Item'' = VMap item" "gget (qInput g) ''Key'' = VMap key"
    and "\<forall>n \<in> set (schemaNames (nilOr (loadMap raw))). gget key n = gget item n"
    and "gstr (qInput g) ''ProjectionExpression'' = []"
    and "plainJson (VMap item)" "nesting (VMap item) \<le> 10000"
  shows "PackInvoke L g t = (Ok [(''Item'', canon (VMap item))], t)"
proof -
  let ?a = "qAccount p" and ?r = "qRegion p" and ?table = "gstr (qInput p) ''TableName''" and ?td = "nilOr (loadMap raw)"
  have req: "requireTable q (gstr (qInput q) ''TableName'') u = (Ok (), u)"
    if "coll_Get (qAccount q) (qRegion q) ''tables'' (pMem u) (gstr (qInput q) ''TableName'') = Some raw" for q u
    using that by (simp add: requireTable_def pbind_def cGetP_def pgets_def pret_def)
  have "putItem L p s = (Ok out, t)"
    using assms(1,2) req [OF assms(7)] by (simp add: PackInvoke_def itemOp_def onTable_def pbind_run [of "requireTable p ?table", OF req [OF assms(7)]])
  from putItem_ok [OF this assms(9,7)] obtain u where u: "recordsKept ?a ?r u t"
    "u = s\<lparr>pMem := coll_Put ?a ?r (itemsOf ?table) (pMem s) (itemKeyFromDefinition L ?td (Some item)) (bytesOf L (VMap item))\<rparr>" by blast
  have tables: "coll_Get ?a ?r ''tables'' (pMem t) ?table = Some raw"
    using recordsKept_Get [OF u(1) keptKey_names(2)] assms(7) u(2) by (simp add: coll_Get_Put full_def itemsOf_def)
  have stored: "coll_Get ?a ?r (itemsOf ?table) (pMem t) (itemKeyFromDefinition L ?td (Some item)) = Some (bytesOf L (VMap item))"
    using recordsKept_Get [OF u(1) keptKey_names(1)] u(2) by (simp add: coll_Get_Put)
  have k: "itemKeyFrom L g ?table (Some key) t = (Ok (itemKeyFromDefinition L ?td (Some item)), t)"
    using itemKeyFrom_run [of g t ?table raw L "Some key"] itemKey_agrees [OF assms(8,11), of L] tables assms(4,5) by simp
  have "getItem L g t = (Ok [(''Item'', canon (VMap item))], t)"
    using stored loadMap_bytesOf [OF assms(13,14), of L]
    by (simp add: getItem_def Let_def assms(4-6,10,12) pbind_run [of "itemKeyFrom L g ?table (Some key)", OF k] pbind_run [of "loadItem _ _ _", OF loadItem_run]
        Project_def pret_def TrimSpace_def)
  moreover have "requireTable g (gstr (qInput g) ''TableName'') t = (Ok (), t)" using req [of g t] tables assms(4-6) by simp
  ultimately show ?thesis
    using assms(3) by (simp add: PackInvoke_def itemOp_def onTable_def pbind_run [of "requireTable g (gstr (qInput g) ''TableName'')"])
qed

theorem put_then_get_witness:
  "PackInvoke ddbLib getA (snd (PackInvoke ddbLib putA ddbState)) =
     (Ok [(''Item'', VMap [(''id'', sAttr ''a''), (''n'', sAttr ''1'')])], snd (PackInvoke ddbLib putA ddbState))"
proof -
  let ?item = "[(''id'', sAttr ''a''), (''n'', sAttr ''1'')]"
  have p: "PackInvoke ddbLib putA ddbState = (Ok [], snd (PackInvoke ddbLib putA ddbState))" using putA_ok by (simp add: prod_eq_iff)
  have raw: "coll_Get ''1'' ''us'' ''tables'' (pMem ddbState) ''t'' = Some (bytesOf ddbLib (VMap ddbTable))"
    by (simp add: ddbState_def coll_Get_Put)
  have td: "asSlice (gget (nilOr (loadMap (bytesOf ddbLib (VMap ddbTable)))) ''KeySchema'') \<noteq> [] \<and>
      schemaNames (nilOr (loadMap (bytesOf ddbLib (VMap ddbTable)))) = [''id'']" by code_simp
  have j: "plainJson (VMap ?item)" "nesting (VMap ?item) \<le> 10000" "canon (VMap ?item) = VMap ?item" by code_simp+
  have "PackInvoke ddbLib getA (snd (PackInvoke ddbLib putA ddbState)) =
      (Ok [(''Item'', canon (VMap ?item))], snd (PackInvoke ddbLib putA ddbState))"
    by (rule put_then_get [OF p, where raw = "bytesOf ddbLib (VMap ddbTable)" and key = "[(''id'', sAttr ''a'')]"])
      (use raw td j in \<open>simp_all add: putA_def getA_def ddbReq_def gget_def code_def\<close>)
  then show ?thesis using j(3) by simp
qed

section \<open>What goes wrong\<close>

text \<open>A table's items outlive it: DeleteTable removes the definition only, so that when a definition is stored under the same
  name again, the table starts with them.\<close>

theorem deleted_items_reappear:
  "let s1 = snd (PackInvoke ddbLib putA ddbState);
       s2 = snd (PackInvoke ddbLib (ddbReq ''DeleteTable'' [(''TableName'', VStr ''t'')]) s1);
       s3 = s2\<lparr>pMem := coll_Put ''1'' ''us'' ''tables'' (pMem s2) ''t'' (bytesOf ddbLib (VMap ddbTable))\<rparr>
   in fst (PackInvoke ddbLib getA s3) = Ok [(''Item'', VMap [(''id'', sAttr ''a''), (''n'', sAttr ''1'')])]"
  by code_simp

text \<open>An UPDATE statement with nothing between SET and WHERE is sliced backwards, and a batch with a statement that has
  no table has no first word: both panic.\<close>

theorem update_statement_panics:
  "fst (PackInvoke ddbLib (ddbReq ''ExecuteStatement'' [(''Statement'', VStr ''UPDATE t SET WHERE id = a'')]) ddbState) = Err PPanic"
  by code_simp

theorem batch_statement_panics:
  "fst (PackInvoke ddbLib (ddbReq ''BatchExecuteStatement''
     [(''Statements'', VList [VMap [(''Statement'', VStr ''DELETE FROM '')]])]) ddbState) = Err PPanic"
  by code_simp

text \<open>ExecuteTransaction runs its statements one after the other: when a later one is refused, the earlier ones stay.\<close>

definition quo :: "string \<Rightarrow> string" where
  "quo t = CHR 0x27 # t @ [CHR 0x27]"

definition statementTx :: request where
  "statementTx = ddbReq ''ExecuteTransaction'' [(''TransactStatements'', VList
     [VMap [(''Statement'', VStr (''INSERT INTO t VALUE {'' @ quo ''id'' @ '':'' @ quo ''a'' @ ''}''))], VMap [(''Statement'', VStr ''DELETE FROM u WHERE id = b'')]])]"

theorem execute_transaction_not_atomic:
  "(\<exists>f. fst (PackInvoke ddbLib statementTx ddbState) = Err (PFault f)) \<and>
   fst (PackInvoke ddbLib getA (snd (PackInvoke ddbLib statementTx ddbState))) = Ok [(''Item'', VMap [(''id'', sAttr ''a'')])]"
proof
  have "(case fst (PackInvoke ddbLib statementTx ddbState) of Inl (PFault f) \<Rightarrow> True | _ \<Rightarrow> False)" by code_simp
  then show "\<exists>f. fst (PackInvoke ddbLib statementTx ddbState) = Err (PFault f)" by (auto split: sum.splits pack_err.splits)
qed code_simp

end
