(* ===== verification/Kinesis.thy ===== *)
theory Kinesis
  imports DdbProps
begin

text \<open>
  The record plane of the Kinesis service (\<^verbatim>\<open>internal/services/aws/kinesis/kinesis.go\<close>): putting records into a
  stream, shard iterators and reading.  The streams themselves are the bundle's records.  State, steps and parameters are
  those of the DynamoDB pack.  The sort by sequence number is stable here; the theorems are about streams with distinct
  numbers.
\<close>

section \<open>Values\<close>

fun kstr :: "gval \<Rightarrow> string" where
  "kstr (VStr t) = t"
| "kstr (VBytes t) = t"
| "kstr _ = []"

definition kfirst :: "gobj \<Rightarrow> string list \<Rightarrow> string" where
  "kfirst m keys = (case filter (\<lambda>k. kstr (gget m k) \<noteq> []) keys of k # _ \<Rightarrow> kstr (gget m k) | [] \<Rightarrow> [])"

fun kasInt :: "gval \<Rightarrow> int" where
  "kasInt (VInt i) = i"
| "kasInt (VFloat f) = f64_to_int64 f"
| "kasInt (VStr t) = atoi t"
| "kasInt _ = 0"

fun kasFloat :: "gval \<Rightarrow> f64" where
  "kasFloat (VFloat f) = f"
| "kasFloat (VInt i) = f64_of_int i"
| "kasFloat _ = Fin 0"

text \<open>\<^verbatim>\<open>base64.StdEncoding.DecodeString\<close>: line breaks are skipped, everything else is groups of four.\<close>

definition base64Val :: "char \<Rightarrow> nat option" where
  "base64Val c = find (\<lambda>n. base64Char n = c) [0..<64]"

fun groups64 :: "string \<Rightarrow> string option" where
  "groups64 [] = Some []"
| "groups64 (a # b # c # d # rest) =
     (case (base64Val a, base64Val b) of
        (Some x, Some y) \<Rightarrow>
          (case (base64Val c, base64Val d) of
             (Some z, Some w) \<Rightarrow>
               map_option (\<lambda>t. [char_of (x * 4 + y div 16), char_of (y mod 16 * 16 + z div 4), char_of (z mod 4 * 64 + w)] @ t) (groups64 rest)
           | (Some z, None) \<Rightarrow>
               if d = CHR ''='' \<and> rest = [] then Some [char_of (x * 4 + y div 16), char_of (y mod 16 * 16 + z div 4)] else None
           | (None, _) \<Rightarrow> if c = CHR ''='' \<and> d = CHR ''='' \<and> rest = [] then Some [char_of (x * 4 + y div 16)] else None)
      | _ \<Rightarrow> None)"
| "groups64 _ = None"

definition DecodeString :: "string \<Rightarrow> string option" where
  "DecodeString s = groups64 (filter (\<lambda>c. c \<noteq> CHR 0x0A \<and> c \<noteq> CHR 0x0D) s)"

section \<open>Putting records\<close>

definition curSeq :: "request \<Rightarrow> string \<Rightarrow> int pk" where
  "curSeq q name =
     pbind (cGetP q ''kinesis'' name) (\<lambda>b. pret (case b of None \<Rightarrow> 0 | Some raw \<Rightarrow> kasInt (gget (nilOr (loadMap raw)) ''Seq'')))"

definition nextSeq :: "ddblib \<Rightarrow> request \<Rightarrow> string \<Rightarrow> int pk" where
  "nextSeq L q name =
     pbind (cGetP q ''kinesis'' name) (\<lambda>b.
     case (case b of Some raw \<Rightarrow> loadMap raw | None \<Rightarrow> Some [(''StreamName'', VStr name), (''Status'', VStr ''ACTIVE'')]) of
       None \<Rightarrow> pfail PPanic
     | Some rec \<Rightarrow>
         let n = kasInt (gget rec ''Seq'') in
         pbind (cPutP q ''kinesis'' name (bytesOf L (VMap (AList.update ''Seq'' (VInt (wrap64 (n + 1))) rec)))) (\<lambda>_. pret n))"

definition kput :: "ddblib \<Rightarrow> request \<Rightarrow> string \<Rightarrow> gval \<Rightarrow> string \<Rightarrow> gobj pk" where
  "kput L q name dat pk =
     pbind (cGetP q ''kinesis'' name) (\<lambda>b.
     if b = None then pfail (pack_fault ''ResourceNotFoundException'' [] [])
     else
       pbind (nextSeq L q name) (\<lambda>seq.
       pbind (pgets pNow) (\<lambda>now.
       let rec = [(''SequenceNumber'', VStr (show_int seq)), (''PartitionKey'', VStr pk), (''Data'', dat), (''ApproximateArrivalTimestamp'', seconds now)] in
       pbind (cPutP q (''kinesis:'' @ name) (show_int seq) (bytesOf L (VMap rec))) (\<lambda>_.
       pbind (if dHasBus L
              then pupd (\<lambda>s. s\<lparr>pPub := pPub s @ [(''kinesis'', bytesOf L (VMap
                     [(''Account'', VStr (qAccount q)), (''Region'', VStr (qRegion q)), (''StreamName'', VStr name), (''Record'', VMap rec)]))]\<rparr>)
              else pret ()) (\<lambda>_.
       pret [(''SequenceNumber'', VStr (show_int seq)), (''ShardId'', VStr ''shardId-000000000000'')])))))"

definition putOne :: "ddblib \<Rightarrow> request \<Rightarrow> string \<Rightarrow> gval list \<Rightarrow> gval \<Rightarrow> gval list pk" where
  "putOne L q name out r =
     pbind (pattempt (kput L q name (gget (as_map r) ''Data'') (kstr (gget (as_map r) ''PartitionKey'')))) (\<lambda>res.
     case res of
       Inr o1 \<Rightarrow> pret (out @ [VMap o1])
     | Inl PPanic \<Rightarrow> pfail PPanic
     | Inl _ \<Rightarrow> pret (out @ [VMap [(''ErrorCode'', VStr ''InternalFailure'')]]))"

definition putRecords :: "ddblib \<Rightarrow> request \<Rightarrow> string \<Rightarrow> gobj pk" where
  "putRecords L q name =
     pbind (pfold (putOne L q name) [] (asSlice (gget (qInput q) ''Records''))) (\<lambda>out.
     pret [(''Records'', VList out), (''FailedRecordCount'', VInt 0)])"

section \<open>Iterators and reading\<close>

definition shardIterator :: "string \<Rightarrow> int \<Rightarrow> string" where
  "shardIterator name seq = base64 (name @ ''|'' @ show_int seq)"

definition atTimestampSeq :: "request \<Rightarrow> string \<Rightarrow> f64 \<Rightarrow> int pk" where
  "atTimestampSeq q name ts =
     pbind (cListP q (''kinesis:'' @ name) []) (\<lambda>kvs.
     pbind (curSeq q name) (\<lambda>seq0.
     pret (foldl (\<lambda>seq kv.
         case intoMap None (Value kv) of
           (m, ok) \<Rightarrow>
             if ok \<and> f64_le ts (kasFloat (gget (nilOr m) ''ApproximateArrivalTimestamp''))
             then (case ParseInt10 (Key kv) of Some n \<Rightarrow> if n < seq then n else seq | None \<Rightarrow> seq)
             else seq) seq0 kvs)))"

definition getIterator :: "request \<Rightarrow> string \<Rightarrow> gobj pk" where
  "getIterator q name =
     (let kind = kstr (gget (qInput q) ''ShardIteratorType''); given = atoi (kstr (gget (qInput q) ''StartingSequenceNumber'')) in
      pbind (if kind = ''LATEST'' then curSeq q name
             else if kind = ''AT_TIMESTAMP'' then atTimestampSeq q name (kasFloat (gget (qInput q) ''Timestamp''))
             else if kind = ''AT_SEQUENCE_NUMBER'' then pret given
             else if kind = ''AFTER_SEQUENCE_NUMBER'' then pret (wrap64 (given + 1))
             else pret 0) (\<lambda>seq.
      pret [(''ShardIterator'', VStr (shardIterator name seq))]))"

text \<open>The records of a listing from a number on, in the order of their numbers.\<close>

definition numbered :: "KV list \<Rightarrow> int \<Rightarrow> (int \<times> gval) list" where
  "numbered kvs start =
     sort_key fst (map (\<lambda>kv. (atoi (Key kv), valOrNil (loadMap (Value kv)))) (filter (\<lambda>kv. start \<le> atoi (Key kv)) kvs))"

definition nextNumber :: "int \<Rightarrow> (int \<times> gval) list \<Rightarrow> int" where
  "nextNumber start taken = foldl (\<lambda>mx (n, _). if mx < wrap64 (n + 1) then wrap64 (n + 1) else mx) start taken"

definition getRecords :: "request \<Rightarrow> gobj pk" where
  "getRecords q =
     (let bad = pfail (pack_fault ''InvalidArgumentException'' [] []) in
      case DecodeString (kstr (gget (qInput q) ''ShardIterator'')) of
        None \<Rightarrow> bad
      | Some raw \<Rightarrow>
          (case Cut raw ''|'' of
             (_, _, False) \<Rightarrow> bad
           | (stream, startText, True) \<Rightarrow>
               let limit0 = kasInt (gget (qInput q) ''Limit''); limit = (if limit0 \<le> 0 then 1000 else limit0); start = atoi startText in
               pbind (cListP q (''kinesis:'' @ stream) []) (\<lambda>kvs.
               let taken = take (nat limit) (numbered kvs start) in
               pret [(''Records'', VList (map snd taken)), (''NextShardIterator'', VStr (shardIterator stream (nextNumber start taken))),
                 (''MillisBehindLatest'', VInt 0)])))"

definition kinesisInvoke :: "ddblib \<Rightarrow> request \<Rightarrow> gobj pk" where
  "kinesisInvoke L q =
     (let name = kfirst (qInput q) [''StreamName''] in
      if qOperation q = ''PutRecord'' then kput L q name (gget (qInput q) ''Data'') (kstr (gget (qInput q) ''PartitionKey''))
      else if qOperation q = ''PutRecords'' then putRecords L q name
      else if qOperation q = ''GetShardIterator'' then getIterator q name
      else getRecords q)"

section \<open>Iterators read back\<close>

lemma base64_alphabet:
  "n < 64 \<Longrightarrow> base64Val (base64Char n) = Some n \<and> base64Char n \<noteq> CHR 0x0A \<and> base64Char n \<noteq> CHR 0x0D"
proof -
  assume n: "n < 64"
  have "list_all (\<lambda>n. base64Val (base64Char n) = Some n \<and> base64Char n \<noteq> CHR 0x0A \<and> base64Char n \<noteq> CHR 0x0D) [0..<64]" by code_simp
  then show ?thesis using n by (simp add: list_all_iff)
qed

lemma base64_pad: "base64Val (CHR ''='') = None"
  by code_simp

lemma sextets:
  fixes a b c :: nat
  assumes "a < 256" "b < 256" "c < 256"
  shows "a div 4 < 64" "a mod 4 * 16 < 64" "a mod 4 * 16 + b div 16 < 64" "b mod 16 * 4 < 64" "b mod 16 * 4 + c div 64 < 64" "c mod 64 < 64"
    "a div 4 * 4 + a mod 4 * 16 div 16 = a" "a div 4 * 4 + (a mod 4 * 16 + b div 16) div 16 = a"
    "(a mod 4 * 16 + b div 16) mod 16 * 16 + b mod 16 * 4 div 4 = b" "(a mod 4 * 16 + b div 16) mod 16 * 16 + (b mod 16 * 4 + c div 64) div 4 = b"
    "(b mod 16 * 4 + c div 64) mod 4 * 64 + c mod 64 = c"
proof -
  have b: "b div 16 < 16" "c div 64 < 4" using assms by linarith+
  then have d: "(a mod 4 * 16 + b div 16) div 16 = a mod 4" "(a mod 4 * 16 + b div 16) mod 16 = b div 16"
    "(b mod 16 * 4 + c div 64) div 4 = b mod 16" "(b mod 16 * 4 + c div 64) mod 4 = c div 64" by simp_all
  show "a div 4 < 64" using assms by linarith
  have "a mod 4 \<le> 3" "b mod 16 \<le> 15" by simp_all
  then show "a mod 4 * 16 < 64" "a mod 4 * 16 + b div 16 < 64" "b mod 16 * 4 < 64" "b mod 16 * 4 + c div 64 < 64" "c mod 64 < 64"
    using b by linarith+
  show "a div 4 * 4 + a mod 4 * 16 div 16 = a" "a div 4 * 4 + (a mod 4 * 16 + b div 16) div 16 = a"
    "(a mod 4 * 16 + b div 16) mod 16 * 16 + b mod 16 * 4 div 4 = b" "(a mod 4 * 16 + b div 16) mod 16 * 16 + (b mod 16 * 4 + c div 64) div 4 = b"
    "(b mod 16 * 4 + c div 64) mod 4 * 64 + c mod 64 = c"
    unfolding d by simp_all
qed

lemma groups64_four:
  assumes "x < 64" "y < 64" "z < 64" "w < 64"
  shows "groups64 (base64Char x # base64Char y # base64Char z # base64Char w # rest) =
    map_option (\<lambda>t. [char_of (x * 4 + y div 16), char_of (y mod 16 * 16 + z div 4), char_of (z mod 4 * 64 + w)] @ t) (groups64 rest)"
  using assms by (cases "groups64 rest") (simp_all add: base64_alphabet)

lemma groups64_two:
  assumes "x < 64" "y < 64"
  shows "groups64 [base64Char x, base64Char y, CHR ''='', CHR ''=''] = Some [char_of (x * 4 + y div 16)]"
  using assms by (simp add: base64_alphabet base64_pad)

lemma groups64_three:
  assumes "x < 64" "y < 64" "z < 64"
  shows "groups64 [base64Char x, base64Char y, base64Char z, CHR ''=''] = Some [char_of (x * 4 + y div 16), char_of (y mod 16 * 16 + z div 4)]"
  using assms by (simp add: base64_alphabet base64_pad)

lemma groups64_base64: "groups64 (base64 s) = Some s"
proof (induction s rule: base64.induct)
  case (2 a)
  note s = sextets [OF code_less [of a] code_less [of a] code_less [of a]]
  show ?case unfolding base64.simps list.map append.simps groups64_two [OF s(1,2)] s(7) char_of_code ..
next
  case (3 a b)
  note s = sextets [OF code_less [of a] code_less [of b] code_less [of a]]
  show ?case unfolding base64.simps list.map append.simps groups64_three [OF s(1,3,4)] s(8,9) char_of_code ..
next
  case (4 a b c s)
  note s = sextets [OF code_less [of a] code_less [of b] code_less [of c]]
  show ?case unfolding base64.simps list.map append.simps groups64_four [OF s(1,3,5,6)] s(8,10,11) char_of_code 4 option.map ..
qed simp

lemma base64_no_breaks: "c \<in> set (base64 s) \<Longrightarrow> c \<noteq> CHR 0x0A \<and> c \<noteq> CHR 0x0D"
proof (induction s rule: base64.induct)
  case (2 a)
  note s = sextets [OF code_less [of a] code_less [of a] code_less [of a]]
  show ?case using 2 base64_alphabet [OF s(1)] base64_alphabet [OF s(2)] unfolding base64.simps list.map append.simps by force
next
  case (3 a b)
  note s = sextets [OF code_less [of a] code_less [of b] code_less [of a]]
  show ?case using 3 base64_alphabet [OF s(1)] base64_alphabet [OF s(3)] base64_alphabet [OF s(4)]
    unfolding base64.simps list.map append.simps by force
next
  case (4 a b c' s)
  note s = sextets [OF code_less [of a] code_less [of b] code_less [of c']]
  show ?case using 4 base64_alphabet [OF s(1)] base64_alphabet [OF s(3)] base64_alphabet [OF s(5)] base64_alphabet [OF s(6)]
    unfolding base64.simps list.map append.simps by (metis set_ConsD)
qed simp

lemma DecodeString_base64: "DecodeString (base64 s) = Some s"
  using base64_no_breaks [of _ s] by (simp add: DecodeString_def filter_id_conv [THEN iffD2] groups64_base64)

lemma atoi_show_int:
  assumes "in_int64 i"
  shows "atoi (show_int i) = i"
proof -
  have "atoi t = j" if "ParseInt10 t = Some j" for t j
    using that by (auto simp: ParseInt10_def atoi_def Let_def in_int64_def split: list.splits option.splits if_splits)
  then show ?thesis using ParseInt10_show_int [OF assms] by blast
qed

section \<open>Nothing is skipped and nothing is read twice\<close>

lemma numbered_from:
  assumes "start \<le> nxt"
  shows "numbered kvs nxt = filter (\<lambda>(n, _). nxt \<le> n) (numbered kvs start)"
proof -
  have "filter (\<lambda>kv. nxt \<le> atoi (Key kv)) kvs = filter (\<lambda>kv. nxt \<le> atoi (Key kv)) (filter (\<lambda>kv. start \<le> atoi (Key kv)) kvs)"
    using assms by (auto intro: filter_cong)
  then show ?thesis by (simp add: numbered_def filter_sort filter_map comp_def case_prod_beta)
qed

lemma nextNumber_last:
  assumes "sorted (map fst xs)" "\<forall>(n, v) \<in> set xs. start \<le> n \<and> n < 2 ^ 63 - 1" "- (2 ^ 63) \<le> start"
  shows "nextNumber start xs = (if xs = [] then start else fst (last xs) + 1)"
  using assms(1,2)
proof (induction xs rule: rev_induct)
  case (snoc x xs)
  obtain n v where x: "x = (n, v)" by (cases x)
  have n: "start \<le> n" "n < 2 ^ 63 - 1" using snoc.prems(2) x by auto
  have "wrap64 (n + 1) = n + 1" using n assms(3) by (intro wrap64_id) (simp add: in_int64_def)
  moreover have "nextNumber start xs \<le> n + 1"
    using snoc n x by (auto simp: sorted_append)
  ultimately show ?case using x n by (auto simp: nextNumber_def)
qed (simp add: nextNumber_def)

text \<open>In a list in strictly ascending order, what lies beyond the last of a beginning is the rest.\<close>

lemma beyond_last:
  fixes us vs :: "(int \<times> 'a) list"
  assumes "sorted_wrt (<) (map fst (us @ vs))" "us \<noteq> []"
  shows "filter (\<lambda>(n, _). fst (last us) + 1 \<le> n) (us @ vs) = vs"
proof -
  obtain ws x where us: "us = ws @ [x]" using assms(2) by (meson rev_exhaust)
  have "\<forall>u \<in> set ws. fst u < fst x" "\<forall>v \<in> set vs. fst x < fst v" using assms(1) by (auto simp: us sorted_wrt_append)
  then have "filter (\<lambda>(n, _). fst x + 1 \<le> n) ws = []" "filter (\<lambda>(n, _). fst x + 1 \<le> n) vs = vs"
    by (force simp: filter_empty_conv, force simp: filter_id_conv)
  then show ?thesis by (simp add: us case_prod_beta)
qed

lemma numbered_resume:
  assumes "distinct (map (\<lambda>kv. atoi (Key kv)) kvs)" "\<forall>kv \<in> set kvs. atoi (Key kv) < 2 ^ 63 - 1" "- (2 ^ 63) \<le> start"
  shows "numbered kvs (nextNumber start (take k (numbered kvs start))) = drop k (numbered kvs start)"
proof -
  define xs where "xs = numbered kvs start"
  have all: "\<forall>(n, v) \<in> set xs. start \<le> n \<and> n < 2 ^ 63 - 1" using assms(2) by (auto simp: xs_def numbered_def)
  have s: "sorted (map fst xs)" by (simp add: xs_def numbered_def)
  have "distinct (map fst (map (\<lambda>kv. (atoi (Key kv), valOrNil (loadMap (Value kv)))) (filter (\<lambda>kv. start \<le> atoi (Key kv)) kvs)))"
    using assms(1) by (simp add: comp_def distinct_map_filter)
  then have "distinct (map fst xs)" unfolding xs_def numbered_def by (rule distinct_sort_keys)
  then have strict: "sorted_wrt (<) (map fst (take k xs @ drop k xs))" using s by (simp add: strict_sorted_iff)
  show ?thesis
  proof (cases "take k xs = []")
    case True
    then have "k = 0 \<or> xs = []" by simp
    then show ?thesis using True by (auto simp: xs_def [symmetric] nextNumber_def)
  next
    case False
    have nxt: "nextNumber start (take k xs) = fst (last (take k xs)) + 1"
      using nextNumber_last [of "take k xs" start] all s False assms(3) set_take_subset [of k xs] by (fastforce simp: take_map [symmetric] sorted_wrt_take)
    have "last (take k xs) \<in> set xs" using False last_in_set set_take_subset by fast
    then have "start \<le> nextNumber start (take k xs)" using nxt all by fastforce
    then show ?thesis using numbered_from [of start _ kvs] beyond_last [OF strict False] nxt by (simp add: xs_def [symmetric])
  qed
qed

text \<open>A read from an iterator, and what it answers.\<close>

definition readFrom :: "request \<Rightarrow> string \<Rightarrow> int \<Rightarrow> request" where
  "readFrom q it limit = q\<lparr>qOperation := ''GetRecords'', qInput := [(''ShardIterator'', VStr it), (''Limit'', VInt limit)]\<rparr>"

definition answer :: "gval list \<Rightarrow> string \<Rightarrow> gobj" where
  "answer rs it = [(''Records'', VList rs), (''NextShardIterator'', VStr it), (''MillisBehindLatest'', VInt 0)]"

definition stored :: "request \<Rightarrow> string \<Rightarrow> pstate \<Rightarrow> KV list" where
  "stored q name s = fst (listLocked (qAccount q) (qRegion q) (''kinesis:'' @ name) (pMem s) [] [] 0)"

lemma getRecords_run:
  assumes "CHR ''|'' \<notin> set name" "in_int64 start" "0 < limit"
  shows "kinesisInvoke L (readFrom q (shardIterator name start) limit) s =
    (let taken = take (nat limit) (numbered (stored q name s) start)
     in (Ok (answer (map snd taken) (shardIterator name (nextNumber start taken))), s))"
proof -
  have "DecodeString (shardIterator name start) = Some (name @ CHR ''|'' # show_int start)"
    by (simp add: shardIterator_def DecodeString_base64)
  then show ?thesis
    using assms
    by (simp add: kinesisInvoke_def getRecords_def readFrom_def gget_def Let_def atoi_show_int pbind_def cListP_def pgets_def pret_def stored_def answer_def)
qed

lemma nextNumber_append: "nextNumber start (xs @ ys) = nextNumber (nextNumber start xs) ys"
  by (simp add: nextNumber_def)

text \<open>C34: Reading a stream skips nothing and repeats nothing.  For a stream whose records have distinct numbers, reading some
  records from an iterator and then more from the iterator the answer carries gives exactly the records, and the
  iterator, of one read of both: in the order of their numbers, none lost at the seam and none twice.\<close>

theorem stream_resume:
  assumes "CHR ''|'' \<notin> set name" "in_int64 start" "0 < m" "0 < n"
    and "distinct (map (\<lambda>kv. atoi (Key kv)) (stored q name s))" "list_all (\<lambda>kv. atoi (Key kv) < 2 ^ 63 - 1) (stored q name s)"
  shows "\<exists>rs1 rs2 it1 it2.
    kinesisInvoke L (readFrom q (shardIterator name start) m) s = (Ok (answer rs1 it1), s) \<and>
    kinesisInvoke L (readFrom q it1 n) s = (Ok (answer rs2 it2), s) \<and>
    kinesisInvoke L (readFrom q (shardIterator name start) (m + n)) s = (Ok (answer (rs1 @ rs2) it2), s)"
proof -
  let ?xs = "numbered (stored q name s) start"
  let ?nxt = "nextNumber start (take (nat m) ?xs)"
  have lo: "- (2 ^ 63) \<le> start" using assms(2) by (simp add: in_int64_def)
  have resume: "numbered (stored q name s) ?nxt = drop (nat m) ?xs"
    using numbered_resume [OF assms(5) _ lo] assms(6) by (simp add: list_all_iff)
  have all: "\<forall>(k, v) \<in> set (take (nat m) ?xs). start \<le> k \<and> k < 2 ^ 63 - 1"
    using assms(6) set_take_subset [of "nat m" ?xs] by (fastforce simp: numbered_def list_all_iff)
  have "sorted (map fst (take (nat m) ?xs))" by (simp add: numbered_def take_map [symmetric] sorted_wrt_take)
  then have nxt: "?nxt = (if take (nat m) ?xs = [] then start else fst (last (take (nat m) ?xs)) + 1)"
    by (rule nextNumber_last [OF _ all lo])
  have ok: "in_int64 ?nxt"
  proof (cases "take (nat m) ?xs = []")
    case False
    have "start \<le> fst (last (take (nat m) ?xs)) \<and> fst (last (take (nat m) ?xs)) < 2 ^ 63 - 1"
      using bspec [OF all last_in_set [OF False]] by (simp add: split_beta)
    then show ?thesis using nxt False lo by (simp add: in_int64_def)
  qed (use nxt assms(2) in simp)
  have both: "take (nat (m + n)) ?xs = take (nat m) ?xs @ take (nat n) (drop (nat m) ?xs)"
    using assms(3,4) by (simp add: nat_add_distrib take_add)
  have pos: "0 < m + n" using assms(3,4) by simp
  let ?nxt2 = "nextNumber ?nxt (take (nat n) (drop (nat m) ?xs))"
  have "kinesisInvoke L (readFrom q (shardIterator name start) m) s = (Ok (answer (map snd (take (nat m) ?xs)) (shardIterator name ?nxt)), s)"
    unfolding getRecords_run [OF assms(1,2,3)] Let_def by (rule refl)
  moreover have "kinesisInvoke L (readFrom q (shardIterator name ?nxt) n) s =
      (Ok (answer (map snd (take (nat n) (drop (nat m) ?xs))) (shardIterator name ?nxt2)), s)"
    unfolding getRecords_run [OF assms(1) ok assms(4)] Let_def resume by (rule refl)
  moreover have "kinesisInvoke L (readFrom q (shardIterator name start) (m + n)) s =
      (Ok (answer (map snd (take (nat m) ?xs) @ map snd (take (nat n) (drop (nat m) ?xs))) (shardIterator name ?nxt2)), s)"
    unfolding getRecords_run [OF assms(1,2) pos] Let_def both nextNumber_append map_append by (rule refl)
  ultimately show ?thesis by blast
qed

section \<open>Examples\<close>

text \<open>A stream with three records, the tenth of which sorts before the second as text.\<close>

definition kinesisState :: pstate where
  "kinesisState = ddbState\<lparr>pMem := foldl (\<lambda>m n. coll_Put ''1'' ''us'' ''kinesis:s'' m n (bytesOf ddbLib (VMap [(''Data'', VStr n)])))
     (pMem ddbState) [''1'', ''2'', ''10'']\<rparr>"

lemma kinesis_read:
  "kinesisInvoke ddbLib (readFrom putA (shardIterator ''s'' 0) 2) kinesisState =
     (Ok (answer [VMap [(''Data'', VStr ''1'')], VMap [(''Data'', VStr ''2'')]] (shardIterator ''s'' 3)), kinesisState)"
proof -
  have "fst (kinesisInvoke ddbLib (readFrom putA (shardIterator ''s'' 0) 2) kinesisState) =
      Ok (answer [VMap [(''Data'', VStr ''1'')], VMap [(''Data'', VStr ''2'')]] (shardIterator ''s'' 3))" by code_simp
  moreover have "in_int64 0" by (simp add: in_int64_def)
  ultimately show ?thesis using getRecords_run [of "''s''" 0 2 ddbLib putA kinesisState] by (simp add: Let_def)
qed

theorem stream_resume_witness:
  "\<exists>rs1 rs2 it1 it2.
    kinesisInvoke ddbLib (readFrom putA (shardIterator ''s'' 0) 2) kinesisState = (Ok (answer rs1 it1), kinesisState) \<and>
    kinesisInvoke ddbLib (readFrom putA it1 1) kinesisState = (Ok (answer rs2 it2), kinesisState) \<and>
    kinesisInvoke ddbLib (readFrom putA (shardIterator ''s'' 0) 3) kinesisState = (Ok (answer (rs1 @ rs2) it2), kinesisState) \<and>
    rs1 = [VMap [(''Data'', VStr ''1'')], VMap [(''Data'', VStr ''2'')]]"
proof -
  have "map (\<lambda>kv. atoi (Key kv)) (stored putA ''s'' kinesisState) = [1, 10, 2]" by code_simp
  then have d: "distinct (map (\<lambda>kv. atoi (Key kv)) (stored putA ''s'' kinesisState))"
    "list_all (\<lambda>kv. atoi (Key kv) < 2 ^ 63 - 1) (stored putA ''s'' kinesisState)" by (simp_all add: list_all_iff) fastforce
  have "in_int64 0" by (simp add: in_int64_def)
  then show ?thesis
    using stream_resume [of "''s''" 0 2 1 putA kinesisState ddbLib, OF _ _ _ _ d] kinesis_read by (auto simp: answer_def)
qed

text \<open>PutRecords reports no failure whatever failed: into a stream that does not exist every record is answered with an error
  code, and the count of the failed ones is zero.\<close>

theorem failed_records_not_counted:
  "fst (kinesisInvoke ddbLib (ddbReq ''PutRecords'' [(''StreamName'', VStr ''nope''), (''Records'', VList [VMap [(''Data'', VStr ''x'')]])]) ddbState) =
     Ok [(''Records'', VList [VMap [(''ErrorCode'', VStr ''InternalFailure'')]]), (''FailedRecordCount'', VInt 0)]"
  by code_simp

end
