(* ===== verification/Demux.thy ===== *)
theory Demux
  imports HttpUri
begin

text \<open>
  Which service a request is for (\<^verbatim>\<open>demux\<close> in \<^verbatim>\<open>internal/edge/edge.go\<close>, the resolvers of
  \<^verbatim>\<open>internal/edge/resolve.go\<close>): by the host, by the target or action, by the credential scope, by the hosts and paths
  the models declare, and by the shapes of some paths.

  A bundle is the list of its services with the members routing reads.  A request is its host, method, path (plain and
  escaped), query and headers, under their canonical names; \<open>erBodyForm\<close> is what \<^verbatim>\<open>ParseForm\<close> makes of the body and the
  query.  The sort by identifier is stable here; identifiers are distinct in every theorem.
\<close>

section \<open>Services and requests\<close>

record service_model =
  msID :: string
  msEndpointPrefix :: string
  msTargetPrefix :: string
  msAliases :: "string list"
  msHosts :: "string list"
  msOperations :: "Operation list"

record edge_request =
  erHost :: string
  erMethod :: string
  erPath :: string
  erEscaped :: string
  erQuery :: query
  erHeader :: "(string, string) gmap"
  erForm :: "query option"
  erBodyForm :: query

definition hGet :: "edge_request \<Rightarrow> string \<Rightarrow> string" where
  "hGet r name = (case map_of (erHeader r) name of Some v \<Rightarrow> v | None \<Rightarrow> [])"

definition vGet :: "query \<Rightarrow> string \<Rightarrow> string" where
  "vGet q key = (case map_of q key of Some (v # _) \<Rightarrow> v | _ \<Rightarrow> [])"

definition ServiceByID :: "service_model list \<Rightarrow> string \<Rightarrow> service_model option" where
  "ServiceByID b ident = find (\<lambda>svc. msID svc = ident) b"

definition OperationByName :: "service_model \<Rightarrow> string \<Rightarrow> Operation option" where
  "OperationByName svc name = find (\<lambda>op. OpName op = name) (msOperations svc)"

section \<open>Names in a request\<close>

definition withoutPort :: "string \<Rightarrow> string" where
  "withoutPort host = (case IndexByte host (CHR '':'') of Some i \<Rightarrow> take i host | None \<Rightarrow> host)"

definition endpointHost :: "string \<Rightarrow> string" where
  "endpointHost host = ReplaceAll ''-fips.'' ''.'' (ToLower (withoutPort host))"

definition hostLabel :: "string \<Rightarrow> string" where
  "hostLabel host = fst (Cut (endpointHost (withoutPort host)) ''.'')"

definition credentialScopeService :: "string \<Rightarrow> string" where
  "credentialScopeService authorization =
     (case Index authorization ''Credential='' of
        None \<Rightarrow> []
      | Some i \<Rightarrow>
          let cred = takeWhile (\<lambda>c. c \<noteq> CHR '','' \<and> c \<noteq> CHR '' '') (drop (i + length ''Credential='') authorization);
              parts = SplitByte (CHR ''/'') cred
          in if length parts < 4 then [] else ToLower (parts ! 3))"

definition shortName :: "string \<Rightarrow> string" where
  "shortName ident = (case Cut ident ''.'' of (_, rest, True) \<Rightarrow> ToLower rest | _ \<Rightarrow> ToLower ident)"

definition awsProvider :: "string \<Rightarrow> bool" where
  "awsProvider ident = (case Cut ident ''.'' of (provider, _, ok) \<Rightarrow> ok \<and> provider = ''aws'')"

definition azureProvider :: "string \<Rightarrow> bool" where
  "azureProvider ident = (case Cut ident ''.'' of (provider, _, ok) \<Rightarrow> ok \<and> provider = ''azure'')"

section \<open>The resolvers\<close>

definition dottedPrefix :: "string \<Rightarrow> service_model \<Rightarrow> bool" where
  "dottedPrefix host svc =
     (let prefix = ToLower (msEndpointPrefix svc)
      in Contains prefix ''.'' \<and> (host = prefix \<or> HasPrefix host (prefix @ ''.'')))"

definition longerPrefix :: "service_model option \<Rightarrow> service_model \<Rightarrow> service_model option" where
  "longerPrefix best svc =
     (case best of
        None \<Rightarrow> Some svc
      | Some b \<Rightarrow> if length (msEndpointPrefix b) < length (ToLower (msEndpointPrefix svc)) then Some svc else best)"

definition serviceByHostPrefix :: "service_model list \<Rightarrow> string \<Rightarrow> service_model option" where
  "serviceByHostPrefix b host0 =
     (let host = endpointHost host0 in
      if host = [] then None
      else foldl (\<lambda>best svc. if dottedPrefix host svc then longerPrefix best svc else best) None b)"

definition clientSpellings :: "(string, string) gmap" where
  "clientSpellings = [(''opensearch'', ''aws.es''), (''directoryservice'', ''aws.ds'')]"

definition answersTo :: "service_model \<Rightarrow> string \<Rightarrow> bool" where
  "answersTo svc lab \<longleftrightarrow>
     msEndpointPrefix svc \<noteq> [] \<and> EqualFold (msEndpointPrefix svc) lab \<or> list_ex (\<lambda>alias. EqualFold alias lab) (msAliases svc)"

definition actionOf :: "edge_request \<Rightarrow> string" where
  "actionOf r =
     (if vGet (erQuery r) ''Action'' \<noteq> [] then vGet (erQuery r) ''Action''
      else case erForm r of Some form \<Rightarrow> vGet form ''Action'' | None \<Rightarrow> [])"

definition claims :: "service_model \<Rightarrow> edge_request \<Rightarrow> bool" where
  "claims svc r =
     (let target = hGet r ''X-Amz-Target''; action = actionOf r in
      if target \<noteq> [] then
        msTargetPrefix svc \<noteq> [] \<and> HasPrefix target (msTargetPrefix svc @ ''.'') \<or>
        OperationByName svc (case LastIndexByte target (CHR ''.'') of Some i \<Rightarrow> drop (i + 1) target | None \<Rightarrow> target) \<noteq> None
      else if action \<noteq> [] then OperationByName svc action \<noteq> None
      else MatchService (msOperations svc) \<lparr>ReqMethod = erMethod r, EscapedPath = erEscaped r, ReqQuery = erQuery r\<rparr> \<noteq> None)"

definition settleLabel :: "edge_request \<Rightarrow> string \<Rightarrow> service_model list \<Rightarrow> service_model option" where
  "settleLabel r lab sorted_candidates =
     (case filter (\<lambda>svc. claims svc r) sorted_candidates of
        [svc] \<Rightarrow> Some svc
      | _ \<Rightarrow>
          (case find (\<lambda>svc. shortName (msID svc) = lab) sorted_candidates of
             Some svc \<Rightarrow> Some svc
           | None \<Rightarrow> Some (hd sorted_candidates)))"

definition labelled :: "string \<Rightarrow> service_model \<Rightarrow> bool" where
  "labelled lab svc \<longleftrightarrow> shortName (msID svc) = lab \<or> answersTo svc lab"

definition serviceByLabel :: "service_model list \<Rightarrow> edge_request \<Rightarrow> string \<Rightarrow> service_model option" where
  "serviceByLabel b r lab =
     (let spelled = (case map_of clientSpellings lab of Some ident \<Rightarrow> ServiceByID b ident | None \<Rightarrow> None) in
      if lab = [] then None
      else if spelled \<noteq> None then spelled
      else case filter (labelled lab) b of
        [] \<Rightarrow> None
      | [svc] \<Rightarrow> Some svc
      | cs \<Rightarrow> settleLabel r lab (sort_key msID cs))"

definition resolveByModel :: "service_model list \<Rightarrow> edge_request \<Rightarrow> service_model option" where
  "resolveByModel b r =
     (case serviceByHostPrefix b (erHost r) of
        Some svc \<Rightarrow> Some svc
      | None \<Rightarrow>
          (case serviceByLabel b r (hostLabel (erHost r)) of
             Some svc \<Rightarrow> Some svc
           | None \<Rightarrow> serviceByLabel b r (credentialScopeService (hGet r ''Authorization''))))"

text \<open>The hosts a service declares that the request's host is, or is a subdomain of, with the service.\<close>

definition declaredFor :: "string \<Rightarrow> service_model \<Rightarrow> (service_model \<times> string) list" where
  "declaredFor host svc =
     (if awsProvider (msID svc) then []
      else map (Pair svc) (filter (\<lambda>declared. declared \<noteq> [] \<and> (host = declared \<or> HasSuffix host (CHR ''.'' # declared)))
             (map ToLower (msHosts svc))))"

definition betterHost :: "(service_model \<times> string) option \<Rightarrow> service_model \<times> string \<Rightarrow> (service_model \<times> string) option" where
  "betterHost best cand =
     (case best of
        None \<Rightarrow> Some cand
      | Some (b, d) \<Rightarrow>
          if length d < length (snd cand) \<or> length (snd cand) = length d \<and> msID (fst cand) < msID b then Some cand else best)"

definition serviceByDeclaredHost :: "service_model list \<Rightarrow> string \<Rightarrow> service_model option" where
  "serviceByDeclaredHost b host0 =
     (let host = endpointHost host0 in
      if host = [] then None
      else map_option fst (foldl betterHost None (concat (map (declaredFor host) b))))"

definition matchesSomePath :: "service_model \<Rightarrow> string \<Rightarrow> string list \<Rightarrow> query \<Rightarrow> bool" where
  "matchesSomePath svc meth parts q = list_ex (\<lambda>op. EqualFold (Method op) meth \<and> opClaims op parts q) (msOperations svc)"

definition serviceByPath :: "service_model list \<Rightarrow> edge_request \<Rightarrow> service_model option" where
  "serviceByPath b r =
     (case filter (\<lambda>svc. \<not> awsProvider (msID svc) \<and> \<not> azureProvider (msID svc) \<and>
               matchesSomePath svc (erMethod r) (SplitPath (erEscaped r)) (erQuery r)) b of
        [svc] \<Rightarrow> Some svc
      | _ \<Rightarrow> None)"

section \<open>The demultiplexer\<close>

definition awsAddressed :: "edge_request \<Rightarrow> bool" where
  "awsAddressed r \<longleftrightarrow>
     hGet r ''X-Amz-Target'' \<noteq> [] \<or> credentialScopeService (hGet r ''Authorization'') \<noteq> [] \<or>
     (let host = withoutPort (ToLower (erHost r)) in HasSuffix host ''.amazonaws.com'' \<or> HasSuffix host ''.api.aws'')"

definition sqsQueuePath :: "string \<Rightarrow> bool" where
  "sqsQueuePath path =
     (let named = (\<lambda>account name. length account = 12 \<and> name \<noteq> [] \<and> list_all is_digit account) in
      case SplitByte (CHR ''/'') (TrimByte (CHR ''/'') path) of
        [account, name] \<Rightarrow> named account name
      | [q, region, account, name] \<Rightarrow> q = ''queue'' \<and> named account name
      | _ \<Rightarrow> False)"

definition sqsQueueDomainHost :: "string \<Rightarrow> bool" where
  "sqsQueueDomainHost host \<longleftrightarrow> HasPrefix host ''queue.'' \<or> Contains host ''.queue.''"

definition looksLike :: "edge_request \<Rightarrow> string \<Rightarrow> bool" where
  "looksLike r pre \<longleftrightarrow>
     Contains (ToLower (erHost r)) pre \<or> Contains (ToLower (erPath r)) pre \<or>
     Contains (ToLower (hGet r ''Authorization'')) (''/'' @ pre @ ''/'')"

text \<open>The form is parsed unless the body is an upload; parsing again changes nothing.\<close>

definition parsed :: "edge_request \<Rightarrow> edge_request" where
  "parsed r =
     (let chunked = Contains (ToLower (hGet r ''Content-Encoding'')) ''aws-chunked'' \<or> hGet r ''X-Amz-Decoded-Content-Length'' \<noteq> [];
          s3PUT = (erMethod r = ''PUT'' \<and> hGet r ''X-Amz-Target'' = []);
          gcsBody = (Contains (erPath r) ''/storage/'' \<or> Contains (erPath r) ''/upload/'')
      in if \<not> s3PUT \<and> \<not> gcsBody \<and> hGet r ''X-Vercel-Digest'' = [] \<and> \<not> chunked \<and>
            Contains (ToLower (hGet r ''Content-Type'')) ''application/x-www-form-urlencoded'' \<and> erForm r = None
         then r\<lparr>erForm := Some (erBodyForm r)\<rparr> else r)"

definition targetPrefixed :: "string \<Rightarrow> service_model \<Rightarrow> bool" where
  "targetPrefixed target svc \<longleftrightarrow> msTargetPrefix svc \<noteq> [] \<and> HasPrefix target (msTargetPrefix svc @ ''.'')"

definition targetEndpoint :: "string \<Rightarrow> service_model \<Rightarrow> bool" where
  "targetEndpoint low svc =
     (let prefix = ToLower (msEndpointPrefix svc)
      in prefix \<noteq> [] \<and> (low = prefix \<or> HasPrefix low (prefix @ ''.'') \<or> HasPrefix low (prefix @ ''_'')))"

definition byTarget :: "service_model list \<Rightarrow> string \<Rightarrow> service_model option" where
  "byTarget b target =
     (case find (targetPrefixed target) b of
        Some svc \<Rightarrow> Some svc
      | None \<Rightarrow> find (targetEndpoint (ToLower target)) b)"

definition snsLink :: "edge_request \<Rightarrow> string \<Rightarrow> bool" where
  "snsLink r action \<longleftrightarrow>
     (action = ''ConfirmSubscription'' \<or> action = ''Unsubscribe'') \<and>
     (let parts = SplitByte (CHR '':'') (vGet (erQuery r) (if action = ''Unsubscribe'' then ''SubscriptionArn'' else ''TopicArn''))
      in 6 \<le> length parts \<and> parts ! 0 = ''arn'' \<and> parts ! 2 = ''sns'')"

text \<open>What is left when no name in the request says which service it is for.\<close>

definition byShape :: "service_model list \<Rightarrow> edge_request \<Rightarrow> string \<Rightarrow> service_model option" where
  "byShape b r action =
     (let path = erPath r; host = ToLower (erHost r) in
      if action = [] \<and> erMethod r = ''GET'' \<and> sqsQueuePath path then ServiceByID b ''aws.sqs''
      else if Contains path ''/storage/v1'' \<or> Contains path ''/upload/storage'' then ServiceByID b ''gcp.storage''
      else if Contains path ''/2015-03-31/'' then ServiceByID b ''aws.lambda''
      else if HasPrefix path ''/restapis'' \<or> HasPrefix path ''/apikeys'' \<or> HasPrefix path ''/usageplans'' \<or> Contains path ''/_user_request_''
      then ServiceByID b ''aws.apigateway''
      else if Contains path ''/2013-04-01/'' \<or> Contains host ''route53'' then ServiceByID b ''aws.route53''
      else if Contains path ''/2020-05-31/'' \<or> Contains host ''cloudfront'' then ServiceByID b ''aws.cloudfront''
      else if looksLike r ''eks'' \<or> HasPrefix path ''/clusters'' \<and> Contains (ToLower (hGet r ''Authorization'')) ''/eks/''
      then ServiceByID b ''aws.eks''
      else if Contains path ''/_doc'' \<or> Contains path ''/_search'' \<or> Contains path ''/_aws/opensearch'' \<or> Contains path ''/2021-01-01/opensearch''
      then ServiceByID b ''aws.es''
      else if hGet r ''X-Amz-Target'' = [] \<and> action = [] then ServiceByID b ''aws.s3''
      else None)"

definition byNames :: "service_model list \<Rightarrow> edge_request \<Rightarrow> string \<Rightarrow> service_model option" where
  "byNames b r host =
     (let byModel = resolveByModel b r;
          others = (case serviceByDeclaredHost b host of Some svc \<Rightarrow> Some svc | None \<Rightarrow> serviceByPath b r)
      in if (\<not> awsAddressed r \<or> byModel = None) \<and> others \<noteq> None then others else byModel)"

definition demux :: "service_model list \<Rightarrow> edge_request \<Rightarrow> service_model option" where
  "demux b r0 =
     (let r = parsed r0; action = actionOf r; host = withoutPort (erHost r); target = hGet r ''X-Amz-Target'' in
      if Contains host ''.s3.'' \<or> HasPrefix host ''s3.'' then ServiceByID b ''aws.s3''
      else if target \<noteq> [] \<and> HasPrefix target ''DynamoDBStreams_'' then ServiceByID b ''aws.dynamodb''
      else case (if target \<noteq> [] then byTarget b target else None) of
        Some svc \<Rightarrow> Some svc
      | None \<Rightarrow>
          if action \<noteq> [] \<and> (sqsQueuePath (erPath r) \<or> sqsQueueDomainHost host) then ServiceByID b ''aws.sqs''
          else if action \<noteq> [] \<and> snsLink r action then ServiceByID b ''aws.sns''
          else case byNames b r host of
            Some svc \<Rightarrow> Some svc
          | None \<Rightarrow> byShape b r action)"

section \<open>The order of the services does not matter\<close>

lemma find_unique:
  assumes "\<And>x y. x \<in> set xs \<Longrightarrow> y \<in> set xs \<Longrightarrow> P x \<Longrightarrow> P y \<Longrightarrow> x = y" "set ys = set xs"
  shows "find P ys = find P xs"
proof (cases "find P xs")
  case None
  then have "find P ys = None" using assms(2) unfolding find_None_iff by simp
  then show ?thesis using None by simp
next
  case (Some x)
  then have x: "x \<in> set xs" "P x" by (auto simp: find_Some_iff)
  then obtain y where y: "find P ys = Some y" using assms(2) by (cases "find P ys") (auto simp: find_None_iff)
  then have "y \<in> set xs" "P y" using assms(2) by (auto simp: find_Some_iff)
  then have "y = x" using assms(1) x by metis
  then show ?thesis using y Some by simp
qed

lemma sort_key_perm:
  assumes "distinct (map f xs)" "mset ys = mset xs"
  shows "sort_key f ys = sort_key f xs"
proof (rule properties_for_sort_key [symmetric])
  show "mset (sort_key f ys) = mset xs" using assms(2) by simp
  show "sorted (map f (sort_key f ys))" by simp
  fix k assume "k \<in> set (sort_key f ys)"
  then have k: "k \<in> set xs" using assms(2) mset_eq_setD by fastforce
  have d: "distinct (map f (sort_key f ys))" using assms by (metis distinct_map mset_eq_imp_distinct_iff mset_eq_setD mset_sort)
  have one: "filter (\<lambda>x. f k = f x) zs = [k]" if "distinct (map f zs)" "k \<in> set zs" for zs
    using that by (induction zs) (auto simp: filter_empty_conv image_iff)
  show "filter (\<lambda>x. f k = f x) (sort_key f ys) = filter (\<lambda>x. f k = f x) xs"
    using one [OF d] one [OF assms(1) k] \<open>k \<in> set (sort_key f ys)\<close> by simp
qed

lemma sole_perm:
  assumes "mset ys = mset xs"
  shows "(case ys of [x] \<Rightarrow> Some x | _ \<Rightarrow> None) = (case xs of [x] \<Rightarrow> Some x | _ \<Rightarrow> None)"
proof -
  have "length ys = length xs" using assms by (rule mset_eq_length)
  then show ?thesis using assms by (cases xs rule: remdups_adj.cases; cases ys rule: remdups_adj.cases) auto
qed

lemma ServiceByID_perm: "distinct (map msID b) \<Longrightarrow> mset b' = mset b \<Longrightarrow> ServiceByID b' ident = ServiceByID b ident"
  unfolding ServiceByID_def by (rule find_unique) (auto simp: distinct_map inj_on_def dest: mset_eq_setD)

lemma serviceByLabel_perm:
  assumes "distinct (map msID b)" "mset b' = mset b"
  shows "serviceByLabel b' r lab = serviceByLabel b r lab"
proof -
  let ?c = "filter (labelled lab) b" and ?c' = "filter (labelled lab) b'"
  have m: "mset ?c' = mset ?c" using assms(2) by simp
  have d: "distinct (map msID ?c)" using assms(1) by (simp add: distinct_map_filter)
  have eq: "(case cs of [] \<Rightarrow> None | [svc] \<Rightarrow> Some svc | cs \<Rightarrow> settleLabel r lab (sort_key msID cs)) =
      (if length cs = 0 then None else if length cs = 1 then Some (hd (sort_key msID cs)) else settleLabel r lab (sort_key msID cs))" for cs
    by (cases cs rule: remdups_adj.cases) simp_all
  have eqC: "(case ?c' of [] \<Rightarrow> None | [svc] \<Rightarrow> Some svc | cs \<Rightarrow> settleLabel r lab (sort_key msID cs)) =
        (case ?c of [] \<Rightarrow> None | [svc] \<Rightarrow> Some svc | cs \<Rightarrow> settleLabel r lab (sort_key msID cs))"
    unfolding eq sort_key_perm [OF d m] mset_eq_length [OF m] ..
  have eqS: "ServiceByID b' = ServiceByID b" using ServiceByID_perm [OF assms] by blast
  show ?thesis unfolding serviceByLabel_def Let_def eqS eqC ..
qed

lemma serviceByPath_perm: "mset b' = mset b \<Longrightarrow> serviceByPath b' r = serviceByPath b r"
  unfolding serviceByPath_def by (rule sole_perm) simp

text \<open>The declared host that wins: the longest, and of those the one of the first identifier.\<close>

lemma betterHost_best:
  assumes "foldl betterHost None cs = best"
  shows "(cs = [] \<longleftrightarrow> best = None) \<and>
    (\<forall>s d. best = Some (s, d) \<longrightarrow> (s, d) \<in> set cs \<and>
      (\<forall>(s', d') \<in> set cs. length d' < length d \<or> length d' = length d \<and> msID s \<le> msID s'))"
  using assms
proof (induction cs arbitrary: best rule: rev_induct)
  case (snoc c cs)
  obtain s1 d1 where c: "c = (s1, d1)" by (cases c)
  show ?case
  proof (cases "foldl betterHost None cs")
    case None
    then have "cs = []" using snoc.IH [OF None] by simp
    then show ?thesis using snoc.prems c by (auto simp: betterHost_def)
  next
    case (Some b)
    obtain s0 d0 where b: "b = (s0, d0)" by (cases b)
    have IH: "(s0, d0) \<in> set cs" "\<forall>(s', d') \<in> set cs. length d' < length d0 \<or> length d' = length d0 \<and> msID s0 \<le> msID s'" "cs \<noteq> []"
      using snoc.IH [OF Some] b by auto
    have step: "best = betterHost (Some (s0, d0)) (s1, d1)" using snoc.prems Some b c by simp
    show ?thesis
    proof (cases "length d0 < length d1 \<or> length d1 = length d0 \<and> msID s1 < msID s0")
      case True
      then have "best = Some (s1, d1)" using step by (auto simp: betterHost_def)
      then show ?thesis using IH(2) True c by (fastforce intro: order.trans less_imp_le)
    next
      case False
      then have "best = Some (s0, d0)" using step by (auto simp: betterHost_def)
      then show ?thesis using IH False c by force
    qed
  qed
qed simp

lemma serviceByDeclaredHost_perm:
  assumes "distinct (map msID b)" "mset b' = mset b"
  shows "serviceByDeclaredHost b' host = serviceByDeclaredHost b host"
proof -
  define c where "c b = concat (map (declaredFor (endpointHost host)) b)" for b
  have sets: "set (c b') = set (c b)" using mset_eq_setD [OF assms(2)] by (simp add: c_def)
  have owner: "s \<in> set b" if "(s, d) \<in> set (c b)" for s d using that by (auto simp: c_def declaredFor_def split: if_splits)
  have "map_option fst (foldl betterHost None (c b')) = map_option fst (foldl betterHost None (c b))"
  proof (cases "foldl betterHost None (c b)")
    case None
    then have "c b' = []" using betterHost_best [OF None] sets by (metis set_empty)
    then show ?thesis using None by simp
  next
    case (Some x)
    obtain s d where x: "x = (s, d)" by (cases x)
    have "c b' \<noteq> []" using betterHost_best [OF Some] sets by (metis option.distinct(1) set_empty)
    then obtain s' d' where y: "foldl betterHost None (c b') = Some (s', d')"
      using betterHost_best [of "c b'"] by (metis not_None_eq surj_pair)
    have "(s, d) \<in> set (c b)" "(s', d') \<in> set (c b)" and "msID s = msID s'"
      using betterHost_best [OF Some] betterHost_best [OF y] sets x by (fastforce simp: order.antisym)+
    then have "s = s'" using owner assms(1) by (auto simp: distinct_map inj_on_def)
    then show ?thesis using Some x y by simp
  qed
  then show ?thesis by (simp add: serviceByDeclaredHost_def Let_def c_def)
qed

text \<open>The dotted prefix that wins: the longest.\<close>

lemma length_ToLower [simp]: "length (ToLower s) = length s"
  by (simp add: ToLower_def)

definition keepLonger :: "string \<Rightarrow> service_model option \<Rightarrow> service_model \<Rightarrow> service_model option" where
  "keepLonger host best svc = (if dottedPrefix host svc then longerPrefix best svc else best)"

lemma longest_prefix:
  assumes "foldl (keepLonger host) None b = best"
  shows "(best = None \<longleftrightarrow> (\<forall>s \<in> set b. \<not> dottedPrefix host s)) \<and>
    (\<forall>s. best = Some s \<longrightarrow> s \<in> set b \<and> dottedPrefix host s \<and>
      (\<forall>s' \<in> set b. dottedPrefix host s' \<longrightarrow> length (msEndpointPrefix s') \<le> length (msEndpointPrefix s)))"
  using assms
proof (induction b arbitrary: best rule: rev_induct)
  case (snoc x b)
  have step: "best = keepLonger host (foldl (keepLonger host) None b) x" using snoc.prems by simp
  show ?case
  proof (cases "foldl (keepLonger host) None b")
    case None
    then show ?thesis using snoc.IH [OF None] step by (auto simp: keepLonger_def longerPrefix_def)
  next
    case (Some y)
    then show ?thesis using snoc.IH [OF Some] step
      by (cases "dottedPrefix host x \<and> length (msEndpointPrefix y) < length (msEndpointPrefix x)")
        (auto simp: keepLonger_def longerPrefix_def intro: order.trans less_imp_le)
  qed
qed simp

lemma dottedPrefix_eq:
  assumes "dottedPrefix host s" "dottedPrefix host s'" "length (msEndpointPrefix s) = length (msEndpointPrefix s')"
  shows "ToLower (msEndpointPrefix s) = ToLower (msEndpointPrefix s')"
proof -
  have "take (length (ToLower (msEndpointPrefix x))) host = ToLower (msEndpointPrefix x)" if "dottedPrefix host x" for x
    using that by (auto simp: dottedPrefix_def HasPrefix_def Let_def) (metis append_eq_conv_conj take_add length_ToLower append_take_drop_id append_same_eq take_take min.absorb1 le_add1)
  then show ?thesis using assms by (metis length_ToLower)
qed

lemma serviceByHostPrefix_perm:
  assumes "\<And>s s'. s \<in> set b \<Longrightarrow> s' \<in> set b \<Longrightarrow> Contains (ToLower (msEndpointPrefix s)) ''.'' \<Longrightarrow>
      ToLower (msEndpointPrefix s) = ToLower (msEndpointPrefix s') \<Longrightarrow> s = s'"
    and "mset b' = mset b"
  shows "serviceByHostPrefix b' host = serviceByHostPrefix b host"
proof -
  let ?h = "endpointHost host"
  have sets: "set b' = set b" using assms(2) by (rule mset_eq_setD)
  have fold: "(\<lambda>best svc. if dottedPrefix ?h svc then longerPrefix best svc else best) = keepLonger ?h"
    by (intro ext) (simp add: keepLonger_def)
  have "foldl (keepLonger ?h) None b' = foldl (keepLonger ?h) None b"
  proof (cases "foldl (keepLonger ?h) None b")
    case None
    then show ?thesis using longest_prefix [OF None] longest_prefix [of ?h b'] sets by (metis not_None_eq)
  next
    case (Some s)
    obtain s' where s': "foldl (keepLonger ?h) None b' = Some s'"
      using longest_prefix [OF Some] longest_prefix [of ?h b'] sets by (metis not_None_eq)
    have "s \<in> set b" "s' \<in> set b" "dottedPrefix ?h s" "dottedPrefix ?h s'" "length (msEndpointPrefix s) = length (msEndpointPrefix s')"
      using longest_prefix [OF Some] longest_prefix [OF s'] sets by (auto intro: order.antisym)
    then have "s = s'" using assms(1) dottedPrefix_eq by (metis dottedPrefix_def)
    then show ?thesis using Some s' by simp
  qed
  then show ?thesis by (simp add: serviceByHostPrefix_def Let_def fold)
qed

text \<open>The target names at most one service.\<close>

definition soleTarget :: "service_model list \<Rightarrow> string \<Rightarrow> bool" where
  "soleTarget b target \<longleftrightarrow>
     length (filter (targetPrefixed target) b) \<le> 1 \<and> length (filter (targetEndpoint (ToLower target)) b) \<le> 1"

lemma find_sole:
  assumes "mset ys = mset xs" "length (filter P xs) \<le> 1"
  shows "find P ys = find P xs"
proof -
  have "find P zs = (case filter P zs of x # _ \<Rightarrow> Some x | [] \<Rightarrow> None)" for zs by (induction zs) auto
  moreover have "filter P ys = filter P xs"
  proof -
    have m: "mset (filter P ys) = mset (filter P xs)" using assms(1) by simp
    then show ?thesis using assms(2) mset_eq_length [OF m] by (cases "filter P xs"; cases "filter P ys") auto
  qed
  ultimately show ?thesis by simp
qed

text \<open>C19: routing does not depend on the order in which the bundle lists its services.  With distinct identifiers, no two
  services on one dotted endpoint prefix, and a target that names at most one service, a request is placed with the same
  service whatever the order.\<close>

theorem demux_order_independent:
  assumes "distinct (map msID b)" "mset b' = mset b"
    and "distinct (map (\<lambda>s. ToLower (msEndpointPrefix s)) (filter (\<lambda>s. Contains (ToLower (msEndpointPrefix s)) ''.'') b))"
    and "soleTarget b (hGet r ''X-Amz-Target'')"
  shows "demux b' r = demux b r"
proof -
  have hosts: "serviceByHostPrefix b' h = serviceByHostPrefix b h" for h
    using assms(3) by (intro serviceByHostPrefix_perm [OF _ assms(2)]) (auto simp: distinct_map inj_on_def)
  have head: "hGet (parsed r) n = hGet r n" for n by (simp add: parsed_def Let_def hGet_def)
  have target: "byTarget b' (hGet r ''X-Amz-Target'') = byTarget b (hGet r ''X-Amz-Target'')"
    using assms(4) find_sole [OF assms(2)] by (simp add: byTarget_def soleTarget_def split: option.split)
  have ids: "ServiceByID b' = ServiceByID b" using ServiceByID_perm [OF assms(1,2)] by blast
  have model: "resolveByModel b' = resolveByModel b"
    unfolding resolveByModel_def hosts serviceByLabel_perm [OF assms(1,2)] ..
  have names: "byNames b' q h = byNames b q h" for q h
    unfolding byNames_def model serviceByDeclaredHost_perm [OF assms(1,2)] serviceByPath_perm [OF assms(2)] ..
  have shape: "byShape b' q a = byShape b q a" for q a unfolding byShape_def ids ..
  show ?thesis unfolding demux_def Let_def head target ids names shape ..
qed

section \<open>Endpoints\<close>

definition plainLabel :: "string \<Rightarrow> bool" where
  "plainLabel lab \<longleftrightarrow> list_all (\<lambda>c. is_lower c \<or> is_digit c \<or> c = CHR ''-'') lab \<and> \<not> HasSuffix lab ''-fips''"

lemma no_dot_before:
  assumes "CHR ''.'' \<notin> set u" "HasPrefix (u @ CHR ''.'' # t) (w @ ''.'')" "CHR ''.'' \<notin> set w"
  shows "u = w"
proof -
  have "u @ CHR ''.'' # t = w @ CHR ''.'' # TrimPrefix (u @ CHR ''.'' # t) (w @ ''.'')"
    using HasPrefix_imp_append [OF assms(2)] by simp
  then have "Cut (u @ CHR ''.'' # t) ''.'' = Cut (w @ CHR ''.'' # TrimPrefix (u @ CHR ''.'' # t) (w @ ''.'')) ''.''" by (rule arg_cong)
  then show ?thesis using assms(1,3) by simp
qed

lemma HasSuffix_Cons: "HasSuffix s p \<Longrightarrow> HasSuffix (c # s) p"
  by (auto simp: HasSuffix_def Suc_diff_le)

lemma ReplaceAll_fips:
  assumes "CHR ''.'' \<notin> set lab"
  shows "ReplaceAll ''-fips.'' ''.'' (lab @ ''-fips.'' @ t) = lab @ CHR ''.'' # ReplaceAll ''-fips.'' ''.'' t"
  using assms
proof (induction lab)
  case Nil
  show ?case by (simp add: HasPrefix_def)
next
  case (Cons c lab)
  have "\<not> HasPrefix ((c # lab @ ''-fips'') @ CHR ''.'' # t) (''-fips'' @ ''.'')"
    using no_dot_before [of "c # lab @ ''-fips''" t "''-fips''"] Cons.prems by fastforce
  then show ?case using Cons by simp
qed

lemma ReplaceAll_plain:
  assumes "CHR ''.'' \<notin> set lab" "\<not> HasSuffix lab ''-fips''"
  shows "ReplaceAll ''-fips.'' ''.'' (lab @ CHR ''.'' # t) = lab @ CHR ''.'' # ReplaceAll ''-fips.'' ''.'' t"
  using assms
proof (induction lab)
  case Nil
  show ?case by (simp add: HasPrefix_def)
next
  case (Cons c lab)
  have "\<not> HasPrefix ((c # lab) @ CHR ''.'' # t) (''-fips'' @ ''.'')"
    using no_dot_before [of "c # lab" t "''-fips''"] Cons.prems by (auto simp: HasSuffix_def)
  then show ?case using Cons HasSuffix_Cons [of lab "''-fips''" c] by auto
qed

lemma plainLabel_chars:
  assumes "plainLabel lab"
  shows "CHR ''.'' \<notin> set lab" "CHR '':'' \<notin> set lab" "ToLower lab = lab"
proof -
  have ok: "is_lower c \<or> is_digit c \<or> c = CHR ''-''" if "c \<in> set lab" for c using assms that by (auto simp: plainLabel_def list_all_iff)
  show "CHR ''.'' \<notin> set lab" "CHR '':'' \<notin> set lab" using ok by (fastforce simp: is_lower_def is_digit_def less_eq_char_def)+
  have "to_lower_char c = c" if "c \<in> set lab" for c
    using ok [OF that] by (auto simp: to_lower_char_def is_upper_def is_lower_def is_digit_def less_eq_char_def)
  then show "ToLower lab = lab" by (simp add: ToLower_def map_idI)
qed

lemma withoutPort_plain: "CHR '':'' \<notin> set h \<Longrightarrow> withoutPort h = h"
  by (simp add: withoutPort_def IndexByte_None [THEN iffD2])

lemma ToLower_append: "ToLower (u @ w) = ToLower u @ ToLower w"
  by (simp add: ToLower_def)

lemma to_lower_colon: "to_lower_char c = CHR '':'' \<Longrightarrow> c = CHR '':''"
proof (cases "is_upper c")
  case True
  assume "to_lower_char c = CHR '':''"
  then have "of_char (char_of (code_of c + 32) :: char) = (58 :: nat)" using True by (simp add: to_lower_char_def)
  then show ?thesis using True by (simp add: is_upper_def less_eq_char_def)
qed (simp add: to_lower_char_def)

lemma hostLabel_endpoint:
  assumes "plainLabel lab" "v = [] \<or> v = ''-fips''" "CHR '':'' \<notin> set rest"
  shows "hostLabel (lab @ v @ ''.'' @ rest) = lab"
proof -
  note l = plainLabel_chars [OF assms(1)]
  have "withoutPort (lab @ v @ ''.'' @ rest) = lab @ v @ ''.'' @ rest" using assms(2,3) l(2) by (intro withoutPort_plain) auto
  moreover have "ToLower ''-fips'' = ''-fips''" "ToLower ''.'' = ''.''" by code_simp+
  then have "ToLower (lab @ v @ ''.'' @ rest) = lab @ v @ ''.'' @ ToLower rest" using assms(2) l(3) unfolding ToLower_append by (auto simp: ToLower_def)
  moreover have "ReplaceAll ''-fips.'' ''.'' (lab @ v @ ''.'' @ ToLower rest) = lab @ CHR ''.'' # ReplaceAll ''-fips.'' ''.'' (ToLower rest)"
    using assms(1,2) ReplaceAll_fips [OF l(1), of "ToLower rest"] ReplaceAll_plain [OF l(1), of "ToLower rest"] by (auto simp: plainLabel_def)
  ultimately show ?thesis using l(1) by (simp add: hostLabel_def endpointHost_def)
qed

lemma filter_sole:
  assumes "distinct b" "x \<in> set b" "P x" "\<forall>y \<in> set b. P y \<longrightarrow> y = x"
  shows "filter P b = [x]"
proof -
  obtain us vs where b: "b = us @ x # vs" using assms(2) by (meson split_list)
  then have "x \<notin> set us" "x \<notin> set vs" using assms(1) by simp_all
  then have "\<forall>y \<in> set us. \<not> P y" "\<forall>y \<in> set vs. \<not> P y" using assms(4) unfolding b by (metis UnCI list.set_intros(2) set_append)+
  then show ?thesis using assms(3) b by simp
qed


section \<open>Examples\<close>

definition svcNamed :: "string \<Rightarrow> string \<Rightarrow> service_model" where
  "svcNamed ident pre = \<lparr>msID = ident, msEndpointPrefix = pre, msTargetPrefix = [], msAliases = [], msHosts = [], msOperations = []\<rparr>"

definition edgeGet :: "string \<Rightarrow> string \<Rightarrow> edge_request" where
  "edgeGet host path =
     \<lparr>erHost = host, erMethod = ''GET'', erPath = path, erEscaped = path, erQuery = [], erHeader = [], erForm = None, erBodyForm = []\<rparr>"

definition threeServices :: "service_model list" where
  "threeServices = [svcNamed ''aws.s3'' ''s3'', svcNamed ''aws.eks'' ''eks'', svcNamed ''aws.kms'' ''kms'']"


theorem demux_order_independent_witness:
  "demux (rev threeServices) (edgeGet ''kms.us-east-1.amazonaws.com'' ''/'') = demux threeServices (edgeGet ''kms.us-east-1.amazonaws.com'' ''/'') \<and>
   demux threeServices (edgeGet ''kms.us-east-1.amazonaws.com'' ''/'') = Some (svcNamed ''aws.kms'' ''kms'')"
proof
  show "demux (rev threeServices) (edgeGet ''kms.us-east-1.amazonaws.com'' ''/'') = demux threeServices (edgeGet ''kms.us-east-1.amazonaws.com'' ''/'')"
    by (rule demux_order_independent) (code_simp | simp)+
qed code_simp

text \<open>The last of the guesses by substring: a request that names no service, as a presigned link or an anonymous one does, is
  for EKS rather than S3 when the letters eks occur in its path.\<close>

theorem object_taken_by_eks:
  "demux threeServices (edgeGet ''localhost'' ''/reports/may.csv'') = Some (svcNamed ''aws.s3'' ''s3'') \<and>
   demux threeServices (edgeGet ''localhost'' ''/reports/weeks.csv'') = Some (svcNamed ''aws.eks'' ''eks'')"
  by code_simp

end
