(* ===== verification/Spec2Isabelle.thy ===== *)
theory Spec2Isabelle
  imports
    Prelude GoVal Store Execution NativeKV Lifecycle Clock Bus Journal PackRegistry Rand HttpUri Iam
    Page Statechart Identity Chunked TagExpr Calendar Schedule JobControl DdbExpr Bir EvalState EvalReads EvalSelect EvalEffects
    SqsCel Engine EngineFrame Spi Runes Json DdbPack DdbOps DdbInvoke DdbFrame DdbProps Kinesis Demux
begin

text \<open>
  A verification library for mirror.cloud, a local emulator of cloud APIs written in Go.

  \<^bold>\<open>The program.\<close>  One process listens for the requests of cloud SDKs.  The edge finds the caller's
  identity, unwraps the body and picks the service and operation from the published service models
  (an \<^verbatim>\<open>httpUri\<close> pattern for the REST protocols); the authorizer decides on the caller's policies; the
  operation is then served by a hand-written behaviour pack, by the engine that interprets a declarative
  behaviour bundle, by a mock, or by a proxy.  Packs and engine keep their records in the account store,
  page their listings, run record lifecycles against a controllable clock, draw identifiers from a
  seeded generator, and publish on an event bus; every request is journaled.  Compute services call an
  execution registry of validated backends, one of which is the native key-value store, and CI/CD
  services run on the lifecycle store, which admits runs, leases intents to workers and fences results.

  \<^bold>\<open>The theories and the code they model\<close> (paths under \<^verbatim>\<open>src/internal\<close>):

  \<^item> \<^verbatim>\<open>Prelude\<close>: Go strings and the functions of package \<^verbatim>\<open>strings\<close>, Go maps as association lists, results,
    and the locales \<open>step_invariant\<close> and \<open>stable_fact\<close> for step relations.
  \<^item> \<^verbatim>\<open>GoVal\<close>: the values of type \<^verbatim>\<open>any\<close>, \<^verbatim>\<open>float64\<close> with its rounding, \<^verbatim>\<open>int64\<close> with its wrap-around, decimal
    numerals.  \<^verbatim>\<open>Runes\<close>: UTF-8.  \<^verbatim>\<open>Json\<close>: what \<^verbatim>\<open>encoding/json\<close> writes and reads, and base64.
    \<^verbatim>\<open>Spi\<close> (\<^verbatim>\<open>spi/spi.go\<close>): requests, responses and faults.
  \<^item> \<^verbatim>\<open>Store\<close> (\<^verbatim>\<open>store/store.go\<close>, the interfaces of \<^verbatim>\<open>spi/spi.go\<close>): scopes, collections, listing, transactions,
    snapshots.  The interface a client sees is a locale, interpreted on the memory store.
  \<^item> \<^verbatim>\<open>Execution\<close> (\<^verbatim>\<open>execution/execution.go\<close>): descriptors, the registry, argument validation, dispatch.
  \<^item> \<^verbatim>\<open>NativeKV\<close> (\<^verbatim>\<open>execution/native_kv.go\<close>): the key-value, object and queue actions, over the store's locale.
  \<^item> \<^verbatim>\<open>Lifecycle\<close> (\<^verbatim>\<open>execution/cicd/lifecycle\<close>): admission, leases, cancellation, completion and
    acknowledgement, as operations and as a step relation over any interleaving of callers.
  \<^item> \<^verbatim>\<open>Clock\<close>, \<^verbatim>\<open>Bus\<close>, \<^verbatim>\<open>Journal\<close>, \<^verbatim>\<open>PackRegistry\<close>, \<^verbatim>\<open>Rand\<close> (\<^verbatim>\<open>clock\<close>, \<^verbatim>\<open>bus\<close>, \<^verbatim>\<open>journal\<close>, \<^verbatim>\<open>registry\<close>, \<^verbatim>\<open>rand\<close>, \<^verbatim>\<open>idgen\<close>):
    the services of the runtime.  SHA-256 is written out.
  \<^item> \<^verbatim>\<open>HttpUri\<close> (\<^verbatim>\<open>proto/aws/httpuri/httpuri.go\<close>): patterns, matching with greedy labels, ranking.
  \<^item> \<^verbatim>\<open>Iam\<close> (\<^verbatim>\<open>services/aws/iam/authorizer.go\<close>): principals, policies, conditions, wildcards, decisions.
  \<^item> \<^verbatim>\<open>Page\<close> (\<^verbatim>\<open>engine/page.go\<close>, \<^verbatim>\<open>cursor.go\<close>, \<^verbatim>\<open>tagmatch.go\<close>): listing pages, numeric cursors, hierarchical listings.
  \<^item> \<^verbatim>\<open>Statechart\<close> (\<^verbatim>\<open>engine/statechart.go\<close>): record lifecycles with lazy timers, events, moves and aliases.
  \<^item> \<^verbatim>\<open>Identity\<close> (\<^verbatim>\<open>identity/identity.go\<close>): who calls, and when a presigned URL has run out.
  \<^item> \<^verbatim>\<open>Chunked\<close> (\<^verbatim>\<open>edge/chunked.go\<close>): the \<^verbatim>\<open>aws-chunked\<close> framing.
  \<^item> \<^verbatim>\<open>TagExpr\<close> (\<^verbatim>\<open>bir/tagexpr.go\<close>): tag conditions, their parser and evaluators.
  \<^item> \<^verbatim>\<open>Calendar\<close>, \<^verbatim>\<open>Schedule\<close> (\<^verbatim>\<open>services/aws/scheduleexpr/expression.go\<close>): the calendar of package \<^verbatim>\<open>time\<close>, and
    rate, cron and one-time schedules with the search for the next invocation.
  \<^item> \<^verbatim>\<open>JobControl\<close> (\<^verbatim>\<open>execution/cicd/memory.go\<close>): submission, observation, cancellation and reconciliation of jobs by the
    in-memory backend, and the abstract port it refines.
  \<^item> \<^verbatim>\<open>DdbExpr\<close> (\<^verbatim>\<open>services/aws/dynamodb/expr/expr.go\<close>): condition, update and projection expressions over items.
  \<^item> \<^verbatim>\<open>DdbPack\<close>, \<^verbatim>\<open>DdbOps\<close>, \<^verbatim>\<open>DdbInvoke\<close> (\<^verbatim>\<open>services/aws/dynamodb\<close>): the whole DynamoDB pack over the store: tables and keys,
    items, conditions, scans and queries, batches, transactions with their tokens, global tables, change streams and their
    Kinesis destinations, expiry, backups, PartiQL statements, and the dispatch of a request.  \<^verbatim>\<open>DdbFrame\<close>: every
    operation as a run of single steps, for all of them at once.  \<^verbatim>\<open>DdbProps\<close>: atomicity, snapshots, tokens, reading back.
  \<^item> \<^verbatim>\<open>Kinesis\<close> (\<^verbatim>\<open>services/aws/kinesis/kinesis.go\<close>): putting records into streams, shard iterators, reading.
  \<^item> \<^verbatim>\<open>Demux\<close> (\<^verbatim>\<open>edge/resolve.go\<close>, \<^verbatim>\<open>demux\<close> of \<^verbatim>\<open>edge/edge.go\<close>): which service a request is for.
  \<^item> \<^verbatim>\<open>Bir\<close> (\<^verbatim>\<open>bir/bir.go\<close>, \<^verbatim>\<open>model/model.go\<close>): the types of a behaviour bundle and of the service models.
  \<^item> \<^verbatim>\<open>EvalState\<close> (\<^verbatim>\<open>engine/engine.go\<close>, \<^verbatim>\<open>eval.go\<close>): the state of one evaluation, its error monad, bindings,
    records and collections.  \<^verbatim>\<open>EvalReads\<close>: reads, derived values and preconditions.  \<^verbatim>\<open>EvalSelect\<close>
    (\<^verbatim>\<open>select.go\<close>): selection, grouping and waiting.  \<^verbatim>\<open>EvalEffects\<close> (\<^verbatim>\<open>effects.go\<close>): writes, deletes,
    deduplication, events, calls, listings and the projection of the answer.  \<^verbatim>\<open>SqsCel\<close> (\<^verbatim>\<open>sqs_cel.go\<close>,
    \<^verbatim>\<open>apex.go\<close>): the functions the bundles' expressions call.  \<^verbatim>\<open>Engine\<close> (\<^verbatim>\<open>engine.go\<close>, \<^verbatim>\<open>batch.go\<close>, \<^verbatim>\<open>after.go\<close>):
    input validation, hooks, batches and the whole of a request.  \<^verbatim>\<open>EngineFrame\<close>: what a request leaves
    alone, for every step of the engine at once.

  \<^bold>\<open>How state and effects are modelled.\<close>  A struct is a record and a handler is a function from the state and
  the arguments to the new state and the result; an operation that holds a mutex from its first access to
  its last is one such step, so an interleaving of goroutines is a sequence of steps.  An error is a
  value: \<open>Inl\<close> of the theory's error type, or \<open>None\<close> where the code gives only a flag.  A Go map is an
  association list whose order stands for the iteration order Go leaves open; where a result should not
  depend on that order, a theorem says that it does not.  Times are integers of nanoseconds, or the pair
  Go compares.  Integers keep their width where it matters: \<^verbatim>\<open>wrap64\<close> on the sums that can overflow,
  32-bit words in SHA-256, rounding to doubles in cursors and deadlines.

  \<^bold>\<open>Parameters.\<close>  Code outside the repository is an argument of the definitions that use it: the JSON and
  tar codecs of the store and the key-value backend, the CEL evaluator of the lifecycles, the lookups of
  the authorizer's request, the transitions of a time zone, and, in the record \<^verbatim>\<open>engine\<close>, the compiled CEL programs
  of a bundle, the JSON codec, \<^verbatim>\<open>net/url\<close>, the executor and the Unicode tables; in the record \<^verbatim>\<open>ddblib\<close>, how a double is written
  in JSON, the number formats of the expressions, whether there is a bus, and the tagging operation of the DynamoDB bundle.  What reaches a waiting request
  from outside, the clock's readings and the store at each wake-up, is a script in the state.  What a theorem needs of one is a hypothesis of that theorem, and its
  witness supplies a concrete function.

  \<^bold>\<open>Loops.\<close>  Most loops are total functions, and most recursions are structural or decrease a length.  The hop
  bound of \<^verbatim>\<open>settle\<close> is the code's own.  The tag condition parser carries fuel, three units per byte of input and
  three more, and is proved never to run out.  The search of a cron schedule, the loop that marks steps and the loop that
  delivers events are \<^verbatim>\<open>partial_function (option)\<close> functions, whose value \<open>None\<close> is the run that never returns;
  theorems say when they return.  A batch calls the engine again, to a depth that is an argument, and one
  level is proved enough.  The walk over pages is the client's loop, and the number
  of requests it needs is part of its theorem.

  \<^bold>\<open>What the lemmas show.\<close>  \<^verbatim>\<open>Store\<close>: a failing transaction changes nothing, a transaction stays in its
  scope, a listing is the sorted slice it should be, can be resumed, and does not depend on map order.
  \<^verbatim>\<open>NativeKV\<close>: what was put is read until it expires, a listing agrees with reads, the backend
  registers.  \<^verbatim>\<open>Lifecycle\<close>: an invariant of all reachable states, idempotent admission, terminal results
  written once, exclusive leases.  \<^verbatim>\<open>Clock\<close>: a deadline is delivered exactly once and not early.  \<^verbatim>\<open>Journal\<close>,
  \<^verbatim>\<open>PackRegistry\<close>, \<^verbatim>\<open>Rand\<close>: functional characterisations.  \<^verbatim>\<open>HttpUri\<close>: the matcher decides the language of a
  pattern and routing picks the best match whatever the model's order.  \<^verbatim>\<open>Iam\<close>: the wildcard loop decides its
  language, and Deny wins.  \<^verbatim>\<open>Page\<close>: cursors survive the double that carries them, and following them
  serves every item once.  \<^verbatim>\<open>Statechart\<close>: settling ends, is idempotent and stays in the chart's states.
  \<^verbatim>\<open>Identity\<close>, \<^verbatim>\<open>Chunked\<close>, \<^verbatim>\<open>TagExpr\<close>: when expiry is seen, and the round trips of the two parsers.  \<^verbatim>\<open>Schedule\<close>: the
  search returns the first matching minute, and parsing ends.  \<^verbatim>\<open>JobControl\<close>: the backend refines the abstract
  port.  \<^verbatim>\<open>DdbExpr\<close>: conditions mean what logic says.  \<^verbatim>\<open>Json\<close>: what is written reads back, and is
  valid UTF-8.  The DynamoDB pack: a refused request changes nothing; a transaction commits as a whole against one snapshot
  and its token makes it idempotent; an item that was put is read back; no request touches another account, and the store
  stays well-formed.  \<^verbatim>\<open>Kinesis\<close>: a stream read in parts is the stream read at once.  \<^verbatim>\<open>Demux\<close>: the service of a request
  does not depend on the order of the loaded models, and a service is reached at its endpoint and its FIPS endpoint.
  The engine: derived values are bound in dependency order
  whatever their names; preconditions take precedence over the shape check and fail in their order; the
  shape check accepts exactly what the model allows; a selection keeps its limits and the order within
  groups; a delete by predicate is exact; a duplicate within its window gets the recorded answer; events
  over a selection return; a batch answers each entry once; a request changes only the scope it
  addresses, and keeps the store well-formed.  Some theorems
  record where the code falls short of its comments: messages of one instant that overwrite each
  other, an acknowledged intent that is leased again, a cancel function that removes the wrong
  subscriber, a star in the text that defeats a wildcard, a cycle reported where there is none, deadlines
  rounded beyond 53 bits, a role that hides an expiry, a search that never
  returns on a day whose clocks go forward, a step that overflows, expressions of DynamoDB read in the wrong order,
  a delete through an alias that keeps the record, an element answered twice, an ordering that is none, a
  page without a token, a check that depends on map order, a request that names its own tenant, the items of a deleted table
  that come back, statements that panic, a transaction of statements that is none, failed records that are not counted, and an S3 object
  whose name sends its request to EKS.

  \<^bold>\<open>Not modelled.\<close>  The compilation of CEL expressions (a third-party language; the compiled programs are
  parameters), the loading and validation of bundle files, the wire codecs, the hand-written service packs other than
  DynamoDB's and Kinesis's, signature verification, the edge's HTTP handler, the proxy, the specification receivers,
  and the command line, configuration and testing tools.
\<close>

end
